(* ===== verification/Prelude.thy ===== *)
theory Prelude
  imports Complex_Main "HOL-Library.Product_Lexorder"
begin

text \<open>
  Shared vocabulary of the development: JSON values as Python sees them, the exceptions the
  modelled code raises, the SQL fragments the services are written in (SELECT as
  \<^const>\<open>filter\<close>, UPDATE .. WHERE as \<open>update_where\<close>, ORDER BY .. LIMIT as \<open>order_limit\<close>,
  \<open>scalar_one\<close> and \<open>scalar_one_or_none\<close>), and the lemmas about them that the component
  theories use. A table is a list of rows in primary-key order. Times are whole
  microseconds (Python's \<open>datetime\<close> resolution) as \<^typ>\<open>int\<close>.
\<close>

type_synonym time = int

abbreviation seconds :: "int \<Rightarrow> time" where
  "seconds n \<equiv> n * 1000000"

named_theorems sql_simps \<open>facts about the SQL fragments\<close>

section \<open>JSON values\<close>

datatype json =
    JNull
  | JBool bool
  | JInt int
  | JFloat rat
  | JStr string
  | JList "json list"
  | JDict "(string \<times> json) list"

type_synonym dict = "(string \<times> json) list"

text \<open>\<open>d.get(k)\<close>: a missing key reads as \<^const>\<open>JNull\<close> (Python's \<open>None\<close>).\<close>

definition dict_get :: "dict \<Rightarrow> string \<Rightarrow> json" where
  "dict_get d k = (case map_of d k of None \<Rightarrow> JNull | Some v \<Rightarrow> v)"

definition has_key :: "dict \<Rightarrow> string \<Rightarrow> bool" where
  "has_key d k = (map_of d k \<noteq> None)"

text \<open>\<open>d[k] = v\<close>: overwrite in place, or append a new key at the end.\<close>

fun dict_set :: "'k \<Rightarrow> 'v \<Rightarrow> ('k \<times> 'v) list \<Rightarrow> ('k \<times> 'v) list" where
  "dict_set k v [] = [(k, v)]"
| "dict_set k v ((k', v') # d) = (if k' = k then (k, v) # d else (k', v') # dict_set k v d)"

text \<open>Python's \<open>==\<close> on JSON values: numbers (and booleans) compare by value, dicts ignore order.\<close>

fun py_num :: "json \<Rightarrow> rat option" where
  "py_num (JBool b) = Some (if b then 1 else 0)"
| "py_num (JInt i) = Some (of_int i)"
| "py_num (JFloat r) = Some r"
| "py_num _ = None"

fun py_eq :: "json \<Rightarrow> json \<Rightarrow> bool"
  and py_eq_list :: "json list \<Rightarrow> json list \<Rightarrow> bool"
  and py_eq_dict :: "dict \<Rightarrow> dict \<Rightarrow> bool" where
  "py_eq JNull b = (b = JNull)"
| "py_eq (JBool x) b = (py_num b = py_num (JBool x))"
| "py_eq (JInt x) b = (py_num b = py_num (JInt x))"
| "py_eq (JFloat x) b = (py_num b = py_num (JFloat x))"
| "py_eq (JStr s) b = (b = JStr s)"
| "py_eq (JList xs) b = (case b of JList ys \<Rightarrow> py_eq_list xs ys | _ \<Rightarrow> False)"
| "py_eq (JDict xs) b =
     (case b of JDict ys \<Rightarrow> length xs = length ys \<and> py_eq_dict xs ys | _ \<Rightarrow> False)"
| "py_eq_list [] ys = (ys = [])"
| "py_eq_list (x # xs) ys = (case ys of [] \<Rightarrow> False | y # ys' \<Rightarrow> py_eq x y \<and> py_eq_list xs ys')"
| "py_eq_dict [] ys = True"
| "py_eq_dict ((k, v) # xs) ys =
     ((case map_of ys k of None \<Rightarrow> False | Some w \<Rightarrow> py_eq v w) \<and> py_eq_dict xs ys)"

text \<open>Python truthiness of a JSON value.\<close>

fun truthy :: "json \<Rightarrow> bool" where
  "truthy JNull = False"
| "truthy (JBool b) = b"
| "truthy (JInt i) = (i \<noteq> 0)"
| "truthy (JFloat r) = (r \<noteq> 0)"
| "truthy (JStr s) = (s \<noteq> [])"
| "truthy (JList xs) = (xs \<noteq> [])"
| "truthy (JDict d) = (d \<noteq> [])"

fun is_str :: "json \<Rightarrow> bool" where
  "is_str (JStr _) = True" | "is_str _ = False"

lemma map_of_dict_set [simp]: "map_of (dict_set k v d) = (map_of d)(k \<mapsto> v)"
  by (induction d) auto

lemma keys_dict_set [simp]: "set (map fst (dict_set k v d)) = insert k (set (map fst d))"
  by (induction k v d rule: dict_set.induct) (auto split: if_splits)

lemma distinct_dict_set: "distinct (map fst d) \<Longrightarrow> distinct (map fst (dict_set k v d))"
proof (induction k v d rule: dict_set.induct)
  case (2 k v k' v' d)
  then show ?case using keys_dict_set [of k v d] by (simp del: keys_dict_set) auto
qed simp

lemma dict_get_set [simp]:
  "dict_get (dict_set k v d) k' = (if k' = k then v else dict_get d k')"
  by (simp add: dict_get_def)

lemma has_key_set [simp]: "has_key (dict_set k v d) k' = (k' = k \<or> has_key d k')"
  by (simp add: has_key_def)

lemma py_eq_JStr [simp]: "py_eq a (JStr s) = (a = JStr s)"
  by (cases a) auto

section \<open>Decimal text\<close>

text \<open>\<open>str(n)\<close> of an integer.\<close>

definition digit_char :: "nat \<Rightarrow> char" where
  "digit_char d = ''0123456789'' ! d"

fun nat_str :: "nat \<Rightarrow> string" where
  "nat_str n = (if n < 10 then [digit_char n] else nat_str (n div 10) @ [digit_char (n mod 10)])"

declare nat_str.simps [simp del]

definition int_str :: "int \<Rightarrow> string" where
  "int_str i = (if i < 0 then CHR ''-'' # nat_str (nat (- i)) else nat_str (nat i))"

section \<open>Splitting and joining text\<close>

text \<open>\<open>sep.join(xs)\<close> and \<open>s.split(c)\<close>.\<close>

fun join :: "string \<Rightarrow> string list \<Rightarrow> string" where
  "join sep [] = []"
| "join sep [x] = x"
| "join sep (x # xs) = x @ sep @ join sep xs"

fun split_on :: "char \<Rightarrow> string \<Rightarrow> string list" where
  "split_on c [] = [[]]"
| "split_on c (x # xs) = (if x = c then [] # split_on c xs
     else (case split_on c xs of [] \<Rightarrow> [[x]] | p # ps \<Rightarrow> (x # p) # ps))"

lemma split_on_not_Nil [simp]: "split_on c s \<noteq> []"
  by (induction s) (auto split: list.splits)

lemma split_on_no_sep: "p \<in> set (split_on c s) \<Longrightarrow> c \<notin> set p"
  by (induction s arbitrary: p) (auto split: list.splits if_splits)

lemma split_on_chars: "p \<in> set (split_on c s) \<Longrightarrow> set p \<subseteq> set s"
  by (induction s arbitrary: p) (fastforce split: list.splits if_splits)+

lemma split_on_id: "c \<notin> set s \<Longrightarrow> split_on c s = [s]"
  by (induction s) auto

lemma split_on_append: "c \<notin> set p \<Longrightarrow> split_on c (p @ c # s) = p # split_on c s"
  by (induction p) auto

lemma split_on_join:
  "ps \<noteq> [] \<Longrightarrow> \<forall>p \<in> set ps. c \<notin> set p \<Longrightarrow> split_on c (join [c] ps) = ps"
  by (induction "[c]" ps rule: join.induct) (auto simp: split_on_id split_on_append)

lemma join_split_on: "join [c] (split_on c s) = s"
proof (induction s)
  case (Cons x xs)
  obtain p ps where "split_on c xs = p # ps" by (cases "split_on c xs") auto
  with Cons show ?case by (cases ps) auto
qed simp

lemma join_chars: "x \<in> set (join sep ps) \<Longrightarrow> x \<in> set sep \<or> (\<exists>p \<in> set ps. x \<in> set p)"
  by (induction sep ps rule: join.induct) auto

section \<open>Exceptions\<close>

datatype py_error =
    ValueError string
  | KeyError string
  | OverflowError
  | NoResultFound
  | MultipleResultsFound

section \<open>SQL fragments\<close>

definition update_where :: "('r \<Rightarrow> bool) \<Rightarrow> ('r \<Rightarrow> 'r) \<Rightarrow> 'r list \<Rightarrow> 'r list" where
  "update_where P f rows = map (\<lambda>r. if P r then f r else r) rows"

definition rowcount :: "('r \<Rightarrow> bool) \<Rightarrow> 'r list \<Rightarrow> nat" where
  "rowcount P rows = length (filter P rows)"

text \<open>ORDER BY key LIMIT n. Rows with equal keys keep the table order.\<close>

definition order_limit :: "('r \<Rightarrow> 'k :: linorder) \<Rightarrow> nat \<Rightarrow> 'r list \<Rightarrow> 'r list" where
  "order_limit k n rows = take n (sort_key k rows)"

fun scalar_one_or_none :: "'r list \<Rightarrow> py_error + 'r option" where
  "scalar_one_or_none [] = Inr None"
| "scalar_one_or_none [r] = Inr (Some r)"
| "scalar_one_or_none _ = Inl MultipleResultsFound"

fun scalar_one :: "'r list \<Rightarrow> py_error + 'r" where
  "scalar_one [] = Inl NoResultFound"
| "scalar_one [r] = Inr r"
| "scalar_one _ = Inl MultipleResultsFound"

lemma update_where_Nil [simp]: "update_where P f [] = []"
  by (simp add: update_where_def)

lemma update_where_Cons [simp]:
  "update_where P f (r # rs) = (if P r then f r else r) # update_where P f rs"
  by (simp add: update_where_def)

lemma length_update_where [simp]: "length (update_where P f rows) = length rows"
  by (simp add: update_where_def)

lemma set_update_where: "set (update_where P f rows) = (\<lambda>r. if P r then f r else r) ` set rows"
  by (simp add: update_where_def)

lemma update_where_none: "(\<And>r. r \<in> set rows \<Longrightarrow> \<not> P r) \<Longrightarrow> update_where P f rows = rows"
  by (induction rows) auto

lemma map_update_where: "(\<And>r. h (f r) = h r) \<Longrightarrow> map h (update_where P f rows) = map h rows"
  by (induction rows) auto

lemma update_where_mem_cases:
  assumes "r \<in> set (update_where P f rows)"
  obtains "r \<in> set rows" "\<not> P r" | s where "s \<in> set rows" "P s" "r = f s"
  using assms by (auto simp: set_update_where split: if_splits)

lemma find_update_where_key:
  assumes "\<And>r. h (f r) = h r"
  shows "find (\<lambda>r. h r = k) (update_where P f rows) =
    map_option (\<lambda>r. if P r then f r else r) (find (\<lambda>r. h r = k) rows)"
  by (induction rows) (auto simp: assms)

lemma set_order_limit: "set (order_limit k n rows) \<subseteq> set rows"
  by (metis order_limit_def set_sort set_take_subset)

lemma length_order_limit [simp]: "length (order_limit k n rows) = min n (length rows)"
  by (simp add: order_limit_def min.commute)

lemma distinct_order_limit: "distinct (map h rows) \<Longrightarrow> distinct (map h (order_limit k n rows))"
proof -
  assume "distinct (map h rows)"
  then have "distinct rows" and "inj_on h (set rows)"
    by (simp_all add: distinct_map)
  then have "distinct (sort_key k rows)" and "inj_on h (set (sort_key k rows))"
    by simp_all
  then have "distinct (map h (sort_key k rows))"
    by (simp only: distinct_map)
  then show ?thesis
    by (simp add: order_limit_def take_map [symmetric])
qed

text \<open>What a LIMIT leaves out sorts no earlier than what it returns.\<close>

lemma order_limit_best:
  assumes "r \<in> set (order_limit k n rows)" and "s \<in> set rows" and "s \<notin> set (order_limit k n rows)"
  shows "k r \<le> k s"
proof -
  let ?xs = "sort_key k rows"
  have "s \<in> set ?xs" using assms(2) by simp
  then have "s \<in> set (take n ?xs) \<union> set (drop n ?xs)"
    by (metis append_take_drop_id set_append)
  then have s: "s \<in> set (drop n ?xs)" using assms(3) by (simp add: order_limit_def)
  have "sorted (map k (take n ?xs) @ map k (drop n ?xs))"
    by (metis append_take_drop_id map_append sorted_sort_key)
  then have "\<forall>x \<in> set (take n ?xs). \<forall>y \<in> set (drop n ?xs). k x \<le> k y"
    by (simp add: sorted_append)
  with assms(1) s show ?thesis by (simp add: order_limit_def)
qed

lemma order_limit_single [simp]: "0 < n \<Longrightarrow> order_limit k n [r] = [r]"
  by (simp add: order_limit_def)

lemma order_limit_Nil [simp]: "order_limit k n [] = []"
  by (simp add: order_limit_def)

lemma order_limit_all: "length rows \<le> n \<Longrightarrow> set (order_limit k n rows) = set rows"
  by (simp add: order_limit_def)

lemma scalar_one_or_none_cases:
  "scalar_one_or_none xs = (case xs of [] \<Rightarrow> Inr None | [r] \<Rightarrow> Inr (Some r)
     | _ \<Rightarrow> Inl MultipleResultsFound)"
  by (cases xs rule: scalar_one_or_none.cases) auto

lemma filter_distinct_key:
  "distinct (map h rows) \<Longrightarrow> r \<in> set rows \<Longrightarrow> filter (\<lambda>x. h x = h r) rows = [r]"
proof (induction rows)
  case (Cons a rows)
  show ?case
  proof (cases "h a = h r")
    case True
    with Cons.prems have "a = r" by (auto simp: image_iff)
    moreover from Cons.prems True have "filter (\<lambda>x. h x = h r) rows = []"
      by (auto simp: filter_empty_conv image_iff)
    ultimately show ?thesis by simp
  next
    case False
    with Cons show ?thesis by auto
  qed
qed simp

lemma filter_no_key: "k \<notin> h ` set rows \<Longrightarrow> filter (\<lambda>x. h x = k) rows = []"
  by (auto simp: filter_empty_conv)

lemma find_append: "find P (xs @ ys) = (case find P xs of None \<Rightarrow> find P ys | Some r \<Rightarrow> Some r)"
  by (induction xs) auto

lemma find_distinct_key:
  "distinct (map h rows) \<Longrightarrow> r \<in> set rows \<Longrightarrow> find (\<lambda>x. h x = h r) rows = Some r"
  by (induction rows) (auto simp: image_iff)

lemma filter_single: "filter P xs = [r] \<Longrightarrow> r \<in> set xs \<and> P r"
  by (metis (mono_tags, lifting) filter_set list.set_intros(1) mem_Collect_eq set_filter)

lemma scalar_one_or_none_mem: "scalar_one_or_none (filter P xs) = Inr (Some r) \<Longrightarrow> r \<in> set xs \<and> P r"
  by (cases "filter P xs" rule: scalar_one_or_none.cases) (auto dest: filter_single)

lemma same_key: "distinct (map h rows) \<Longrightarrow> r \<in> set rows \<Longrightarrow> s \<in> set rows \<Longrightarrow> h r = h s \<Longrightarrow> r = s"
  by (auto simp: distinct_map dest: inj_onD)

lemma find_mem: "find P xs = Some r \<Longrightarrow> r \<in> set xs \<and> P r"
  by (auto simp: find_Some_iff)

text \<open>Membership in a SELECT with joins, written as a list comprehension.\<close>

lemma mem_select_from: "x \<in> set (concat (map f xs)) \<longleftrightarrow> (\<exists>y \<in> set xs. x \<in> set (f y))"
  by auto

lemma mem_select_where: "x \<in> set (if P then [a] else []) \<longleftrightarrow> P \<and> x = a"
  by auto

lemmas mem_select = mem_select_from mem_select_where

section \<open>Keyed tables\<close>

text \<open>
  The contract of a table row update: it never writes the primary key. Every UPDATE of the
  development is an instance; what follows (keys, look-ups and row counts survive an UPDATE)
  is proved once here.
\<close>

locale keyed_update =
  fixes key :: "'r \<Rightarrow> 'k"
    and upd :: "'r \<Rightarrow> 'r"
  assumes key_upd: "key (upd r) = key r"
begin

lemma keys_update: "map key (update_where P upd rows) = map key rows"
  by (rule map_update_where) (rule key_upd)

lemma distinct_update: "distinct (map key rows) \<Longrightarrow> distinct (map key (update_where P upd rows))"
  by (simp add: keys_update)

lemma keyset_update: "key ` set (update_where P upd rows) = key ` set rows"
  by (metis keys_update list.set_map)

lemma find_update: "find (\<lambda>r. key r = k) (update_where P upd rows) =
    map_option (\<lambda>r. if P r then upd r else r) (find (\<lambda>r. key r = k) rows)"
  by (rule find_update_where_key) (rule key_upd)

end

section \<open>Python text\<close>

text \<open>Text is Latin-1: \<open>str.isspace\<close>, \<open>str.strip\<close>, \<open>str.upper\<close> and \<open>str.casefold\<close> on it. Two
  capitals (of \<open>0xFF\<close> and of the micro sign) and one folded letter (the micro sign's) are not Latin-1;
  the model leaves those characters alone.\<close>

definition is_space :: "char \<Rightarrow> bool" where
  "is_space c = (let n = of_char c :: nat in
     9 \<le> n \<and> n \<le> 13 \<or> 28 \<le> n \<and> n \<le> 32 \<or> n = 133 \<or> n = 160)"

definition strip :: "string \<Rightarrow> string" where
  "strip s = rev (dropWhile is_space (rev (dropWhile is_space s)))"

definition upper_char :: "char \<Rightarrow> string" where
  "upper_char c = (let n = of_char c :: nat in
     if 97 \<le> n \<and> n \<le> 122 \<or> 224 \<le> n \<and> n \<le> 254 \<and> n \<noteq> 247 then [char_of (n - 32)]
     else if n = 223 then ''SS'' else [c])"

definition upper :: "string \<Rightarrow> string" where
  "upper s = concat (map upper_char s)"

definition fold_char :: "char \<Rightarrow> string" where
  "fold_char c = (let n = of_char c :: nat in
     if 65 \<le> n \<and> n \<le> 90 \<or> 192 \<le> n \<and> n \<le> 222 \<and> n \<noteq> 215 then [char_of (n + 32)]
     else if n = 223 then ''ss'' else [c])"

definition casefold :: "string \<Rightarrow> string" where
  "casefold s = concat (map fold_char s)"

text \<open>\<open>str.lower\<close>, which is also the database's \<open>lower()\<close>.\<close>

definition lower_char :: "char \<Rightarrow> char" where
  "lower_char c = (let n = of_char c :: nat in
     if 65 \<le> n \<and> n \<le> 90 \<or> 192 \<le> n \<and> n \<le> 222 \<and> n \<noteq> 215 then char_of (n + 32) else c)"

definition lower :: "string \<Rightarrow> string" where
  "lower = map lower_char"

text \<open>\<open>w in s\<close>, and \<open>s.split()\<close> without an argument.\<close>

fun starts_with :: "string \<Rightarrow> string \<Rightarrow> bool" where
  "starts_with [] s = True"
| "starts_with (c # cs) [] = False"
| "starts_with (c # cs) (d # ds) = (c = d \<and> starts_with cs ds)"

fun has_word :: "string \<Rightarrow> string \<Rightarrow> bool" where
  "has_word w [] = (w = [])"
| "has_word w (c # cs) = (starts_with w (c # cs) \<or> has_word w cs)"

fun split_words :: "string \<Rightarrow> string \<Rightarrow> string list" where
  "split_words acc [] = (if acc = [] then [] else [acc])"
| "split_words acc (c # cs) =
     (if is_space c then (if acc = [] then [] else [acc]) @ split_words [] cs
      else split_words (acc @ [c]) cs)"

text \<open>\<open>str()\<close> of a JSON value: text as it is, anything else as its \<open>repr\<close>. The decimal text of a
  float is an argument.\<close>

definition hex_digit :: "nat \<Rightarrow> char" where
  "hex_digit d = ''0123456789abcdef'' ! d"

definition repr_char :: "char \<Rightarrow> char \<Rightarrow> string" where
  "repr_char quote c = (let n = of_char c :: nat in
     if c = quote \<or> n = 92 then [char_of (92 :: nat), c]
     else if n = 10 then [char_of (92 :: nat), CHR ''n'']
     else if n = 13 then [char_of (92 :: nat), CHR ''r'']
     else if n = 9 then [char_of (92 :: nat), CHR ''t'']
     else if n < 32 \<or> 127 \<le> n \<and> n \<le> 160 \<or> n = 173
     then [char_of (92 :: nat), CHR ''x'', hex_digit (n div 16), hex_digit (n mod 16)]
     else [c])"

definition repr_str :: "string \<Rightarrow> string" where
  "repr_str s =
     (let quote = (if char_of (39 :: nat) \<in> set s \<and> char_of (34 :: nat) \<notin> set s
                   then char_of (34 :: nat) else char_of (39 :: nat))
      in quote # concat (map (repr_char quote) s) @ [quote])"

fun py_repr :: "(rat \<Rightarrow> string) \<Rightarrow> json \<Rightarrow> string"
  and repr_items :: "(rat \<Rightarrow> string) \<Rightarrow> json list \<Rightarrow> string list"
  and repr_pairs :: "(rat \<Rightarrow> string) \<Rightarrow> dict \<Rightarrow> string list" where
  "py_repr fl JNull = ''None''"
| "py_repr fl (JBool b) = (if b then ''True'' else ''False'')"
| "py_repr fl (JInt i) = int_str i"
| "py_repr fl (JFloat r) = fl r"
| "py_repr fl (JStr s) = repr_str s"
| "py_repr fl (JList xs) = ''['' @ join '', '' (repr_items fl xs) @ '']''"
| "py_repr fl (JDict d) = ''{'' @ join '', '' (repr_pairs fl d) @ ''}''"
| "repr_items fl [] = []"
| "repr_items fl (x # xs) = py_repr fl x # repr_items fl xs"
| "repr_pairs fl [] = []"
| "repr_pairs fl ((k, v) # d) = (repr_str k @ '': '' @ py_repr fl v) # repr_pairs fl d"

definition py_str :: "(rat \<Rightarrow> string) \<Rightarrow> json \<Rightarrow> string" where
  "py_str fl v = (case v of JStr s \<Rightarrow> s | _ \<Rightarrow> py_repr fl v)"

text \<open>\<open>v or w\<close>.\<close>

definition or_else :: "json \<Rightarrow> json \<Rightarrow> json" where
  "or_else v w = (if truthy v then v else w)"

definition and_then :: "'e + 'a \<Rightarrow> ('a \<Rightarrow> 'e + 'b) \<Rightarrow> 'e + 'b" where
  "and_then r f = (case r of Inl e \<Rightarrow> Inl e | Inr x \<Rightarrow> f x)"

lemma and_then_simps [simp]: "and_then (Inl e) f = Inl e" "and_then (Inr x) f = f x"
  by (simp_all add: and_then_def)

lemma and_then_Inr: "and_then r f = Inr y \<longleftrightarrow> (\<exists>x. r = Inr x \<and> f x = Inr y)"
  by (cases r) auto

lemma and_then_cong [fundef_cong]:
  "r = r' \<Longrightarrow> (\<And>x. r' = Inr x \<Longrightarrow> f x = f' x) \<Longrightarrow> and_then r f = and_then r' f'"
  by (cases r') auto

end
