(* ===== verification/CorporateAuth.thy ===== *)
theory CorporateAuth
  imports Prelude "HOL-Library.List_Lexorder" "HOL-Library.Char_ord"
begin

text \<open>
  The tenant-scoped permission evaluator
  (\<open>apps/platform/src/ai_stp_platform/corporate_authorization.py\<close>): the tables it reads
  with the columns it reads, the gate, the scope clause shared by bindings and direct grants,
  the single-scope evaluator, its explanation, the bulk evaluator and the yes/no question.
  A SELECT with joins is a list comprehension over the tables; a SQL comparison with NULL is
  false, so a nullable column is an option compared with \<^const>\<open>Some\<close>.
\<close>

section \<open>Tables\<close>

datatype PrincipalType = User | ServicePrincipal

fun principal_wire :: "PrincipalType \<Rightarrow> string" where
  "principal_wire User = ''user''"
| "principal_wire ServicePrincipal = ''service_principal''"

record organization =
  org_id :: string
  org_kind :: string
  org_state :: string
  org_policy_revision :: int

record organization_membership =
  om_organization_id :: string
  om_account_id :: string
  om_state :: string

record corporate_service_principal =
  sp_id :: string
  sp_organization_id :: string
  sp_state :: string

record corporate_role_permission =
  rp_organization_id :: string
  rp_role :: string
  rp_permission :: string

record corporate_role_binding =
  rb_id :: string
  rb_organization_id :: string
  rb_principal_type :: string
  rb_account_id :: "string option"
  rb_service_principal_id :: "string option"
  rb_role :: string
  rb_scope_kind :: string
  rb_scope_id :: string
  rb_state :: string
  rb_origin :: string
  rb_coverage :: string

record corporate_permission_grant =
  pg_id :: string
  pg_organization_id :: string
  pg_principal_type :: string
  pg_account_id :: "string option"
  pg_service_principal_id :: "string option"
  pg_permission :: string
  pg_scope_kind :: string
  pg_scope_id :: string
  pg_state :: string

record corporate_team =
  tm_id :: string
  tm_organization_id :: string
  tm_state :: string

record corporate_team_member =
  tmm_organization_id :: string
  tmm_team_id :: string
  tmm_account_id :: string

record corporate_project =
  cp_id :: string
  cp_organization_id :: string
  cp_state :: string

record corporate_project_member =
  cpm_organization_id :: string
  cpm_project_id :: string
  cpm_account_id :: string

record project_identity =
  pi_id :: string
  pi_organization_id :: string
  pi_namespace :: string
  pi_state :: string

record project_team_relation =
  ptr_organization_id :: string
  ptr_project_id :: string
  ptr_team_id :: string
  ptr_state :: string

record project_technology_relation =
  ptx_organization_id :: string
  ptx_id :: string
  ptx_project_id :: string
  ptx_technology_id :: string
  ptx_state :: string

record technology_usage_fact =
  tuf_organization_id :: string
  tuf_relation_id :: string
  tuf_review :: string
  tuf_freshness :: string

record technology =
  tech_organization_id :: string
  tech_id :: string
  tech_lifecycle :: string
  tech_redirect_id :: "string option"

record technology_classification =
  tc_organization_id :: string
  tc_technology_id :: string
  tc_category_id :: string

record technology_team_responsibility =
  ttr_organization_id :: string
  ttr_technology_id :: string
  ttr_team_id :: string
  ttr_state :: string

record corporate_db =
  organizations :: "organization list"
  memberships :: "organization_membership list"
  service_principals :: "corporate_service_principal list"
  role_permission_rows :: "corporate_role_permission list"
  role_bindings :: "corporate_role_binding list"
  permission_grants :: "corporate_permission_grant list"
  teams :: "corporate_team list"
  team_members :: "corporate_team_member list"
  projects :: "corporate_project list"
  project_members :: "corporate_project_member list"
  identities :: "project_identity list"
  project_teams :: "project_team_relation list"
  project_technologies :: "project_technology_relation list"
  usage_facts :: "technology_usage_fact list"
  technologies :: "technology list"
  classifications :: "technology_classification list"
  responsibilities :: "technology_team_responsibility list"

text \<open>\<open>session.get(Organization, id)\<close>: the row of a primary key.\<close>

definition get_organization :: "corporate_db \<Rightarrow> string \<Rightarrow> organization option" where
  "get_organization db oid = find (\<lambda>r. org_id r = oid) (organizations db)"

section \<open>Roles\<close>

definition grants_for_roles :: "corporate_db \<Rightarrow> string \<Rightarrow> string set \<Rightarrow> string set" where
  "grants_for_roles db oid roles =
     (if roles = {} then {}
      else set [rp_permission r. r \<leftarrow> role_permission_rows db,
                  rp_organization_id r = oid \<and> rp_role r \<in> roles])"

definition role_permissions :: "corporate_db \<Rightarrow> string \<Rightarrow> string set \<Rightarrow> string \<Rightarrow> string set option" where
  "role_permissions db oid wanted =
     (let rows = [(rp_role r, rp_permission r). r \<leftarrow> role_permission_rows db,
                    rp_organization_id r = oid \<and> rp_role r \<in> wanted]
      in (\<lambda>role. if role \<in> wanted then Some (snd ` set (filter (\<lambda>(r, _). r = role) rows)) else None))"

section \<open>The gate\<close>

definition corporate_principal_active ::
  "corporate_db \<Rightarrow> string \<Rightarrow> PrincipalType \<Rightarrow> string \<Rightarrow> int option \<Rightarrow> bool" where
  "corporate_principal_active db oid pt pid authorization_revision =
     (case get_organization db oid of
        None \<Rightarrow> False
      | Some organization \<Rightarrow>
          if org_kind organization \<noteq> ''corporate'' \<or> org_state organization \<noteq> ''active'' then False
          else if authorization_revision \<noteq> None
               \<and> authorization_revision \<noteq> Some (org_policy_revision organization) then False
          else
            (case pt of
               User \<Rightarrow> \<exists>m \<in> set (memberships db).
                 om_organization_id m = oid \<and> om_account_id m = pid \<and> om_state m = ''active''
             | ServicePrincipal \<Rightarrow> \<exists>p \<in> set (service_principals db).
                 sp_organization_id p = oid \<and> sp_id p = pid \<and> sp_state p = ''active''))"

section \<open>Related scopes\<close>

definition active_team_ids :: "corporate_db \<Rightarrow> string \<Rightarrow> string list" where
  "active_team_ids db oid =
     [tm_id t. t \<leftarrow> teams db, tm_organization_id t = oid \<and> tm_state t = ''active'']"

text \<open>The joined rows, so that callers can restrict them further before projecting \<open>team_id\<close>.\<close>

definition active_project_teams :: "corporate_db \<Rightarrow> string \<Rightarrow> project_team_relation list" where
  "active_project_teams db oid =
     [r. r \<leftarrow> project_teams db, t \<leftarrow> teams db,
         tm_organization_id t = ptr_organization_id r \<and> tm_id t = ptr_team_id r
         \<and> ptr_organization_id r = oid \<and> ptr_state r = ''current'' \<and> tm_state t = ''active'']"

definition technology_current_projects :: "corporate_db \<Rightarrow> string \<Rightarrow> string \<Rightarrow> string list" where
  "technology_current_projects db oid technology_id =
     [ptx_project_id r.
        r \<leftarrow> project_technologies db, f \<leftarrow> usage_facts db, p \<leftarrow> projects db,
        i \<leftarrow> identities db, t \<leftarrow> technologies db,
        tuf_organization_id f = ptx_organization_id r \<and> tuf_relation_id f = ptx_id r
        \<and> cp_organization_id p = ptx_organization_id r \<and> cp_id p = ptx_project_id r
        \<and> pi_organization_id i = cp_organization_id p \<and> pi_id i = cp_id p
        \<and> tech_organization_id t = ptx_organization_id r \<and> tech_id t = ptx_technology_id r
        \<and> ptx_organization_id r = oid \<and> ptx_technology_id r = technology_id
        \<and> ptx_state r = ''current'' \<and> tuf_review f \<in> {''confirmed'', ''overridden''}
        \<and> tuf_freshness f \<noteq> ''absent'' \<and> cp_state p = ''active'' \<and> pi_state i = ''active''
        \<and> pi_namespace i = ''remote'' \<and> tech_lifecycle t \<in> {''active'', ''deprecated''}
        \<and> tech_redirect_id t = None]"

definition technology_responsible_teams :: "corporate_db \<Rightarrow> string \<Rightarrow> string \<Rightarrow> string list" where
  "technology_responsible_teams db oid technology_id =
     [ttr_team_id r. r \<leftarrow> responsibilities db, t \<leftarrow> technologies db,
        tech_organization_id t = ttr_organization_id r \<and> tech_id t = ttr_technology_id r
        \<and> ttr_organization_id r = oid \<and> ttr_technology_id r = technology_id
        \<and> ttr_state r = ''current'' \<and> tech_lifecycle t \<in> {''active'', ''deprecated''}
        \<and> tech_redirect_id t = None]"

section \<open>The scope clause\<close>

text \<open>The sub-queries of the \<open>project\<close>, \<open>technology\<close> and \<open>member\<close> arms.\<close>

definition scope_current_teams :: "corporate_db \<Rightarrow> string \<Rightarrow> string \<Rightarrow> string list" where
  "scope_current_teams db oid scope =
     [ptr_team_id r. r \<leftarrow> active_project_teams db oid, p \<leftarrow> projects db, i \<leftarrow> identities db,
        cp_organization_id p = ptr_organization_id r \<and> cp_id p = ptr_project_id r
        \<and> pi_organization_id i = cp_organization_id p \<and> pi_id i = cp_id p
        \<and> ptr_project_id r = scope \<and> cp_state p = ''active'' \<and> pi_state i = ''active''
        \<and> pi_namespace i = ''remote'']"

definition scope_technology_teams :: "corporate_db \<Rightarrow> string \<Rightarrow> string \<Rightarrow> string list" where
  "scope_technology_teams db oid scope =
     technology_responsible_teams db oid scope
       @ [ptr_team_id r. r \<leftarrow> active_project_teams db oid,
            ptr_project_id r \<in> set (technology_current_projects db oid scope)]"

definition scope_technology_categories :: "corporate_db \<Rightarrow> string \<Rightarrow> string \<Rightarrow> string list" where
  "scope_technology_categories db oid scope =
     [tc_category_id c. c \<leftarrow> classifications db,
        tc_organization_id c = oid \<and> tc_technology_id c = scope]"

definition scope_member_teams :: "corporate_db \<Rightarrow> string \<Rightarrow> string \<Rightarrow> string list" where
  "scope_member_teams db oid scope =
     [tmm_team_id m. m \<leftarrow> team_members db, t \<leftarrow> teams db,
        tm_organization_id t = tmm_organization_id m \<and> tm_id t = tmm_team_id m
        \<and> tmm_organization_id m = oid \<and> tmm_account_id m = scope \<and> tm_state t = ''active'']"

definition scope_member_projects :: "corporate_db \<Rightarrow> string \<Rightarrow> string \<Rightarrow> string list" where
  "scope_member_projects db oid scope =
     [cpm_project_id m. m \<leftarrow> project_members db, p \<leftarrow> projects db,
        cp_organization_id p = cpm_organization_id m \<and> cp_id p = cpm_project_id m
        \<and> cpm_organization_id m = oid \<and> cpm_account_id m = scope \<and> cp_state p = ''active'']"

text \<open>\<open>kind\<close> and \<open>sid\<close> are the row's scope columns; \<open>org_descendants\<close> the clause the caller passes.\<close>

definition scope_clause ::
  "corporate_db \<Rightarrow> string \<Rightarrow> string \<Rightarrow> string \<Rightarrow> string \<Rightarrow> string \<Rightarrow> bool \<Rightarrow> bool" where
  "scope_clause db oid kind sid scope_kind scope org_descendants =
     (let org_arm = (if scope_kind = ''organization'' then kind = ''organization''
                     else kind = ''organization'' \<and> org_descendants);
          clause = (org_arm \<or> kind = scope_kind \<and> (sid = ''*'' \<or> sid = scope))
      in if scope_kind = ''project''
         then clause \<or> kind = ''team'' \<and> sid \<in> set (scope_current_teams db oid scope)
         else if scope_kind = ''technology''
         then clause
           \<or> kind = ''project'' \<and> sid \<in> set (technology_current_projects db oid scope)
           \<or> kind = ''team'' \<and> sid \<in> set (scope_technology_teams db oid scope)
           \<or> kind = ''category'' \<and> sid \<in> set (scope_technology_categories db oid scope)
         else if scope_kind = ''member''
         then clause
           \<or> kind = ''team'' \<and> sid \<in> set (scope_member_teams db oid scope)
           \<or> kind = ''project'' \<and> sid \<in> set (scope_member_projects db oid scope)
         else clause)"

section \<open>Rows of a principal\<close>

definition principal_bindings :: "corporate_db \<Rightarrow> string \<Rightarrow> PrincipalType \<Rightarrow> string
    \<Rightarrow> (corporate_role_binding \<Rightarrow> bool) \<Rightarrow> corporate_role_binding list" where
  "principal_bindings db oid pt pid extra_clause =
     filter (\<lambda>b. rb_organization_id b = oid \<and> rb_principal_type b = principal_wire pt
       \<and> (if pt = User then rb_account_id b else rb_service_principal_id b) = Some pid
       \<and> rb_state b = ''active''
       \<and> (rb_scope_kind b \<noteq> ''team'' \<or> rb_scope_id b \<in> set (active_team_ids db oid))
       \<and> extra_clause b) (role_bindings db)"

definition principal_grants :: "corporate_db \<Rightarrow> string \<Rightarrow> PrincipalType \<Rightarrow> string
    \<Rightarrow> (corporate_permission_grant \<Rightarrow> bool) \<Rightarrow> corporate_permission_grant list" where
  "principal_grants db oid pt pid extra_clause =
     filter (\<lambda>g. pg_organization_id g = oid \<and> pg_principal_type g = principal_wire pt
       \<and> (if pt = User then pg_account_id g else pg_service_principal_id g) = Some pid
       \<and> pg_state g = ''active''
       \<and> (pg_scope_kind g \<noteq> ''team'' \<or> pg_scope_id g \<in> set (active_team_ids db oid))
       \<and> extra_clause g) (permission_grants db)"

definition scoped_bindings ::
  "corporate_db \<Rightarrow> string \<Rightarrow> PrincipalType \<Rightarrow> string \<Rightarrow> string \<Rightarrow> string \<Rightarrow> corporate_role_binding list" where
  "scoped_bindings db oid pt pid scope_kind scope =
     principal_bindings db oid pt pid
       (\<lambda>b. scope_clause db oid (rb_scope_kind b) (rb_scope_id b) scope_kind scope
              (rb_coverage b = ''descendants''))"

definition scoped_grants ::
  "corporate_db \<Rightarrow> string \<Rightarrow> PrincipalType \<Rightarrow> string \<Rightarrow> string \<Rightarrow> string \<Rightarrow> corporate_permission_grant list" where
  "scoped_grants db oid pt pid scope_kind scope =
     principal_grants db oid pt pid
       (\<lambda>g. scope_clause db oid (pg_scope_kind g) (pg_scope_id g) scope_kind scope False)"

text \<open>\<open>scope_id or organization_id\<close>\<close>

definition effective_scope :: "string \<Rightarrow> string option \<Rightarrow> string" where
  "effective_scope oid scope_id = (case scope_id of None \<Rightarrow> oid | Some s \<Rightarrow> if s = [] then oid else s)"

section \<open>Evaluators\<close>

definition corporate_effective_permissions :: "corporate_db \<Rightarrow> string \<Rightarrow> PrincipalType \<Rightarrow> string
    \<Rightarrow> string \<Rightarrow> string option \<Rightarrow> int option \<Rightarrow> string set option" where
  "corporate_effective_permissions db oid pt pid scope_kind scope_id authorization_revision =
     (if \<not> corporate_principal_active db oid pt pid authorization_revision then None
      else
        let scope = effective_scope oid scope_id;
            bindings = scoped_bindings db oid pt pid scope_kind scope;
            grants = scoped_grants db oid pt pid scope_kind scope;
            roles = rb_role ` set bindings
        in Some (grants_for_roles db oid roles \<union> pg_permission ` set grants))"

datatype source_kind = SourceBinding | SourceGrant

record PermissionSourceRecord =
  ps_kind :: source_kind
  ps_source_id :: string
  ps_role :: "string option"
  ps_origin :: "string option"
  ps_scope_kind :: string
  ps_scope_id :: string
  ps_permissions :: "string set"

definition binding_source :: "(string \<Rightarrow> string set option) \<Rightarrow> corporate_role_binding \<Rightarrow> PermissionSourceRecord" where
  "binding_source grants_by_role b =
     \<lparr>ps_kind = SourceBinding, ps_source_id = rb_id b, ps_role = Some (rb_role b),
      ps_origin = Some (rb_origin b), ps_scope_kind = rb_scope_kind b, ps_scope_id = rb_scope_id b,
      ps_permissions = (case grants_by_role (rb_role b) of None \<Rightarrow> {} | Some ps \<Rightarrow> ps)\<rparr>"

definition grant_source :: "corporate_permission_grant \<Rightarrow> PermissionSourceRecord" where
  "grant_source g =
     \<lparr>ps_kind = SourceGrant, ps_source_id = pg_id g, ps_role = None, ps_origin = None,
      ps_scope_kind = pg_scope_kind g, ps_scope_id = pg_scope_id g, ps_permissions = {pg_permission g}\<rparr>"

text \<open>The two loops, each adding one record and its contribution.\<close>

definition explain_step ::
  "PermissionSourceRecord \<Rightarrow> string set \<times> PermissionSourceRecord list \<Rightarrow> string set \<times> PermissionSourceRecord list" where
  "explain_step r acc = (fst acc \<union> ps_permissions r, snd acc @ [r])"

definition explain_effective_permissions :: "corporate_db \<Rightarrow> string \<Rightarrow> PrincipalType \<Rightarrow> string
    \<Rightarrow> string \<Rightarrow> string option \<Rightarrow> (string set \<times> PermissionSourceRecord list) option" where
  "explain_effective_permissions db oid pt pid scope_kind scope_id =
     (if \<not> corporate_principal_active db oid pt pid None then None
      else
        let scope = effective_scope oid scope_id;
            bindings = scoped_bindings db oid pt pid scope_kind scope;
            grants = scoped_grants db oid pt pid scope_kind scope;
            grants_by_role = role_permissions db oid (rb_role ` set bindings);
            acc = fold (\<lambda>b. explain_step (binding_source grants_by_role b)) bindings ({}, [])
        in Some (fold (\<lambda>g. explain_step (grant_source g)) grants acc))"

definition has_corporate_permission :: "corporate_db \<Rightarrow> string \<Rightarrow> PrincipalType \<Rightarrow> string
    \<Rightarrow> string \<Rightarrow> string \<Rightarrow> string option \<Rightarrow> int option \<Rightarrow> bool" where
  "has_corporate_permission db oid pt pid permission scope_kind scope_id authorization_revision =
     (case corporate_effective_permissions db oid pt pid scope_kind scope_id authorization_revision of
        None \<Rightarrow> False
      | Some effective \<Rightarrow> permission \<in> effective)"

section \<open>The bulk evaluator\<close>

text \<open>Dictionaries of sets: \<open>d.setdefault(k, set()).add(v)\<close> over the rows, and reading with default.\<close>

definition grouped :: "('k \<times> 'v set) list \<Rightarrow> 'k \<Rightarrow> 'v set" where
  "grouped d k = (case map_of d k of None \<Rightarrow> {} | Some s \<Rightarrow> s)"

definition group_add :: "'k \<times> 'v \<Rightarrow> ('k \<times> 'v set) list \<Rightarrow> ('k \<times> 'v set) list" where
  "group_add kv d = dict_set (fst kv) (insert (snd kv) (grouped d (fst kv))) d"

definition group_rows :: "('k \<times> 'v) list \<Rightarrow> ('k \<times> 'v set) list \<Rightarrow> ('k \<times> 'v set) list" where
  "group_rows rows d = fold group_add rows d"

definition empty_map :: "'k list \<Rightarrow> ('k \<times> 'v set) list" where
  "empty_map ids = map (\<lambda>k. (k, {})) ids"

record relation_maps =
  projects_map :: "(string \<times> string set) list"
  responsible_map :: "(string \<times> string set) list"
  categories_map :: "(string \<times> string set) list"
  project_teams_map :: "(string \<times> string set) list"
  member_teams_map :: "(string \<times> string set) list"
  member_projects_map :: "(string \<times> string set) list"

definition bulk_category_rows :: "corporate_db \<Rightarrow> string \<Rightarrow> string list \<Rightarrow> (string \<times> string) list" where
  "bulk_category_rows db oid ids =
     [(tc_technology_id c, tc_category_id c). c \<leftarrow> classifications db,
        tc_organization_id c = oid \<and> tc_technology_id c \<in> set ids]"

definition bulk_project_rows :: "corporate_db \<Rightarrow> string \<Rightarrow> string list \<Rightarrow> (string \<times> string) list" where
  "bulk_project_rows db oid ids =
     [(ptx_technology_id r, ptx_project_id r).
        r \<leftarrow> project_technologies db, f \<leftarrow> usage_facts db, p \<leftarrow> projects db,
        i \<leftarrow> identities db, t \<leftarrow> technologies db,
        tuf_organization_id f = ptx_organization_id r \<and> tuf_relation_id f = ptx_id r
        \<and> cp_organization_id p = ptx_organization_id r \<and> cp_id p = ptx_project_id r
        \<and> pi_organization_id i = cp_organization_id p \<and> pi_id i = cp_id p
        \<and> tech_organization_id t = ptx_organization_id r \<and> tech_id t = ptx_technology_id r
        \<and> ptx_organization_id r = oid \<and> ptx_technology_id r \<in> set ids
        \<and> ptx_state r = ''current'' \<and> tuf_review f \<in> {''confirmed'', ''overridden''}
        \<and> tuf_freshness f \<noteq> ''absent'' \<and> cp_state p = ''active'' \<and> pi_state i = ''active''
        \<and> pi_namespace i = ''remote'' \<and> tech_lifecycle t \<in> {''active'', ''deprecated''}
        \<and> tech_redirect_id t = None]"

definition bulk_responsible_rows :: "corporate_db \<Rightarrow> string \<Rightarrow> string list \<Rightarrow> (string \<times> string) list" where
  "bulk_responsible_rows db oid ids =
     [(ttr_technology_id r, ttr_team_id r). r \<leftarrow> responsibilities db, t \<leftarrow> technologies db,
        tech_organization_id t = ttr_organization_id r \<and> tech_id t = ttr_technology_id r
        \<and> ttr_organization_id r = oid \<and> ttr_technology_id r \<in> set ids
        \<and> ttr_state r = ''current'' \<and> tech_lifecycle t \<in> {''active'', ''deprecated''}
        \<and> tech_redirect_id t = None]"

definition bulk_eligible_projects :: "corporate_db \<Rightarrow> string \<Rightarrow> string list \<Rightarrow> string set" where
  "bulk_eligible_projects db oid ids =
     set [cp_id p. p \<leftarrow> projects db, i \<leftarrow> identities db,
        pi_organization_id i = cp_organization_id p \<and> pi_id i = cp_id p
        \<and> cp_organization_id p = oid \<and> cp_id p \<in> set ids \<and> cp_state p = ''active''
        \<and> pi_state i = ''active'' \<and> pi_namespace i = ''remote'']"

definition bulk_project_team_rows :: "corporate_db \<Rightarrow> string \<Rightarrow> string set \<Rightarrow> (string \<times> string) list" where
  "bulk_project_team_rows db oid wanted =
     [(ptr_project_id r, ptr_team_id r). r \<leftarrow> project_teams db, t \<leftarrow> teams db,
        tm_organization_id t = ptr_organization_id r \<and> tm_id t = ptr_team_id r
        \<and> ptr_organization_id r = oid \<and> ptr_project_id r \<in> wanted
        \<and> ptr_state r = ''current'' \<and> tm_state t = ''active'']"

definition bulk_member_team_rows :: "corporate_db \<Rightarrow> string \<Rightarrow> string list \<Rightarrow> (string \<times> string) list" where
  "bulk_member_team_rows db oid ids =
     [(tmm_account_id m, tmm_team_id m). m \<leftarrow> team_members db, t \<leftarrow> teams db,
        tm_organization_id t = tmm_organization_id m \<and> tm_id t = tmm_team_id m
        \<and> tmm_organization_id m = oid \<and> tmm_account_id m \<in> set ids \<and> tm_state t = ''active'']"

definition bulk_member_project_rows :: "corporate_db \<Rightarrow> string \<Rightarrow> string list \<Rightarrow> (string \<times> string) list" where
  "bulk_member_project_rows db oid ids =
     [(cpm_account_id m, cpm_project_id m). m \<leftarrow> project_members db, p \<leftarrow> projects db,
        cp_organization_id p = cpm_organization_id m \<and> cp_id p = cpm_project_id m
        \<and> cpm_organization_id m = oid \<and> cpm_account_id m \<in> set ids \<and> cp_state p = ''active'']"

definition bulk_relation_maps :: "corporate_db \<Rightarrow> string \<Rightarrow> string \<Rightarrow> string list \<Rightarrow> relation_maps" where
  "bulk_relation_maps db oid scope_kind ids =
     (let tech = (ids \<noteq> [] \<and> scope_kind = ''technology'');
          member = (ids \<noteq> [] \<and> scope_kind = ''member'');
          categories = (if tech then group_rows (bulk_category_rows db oid ids) (empty_map ids) else empty_map ids);
          projs = (if tech then group_rows (bulk_project_rows db oid ids) (empty_map ids) else empty_map ids);
          responsible = (if tech then group_rows (bulk_responsible_rows db oid ids) (empty_map ids)
                         else empty_map ids);
          eligible = (if ids \<noteq> [] \<and> scope_kind = ''project'' then bulk_eligible_projects db oid ids else {});
          project_teams1 = (if eligible \<noteq> {} then group_rows (bulk_project_team_rows db oid eligible) [] else []);
          member_teams = (if member then group_rows (bulk_member_team_rows db oid ids) (empty_map ids)
                          else empty_map ids);
          member_projs = (if member then group_rows (bulk_member_project_rows db oid ids) (empty_map ids)
                          else empty_map ids);
          all_projects = \<Union> (snd ` set projs);
          project_teams2 = (if scope_kind = ''technology'' \<and> all_projects \<noteq> {}
                            then group_rows (bulk_project_team_rows db oid all_projects) project_teams1
                            else project_teams1)
      in \<lparr>projects_map = projs, responsible_map = responsible, categories_map = categories,
          project_teams_map = project_teams2, member_teams_map = member_teams,
          member_projects_map = member_projs\<rparr>)"

definition bulk_matches :: "relation_maps \<Rightarrow> string \<Rightarrow> string \<Rightarrow> string \<Rightarrow> string \<Rightarrow> bool \<Rightarrow> bool" where
  "bulk_matches m scope_kind scope_kind_col scope_id_col scope_id descendants =
     (let direct = (scope_kind_col = ''organization'' \<and> (descendants \<or> scope_kind = ''organization'')
            \<or> scope_kind_col = scope_kind \<and> (scope_id_col = ''*'' \<or> scope_id_col = scope_id));
          via_project = (scope_kind = ''technology'' \<and> scope_kind_col = ''project''
            \<and> scope_id_col \<in> grouped (projects_map m) scope_id);
          via_team =
            (if scope_kind_col = ''team'' then
               (if scope_kind = ''project'' then scope_id_col \<in> grouped (project_teams_map m) scope_id
                else if scope_kind = ''technology'' then
                  scope_id_col \<in> grouped (responsible_map m) scope_id
                    \<union> (\<Union> p \<in> grouped (projects_map m) scope_id. grouped (project_teams_map m) p)
                else if scope_kind = ''member'' then scope_id_col \<in> grouped (member_teams_map m) scope_id
                else False)
             else False);
          via_project_member = (scope_kind = ''member'' \<and> scope_kind_col = ''project''
            \<and> scope_id_col \<in> grouped (member_projects_map m) scope_id);
          via_category = (scope_kind = ''technology'' \<and> scope_kind_col = ''category''
            \<and> scope_id_col \<in> grouped (categories_map m) scope_id)
      in direct \<or> via_project \<or> via_team \<or> via_project_member \<or> via_category)"

definition bulk_effective_permissions :: "corporate_db \<Rightarrow> string \<Rightarrow> PrincipalType \<Rightarrow> string
    \<Rightarrow> string \<Rightarrow> string list \<Rightarrow> (string \<times> string set) list option" where
  "bulk_effective_permissions db oid pt pid scope_kind scope_ids =
     (if \<not> corporate_principal_active db oid pt pid None then None
      else
        let ids = sort (remdups scope_ids);
            bindings = principal_bindings db oid pt pid (\<lambda>_. True);
            direct_grants = principal_grants db oid pt pid (\<lambda>_. True);
            m = bulk_relation_maps db oid scope_kind ids;
            role_pairs = [(scope_id, rb_role b). b \<leftarrow> bindings, scope_id \<leftarrow> ids,
              bulk_matches m scope_kind (rb_scope_kind b) (rb_scope_id b) scope_id
                (rb_coverage b = ''descendants'')];
            roles_per_scope = group_rows role_pairs (empty_map ids);
            all_roles = snd ` set role_pairs;
            grants_per_scope = group_rows [(scope_id, pg_permission g). g \<leftarrow> direct_grants, scope_id \<leftarrow> ids,
              bulk_matches m scope_kind (pg_scope_kind g) (pg_scope_id g) scope_id False] (empty_map ids);
            grants = group_rows [(rp_role r, rp_permission r). r \<leftarrow> role_permission_rows db,
              rp_organization_id r = oid \<and> rp_role r \<in> (if all_roles = {} then {[]} else all_roles)] []
        in Some (map (\<lambda>scope_id. (scope_id,
             (\<Union> role \<in> grouped roles_per_scope scope_id. grouped grants role)
               \<union> grouped grants_per_scope scope_id)) ids))"

end
