(* ===== verification/JobQueue.thy ===== *)
theory JobQueue
  imports CorporateAuth
begin

text \<open>
  The PostgreSQL job queue: \<open>queue/states.py\<close>, \<open>queue/models.py\<close> and \<open>queue/engine.py\<close>
  of \<open>apps/platform\<close>. The state is the \<open>job\<close> table (rows in primary-key order), the id
  sequence and the transaction's tenant setting; every engine function is one transaction
  \<open>db \<Rightarrow> result \<times> db\<close>. \<open>now\<close> is the application clock \<open>_now()\<close>, \<open>dbnow\<close> the database's
  \<open>now()\<close>, which stamps \<open>created_at\<close> and, on every UPDATE, \<open>updated_at\<close>. Rows that other open
  transactions have locked are the parameter \<open>busy\<close> of the SKIP LOCKED scans. The in-process
  metric counters are not part of the state: no queue operation reads them.
\<close>

section \<open>States and rows\<close>

datatype JobState = QUEUED | RUNNING | RETRY_SCHEDULED | DEAD_LETTER | SUCCEEDED | CANCELLED

datatype JobType =
    UPLOAD | UPDATE | VALIDATE | PUBLISH | REEVALUATE_ELIGIBILITY | DELIVER_INVITATION
  | DELIVER_CORPORATE_INVITATION | REPOSITORY_METRICS | GITHUB_ARCHIVE
  | GITLAB_TECHNOLOGY_SCAN | GITHUB_TECHNOLOGY_SCAN | CATALOG_ENRICHMENT | SEO_BUILD
  | SEO_ENRICH | OFFICIAL_UPSTREAM_SYNC | TELEMETRY_RETENTION

fun job_type_str :: "JobType \<Rightarrow> string" where
  "job_type_str UPLOAD = ''upload''"
| "job_type_str UPDATE = ''update''"
| "job_type_str VALIDATE = ''validate''"
| "job_type_str PUBLISH = ''publish''"
| "job_type_str REEVALUATE_ELIGIBILITY = ''reevaluate_eligibility''"
| "job_type_str DELIVER_INVITATION = ''deliver_invitation''"
| "job_type_str DELIVER_CORPORATE_INVITATION = ''deliver_corporate_invitation''"
| "job_type_str REPOSITORY_METRICS = ''repository_metrics''"
| "job_type_str GITHUB_ARCHIVE = ''github_archive''"
| "job_type_str GITLAB_TECHNOLOGY_SCAN = ''gitlab_technology_scan''"
| "job_type_str GITHUB_TECHNOLOGY_SCAN = ''github_technology_scan''"
| "job_type_str CATALOG_ENRICHMENT = ''catalog_enrichment''"
| "job_type_str SEO_BUILD = ''seo_build''"
| "job_type_str SEO_ENRICH = ''seo_enrich''"
| "job_type_str OFFICIAL_UPSTREAM_SYNC = ''official_upstream_sync''"
| "job_type_str TELEMETRY_RETENTION = ''telemetry_retention''"

definition CLAIMABLE_STATES :: "JobState list" where
  "CLAIMABLE_STATES = [QUEUED, RETRY_SCHEDULED]"

definition TERMINAL_STATES :: "JobState list" where
  "TERMINAL_STATES = [SUCCEEDED, DEAD_LETTER, CANCELLED]"

text \<open>One row of the table. \<open>attempts\<close> starts at 0 and is only ever incremented.\<close>

record job =
  job_id :: int
  job_type :: string
  job_payload :: dict
  job_state :: JobState
  attempts :: nat
  max_attempts :: int
  run_after :: time
  idempotency_key :: string
  priority :: int
  locked_by :: "string option"
  locked_at :: "time option"
  last_error :: "string option"
  created_at :: time
  updated_at :: time
  organization_id :: "string option"

record queue_db =
  jobs :: "job list"
  next_job_id :: int
  tenant_scope :: string

definition set_tenant_scope :: "string \<Rightarrow> queue_db \<Rightarrow> queue_db" where
  "set_tenant_scope org db = db\<lparr>tenant_scope := org\<rparr>"

section \<open>Retry arithmetic\<close>

text \<open>
  \<open>2.0 ** attempts\<close> is exact up to the largest double and raises \<^const>\<open>OverflowError\<close> from
  exponent 1024 on, before \<open>min\<close> can cap it.
\<close>

definition backoff_seconds :: "nat \<Rightarrow> py_error + int" where
  "backoff_seconds n = (if n < 1024 then Inr (min 300 (2 ^ n)) else Inl OverflowError)"

definition TENANT_ENVELOPE_KEY :: string where
  "TENANT_ENVELOPE_KEY = ''_tenant''"

definition STALE_LEASE_ERROR :: string where
  "STALE_LEASE_ERROR = ''stale worker lease expired''"

section \<open>Enqueue\<close>

datatype queue_error = TenantJobInvalid string | Raised py_error

record enqueue_args =
  e_job_type :: JobType
  e_payload :: dict
  e_key :: string
  e_priority :: int
  e_max_attempts :: int
  e_run_after :: "time option"
  e_org :: "string option"
  e_revision :: "int option"
  e_principal_type :: "PrincipalType option"
  e_principal_id :: "string option"
  e_permission :: "string option"
  e_scope_kind :: string
  e_scope_id :: "string option"

definition opt_str :: "string option \<Rightarrow> json" where
  "opt_str s = (case s of None \<Rightarrow> JNull | Some x \<Rightarrow> JStr x)"

definition tenant_envelope ::
  "string \<Rightarrow> int \<Rightarrow> PrincipalType \<Rightarrow> string \<Rightarrow> string \<Rightarrow> string \<Rightarrow> string option \<Rightarrow> dict" where
  "tenant_envelope org ar pt pid perm sk sid =
     [(''organization_id'', JStr org), (''authorization_revision'', JInt ar),
      (''principal_type'', JStr (principal_wire pt)), (''principal_id'', JStr pid),
      (''required_permission'', JStr perm), (''scope_kind'', JStr sk), (''scope_id'', opt_str sid)]"

text \<open>The payload guards of \<open>enqueue\<close>: the row's payload, or the refusal.\<close>

definition enqueue_payload :: "enqueue_args \<Rightarrow> queue_error + dict" where
  "enqueue_payload a =
    (case e_org a of
       None \<Rightarrow>
         if has_key (e_payload a) TENANT_ENVELOPE_KEY
         then Inl (TenantJobInvalid ''global job cannot supply a tenant envelope'')
         else Inr (e_payload a)
     | Some org \<Rightarrow>
         (case (e_revision a, e_principal_type a, e_principal_id a, e_permission a) of
            (Some ar, Some pt, Some pid, Some perm) \<Rightarrow>
              if ar < 1
              then Inl (TenantJobInvalid ''tenant job requires an authorization decision'')
              else
                (let supplied = dict_get (e_payload a) TENANT_ENVELOPE_KEY;
                     envelope = JDict (tenant_envelope org ar pt pid perm
                                         (e_scope_kind a) (e_scope_id a))
                 in if supplied \<noteq> JNull \<and> \<not> py_eq supplied envelope
                    then Inl (TenantJobInvalid ''tenant job envelope does not match queue scope'')
                    else Inr (dict_set TENANT_ENVELOPE_KEY envelope (e_payload a)))
          | _ \<Rightarrow> Inl (TenantJobInvalid ''tenant job requires an authorization decision'')))"

definition same_slot :: "string option \<Rightarrow> string \<Rightarrow> job \<Rightarrow> bool" where
  "same_slot org k j = (organization_id j = org \<and> idempotency_key j = k)"

definition new_job :: "enqueue_args \<Rightarrow> dict \<Rightarrow> int \<Rightarrow> time \<Rightarrow> time \<Rightarrow> job" where
  "new_job a safe_payload i now dbnow =
    \<lparr>job_id = i, job_type = job_type_str (e_job_type a), job_payload = safe_payload,
     job_state = QUEUED, attempts = 0, max_attempts = e_max_attempts a,
     run_after = (case e_run_after a of None \<Rightarrow> now | Some t \<Rightarrow> t),
     idempotency_key = e_key a, priority = e_priority a, locked_by = None, locked_at = None,
     last_error = None, created_at = dbnow, updated_at = dbnow, organization_id = e_org a\<rparr>"

text \<open>
  INSERT .. ON CONFLICT DO NOTHING under the two partial unique indexes (one key per tenant,
  one per key among global jobs): a duplicate inserts nothing but still consumes a sequence
  value. The row is then read back.
\<close>

definition enqueue :: "enqueue_args \<Rightarrow> time \<Rightarrow> time \<Rightarrow> queue_db \<Rightarrow> (queue_error + job) \<times> queue_db" where
  "enqueue a now dbnow db =
    (case enqueue_payload a of
       Inl e \<Rightarrow> (Inl e, db)
     | Inr safe_payload \<Rightarrow>
         let db1 = (case e_org a of None \<Rightarrow> db | Some org \<Rightarrow> set_tenant_scope org db);
             db2 = db1\<lparr>
               jobs := (if \<exists>j \<in> set (jobs db1). same_slot (e_org a) (e_key a) j then jobs db1
                        else jobs db1 @ [new_job a safe_payload (next_job_id db1) now dbnow]),
               next_job_id := next_job_id db1 + 1\<rparr>
         in (case scalar_one (filter (same_slot (e_org a) (e_key a)) (jobs db2)) of
               Inl e \<Rightarrow> (Inl (Raised e), db2)
             | Inr j \<Rightarrow> (Inr j, db2)))"

section \<open>Claim and settle\<close>

definition touch :: "time \<Rightarrow> job \<Rightarrow> job" where
  "touch dbnow j = j\<lparr>updated_at := dbnow\<rparr>"

definition due :: "int set \<Rightarrow> time \<Rightarrow> job \<Rightarrow> bool" where
  "due busy moment j \<longleftrightarrow>
     job_state j \<in> set CLAIMABLE_STATES \<and> run_after j \<le> moment \<and> job_id j \<notin> busy"

definition claim_order :: "job \<Rightarrow> int \<times> time" where
  "claim_order j = (- priority j, run_after j)"

definition stamp_claim :: "string \<Rightarrow> time \<Rightarrow> time \<Rightarrow> job \<Rightarrow> job" where
  "stamp_claim worker moment dbnow j =
     touch dbnow (j\<lparr>job_state := RUNNING, locked_by := Some worker, locked_at := Some moment\<rparr>)"

definition claim ::
  "int set \<Rightarrow> string \<Rightarrow> nat \<Rightarrow> time \<Rightarrow> time \<Rightarrow> queue_db \<Rightarrow> job list \<times> queue_db" where
  "claim busy worker batch moment dbnow db =
     (let db1 = set_tenant_scope ''*'' db;
          picked = order_limit claim_order batch (filter (due busy moment) (jobs db1));
          ids = map job_id picked
      in (map (stamp_claim worker moment dbnow) picked,
          db1\<lparr>jobs := update_where (\<lambda>j. job_id j \<in> set ids)
                        (stamp_claim worker moment dbnow) (jobs db1)\<rparr>))"

definition owned_running_job :: "int \<Rightarrow> string option \<Rightarrow> queue_db \<Rightarrow> py_error + job option" where
  "owned_running_job i owner db =
     (case owner of
        None \<Rightarrow> Inr None
      | Some w \<Rightarrow>
          (case scalar_one_or_none (filter (\<lambda>j. job_id j = i) (jobs db)) of
             Inl e \<Rightarrow> Inl e
           | Inr None \<Rightarrow> Inr None
           | Inr (Some row) \<Rightarrow>
               if job_state row \<noteq> RUNNING \<or> locked_by row \<noteq> Some w then Inr None
               else Inr (Some row)))"

definition SENSITIVE_PAYLOAD_KEYS :: "string list" where
  "SENSITIVE_PAYLOAD_KEYS =
     [''accept_token'', ''invitation_token'', ''refresh_token'', ''access_token'', ''secret'',
      ''password'']"

definition scrub_settled_payload :: "dict \<Rightarrow> dict" where
  "scrub_settled_payload p =
     map (\<lambda>(k, v). (k, if k \<in> set SENSITIVE_PAYLOAD_KEYS then JStr ''[delivered]'' else v)) p"

definition set_row :: "int \<Rightarrow> (job \<Rightarrow> job) \<Rightarrow> queue_db \<Rightarrow> queue_db" where
  "set_row i f db = db\<lparr>jobs := update_where (\<lambda>j. job_id j = i) f (jobs db)\<rparr>"

definition stamp_succeeded :: "time \<Rightarrow> job \<Rightarrow> job" where
  "stamp_succeeded dbnow j =
     touch dbnow (j\<lparr>job_state := SUCCEEDED, locked_by := None, locked_at := None,
       last_error := None, job_payload := scrub_settled_payload (job_payload j)\<rparr>)"

text \<open>The lease a settle is checked against: the argument, or the passed job's own.\<close>

definition expected_owner :: "string option \<Rightarrow> job \<Rightarrow> string option" where
  "expected_owner owner j = (case owner of None \<Rightarrow> locked_by j | Some w \<Rightarrow> Some w)"

definition mark_succeeded ::
  "job \<Rightarrow> string option \<Rightarrow> time \<Rightarrow> queue_db \<Rightarrow> (queue_error + bool) \<times> queue_db" where
  "mark_succeeded j owner dbnow db =
     (case owned_running_job (job_id j) (expected_owner owner j) db of
        Inl e \<Rightarrow> (Inl (Raised e), db)
      | Inr None \<Rightarrow> (Inr False, db)
      | Inr (Some row) \<Rightarrow> (Inr True, set_row (job_id row) (stamp_succeeded dbnow) db))"

definition stamp_dead :: "string \<Rightarrow> time \<Rightarrow> job \<Rightarrow> job" where
  "stamp_dead err dbnow j =
     touch dbnow (j\<lparr>attempts := attempts j + 1, last_error := Some (take 2000 err),
       locked_by := None, locked_at := None, job_state := DEAD_LETTER,
       job_payload := scrub_settled_payload (job_payload j)\<rparr>)"

definition stamp_retry :: "string \<Rightarrow> time \<Rightarrow> time \<Rightarrow> job \<Rightarrow> job" where
  "stamp_retry err due_time dbnow j =
     touch dbnow (j\<lparr>attempts := attempts j + 1, last_error := Some (take 2000 err),
       locked_by := None, locked_at := None, job_state := RETRY_SCHEDULED, run_after := due_time\<rparr>)"

text \<open>\<open>moment + backoff\<close>, moved later by a \<open>not_before\<close> the failure named.\<close>

definition retry_at :: "time \<Rightarrow> int \<Rightarrow> time option \<Rightarrow> time" where
  "retry_at moment backoff not_before =
     (let base = moment + seconds backoff
      in case not_before of None \<Rightarrow> base | Some nb \<Rightarrow> if nb > base then nb else base)"

definition fail ::
  "job \<Rightarrow> string \<Rightarrow> bool \<Rightarrow> string option \<Rightarrow> time option \<Rightarrow> time \<Rightarrow> time \<Rightarrow> queue_db
     \<Rightarrow> (queue_error + bool) \<times> queue_db" where
  "fail j err permanent owner not_before moment dbnow db =
     (case owned_running_job (job_id j) (expected_owner owner j) db of
        Inl e \<Rightarrow> (Inl (Raised e), db)
      | Inr None \<Rightarrow> (Inr False, db)
      | Inr (Some row) \<Rightarrow>
          if permanent \<or> int (attempts row + 1) \<ge> max_attempts row
          then (Inr True, set_row (job_id row) (stamp_dead err dbnow) db)
          else
            (case backoff_seconds (attempts row + 1) of
               Inl e \<Rightarrow> (Inl (Raised e), db)
             | Inr s \<Rightarrow>
                 (Inr True,
                  set_row (job_id row) (stamp_retry err (retry_at moment s not_before) dbnow) db)))"

section \<open>Cancel, drain, heartbeat, lease recovery, retention\<close>

text \<open>
  \<open>cancel\<close> reads the row without a lock, decides on what it read, and writes by primary key at
  flush; the two halves are named because another transaction can commit in between.
\<close>

definition cancel_read :: "string \<Rightarrow> string option \<Rightarrow> queue_db \<Rightarrow> py_error + job option" where
  "cancel_read k org db =
     (case scalar_one_or_none (filter (same_slot org k) (jobs db)) of
        Inl e \<Rightarrow> Inl e
      | Inr None \<Rightarrow> Inr None
      | Inr (Some j) \<Rightarrow> Inr (if job_state j \<in> set CLAIMABLE_STATES then Some j else None))"

definition cancel_write :: "job \<Rightarrow> time \<Rightarrow> queue_db \<Rightarrow> queue_db" where
  "cancel_write j dbnow db = set_row (job_id j) (\<lambda>r. touch dbnow (r\<lparr>job_state := CANCELLED\<rparr>)) db"

definition cancel ::
  "string \<Rightarrow> string option \<Rightarrow> time \<Rightarrow> queue_db \<Rightarrow> (queue_error + bool) \<times> queue_db" where
  "cancel k org dbnow db =
     (let db1 = set_tenant_scope (case org of None \<Rightarrow> ''*'' | Some [] \<Rightarrow> ''*'' | Some o' \<Rightarrow> o') db
      in case cancel_read k org db1 of
           Inl e \<Rightarrow> (Inl (Raised e), db1)
         | Inr None \<Rightarrow> (Inr False, db1)
         | Inr (Some j) \<Rightarrow> (Inr True, cancel_write j dbnow db1))"

text \<open>
  Rows that wait to be claimed can also be given another payload: \<open>repository_scan.py\<close> renews the
  tenant envelope of a scan's queued siblings, selected and written under their row locks.
  \<open>renew\<close> says which waiting rows it renews and with what payload; the rest of a row stays.
\<close>

definition refresh_payload :: "(job \<Rightarrow> dict option) \<Rightarrow> time \<Rightarrow> queue_db \<Rightarrow> queue_db" where
  "refresh_payload renew dbnow db = db\<lparr>jobs := update_where
     (\<lambda>j. job_state j \<in> set CLAIMABLE_STATES \<and> renew j \<noteq> None)
     (\<lambda>j. touch dbnow (j\<lparr>job_payload := (case renew j of None \<Rightarrow> job_payload j | Some p \<Rightarrow> p)\<rparr>))
     (jobs db)\<rparr>"

definition held_by :: "string \<Rightarrow> job \<Rightarrow> bool" where
  "held_by worker j \<longleftrightarrow> job_state j = RUNNING \<and> locked_by j = Some worker"

definition requeue_locked :: "string \<Rightarrow> time \<Rightarrow> queue_db \<Rightarrow> nat \<times> queue_db" where
  "requeue_locked worker dbnow db =
     (let db1 = set_tenant_scope ''*'' db
      in (rowcount (held_by worker) (jobs db1),
          db1\<lparr>jobs := update_where (held_by worker)
             (\<lambda>j. touch dbnow (j\<lparr>job_state := QUEUED, locked_by := None, locked_at := None\<rparr>))
             (jobs db1)\<rparr>))"

definition heartbeat :: "string \<Rightarrow> int \<Rightarrow> time \<Rightarrow> time \<Rightarrow> queue_db \<Rightarrow> bool \<times> queue_db" where
  "heartbeat worker i moment dbnow db =
     (let db1 = set_tenant_scope ''*'' db;
          mine = (\<lambda>j. job_id j = i \<and> held_by worker j)
      in (rowcount mine (jobs db1) = 1,
          db1\<lparr>jobs := update_where mine (\<lambda>j. touch dbnow (j\<lparr>locked_at := Some moment\<rparr>))
                (jobs db1)\<rparr>))"

definition REQUEUE_STALE_BATCH_LIMIT :: nat where
  "REQUEUE_STALE_BATCH_LIMIT = 500"

definition lease_expired :: "int set \<Rightarrow> time \<Rightarrow> job \<Rightarrow> bool" where
  "lease_expired busy cutoff j \<longleftrightarrow>
     job_state j = RUNNING \<and> (case locked_at j of None \<Rightarrow> False | Some t \<Rightarrow> t \<le> cutoff)
     \<and> job_id j \<notin> busy"

definition stamp_stale :: "time \<Rightarrow> time \<Rightarrow> job \<Rightarrow> job" where
  "stamp_stale moment dbnow j =
     (let j' = j\<lparr>attempts := attempts j + 1, run_after := moment, locked_by := None,
                locked_at := None, last_error := Some STALE_LEASE_ERROR\<rparr>
      in touch dbnow
           (if int (attempts j') \<ge> max_attempts j'
            then j'\<lparr>job_state := DEAD_LETTER, job_payload := scrub_settled_payload (job_payload j')\<rparr>
            else j'\<lparr>job_state := QUEUED\<rparr>))"

definition locked_at_key :: "job \<Rightarrow> time" where
  "locked_at_key j = (case locked_at j of None \<Rightarrow> 0 | Some t \<Rightarrow> t)"

definition requeue_stale ::
  "int set \<Rightarrow> time \<Rightarrow> nat \<Rightarrow> time \<Rightarrow> time \<Rightarrow> queue_db \<Rightarrow> nat \<times> queue_db" where
  "requeue_stale busy lease_timeout limit_n moment dbnow db =
     (let db1 = set_tenant_scope ''*'' db;
          stale = order_limit locked_at_key limit_n
                    (filter (lease_expired busy (moment - lease_timeout)) (jobs db1));
          ids = map job_id stale
      in (length stale,
          db1\<lparr>jobs := update_where (\<lambda>j. job_id j \<in> set ids) (stamp_stale moment dbnow) (jobs db1)\<rparr>))"

definition gc_terminal_jobs :: "int \<Rightarrow> nat \<Rightarrow> time \<Rightarrow> queue_db \<Rightarrow> nat \<times> queue_db" where
  "gc_terminal_jobs retention_days limit_n now db =
     (let db1 = set_tenant_scope ''*'' db;
          cutoff = now - seconds (86400 * retention_days);
          ids = map job_id (order_limit updated_at limit_n
                  (filter (\<lambda>j. job_state j \<in> set TERMINAL_STATES \<and> updated_at j < cutoff) (jobs db1)))
      in if ids = [] then (0, db1)
         else (rowcount (\<lambda>j. job_id j \<in> set ids) (jobs db1),
               db1\<lparr>jobs := filter (\<lambda>j. job_id j \<notin> set ids) (jobs db1)\<rparr>))"

end
