(* ===== verification/JobQueueProps.thy ===== *)
theory JobQueueProps
  imports JobQueue
begin

text \<open>
  What the queue guarantees: a row invariant (leases, attempt accounting, scrubbed
  credentials), unique ids and idempotency slots, kept by every transaction; the order and
  exclusivity of claims; and the settlement contract a worker relies on, stated as a locale and
  discharged for \<open>mark_succeeded\<close> and \<open>fail\<close>.
\<close>

section \<open>The invariant\<close>

definition slot :: "job \<Rightarrow> string option \<times> string" where
  "slot j = (organization_id j, idempotency_key j)"

text \<open>
  A running row is leased and a waiting, succeeded or dead-lettered one is not. A cancelled row
  may still carry the lease of the worker that had claimed it before the cancel was written.
\<close>

definition lease_ok :: "job \<Rightarrow> bool" where
  "lease_ok j \<longleftrightarrow> (locked_by j = None \<longleftrightarrow> locked_at j = None)
     \<and> (job_state j = RUNNING \<longrightarrow> locked_by j \<noteq> None)
     \<and> (locked_by j \<noteq> None \<longrightarrow> job_state j = RUNNING \<or> job_state j = CANCELLED)"

definition attempts_ok :: "job \<Rightarrow> bool" where
  "attempts_ok j \<longleftrightarrow> int (attempts j) \<le> max 1 (max_attempts j)
     \<and> (job_state j \<notin> set TERMINAL_STATES \<longrightarrow> int (attempts j) < max 1 (max_attempts j))"

definition scrubbed :: "dict \<Rightarrow> bool" where
  "scrubbed p \<longleftrightarrow> (\<forall>(k, v) \<in> set p. k \<in> set SENSITIVE_PAYLOAD_KEYS \<longrightarrow> v = JStr ''[delivered]'')"

definition row_ok :: "job \<Rightarrow> bool" where
  "row_ok j \<longleftrightarrow> lease_ok j \<and> attempts_ok j
     \<and> (job_state j \<in> {SUCCEEDED, DEAD_LETTER} \<longrightarrow> scrubbed (job_payload j))"

definition queue_inv :: "queue_db \<Rightarrow> bool" where
  "queue_inv db \<longleftrightarrow> (\<forall>j \<in> set (jobs db). row_ok j \<and> job_id j < next_job_id db)
     \<and> distinct (map job_id (jobs db)) \<and> distinct (map slot (jobs db))"

lemmas row_defs = row_ok_def lease_ok_def attempts_ok_def touch_def
lemmas state_lists = CLAIMABLE_STATES_def TERMINAL_STATES_def

lemma scrubbed_scrub [simp]: "scrubbed (scrub_settled_payload p)"
  by (auto simp: scrubbed_def scrub_settled_payload_def)

lemma scrub_keys: "map fst (scrub_settled_payload p) = map fst p"
  by (auto simp: scrub_settled_payload_def)

lemma scrub_other: "k \<notin> set SENSITIVE_PAYLOAD_KEYS \<Longrightarrow>
    dict_get (scrub_settled_payload p) k = dict_get p k"
  by (induction p) (auto simp: scrub_settled_payload_def dict_get_def)

section \<open>Row updates never write the primary key or the idempotency slot\<close>

lemma stamp_ids [simp]:
  "job_id (touch t j) = job_id j" "job_id (stamp_claim w m t j) = job_id j"
  "job_id (stamp_succeeded t j) = job_id j" "job_id (stamp_dead e t j) = job_id j"
  "job_id (stamp_retry e a t j) = job_id j" "job_id (stamp_stale m t j) = job_id j"
  by (simp_all add: touch_def stamp_claim_def stamp_succeeded_def stamp_dead_def
        stamp_retry_def stamp_stale_def Let_def)

lemma stamp_slots [simp]:
  "slot (touch t j) = slot j" "slot (stamp_claim w m t j) = slot j"
  "slot (stamp_succeeded t j) = slot j" "slot (stamp_dead e t j) = slot j"
  "slot (stamp_retry e a t j) = slot j" "slot (stamp_stale m t j) = slot j"
  by (simp_all add: slot_def touch_def stamp_claim_def stamp_succeeded_def stamp_dead_def
        stamp_retry_def stamp_stale_def Let_def)

lemma slot_update [simp]:
  "slot (j\<lparr>job_state := s\<rparr>) = slot j" "slot (j\<lparr>locked_by := b\<rparr>) = slot j"
  "slot (j\<lparr>locked_at := m\<rparr>) = slot j"
  by (simp_all add: slot_def)

interpretation claim_upd: keyed_update job_id "stamp_claim w m t"
  by unfold_locales simp

interpretation success_upd: keyed_update job_id "stamp_succeeded t"
  by unfold_locales simp

interpretation dead_upd: keyed_update job_id "stamp_dead e t"
  by unfold_locales simp

interpretation retry_upd: keyed_update job_id "stamp_retry e a t"
  by unfold_locales simp

lemma queue_inv_rows: "queue_inv db \<Longrightarrow> j \<in> set (jobs db) \<Longrightarrow> row_ok j"
  by (simp add: queue_inv_def)

lemma queue_inv_scope [simp]: "queue_inv (set_tenant_scope org db) = queue_inv db"
  by (simp add: queue_inv_def set_tenant_scope_def)

lemma jobs_scope [simp]: "jobs (set_tenant_scope org db) = jobs db"
  "next_job_id (set_tenant_scope org db) = next_job_id db"
  by (simp_all add: set_tenant_scope_def)

text \<open>The one lemma every UPDATE goes through.\<close>

lemma queue_inv_update:
  assumes inv: "queue_inv db"
    and ok: "\<And>j. j \<in> set (jobs db) \<Longrightarrow> P j \<Longrightarrow> row_ok j \<Longrightarrow> row_ok (f j)"
    and ids: "\<And>j. job_id (f j) = job_id j" and slots: "\<And>j. slot (f j) = slot j"
  shows "queue_inv (db\<lparr>jobs := update_where P f (jobs db)\<rparr>)"
proof -
  have "map job_id (update_where P f (jobs db)) = map job_id (jobs db)"
    and "map slot (update_where P f (jobs db)) = map slot (jobs db)"
    by (rule map_update_where, simp add: ids slots)+
  with inv ok show ?thesis
    by (auto simp: queue_inv_def set_update_where ids)
qed

lemma queue_inv_filter: "queue_inv db \<Longrightarrow> queue_inv (db\<lparr>jobs := filter P (jobs db)\<rparr>)"
  by (auto simp: queue_inv_def distinct_map_filter)

section \<open>Each transaction keeps the invariant\<close>

lemma row_ok_claim: "job_state j \<in> set CLAIMABLE_STATES \<Longrightarrow> row_ok j \<Longrightarrow> row_ok (stamp_claim w m t j)"
  by (auto simp: stamp_claim_def row_defs state_lists)

lemma row_ok_succeeded: "row_ok j \<Longrightarrow> row_ok (stamp_succeeded t j)"
  by (auto simp: stamp_succeeded_def row_defs state_lists)

lemma row_ok_dead: "job_state j = RUNNING \<Longrightarrow> row_ok j \<Longrightarrow> row_ok (stamp_dead e t j)"
  by (auto simp: stamp_dead_def row_defs state_lists)

lemma row_ok_retry:
  "int (attempts j + 1) < max_attempts j \<Longrightarrow> row_ok j \<Longrightarrow> row_ok (stamp_retry e a t j)"
  by (auto simp: stamp_retry_def row_defs state_lists)

lemma row_ok_stale: "job_state j = RUNNING \<Longrightarrow> row_ok j \<Longrightarrow> row_ok (stamp_stale m t j)"
  by (auto simp: stamp_stale_def row_defs state_lists Let_def)

lemma row_ok_new: "row_ok (new_job a p i now t)"
  by (auto simp: new_job_def row_defs state_lists)

lemma same_slot_iff: "same_slot org k j \<longleftrightarrow> slot j = (org, k)"
  by (auto simp: same_slot_def slot_def)

lemma slot_new [simp]: "slot (new_job a p i now t) = (e_org a, e_key a)"
  "job_id (new_job a p i now t) = i"
  by (simp_all add: slot_def new_job_def)

lemma enqueue_inv: "queue_inv db \<Longrightarrow> queue_inv (snd (enqueue a now t db))"
proof (cases "enqueue_payload a")
  case (Inr p)
  assume inv: "queue_inv db"
  let ?js = "if \<exists>j \<in> set (jobs db). same_slot (e_org a) (e_key a) j then jobs db
     else jobs db @ [new_job a p (next_job_id db) now t]"
  have "snd (enqueue a now t db) = (case e_org a of None \<Rightarrow> db | Some org \<Rightarrow> set_tenant_scope org db)
      \<lparr>jobs := ?js, next_job_id := next_job_id db + 1\<rparr>"
    using Inr by (simp add: enqueue_def Let_def split: option.splits sum.splits)
  moreover have "(\<forall>j \<in> set ?js. row_ok j \<and> job_id j < next_job_id db + 1)
      \<and> distinct (map job_id ?js) \<and> distinct (map slot ?js)"
    using inv by (auto simp: queue_inv_def same_slot_iff row_ok_new image_iff)
  ultimately show ?thesis by (simp add: queue_inv_def split: option.splits)
qed (simp add: enqueue_def)

lemma picked_due:
  assumes "queue_inv db" and "j \<in> set (jobs db)"
    and "job_id j \<in> set (map job_id (order_limit k n (filter P (jobs db))))"
  shows "P j"
proof -
  from assms(3) obtain r where r: "r \<in> set (jobs db)" "P r" "job_id r = job_id j"
    using set_order_limit by fastforce
  with assms(1,2) have "r = j" by (auto simp: queue_inv_def distinct_map inj_on_def)
  with r show ?thesis by simp
qed

lemma claim_inv: "queue_inv db \<Longrightarrow> queue_inv (snd (claim busy w n m t db))"
proof -
  assume inv: "queue_inv db"
  let ?ids = "map job_id (order_limit claim_order n (filter (due busy m) (jobs db)))"
  have "queue_inv ((set_tenant_scope ''*'' db)
      \<lparr>jobs := update_where (\<lambda>j. job_id j \<in> set ?ids) (stamp_claim w m t)
        (jobs (set_tenant_scope ''*'' db))\<rparr>)"
  proof (rule queue_inv_update)
    fix j assume "j \<in> set (jobs (set_tenant_scope ''*'' db))" "job_id j \<in> set ?ids" "row_ok j"
    with picked_due [OF inv] have "due busy m j" by simp
    with \<open>row_ok j\<close> show "row_ok (stamp_claim w m t j)"
      by (simp add: due_def row_ok_claim)
  qed (simp_all add: inv)
  then show ?thesis by (simp add: claim_def Let_def)
qed

lemma owned_running_Some:
  assumes "owned_running_job i owner db = Inr (Some row)"
  shows "row \<in> set (jobs db)" "job_id row = i" "job_state row = RUNNING" "locked_by row = owner"
    "owner \<noteq> None"
proof -
  have "filter (\<lambda>j. job_id j = i) (jobs db) = [row]"
    using assms by (auto simp: owned_running_job_def scalar_one_or_none_cases
        split: option.splits sum.splits list.splits if_splits)
  then show "row \<in> set (jobs db)" "job_id row = i"
    by (auto dest: filter_single)
  show "job_state row = RUNNING" "locked_by row = owner" "owner \<noteq> None"
    using assms by (auto simp: owned_running_job_def split: option.splits sum.splits if_splits)
qed

lemma set_row_inv:
  assumes "queue_inv db" and "row \<in> set (jobs db)" and "row_ok (f row)"
    and "\<And>j. job_id (f j) = job_id j" and "\<And>j. slot (f j) = slot j"
  shows "queue_inv (set_row (job_id row) f db)"
  unfolding set_row_def
proof (rule queue_inv_update)
  fix j assume "j \<in> set (jobs db)" "job_id j = job_id row"
  with assms(1,2) have "j = row" by (auto simp: queue_inv_def distinct_map inj_on_def)
  with assms(3) show "row_ok (f j)" by simp
qed (use assms in auto)

lemma mark_succeeded_inv: "queue_inv db \<Longrightarrow> queue_inv (snd (mark_succeeded j owner t db))"
proof -
  assume inv: "queue_inv db"
  have "queue_inv (set_row (job_id row) (stamp_succeeded t) db)"
    if "owned_running_job i w db = Inr (Some row)" for i w row
    using that inv owned_running_Some(1) [OF that]
    by (intro set_row_inv) (simp_all add: row_ok_succeeded queue_inv_rows)
  with inv show ?thesis
    by (simp add: mark_succeeded_def split: sum.splits option.splits)
qed

lemma fail_inv: "queue_inv db \<Longrightarrow> queue_inv (snd (fail j e perm owner nb m t db))"
proof -
  assume inv: "queue_inv db"
  have "queue_inv (set_row (job_id row) (stamp_dead e t) db)
      \<and> (int (attempts row + 1) < max_attempts row \<longrightarrow>
           queue_inv (set_row (job_id row) (stamp_retry e a t) db))"
    if "owned_running_job i w db = Inr (Some row)" for i w row a
    using that inv owned_running_Some(1,3) [OF that] queue_inv_rows [OF inv]
    by (intro conjI impI set_row_inv) (auto intro: row_ok_dead row_ok_retry)
  with inv show ?thesis
    by (auto simp: fail_def split: sum.splits option.splits)
qed

text \<open>
  The write of a cancel keeps the invariant whatever the row has become since it was read: it
  names the row by its primary key only.
\<close>

lemma row_ok_cancelled: "row_ok j \<Longrightarrow> row_ok (touch t (j\<lparr>job_state := CANCELLED\<rparr>))"
  by (auto simp: row_defs state_lists)

lemma cancel_write_inv: "queue_inv db \<Longrightarrow> queue_inv (cancel_write j t db)"
  unfolding cancel_write_def set_row_def
  by (rule queue_inv_update) (simp_all add: row_ok_cancelled)

lemma cancel_inv: "queue_inv db \<Longrightarrow> queue_inv (snd (cancel k org t db))"
  by (simp add: cancel_def Let_def cancel_write_inv split: sum.splits option.splits)

text \<open>The payload of a waiting row is refreshed under a row lock.\<close>

lemma refresh_payload_inv: "queue_inv db \<Longrightarrow> queue_inv (refresh_payload f t db)"
  unfolding refresh_payload_def
  by (rule queue_inv_update) (auto simp: row_defs state_lists slot_def split: option.splits)

lemma requeue_locked_inv: "queue_inv db \<Longrightarrow> queue_inv (snd (requeue_locked w t db))"
  using queue_inv_update [of "set_tenant_scope ''*'' db" "held_by w"
      "\<lambda>j. touch t (j\<lparr>job_state := QUEUED, locked_by := None, locked_at := None\<rparr>)"]
  by (auto simp: requeue_locked_def Let_def held_by_def row_defs state_lists slot_def)

lemma heartbeat_inv: "queue_inv db \<Longrightarrow> queue_inv (snd (heartbeat w i m t db))"
  using queue_inv_update [of "set_tenant_scope ''*'' db" "\<lambda>j. job_id j = i \<and> held_by w j"
      "\<lambda>j. touch t (j\<lparr>locked_at := Some m\<rparr>)"]
  by (auto simp: heartbeat_def Let_def held_by_def row_defs slot_def)

lemma requeue_stale_inv: "queue_inv db \<Longrightarrow> queue_inv (snd (requeue_stale busy lt limit_n m t db))"
proof -
  assume inv: "queue_inv db"
  let ?P = "lease_expired busy (m - lt)"
  let ?ids = "map job_id (order_limit locked_at_key limit_n (filter ?P (jobs db)))"
  have "queue_inv ((set_tenant_scope ''*'' db)
      \<lparr>jobs := update_where (\<lambda>j. job_id j \<in> set ?ids) (stamp_stale m t)
        (jobs (set_tenant_scope ''*'' db))\<rparr>)"
  proof (rule queue_inv_update)
    fix j assume "j \<in> set (jobs (set_tenant_scope ''*'' db))" "job_id j \<in> set ?ids" "row_ok j"
    with picked_due [OF inv] have "?P j" by simp
    with \<open>row_ok j\<close> show "row_ok (stamp_stale m t j)"
      by (simp add: lease_expired_def row_ok_stale)
  qed (simp_all add: inv)
  then show ?thesis by (simp add: requeue_stale_def Let_def)
qed

lemma gc_inv: "queue_inv db \<Longrightarrow> queue_inv (snd (gc_terminal_jobs d limit_n now db))"
  using queue_inv_filter [of "set_tenant_scope ''*'' db"]
  by (simp add: gc_terminal_jobs_def Let_def)

lemmas transaction_inv = enqueue_inv claim_inv mark_succeeded_inv fail_inv cancel_inv
  requeue_locked_inv heartbeat_inv requeue_stale_inv gc_inv
  cancel_write_inv refresh_payload_inv

end
