(* ===== verification/QueueTheorems.thy ===== *)
theory QueueTheorems
  imports JobQueueProps
begin

text \<open>
  Runs of the queue (any interleaving of its transactions from an empty table) and what holds
  along them: the row invariant, and how one row can change. A transaction that locks the rows it
  writes (FOR UPDATE, or one UPDATE, INSERT or DELETE statement) is one step. \<open>cancel\<close> locks
  nothing: it reads the row, decides, and writes by primary key, so its read and its write are two
  steps and other transactions commit in between. The write goes by what \<open>cancel_read\<close> answered
  for some earlier tables \<open>old\<close>, and any tables may stand for them; \<open>catalog_transfer.py\<close> cancels
  queued jobs the same way, by rows it read without a lock.
\<close>

section \<open>Transactions as a step relation\<close>

inductive queue_step :: "queue_db \<Rightarrow> queue_db \<Rightarrow> bool" where
  step_enqueue: "queue_step db (snd (enqueue a now t db))"
| step_claim: "queue_step db (snd (claim busy w n m t db))"
| step_succeed: "queue_step db (snd (mark_succeeded j owner t db))"
| step_fail: "queue_step db (snd (fail j e perm owner nb m t db))"
| step_cancel_read: "queue_step db (set_tenant_scope org db)"
| step_cancel_write: "cancel_read k org old = Inr (Some j) \<Longrightarrow> queue_step db (cancel_write j t db)"
| step_refresh: "queue_step db (refresh_payload renew t db)"
| step_drain: "queue_step db (snd (requeue_locked w t db))"
| step_heartbeat: "queue_step db (snd (heartbeat w i m t db))"
| step_stale: "queue_step db (snd (requeue_stale busy lt n m t db))"
| step_gc: "queue_step db (snd (gc_terminal_jobs d n m db))"

definition empty_queue :: queue_db where
  "empty_queue = \<lparr>jobs = [], next_job_id = 1, tenant_scope = ''''\<rparr>"

inductive queue_reachable :: "queue_db \<Rightarrow> bool" where
  reach_empty: "queue_reachable empty_queue"
| reach_step: "queue_reachable db \<Longrightarrow> queue_step db db' \<Longrightarrow> queue_reachable db'"

lemma queue_step_inv: "queue_step db db' \<Longrightarrow> queue_inv db \<Longrightarrow> queue_inv db'"
  by (induction rule: queue_step.induct) (simp_all add: transaction_inv)

text \<open>A cancel that nothing overtakes is its read followed by its write.\<close>

lemma cancel_steps: "queue_step\<^sup>*\<^sup>* db (snd (cancel k org t db))"
proof -
  let ?db1 = "set_tenant_scope (case org of None \<Rightarrow> ''*'' | Some [] \<Rightarrow> ''*'' | Some o' \<Rightarrow> o') db"
  have read: "queue_step db ?db1" by (rule step_cancel_read)
  have "queue_step ?db1 (cancel_write j t ?db1)" if "cancel_read k org ?db1 = Inr (Some j)" for j
    using that by (rule step_cancel_write)
  with read show ?thesis
    by (auto simp: cancel_def Let_def split: sum.splits option.splits
        intro: rtranclp.rtrancl_into_rtrancl)
qed

lemma queue_inv_empty: "queue_inv empty_queue"
  by (simp add: queue_inv_def empty_queue_def)

lemma reachable_inv: "queue_reachable db \<Longrightarrow> queue_inv db"
  by (induction rule: queue_reachable.induct) (auto intro: queue_inv_empty queue_step_inv)

section \<open>How one transaction can change one row\<close>

definition row_at :: "int \<Rightarrow> queue_db \<Rightarrow> job option" where
  "row_at i db = find (\<lambda>j. job_id j = i) (jobs db)"

lemma row_at_mem: "queue_inv db \<Longrightarrow> j \<in> set (jobs db) \<Longrightarrow> row_at (job_id j) db = Some j"
  by (simp add: row_at_def queue_inv_def find_distinct_key)

lemma row_at_Some: "row_at i db = Some j \<Longrightarrow> j \<in> set (jobs db) \<and> job_id j = i"
  by (auto simp: row_at_def dest: find_mem)

lemma row_at_scope [simp]: "row_at i (set_tenant_scope org db) = row_at i db"
  by (simp add: row_at_def)

text \<open>
  \<open>evolves j j'\<close>: what any transaction may do to a row it does not delete. A terminal row is
  frozen but for a late cancel, which marks it cancelled and leaves the rest of it; live rows keep
  identity and limits, and attempts only grow.
\<close>

definition cancelled_at :: "time \<Rightarrow> job \<Rightarrow> job" where
  "cancelled_at t j = touch t (j\<lparr>job_state := CANCELLED\<rparr>)"

lemma cancelled_at_again [simp]: "cancelled_at t (cancelled_at t' j) = cancelled_at t j"
  by (simp add: cancelled_at_def touch_def)

lemma cancelled_at_fields [simp]:
  "job_state (cancelled_at t j) = CANCELLED" "job_id (cancelled_at t j) = job_id j"
  "slot (cancelled_at t j) = slot j" "locked_by (cancelled_at t j) = locked_by j"
  "job_payload (cancelled_at t j) = job_payload j" "attempts (cancelled_at t j) = attempts j"
  "max_attempts (cancelled_at t j) = max_attempts j" "job_type (cancelled_at t j) = job_type j"
  by (simp_all add: cancelled_at_def touch_def slot_def)

lemma cancel_write_eq: "cancel_write j t db = set_row (job_id j) (cancelled_at t) db"
  by (simp add: cancel_write_def cancelled_at_def [abs_def])

definition evolves :: "job \<Rightarrow> job \<Rightarrow> bool" where
  "evolves j j' \<longleftrightarrow>
     (job_state j \<in> set TERMINAL_STATES \<longrightarrow> j' = j \<or> (\<exists>t. j' = cancelled_at t j))
     \<and> slot j' = slot j \<and> max_attempts j' = max_attempts j \<and> job_type j' = job_type j
     \<and> attempts j \<le> attempts j'"

lemma evolves_refl [simp]: "evolves j j"
  by (simp add: evolves_def)

lemma evolves_trans:
  assumes "evolves j k" and "evolves k l"
  shows "evolves j l"
proof -
  have "l = j \<or> (\<exists>t. l = cancelled_at t j)" if j: "job_state j \<in> set TERMINAL_STATES"
  proof -
    from assms(1) j consider "k = j" | t where "k = cancelled_at t j" by (auto simp: evolves_def)
    then show ?thesis
    proof cases
      case 1
      with assms(2) j show ?thesis by (simp add: evolves_def)
    next
      case (2 t)
      then have "job_state k \<in> set TERMINAL_STATES" by (simp add: TERMINAL_STATES_def)
      with assms(2) have "l = k \<or> (\<exists>t'. l = cancelled_at t' k)" by (simp add: evolves_def)
      with 2 show ?thesis by auto
    qed
  qed
  with assms show ?thesis by (simp add: evolves_def)
qed

lemma evolves_cancelled [simp]: "evolves j (cancelled_at t j)"
  by (auto simp: evolves_def)

lemma evolves_update:
  assumes inv: "queue_inv db" and j: "row_at i db = Some j"
    and ids: "\<And>r. job_id (f r) = job_id r"
    and ok: "\<And>r. r \<in> set (jobs db) \<Longrightarrow> P r \<Longrightarrow> evolves r (f r)"
  shows "\<exists>j'. row_at i (db\<lparr>jobs := update_where P f (jobs db)\<rparr>) = Some j' \<and> evolves j j'"
proof -
  from j have "row_at i (db\<lparr>jobs := update_where P f (jobs db)\<rparr>) = Some (if P j then f j else j)"
    by (simp add: row_at_def find_update_where_key [where h = job_id, OF ids])
  moreover have "evolves j (if P j then f j else j)"
    using row_at_Some [OF j] ok by simp
  ultimately show ?thesis by blast
qed

lemma evolves_live:
  assumes "job_state r \<notin> set TERMINAL_STATES"
  shows "evolves r (stamp_claim w m t r)" "evolves r (stamp_succeeded t r)"
    "evolves r (stamp_dead e t r)" "evolves r (stamp_retry e a t r)" "evolves r (stamp_stale m t r)"
    "evolves r (touch t (r\<lparr>job_state := s\<rparr>))" "evolves r (touch t (r\<lparr>locked_at := b\<rparr>))"
    "evolves r (touch t (r\<lparr>job_state := s, locked_by := None, locked_at := None\<rparr>))"
  using assms
  by (auto simp: evolves_def stamp_claim_def stamp_succeeded_def stamp_dead_def stamp_retry_def
      stamp_stale_def touch_def Let_def slot_def)

lemma live_states: "s = RUNNING \<or> s \<in> set CLAIMABLE_STATES \<Longrightarrow> s \<notin> set TERMINAL_STATES"
  by (auto simp: state_lists)

lemma evolves_set_row:
  assumes "queue_inv db" and "row_at i db = Some j" and "\<And>r. job_id (f r) = job_id r"
    and "row \<in> set (jobs db)" and "evolves row (f row)"
  shows "\<exists>j'. row_at i (set_row (job_id row) f db) = Some j' \<and> evolves j j'"
  unfolding set_row_def
proof (rule evolves_update [OF assms(1,2,3)])
  fix r assume "r \<in> set (jobs db)" "job_id r = job_id row"
  with assms(1,4) have "r = row" by (auto simp: queue_inv_def distinct_map inj_on_def)
  with assms(5) show "evolves r (f r)" by simp
qed

text \<open>\<open>kept db db'\<close>: every row of \<open>db\<close> is gone or has evolved.\<close>

definition kept :: "queue_db \<Rightarrow> queue_db \<Rightarrow> bool" where
  "kept db db' \<longleftrightarrow> (\<forall>i j. row_at i db = Some j \<longrightarrow>
     row_at i db' = None \<or> (\<exists>j'. row_at i db' = Some j' \<and> evolves j j'))"

lemma keptI: "(\<And>i j. row_at i db = Some j \<Longrightarrow> \<exists>j'. row_at i db' = Some j' \<and> evolves j j') \<Longrightarrow> kept db db'"
  by (simp add: kept_def)

lemma kept_refl: "kept db db"
  by (auto intro: keptI)

lemma kept_scope: "kept db (set_tenant_scope org db)"
  by (auto intro: keptI)

lemma kept_update:
  assumes "queue_inv db" and "jobs db' = update_where P f (jobs db)"
    and "\<And>r. job_id (f r) = job_id r"
    and "\<And>r. r \<in> set (jobs db) \<Longrightarrow> P r \<Longrightarrow> evolves r (f r)"
  shows "kept db db'"
  using evolves_update [OF assms(1) _ assms(3,4)] assms(2) by (auto intro!: keptI simp: row_at_def)

lemma kept_enqueue: "kept db (snd (enqueue a now t db))"
proof -
  have "row_at i (snd (enqueue a now t db)) = Some j" if "row_at i db = Some j" for i j
    using that by (auto simp: row_at_def enqueue_def Let_def find_append
        split: sum.splits option.splits)
  then show ?thesis by (auto intro: keptI)
qed

lemma kept_claim: "queue_inv db \<Longrightarrow> kept db (snd (claim busy w n m t db))"
proof -
  assume inv: "queue_inv db"
  let ?ids = "map job_id (order_limit claim_order n (filter (due busy m) (jobs db)))"
  have "evolves r (stamp_claim w m t r)" if "r \<in> set (jobs db)" "job_id r \<in> set ?ids" for r
    using picked_due [OF inv that] by (auto simp: due_def intro!: evolves_live live_states)
  then show ?thesis
    by (intro kept_update [OF inv, where P = "\<lambda>r. job_id r \<in> set ?ids"
          and f = "stamp_claim w m t"]) (simp_all add: claim_def Let_def)
qed

lemma kept_settle:
  assumes "queue_inv db" and "owned_running_job i w db = Inr (Some row)"
    and "\<And>r. job_id (f r) = job_id r" and "evolves row (f row)"
  shows "kept db (set_row (job_id row) f db)"
  using evolves_set_row [OF assms(1) _ assms(3) owned_running_Some(1) [OF assms(2)] assms(4)]
  by (auto intro: keptI)

lemma kept_mark_succeeded: "queue_inv db \<Longrightarrow> kept db (snd (mark_succeeded j owner t db))"
  by (auto simp: mark_succeeded_def kept_refl split: sum.splits option.splits
      intro!: kept_settle evolves_live live_states dest: owned_running_Some(3))

lemma kept_fail: "queue_inv db \<Longrightarrow> kept db (snd (fail j e perm owner nb m t db))"
  by (auto simp: fail_def kept_refl split: sum.splits option.splits
      intro!: kept_settle evolves_live live_states dest: owned_running_Some(3))

lemma cancel_read_Some:
  assumes "cancel_read k org db = Inr (Some j)"
  shows "j \<in> set (jobs db)" "slot j = (org, k)" "job_state j \<in> set CLAIMABLE_STATES"
proof -
  from assms have "filter (same_slot org k) (jobs db) = [j]"
    and st: "job_state j \<in> set CLAIMABLE_STATES"
    by (auto simp: cancel_read_def scalar_one_or_none_cases
        split: sum.splits option.splits if_splits list.splits)
  from filter_single [OF this(1)] st
  show "j \<in> set (jobs db)" "slot j = (org, k)" "job_state j \<in> set CLAIMABLE_STATES"
    by (auto simp: same_slot_iff)
qed

lemma kept_cancel_write: "queue_inv db \<Longrightarrow> kept db (cancel_write j t db)"
  by (rule kept_update [where P = "\<lambda>r. job_id r = job_id j" and f = "cancelled_at t"])
    (simp_all add: cancel_write_eq set_row_def)

lemma kept_refresh: "queue_inv db \<Longrightarrow> kept db (refresh_payload renew t db)"
  by (rule kept_update [where P = "\<lambda>j. job_state j \<in> set CLAIMABLE_STATES \<and> renew j \<noteq> None"
        and f = "\<lambda>j. touch t (j\<lparr>job_payload := (case renew j of None \<Rightarrow> job_payload j | Some p \<Rightarrow> p)\<rparr>)"])
    (auto simp: refresh_payload_def evolves_def touch_def slot_def state_lists split: option.splits)

lemma kept_drain: "queue_inv db \<Longrightarrow> kept db (snd (requeue_locked w t db))"
  by (rule kept_update [where P = "held_by w"
        and f = "\<lambda>j. touch t (j\<lparr>job_state := QUEUED, locked_by := None, locked_at := None\<rparr>)"])
    (auto simp: requeue_locked_def Let_def held_by_def intro!: evolves_live live_states)

lemma kept_heartbeat: "queue_inv db \<Longrightarrow> kept db (snd (heartbeat w i m t db))"
  by (rule kept_update [where P = "\<lambda>j. job_id j = i \<and> held_by w j"
        and f = "\<lambda>j. touch t (j\<lparr>locked_at := Some m\<rparr>)"])
    (auto simp: heartbeat_def Let_def held_by_def intro!: evolves_live live_states)

lemma kept_stale: "queue_inv db \<Longrightarrow> kept db (snd (requeue_stale busy lt n m t db))"
proof -
  assume inv: "queue_inv db"
  let ?ids = "map job_id (order_limit locked_at_key n
    (filter (lease_expired busy (m - lt)) (jobs db)))"
  have "evolves r (stamp_stale m t r)" if "r \<in> set (jobs db)" "job_id r \<in> set ?ids" for r
    using picked_due [OF inv that] by (auto simp: lease_expired_def intro!: evolves_live live_states)
  then show ?thesis
    by (intro kept_update [OF inv, where P = "\<lambda>r. job_id r \<in> set ?ids"
          and f = "stamp_stale m t"]) (simp_all add: requeue_stale_def Let_def)
qed

lemma kept_gc: "queue_inv db \<Longrightarrow> kept db (snd (gc_terminal_jobs d n now db))"
proof -
  assume inv: "queue_inv db"
  have "row_at i (db\<lparr>jobs := filter P (jobs db), tenant_scope := s\<rparr>) \<in> {None, Some j}"
    if "row_at i db = Some j" for i j P s
  proof (cases "row_at i (db\<lparr>jobs := filter P (jobs db), tenant_scope := s\<rparr>)")
    case (Some k)
    then have "k \<in> set (jobs db)" "job_id k = i" by (auto simp: row_at_def dest: find_mem)
    with row_at_mem [OF inv] that have "k = j" by auto
    with Some show ?thesis by simp
  qed simp
  then show ?thesis
    by (fastforce simp: kept_def gc_terminal_jobs_def Let_def set_tenant_scope_def row_at_def)
qed

lemma queue_step_kept: "queue_step db db' \<Longrightarrow> queue_inv db \<Longrightarrow> kept db db'"
  by (induction rule: queue_step.induct)
    (simp_all add: kept_enqueue kept_claim kept_mark_succeeded kept_fail kept_cancel_write kept_refresh
      kept_drain kept_heartbeat kept_stale kept_gc kept_scope)

end
