(* ===== verification/QueueContract.thy ===== *)
theory QueueContract
  imports QueueTheorems
begin

text \<open>
  The lease contract between the queue and its workers as a locale, its interpretation on
  \<open>mark_succeeded\<close> and \<open>fail\<close>, and the queue's properties with their witnesses.
\<close>

section \<open>The settlement contract\<close>

text \<open>
  A settle operation of a leased object: only the present holder may settle, settling releases
  the lease, and a refused or failed settle changes nothing.
\<close>

locale settlement =
  fixes inv :: "'s \<Rightarrow> bool"
    and holder :: "'s \<Rightarrow> string option"
    and ok :: "'r \<Rightarrow> bool"
    and refused :: 'r
    and settle :: "string \<Rightarrow> 's \<Rightarrow> 'r \<times> 's"
  assumes refused_not_ok: "\<not> ok refused"
    and intruder: "inv s \<Longrightarrow> holder s \<noteq> Some w \<Longrightarrow> settle w s = (refused, s)"
    and releases: "inv s \<Longrightarrow> ok (fst (settle w s)) \<Longrightarrow> holder (snd (settle w s)) = None"
    and frame: "inv s \<Longrightarrow> \<not> ok (fst (settle w s)) \<Longrightarrow> snd (settle w s) = s"
    and keeps: "inv s \<Longrightarrow> inv (snd (settle w s))"
begin

lemma settled_by_holder: "inv s \<Longrightarrow> ok (fst (settle w s)) \<Longrightarrow> holder s = Some w"
  using intruder refused_not_ok by fastforce

lemma settled_once: "inv s \<Longrightarrow> ok (fst (settle w s)) \<Longrightarrow>
    settle w' (snd (settle w s)) = (refused, snd (settle w s))"
  by (simp add: intruder keeps releases)

end

text \<open>Two verdicts over one lease: whichever is recorded first, the other is refused.\<close>

locale settlement_pair =
  good: settlement inv holder ok refused success + bad: settlement inv holder ok refused failure
  for inv :: "'s \<Rightarrow> bool" and holder ok refused
    and success failure :: "string \<Rightarrow> 's \<Rightarrow> 'r \<times> 's"
begin

lemma first_verdict_stands:
  "inv s \<Longrightarrow> ok (fst (success w s)) \<Longrightarrow>
     failure w' (snd (success w s)) = (refused, snd (success w s))"
  "inv s \<Longrightarrow> ok (fst (failure w s)) \<Longrightarrow>
     success w' (snd (failure w s)) = (refused, snd (failure w s))"
  by (simp_all add: good.intruder bad.intruder good.keeps bad.keeps good.releases bad.releases)

end

section \<open>The queue provides it\<close>

text \<open>The holder of a job's lease: the worker a running row is locked by.\<close>

definition holder :: "int \<Rightarrow> queue_db \<Rightarrow> string option" where
  "holder i db = (case row_at i db of None \<Rightarrow> None
     | Some j \<Rightarrow> if job_state j = RUNNING then locked_by j else None)"

lemma queue_inv_running:
  "queue_inv db \<Longrightarrow> j \<in> set (jobs db) \<Longrightarrow> job_state j = RUNNING \<Longrightarrow> locked_by j \<noteq> None"
  using queue_inv_rows [of db j] by (auto simp: row_ok_def lease_ok_def)

lemma owned_running_None:
  assumes "queue_inv db" and "holder i db \<noteq> Some w"
  shows "owned_running_job i (Some w) db = Inr None"
proof (cases "i \<in> job_id ` set (jobs db)")
  case True
  then obtain r where r: "r \<in> set (jobs db)" "job_id r = i" by blast
  with assms(1) have "filter (\<lambda>j. job_id j = i) (jobs db) = [r]" and "row_at i db = Some r"
    using filter_distinct_key [of job_id "jobs db" r] row_at_mem [OF assms(1), of r]
    by (auto simp: queue_inv_def)
  with assms(2) show ?thesis by (auto simp: owned_running_job_def holder_def)
qed (simp add: owned_running_job_def filter_no_key)

lemma owned_running_holder:
  assumes "queue_inv db" and "holder i db = Some w"
  obtains r where "row_at i db = Some r" "owned_running_job i (Some w) db = Inr (Some r)"
    "job_state r = RUNNING" "job_id r = i" "r \<in> set (jobs db)"
proof -
  from assms(2) obtain r where r: "row_at i db = Some r" "locked_by r = Some w" "job_state r = RUNNING"
    by (auto simp: holder_def split: option.splits if_splits)
  with row_at_Some have m: "r \<in> set (jobs db)" "job_id r = i" by auto
  with assms(1) have "filter (\<lambda>j. job_id j = i) (jobs db) = [r]"
    using filter_distinct_key [of job_id "jobs db" r]
    by (auto simp: queue_inv_def)
  with r m that show ?thesis by (simp add: owned_running_job_def)
qed

lemma row_at_set_row:
  "(\<And>r. job_id (f r) = job_id r) \<Longrightarrow>
     row_at i (set_row k f db) = map_option (\<lambda>r. if job_id r = k then f r else r) (row_at i db)"
  by (simp add: row_at_def set_row_def find_update_where_key)

lemma stamps_release [simp]:
  "locked_by (stamp_succeeded t j) = None" "locked_by (stamp_dead e t j) = None"
  "locked_by (stamp_retry e a t j) = None" "locked_by (stamp_stale m t j) = None"
  by (simp_all add: stamp_succeeded_def stamp_dead_def stamp_retry_def stamp_stale_def
      touch_def Let_def)

lemma settle_refused:
  assumes "queue_inv db" and "holder (job_id j) db \<noteq> Some w"
  shows "mark_succeeded j (Some w) t db = (Inr False, db)"
    "fail j e perm (Some w) nb m t db = (Inr False, db)"
  using owned_running_None [OF assms]
  by (simp_all add: mark_succeeded_def fail_def expected_owner_def)

lemma mark_succeeded_holder:
  assumes "queue_inv db" and "holder (job_id j) db = Some w"
  shows "mark_succeeded j (Some w) t db = (Inr True, set_row (job_id j) (stamp_succeeded t) db)"
proof -
  from owned_running_holder [OF assms] obtain r
    where "owned_running_job (job_id j) (Some w) db = Inr (Some r)" "job_id r = job_id j" by blast
  then show ?thesis by (simp add: mark_succeeded_def expected_owner_def)
qed

lemma holder_released:
  "row_at i db = Some r \<Longrightarrow> job_id r = i \<Longrightarrow> (\<And>r. job_id (f r) = job_id r) \<Longrightarrow>
     locked_by (f r) = None \<Longrightarrow> holder i (set_row i f db) = None"
  by (simp add: holder_def row_at_set_row)

interpretation lease: settlement_pair queue_inv "holder (job_id j)" "\<lambda>r. r = Inr True" "Inr False"
  "\<lambda>w. mark_succeeded j (Some w) t" "\<lambda>w. fail j e perm (Some w) nb m t"
  for j t e perm nb m
proof
  fix s w
  assume inv: "queue_inv s"
  { assume "holder (job_id j) s \<noteq> Some w"
    with inv show "mark_succeeded j (Some w) t s = (Inr False, s)"
      and "fail j e perm (Some w) nb m t s = (Inr False, s)"
      by (simp_all add: settle_refused) }
  { assume "fst (mark_succeeded j (Some w) t s) = Inr True"
    then have h: "holder (job_id j) s = Some w"
      using settle_refused(1) [OF inv] by fastforce
    then obtain r where "row_at (job_id j) s = Some r" "job_id r = job_id j"
      using owned_running_holder [OF inv] by metis
    then show "holder (job_id j) (snd (mark_succeeded j (Some w) t s)) = None"
      by (simp add: mark_succeeded_holder [OF inv h] holder_released) }
  { assume ok: "fst (fail j e perm (Some w) nb m t s) = Inr True"
    then have "holder (job_id j) s = Some w"
      using settle_refused(2) [OF inv] by fastforce
    then obtain r where "row_at (job_id j) s = Some r" "job_id r = job_id j"
      "owned_running_job (job_id j) (Some w) s = Inr (Some r)"
      using owned_running_holder [OF inv] by metis
    with ok show "holder (job_id j) (snd (fail j e perm (Some w) nb m t s)) = None"
      by (auto simp: fail_def expected_owner_def holder_released split: sum.splits if_splits) }
  show "queue_inv (snd (mark_succeeded j (Some w) t s))"
    and "queue_inv (snd (fail j e perm (Some w) nb m t s))"
    by (simp_all add: inv mark_succeeded_inv fail_inv)
next
  fix s w
  show "fst (mark_succeeded j (Some w) t s) \<noteq> Inr True \<Longrightarrow> snd (mark_succeeded j (Some w) t s) = s"
    by (auto simp: mark_succeeded_def split: sum.splits option.splits)
  show "fst (fail j e perm (Some w) nb m t s) \<noteq> Inr True \<Longrightarrow> snd (fail j e perm (Some w) nb m t s) = s"
    by (auto simp: fail_def split: sum.splits option.splits if_splits)
qed simp

end
