(* ===== verification/QueueProperties.thy ===== *)
theory QueueProperties
  imports QueueContract
begin

text \<open>
  The properties of the job queue, each with a witness at a small concrete queue: one job
  enqueued by \<open>sample_args\<close>, claimed by worker \<open>w1\<close>.
\<close>

definition sample_args :: enqueue_args where
  "sample_args = \<lparr>e_job_type = DELIVER_INVITATION,
     e_payload = [(''invitation_id'', JStr ''i1''), (''accept_token'', JStr ''s3cret'')],
     e_key = ''deliver:i1'', e_priority = 0, e_max_attempts = 2, e_run_after = None,
     e_org = None, e_revision = None, e_principal_type = None, e_principal_id = None,
     e_permission = None, e_scope_kind = ''organization'', e_scope_id = None\<rparr>"

definition sample_queue :: queue_db where
  "sample_queue = snd (enqueue sample_args 0 0 empty_queue)"

definition sample_claimed :: queue_db where
  "sample_claimed = snd (claim {} ''w1'' 1 0 0 sample_queue)"

definition sample_job :: job where
  "sample_job = new_job sample_args (e_payload sample_args) 1 0 0"

lemma sample_payload_ok: "enqueue_payload sample_args = Inr (e_payload sample_args)"
  by (simp add: enqueue_payload_def sample_args_def has_key_def TENANT_ENVELOPE_KEY_def)

lemma sample_queue_eq: "sample_queue = \<lparr>jobs = [sample_job], next_job_id = 2, tenant_scope = ''''\<rparr>"
proof -
  have "e_org sample_args = None" by (simp add: sample_args_def)
  then show ?thesis
    by (simp add: sample_queue_def enqueue_def sample_payload_ok empty_queue_def Let_def
        same_slot_def sample_job_def)
qed

lemma sample_job_fields [simp]:
  "job_id sample_job = 1" "job_state sample_job = QUEUED" "run_after sample_job = 0"
  "attempts sample_job = 0" "max_attempts sample_job = 2" "priority sample_job = 0"
  "organization_id sample_job = None" "idempotency_key sample_job = ''deliver:i1''"
  "job_payload sample_job = e_payload sample_args"
  by (simp_all add: sample_job_def new_job_def) (simp_all add: sample_args_def)

lemma sample_due [simp]: "due {} 0 sample_job"
  by (simp add: due_def state_lists)

lemma sample_claim_pair: "claim {} ''w1'' 1 0 0 sample_queue = ([stamp_claim ''w1'' 0 0 sample_job],
    \<lparr>jobs = [stamp_claim ''w1'' 0 0 sample_job], next_job_id = 2, tenant_scope = ''*''\<rparr>)"
  by (simp add: sample_queue_eq claim_def set_tenant_scope_def)

lemma sample_claimed_eq: "sample_claimed = \<lparr>jobs = [stamp_claim ''w1'' 0 0 sample_job],
    next_job_id = 2, tenant_scope = ''*''\<rparr>"
  by (simp only: sample_claimed_def sample_claim_pair snd_conv)

lemma sample_reachable: "queue_reachable sample_queue" "queue_reachable sample_claimed"
proof -
  show *: "queue_reachable sample_queue"
    unfolding sample_queue_def by (rule reach_step [OF reach_empty step_enqueue])
  show "queue_reachable sample_claimed"
    unfolding sample_claimed_def by (rule reach_step [OF * step_claim])
qed

lemmas sample_inv = sample_reachable [THEN reachable_inv]

lemma sample_holder: "holder 1 sample_claimed = Some ''w1''"
  by (simp add: holder_def row_at_def sample_claimed_eq stamp_claim_def touch_def)

lemma sample_claim: "claim {} ''w1'' 1 0 0 sample_queue
    = ([stamp_claim ''w1'' 0 0 sample_job], sample_claimed)"
  by (simp only: sample_claim_pair sample_claimed_eq)

text \<open>C25. Whatever transactions run and in whatever order from an empty table, with cancels
  written late over whatever their row has become: the two lease columns of a row are set or
  cleared together; a running row is leased, and only a running row or one cancelled under its
  worker carries a lease; attempts never exceed the limit (one, for a limit below one) and stay
  below it while the row is live; a succeeded or dead-lettered row holds no credential; job ids
  are unique and below the sequence, and so are (tenant, idempotency key) slots.\<close>

theorem queue_runs_keep_invariant:
  assumes "queue_reachable db"
  shows "(\<forall>j \<in> set (jobs db).
      (locked_by j = None \<longleftrightarrow> locked_at j = None)
      \<and> (job_state j = RUNNING \<longrightarrow> locked_by j \<noteq> None)
      \<and> (locked_by j \<noteq> None \<longrightarrow> job_state j \<in> {RUNNING, CANCELLED})
      \<and> int (attempts j) \<le> max 1 (max_attempts j)
      \<and> (job_state j \<in> {QUEUED, RUNNING, RETRY_SCHEDULED} \<longrightarrow> int (attempts j) < max 1 (max_attempts j))
      \<and> (job_state j \<in> {SUCCEEDED, DEAD_LETTER} \<longrightarrow>
           (\<forall>(k, v) \<in> set (job_payload j). k \<in> set SENSITIVE_PAYLOAD_KEYS \<longrightarrow> v = JStr ''[delivered]''))
      \<and> job_id j < next_job_id db)
    \<and> distinct (map job_id (jobs db))
    \<and> distinct (map (\<lambda>j. (organization_id j, idempotency_key j)) (jobs db))"
proof -
  note inv = reachable_inv [OF assms]
  have "map slot (jobs db) = map (\<lambda>j. (organization_id j, idempotency_key j)) (jobs db)"
    by (simp add: slot_def)
  with inv show ?thesis
    by (auto simp: queue_inv_def row_ok_def lease_ok_def attempts_ok_def scrubbed_def TERMINAL_STATES_def)
qed

text \<open>The sample job cancelled by a cancel that read it before \<open>w1\<close> claimed it.\<close>

definition sample_cancelled :: queue_db where
  "sample_cancelled = cancel_write sample_job 4 sample_claimed"

lemma sample_cancelled_jobs:
  "jobs sample_cancelled = [cancelled_at 4 (stamp_claim ''w1'' 0 0 sample_job)]"
  by (simp add: sample_cancelled_def cancel_write_eq set_row_def sample_claimed_eq)

lemma sample_cancel_read: "cancel_read ''deliver:i1'' None sample_queue = Inr (Some sample_job)"
  by (simp add: cancel_read_def sample_queue_eq same_slot_def state_lists)

lemma sample_cancelled_reachable: "queue_reachable sample_cancelled"
  unfolding sample_cancelled_def
  by (rule reach_step [OF sample_reachable(2) step_cancel_write [OF sample_cancel_read]])

theorem queue_runs_keep_invariant_witness:
  "\<exists>j \<in> set (jobs sample_cancelled). job_state j = CANCELLED \<and> locked_by j = Some ''w1''
     \<and> locked_at j \<noteq> None"
proof -
  let ?j = "cancelled_at 4 (stamp_claim ''w1'' 0 0 sample_job)"
  have j: "?j \<in> set (jobs sample_cancelled)" "locked_by ?j = Some ''w1''"
    by (simp_all add: sample_cancelled_jobs stamp_claim_def touch_def)
  with queue_runs_keep_invariant [OF sample_cancelled_reachable] have "locked_at ?j \<noteq> None"
    by (metis option.distinct(1))
  with j show ?thesis by (intro bexI [of _ ?j]) simp_all
qed

text \<open>C26. A job is settled once. When a worker's success or failure report is accepted, that
  worker held the lease, and every later report, of success or of failure and from any worker, is
  refused with \<open>False\<close> and changes nothing.\<close>

theorem first_verdict_is_final:
  assumes "queue_inv db"
    and "fst (mark_succeeded j (Some w) t db) = Inr True"
  shows "holder (job_id j) db = Some w
    \<and> mark_succeeded j (Some w') t' (snd (mark_succeeded j (Some w) t db))
           = (Inr False, snd (mark_succeeded j (Some w) t db))
    \<and> fail j e perm (Some w') nb m t' (snd (mark_succeeded j (Some w) t db))
           = (Inr False, snd (mark_succeeded j (Some w) t db))"
proof (intro conjI)
  show "holder (job_id j) db = Some w"
    by (rule lease.good.settled_by_holder [OF assms])
  have "holder (job_id j) (snd (mark_succeeded j (Some w) t db)) \<noteq> Some w'"
    using lease.good.releases [OF assms] by simp
  note refused = settle_refused [OF lease.good.keeps [OF assms(1)] this]
  show "mark_succeeded j (Some w') t' (snd (mark_succeeded j (Some w) t db))
           = (Inr False, snd (mark_succeeded j (Some w) t db))"
    by (rule refused(1))
  show "fail j e perm (Some w') nb m t' (snd (mark_succeeded j (Some w) t db))
           = (Inr False, snd (mark_succeeded j (Some w) t db))"
    by (rule refused(2))
qed

theorem first_verdict_is_final_witness:
  "fst (mark_succeeded sample_job (Some ''w1'') 5 sample_claimed) = Inr True
   \<and> fst (fail sample_job ''late'' True (Some ''w2'') None 9 9
            (snd (mark_succeeded sample_job (Some ''w1'') 5 sample_claimed))) = Inr False"
proof -
  have h: "fst (mark_succeeded sample_job (Some ''w1'') 5 sample_claimed) = Inr True"
    using mark_succeeded_holder [OF sample_inv(2)] sample_holder by simp
  with first_verdict_is_final [OF sample_inv(2) h, where w' = "''w2''" and e = "''late''" and perm = True and nb = None and m = 9 and t' = 9]
  show ?thesis by simp
qed

text \<open>C31. Two claims never hand out the same job: after one worker has claimed, another claim, by
  any worker, at any time and with any batch size, returns only other jobs.\<close>

theorem claims_are_exclusive:
  assumes "queue_inv db"
  shows "job_id ` set (fst (claim busy w n m t db))
       \<inter> job_id ` set (fst (claim busy' w' n' m' t' (snd (claim busy w n m t db)))) = {}"
proof -
  let ?db1 = "snd (claim busy w n m t db)"
  let ?ids = "map job_id (order_limit claim_order n (filter (due busy m) (jobs db)))"
  have claimed: "job_id ` set (fst (claim busy w n m t db)) = set ?ids"
    by (auto simp: claim_def Let_def image_iff)
  have "job_state j = RUNNING" if "j \<in> set (jobs ?db1)" "job_id j \<in> set ?ids" for j
    using that by (auto simp: claim_def Let_def set_update_where stamp_claim_def touch_def)
  moreover have "\<exists>j \<in> set (jobs ?db1). job_id j = i \<and> job_state j \<noteq> RUNNING"
    if "i \<in> job_id ` set (fst (claim busy' w' n' m' t' ?db1))" for i
    using that set_order_limit by (fastforce simp: claim_def Let_def due_def state_lists)
  ultimately show ?thesis using claimed by blast
qed

theorem claims_are_exclusive_witness:
  "fst (claim {} ''w1'' 1 0 0 sample_queue) \<noteq> []
   \<and> job_id ` set (fst (claim {} ''w1'' 1 0 0 sample_queue))
       \<inter> job_id ` set (fst (claim {} ''w2'' 5 9 9 (snd (claim {} ''w1'' 1 0 0 sample_queue)))) = {}"
  using claims_are_exclusive [OF sample_inv(1), of "{}" "''w1''" 1 0 0 "{}" "''w2''" 5 9 9]
  by (simp add: sample_claim del: One_nat_def)

text \<open>A claim takes as many due jobs as the batch allows, and no due job it leaves behind has a
  higher priority, or the same priority and an earlier \<open>run_after\<close>, than one it takes.\<close>

theorem claim_takes_the_best:
  "length (fst (claim busy w n m t db)) = min n (length (filter (due busy m) (jobs db)))
   \<and> (\<forall>c \<in> set (fst (claim busy w n m t db)). \<exists>r \<in> set (jobs db).
        due busy m r \<and> c = stamp_claim w m t r
        \<and> (\<forall>s \<in> set (jobs db). due busy m s \<longrightarrow>
             job_id s \<notin> job_id ` set (fst (claim busy w n m t db)) \<longrightarrow>
             priority s < priority r \<or> priority s = priority r \<and> run_after r \<le> run_after s))"
proof (intro conjI ballI)
  let ?due = "filter (due busy m) (jobs db)"
  let ?best = "order_limit claim_order n ?due"
  show "length (fst (claim busy w n m t db)) = min n (length ?due)"
    by (simp add: claim_def Let_def)
  fix c assume "c \<in> set (fst (claim busy w n m t db))"
  then obtain r where r: "r \<in> set ?best" "c = stamp_claim w m t r"
    by (auto simp: claim_def Let_def)
  have ids: "job_id ` set (fst (claim busy w n m t db)) = job_id ` set ?best"
    by (auto simp: claim_def Let_def image_iff)
  have "priority s < priority r \<or> priority s = priority r \<and> run_after r \<le> run_after s"
    if "s \<in> set (jobs db)" "due busy m s" "job_id s \<notin> job_id ` set ?best" for s
  proof -
    from that have "s \<notin> set ?best" by blast
    with order_limit_best [OF r(1), of s] that show ?thesis
      by (auto simp: claim_order_def)
  qed
  with r set_order_limit ids show "\<exists>r \<in> set (jobs db). due busy m r \<and> c = stamp_claim w m t r
      \<and> (\<forall>s \<in> set (jobs db). due busy m s \<longrightarrow>
           job_id s \<notin> job_id ` set (fst (claim busy w n m t db)) \<longrightarrow>
           priority s < priority r \<or> priority s = priority r \<and> run_after r \<le> run_after s)"
    by (intro bexI [of _ r]) fastforce+
qed

theorem claim_takes_the_best_witness:
  "length (fst (claim {} ''w1'' 1 0 0 sample_queue)) = 1
   \<and> (\<exists>r \<in> set (jobs sample_queue). due {} 0 r \<and> stamp_claim ''w1'' 0 0 sample_job = stamp_claim ''w1'' 0 0 r)"
  using claim_takes_the_best [of "{}" "''w1''" 1 0 0 sample_queue]
  unfolding sample_claim by auto

section \<open>Failure, expiry and heartbeat\<close>

lemma min_pow2: "2 \<le> min (300 :: int) (2 ^ Suc n)"
proof -
  have "(2::int) ^ 1 \<le> 2 ^ Suc n" by (rule power_increasing) simp_all
  then show ?thesis by simp
qed

text \<open>A failure reported by the lease holder is always accepted while fewer than 1023 attempts
  have been made: the attempt is counted and the lease released; the job is dead-lettered with a
  scrubbed payload exactly when the failure is permanent or the limit is reached, and otherwise
  rescheduled at the backoff \<open>min 300 (2 ^ attempts)\<close> seconds from now, or at a later moment the
  failure named; never earlier than two seconds from now.\<close>

theorem failure_outcome:
  assumes inv: "queue_inv db" and h: "holder (job_id j) db = Some w"
    and r: "row_at (job_id j) db = Some r" and few: "attempts r < 1023"
  shows "fst (fail j e perm (Some w) nb m t db) = Inr True
    \<and> (\<exists>r'. row_at (job_id j) (snd (fail j e perm (Some w) nb m t db)) = Some r'
        \<and> attempts r' = attempts r + 1 \<and> locked_by r' = None
        \<and> (if perm \<or> max_attempts r \<le> int (attempts r) + 1
            then job_state r' = DEAD_LETTER \<and> scrubbed (job_payload r')
            else job_state r' = RETRY_SCHEDULED \<and> job_payload r' = job_payload r
              \<and> run_after r' = max (m + seconds (min 300 (2 ^ (attempts r + 1))))
                                 (case nb of None \<Rightarrow> m | Some x \<Rightarrow> x)
              \<and> m + seconds 2 \<le> run_after r'))"
proof -
  obtain r0 where "row_at (job_id j) db = Some r0" "job_id r0 = job_id j"
    "owned_running_job (job_id j) (Some w) db = Inr (Some r0)"
    using owned_running_holder [OF inv h] by metis
  with r have own: "owned_running_job (job_id j) (Some w) db = Inr (Some r)"
    and id: "job_id r = job_id j" by simp_all
  have bo: "backoff_seconds (Suc (attempts r)) = Inr (min 300 (2 ^ Suc (attempts r)))"
    using few by (simp add: backoff_seconds_def)
  show ?thesis
  proof (cases "perm \<or> max_attempts r \<le> int (attempts r) + 1")
    case True
    then have "fail j e perm (Some w) nb m t db = (Inr True, set_row (job_id j) (stamp_dead e t) db)"
      using own id by (auto simp: fail_def expected_owner_def)
    then show ?thesis
      using True r id by (auto simp: row_at_set_row stamp_dead_def touch_def)
  next
    case False
    let ?at = "retry_at m (min 300 (2 ^ Suc (attempts r))) nb"
    have "fail j e perm (Some w) nb m t db = (Inr True, set_row (job_id j) (stamp_retry e ?at t) db)"
      using False own id bo by (auto simp: fail_def expected_owner_def)
    moreover have "?at = max (m + seconds (min 300 (2 ^ Suc (attempts r))))
        (case nb of None \<Rightarrow> m | Some x \<Rightarrow> x)"
      using min_pow2 [of "attempts r"] by (auto simp: retry_at_def Let_def split: option.splits)
    moreover have "m + seconds 2 \<le> max (m + seconds (min 300 (2 ^ Suc (attempts r)))) x" for x
      using min_pow2 [of "attempts r"] by linarith
    ultimately show ?thesis
      using False r id by (simp add: row_at_set_row stamp_retry_def touch_def)
  qed
qed

lemma sample_row: "row_at 1 sample_claimed = Some (stamp_claim ''w1'' 0 0 sample_job)"
  by (simp add: row_at_def sample_claimed_eq)

theorem failure_outcome_witness:
  "\<exists>r'. row_at 1 (snd (fail sample_job ''smtp'' False (Some ''w1'') None 10 10 sample_claimed)) = Some r'
     \<and> job_state r' = RETRY_SCHEDULED \<and> run_after r' = 10 + seconds 2"
proof -
  let ?r = "stamp_claim ''w1'' 0 0 sample_job"
  have "holder (job_id sample_job) sample_claimed = Some ''w1''" "attempts ?r < 1023"
    "row_at (job_id sample_job) sample_claimed = Some ?r" "max_attempts ?r = 2" "attempts ?r = 0"
    by (simp_all add: sample_holder sample_row stamp_claim_def touch_def)
  with failure_outcome [OF sample_inv(2) this(1,3,2), of "''smtp''" False None 10 10]
  show ?thesis by auto
qed

text \<open>C40. An expired lease is reclaimed and its worker loses the job: when every expired lease fits in
  the pass and no open transaction locks one, a running job whose lease is at least the timeout old is
  released with one attempt counted and the time of the pass as its next run, queued again or, at its
  limit, dead-lettered with a payload that holds no credential; and any report about it, of success or
  failure and from whatever worker, is then refused.\<close>

theorem expired_lease_is_reclaimed:
  assumes inv: "queue_inv db" and j: "j \<in> set (jobs db)"
    and exp: "lease_expired {} (m - lt) j"
    and fits: "length (filter (lease_expired {} (m - lt)) (jobs db)) \<le> n"
  shows "(\<exists>r. row_at (job_id j) (snd (requeue_stale {} lt n m t db)) = Some r
      \<and> attempts r = attempts j + 1 \<and> run_after r = m \<and> locked_by r = None \<and> locked_at r = None
      \<and> (if max_attempts j \<le> int (attempts j) + 1
         then job_state r = DEAD_LETTER \<and> scrubbed (job_payload r)
         else job_state r = QUEUED \<and> job_payload r = job_payload j))
    \<and> fst (mark_succeeded j (Some w) t' (snd (requeue_stale {} lt n m t db))) = Inr False
    \<and> fst (fail j e perm (Some w) nb m' t' (snd (requeue_stale {} lt n m t db))) = Inr False"
proof -
  let ?db1 = "snd (requeue_stale {} lt n m t db)"
  let ?ids = "map job_id (order_limit locked_at_key n (filter (lease_expired {} (m - lt)) (jobs db)))"
  have "job_id j \<in> set ?ids"
    using j exp by (simp add: order_limit_all [OF fits])
  then have row: "row_at (job_id j) ?db1 = Some (stamp_stale m t j)"
    using row_at_mem [OF inv j]
    by (simp add: row_at_def requeue_stale_def Let_def find_update_where_key
        [where h = job_id and f = "stamp_stale m t", simplified])
  then have "holder (job_id j) ?db1 \<noteq> Some w" for w
    by (simp add: holder_def)
  with settle_refused [OF requeue_stale_inv [OF inv]] row show ?thesis
    by (simp add: stamp_stale_def touch_def Let_def)
qed

theorem expired_lease_is_reclaimed_witness:
  "fst (mark_succeeded (stamp_claim ''w1'' 0 0 sample_job) (Some ''w1'') 9
      (snd (requeue_stale {} (seconds 900) 500 (seconds 900) 9 sample_claimed))) = Inr False"
proof -
  let ?j = "stamp_claim ''w1'' 0 0 sample_job"
  have "?j \<in> set (jobs sample_claimed)" "lease_expired {} (seconds 900 - seconds 900) ?j"
    "length (filter (lease_expired {} (seconds 900 - seconds 900)) (jobs sample_claimed)) \<le> 500"
    by (simp_all add: sample_claimed_eq stamp_claim_def touch_def lease_expired_def)
  from expired_lease_is_reclaimed [OF sample_inv(2) this] show ?thesis by blast
qed

text \<open>A worker that beats in time keeps its job: after a successful heartbeat at \<open>m\<close>, a recovery
  pass running less than the lease timeout later leaves the job running under that worker.\<close>

theorem heartbeat_keeps_the_lease:
  assumes inv: "queue_inv db" and beat: "fst (heartbeat w i m t db)" and intime: "m' - lt < m"
  shows "holder i (snd (requeue_stale busy lt n m' t' (snd (heartbeat w i m t db)))) = Some w"
proof -
  let ?db1 = "snd (heartbeat w i m t db)"
  let ?f = "\<lambda>j. touch t (j\<lparr>locked_at := Some m\<rparr>)"
  have "filter (\<lambda>j. job_id j = i \<and> held_by w j) (jobs db) \<noteq> []"
    using beat by (auto simp: heartbeat_def Let_def rowcount_def)
  then obtain r where r: "r \<in> set (jobs db)" "job_id r = i" "held_by w r"
    by (auto simp: filter_empty_conv)
  then have row: "row_at i ?db1 = Some (?f r)"
    using row_at_mem [OF inv r(1)]
    by (simp add: row_at_def heartbeat_def Let_def find_update_where_key [where h = job_id and f = ?f])
  let ?ids = "map job_id (order_limit locked_at_key n (filter (lease_expired busy (m' - lt)) (jobs ?db1)))"
  have "i \<notin> set ?ids"
  proof
    assume "i \<in> set ?ids"
    then obtain s where "s \<in> set (jobs ?db1)" "job_id s = i" "lease_expired busy (m' - lt) s"
      using set_order_limit by fastforce
    moreover from this row have "s = ?f r"
      using row_at_mem [OF heartbeat_inv [OF inv], of s] by (metis option.inject)
    ultimately show False using intime by (simp add: lease_expired_def touch_def)
  qed
  with row have "row_at i (snd (requeue_stale busy lt n m' t' ?db1)) = Some (?f r)"
    using row_at_Some [OF row]
    by (simp add: row_at_def requeue_stale_def Let_def find_update_where_key
        [where h = job_id and f = "stamp_stale m' t'", simplified])
  with r(3) show ?thesis by (simp add: holder_def touch_def held_by_def)
qed

theorem heartbeat_keeps_the_lease_witness:
  "fst (heartbeat ''w1'' 1 (seconds 30) 0 sample_claimed)
   \<and> holder 1 (snd (requeue_stale {} (seconds 900) 500 (seconds 920) 0
        (snd (heartbeat ''w1'' 1 (seconds 30) 0 sample_claimed)))) = Some ''w1''"
proof -
  have h: "fst (heartbeat ''w1'' 1 (seconds 30) 0 sample_claimed)"
    by (simp add: heartbeat_def Let_def rowcount_def sample_claimed_eq held_by_def stamp_claim_def
        touch_def set_tenant_scope_def)
  with heartbeat_keeps_the_lease [OF sample_inv(2) h, of "seconds 920" "seconds 900" "{}" 500 0]
  show ?thesis by simp
qed

section \<open>Enqueue\<close>

lemma enqueue_reads_back: "enqueue_payload a = Inr p \<Longrightarrow> fst (enqueue a now t db) =
    (case scalar_one (filter (same_slot (e_org a) (e_key a)) (jobs (snd (enqueue a now t db)))) of
       Inl e \<Rightarrow> Inl (Raised e) | Inr j \<Rightarrow> Inr j)"
  by (simp add: enqueue_def Let_def del: set_tenant_scope_def split: sum.split)

lemma enqueue_result:
  assumes inv: "queue_inv db" and p: "enqueue_payload a = Inr p"
  obtains j where "fst (enqueue a now t db) = Inr j" "j \<in> set (jobs (snd (enqueue a now t db)))"
    "slot j = (e_org a, e_key a)"
    "jobs (snd (enqueue a now t db)) = jobs db \<or> (j = new_job a p (next_job_id db) now t
       \<and> jobs (snd (enqueue a now t db)) = jobs db @ [j])"
proof -
  let ?js = "if \<exists>j \<in> set (jobs db). same_slot (e_org a) (e_key a) j then jobs db
     else jobs db @ [new_job a p (next_job_id db) now t]"
  have js: "jobs (snd (enqueue a now t db)) = ?js"
    using p by (simp add: enqueue_def Let_def split: option.splits sum.splits)
  then have d: "distinct (map slot ?js)"
    using enqueue_inv [OF inv, of a now t] by (simp add: queue_inv_def)
  obtain j where j: "j \<in> set ?js" "slot j = (e_org a, e_key a)"
  proof (cases "\<exists>j \<in> set (jobs db). same_slot (e_org a) (e_key a) j")
    case True
    with that show ?thesis by (auto simp: same_slot_iff)
  next
    case False
    with that [of "new_job a p (next_job_id db) now t"] show ?thesis by simp
  qed
  then have "filter (same_slot (e_org a) (e_key a)) ?js = [j]"
    using filter_distinct_key [OF d j(1)] j(2)
    by (simp add: same_slot_iff [abs_def] cong: filter_cong split del: if_split)
  then have "fst (enqueue a now t db) = Inr j"
    by (simp only: enqueue_reads_back [OF p] js scalar_one.simps sum.case)
  moreover have "?js = jobs db \<or> (j = new_job a p (next_job_id db) now t \<and> ?js = jobs db @ [j])"
    using j by (auto simp: same_slot_iff)
  ultimately show ?thesis using that j js by simp
qed

text \<open>Enqueue is idempotent: an accepted enqueue returns the one row of its (tenant, key) slot,
  and a later enqueue into the same slot, with any payload and options, returns that same row and
  inserts nothing.\<close>

theorem enqueue_is_idempotent:
  assumes inv: "queue_inv db" and a: "enqueue_payload a = Inr p" and b: "enqueue_payload b = Inr q"
    and slots: "e_org b = e_org a" "e_key b = e_key a"
  shows "\<exists>j. fst (enqueue a now t db) = Inr j \<and> slot j = (e_org a, e_key a)
    \<and> fst (enqueue b now' t' (snd (enqueue a now t db))) = Inr j
    \<and> jobs (snd (enqueue b now' t' (snd (enqueue a now t db)))) = jobs (snd (enqueue a now t db))"
proof -
  let ?db1 = "snd (enqueue a now t db)"
  have inv1: "queue_inv ?db1" by (rule enqueue_inv [OF inv])
  obtain j where j: "fst (enqueue a now t db) = Inr j" "j \<in> set (jobs ?db1)"
    "slot j = (e_org a, e_key a)"
    using enqueue_result [OF inv a] by metis
  obtain k where k: "fst (enqueue b now' t' ?db1) = Inr k" "k \<in> set (jobs (snd (enqueue b now' t' ?db1)))"
    "slot k = (e_org b, e_key b)"
    "jobs (snd (enqueue b now' t' ?db1)) = jobs ?db1 \<or> (k = new_job b q (next_job_id ?db1) now' t'
       \<and> jobs (snd (enqueue b now' t' ?db1)) = jobs ?db1 @ [k])"
    using enqueue_result [OF inv1 b] by metis
  have inv2: "distinct (map slot (jobs (snd (enqueue b now' t' ?db1))))"
    using enqueue_inv [OF inv1] by (simp add: queue_inv_def)
  have "slot k = slot j" using j k slots by simp
  with k(4) j(2) inv2 have same: "jobs (snd (enqueue b now' t' ?db1)) = jobs ?db1"
    by (auto simp: image_iff)
  with k j \<open>slot k = slot j\<close> inv2 have "k = j"
    by (auto simp: distinct_map inj_on_def)
  with j k same show ?thesis by auto
qed

theorem enqueue_is_idempotent_witness:
  "\<exists>j. fst (enqueue sample_args 0 0 empty_queue) = Inr j
    \<and> jobs (snd (enqueue (sample_args\<lparr>e_priority := 7\<rparr>) 3 3 (snd (enqueue sample_args 0 0 empty_queue))))
      = jobs (snd (enqueue sample_args 0 0 empty_queue))"
proof -
  let ?b = "sample_args\<lparr>e_priority := 7\<rparr>"
  have "enqueue_payload ?b = Inr (e_payload sample_args)"
    by (simp add: enqueue_payload_def sample_args_def has_key_def TENANT_ENVELOPE_KEY_def)
  from enqueue_is_idempotent [OF queue_inv_empty sample_payload_ok this, of 0 0 3 3]
  show ?thesis by auto
qed

section \<open>Whole runs\<close>

lemma ids_update: "(\<And>r. job_id (f r) = job_id r) \<Longrightarrow>
    job_id ` set (update_where P f js) = job_id ` set js"
  using map_update_where [where h = job_id and f = f and P = P] by (metis list.set_map)

lemma step_ids: "queue_step db db' \<Longrightarrow>
    job_id ` set (jobs db') \<subseteq> insert (next_job_id db) (job_id ` set (jobs db))
    \<and> next_job_id db \<le> next_job_id db'"
proof (induction rule: queue_step.induct)
  case (step_enqueue db a now t)
  show ?case by (auto simp: enqueue_def Let_def split: sum.splits option.splits)
next
  case (step_gc db d n m)
  show ?case by (auto simp: gc_terminal_jobs_def Let_def)
qed (auto simp: claim_def mark_succeeded_def fail_def cancel_write_def refresh_payload_def touch_def
    requeue_locked_def heartbeat_def requeue_stale_def Let_def set_row_def ids_update
    split: sum.splits option.splits)

lemma row_at_None: "row_at i db = None \<longleftrightarrow> i \<notin> job_id ` set (jobs db)"
  by (auto simp: row_at_def find_None_iff)

lemma run_kept:
  assumes "queue_step\<^sup>*\<^sup>* db db'" and "queue_inv db"
  shows "queue_inv db' \<and> next_job_id db \<le> next_job_id db' \<and> kept db db'"
  using assms
proof (induction rule: rtranclp_induct)
  case base
  then show ?case by (simp add: kept_refl)
next
  case (step y z)
  then have y: "queue_inv y" "next_job_id db \<le> next_job_id y" "kept db y" by auto
  have z: "queue_inv z" "kept y z" "next_job_id y \<le> next_job_id z"
    "job_id ` set (jobs z) \<subseteq> insert (next_job_id y) (job_id ` set (jobs y))"
    using step.hyps(2) y(1) queue_step_inv queue_step_kept step_ids by auto
  have "row_at i z = None \<or> (\<exists>k. row_at i z = Some k \<and> evolves j k)" if "row_at i db = Some j" for i j
  proof (cases "row_at i y")
    case None
    have "i < next_job_id db"
      using row_at_Some [OF that] step.prems by (auto simp: queue_inv_def)
    with None z(4) y(2) have "row_at i z = None" by (auto simp: row_at_None)
    then show ?thesis by simp
  next
    case (Some l)
    with y(3) that have "evolves j l" by (fastforce simp: kept_def)
    with z(2) Some show ?thesis by (auto simp: kept_def intro: evolves_trans)
  qed
  with y z show ?case by (auto simp: kept_def)
qed

text \<open>Along any run, a job that is still in the table keeps its identity, type and attempt limit;
  its attempts never decrease and never exceed the limit (one, for a limit below one); and once it
  has succeeded, been dead-lettered or been cancelled its row never changes again, but that a
  cancel which read it while it was waiting can still mark it cancelled.\<close>

theorem runs_bound_attempts_and_freeze_verdicts:
  assumes run: "queue_step\<^sup>*\<^sup>* db db'" and inv: "queue_inv db"
    and j: "row_at i db = Some j" and j': "row_at i db' = Some j'"
  shows "attempts j \<le> attempts j' \<and> int (attempts j') \<le> max 1 (max_attempts j)
    \<and> slot j' = slot j \<and> job_type j' = job_type j
    \<and> (job_state j \<in> {SUCCEEDED, DEAD_LETTER, CANCELLED} \<longrightarrow> j' = j \<or> (\<exists>t. j' = cancelled_at t j))"
proof -
  have inv': "queue_inv db'" and "kept db db'"
    using run_kept [OF run inv] by auto
  then have "evolves j j'" using j j' by (fastforce simp: kept_def)
  moreover have "attempts_ok j'"
    using queue_inv_rows [OF inv'] row_at_Some [OF j'] by (simp add: row_ok_def)
  ultimately show ?thesis by (auto simp: evolves_def attempts_ok_def TERMINAL_STATES_def)
qed

theorem runs_bound_attempts_and_freeze_verdicts_witness:
  "int (attempts (stamp_claim ''w1'' 0 0 sample_job)) \<le> max 1 (max_attempts sample_job)"
proof -
  have "queue_step\<^sup>*\<^sup>* sample_queue sample_claimed"
    unfolding sample_claimed_def by (rule r_into_rtranclp) (rule step_claim)
  moreover have "row_at 1 sample_queue = Some sample_job"
    by (simp add: row_at_def sample_queue_eq)
  ultimately show ?thesis
    using runs_bound_attempts_and_freeze_verdicts [OF _ sample_inv(1) _ sample_row] by blast
qed

section \<open>Cancel\<close>

text \<open>A successful cancel finds exactly one row in the slot, still waiting to be claimed, and moves
  it to \<open>CANCELLED\<close>, keeping its payload as it was: unlike success and dead-letter, this terminal
  state is not scrubbed of credentials.\<close>

theorem cancel_outcome:
  assumes inv: "queue_inv db" and ok: "fst (cancel k org t db) = Inr True"
  shows "\<exists>j j'. j \<in> set (jobs db) \<and> slot j = (org, k) \<and> job_state j \<in> {QUEUED, RETRY_SCHEDULED}
    \<and> row_at (job_id j) (snd (cancel k org t db)) = Some j'
    \<and> job_state j' = CANCELLED \<and> locked_by j' = None \<and> job_payload j' = job_payload j"
proof -
  let ?db1 = "set_tenant_scope (case org of None \<Rightarrow> ''*'' | Some [] \<Rightarrow> ''*'' | Some o' \<Rightarrow> o') db"
  obtain j where read: "cancel_read k org ?db1 = Inr (Some j)"
    using ok by (auto simp: cancel_def Let_def split: sum.splits option.splits)
  note j = cancel_read_Some [OF read]
  have run: "locked_by j = None"
    using queue_inv_rows [OF inv, of j] j by (auto simp: row_ok_def lease_ok_def state_lists)
  have "snd (cancel k org t db) = cancel_write j t ?db1"
    using read by (simp add: cancel_def Let_def)
  then have "row_at (job_id j) (snd (cancel k org t db)) = Some (touch t (j\<lparr>job_state := CANCELLED\<rparr>))"
    using row_at_mem [OF inv] j(1) by (simp add: cancel_write_def row_at_set_row)
  with j run show ?thesis by (auto simp: touch_def state_lists)
qed

theorem cancel_outcome_witness:
  "\<exists>j'. row_at 1 (snd (cancel ''deliver:i1'' None 4 sample_queue)) = Some j'
     \<and> job_state j' = CANCELLED \<and> dict_get (job_payload j') ''accept_token'' = JStr ''s3cret''"
proof -
  have "fst (cancel ''deliver:i1'' None 4 sample_queue) = Inr True"
    by (simp add: cancel_def Let_def cancel_read_def set_tenant_scope_def sample_queue_eq
        same_slot_def state_lists)
  from cancel_outcome [OF sample_inv(1) this]
  have "\<exists>j'. row_at 1 (snd (cancel ''deliver:i1'' None 4 sample_queue)) = Some j'
     \<and> job_state j' = CANCELLED \<and> job_payload j' = e_payload sample_args"
    by (auto simp: sample_queue_eq)
  moreover have "dict_get (e_payload sample_args) ''accept_token'' = JStr ''s3cret''"
    by (simp add: sample_args_def dict_get_def)
  ultimately show ?thesis by auto
qed

text \<open>The read and the write of a cancel are not one step: a cancel that read a waiting job and
  writes after a worker has claimed it leaves a cancelled row that still carries the worker's name,
  nobody holds the lease any more, and the worker's own success report is refused.\<close>

theorem cancel_races_with_claim:
  "queue_reachable sample_cancelled
   \<and> (\<exists>r. row_at 1 sample_cancelled = Some r \<and> job_state r = CANCELLED \<and> locked_by r = Some ''w1'')
   \<and> holder 1 sample_cancelled = None
   \<and> fst (mark_succeeded sample_job (Some ''w1'') 5 sample_cancelled) = Inr False"
proof (intro conjI)
  show "queue_reachable sample_cancelled" by (rule sample_cancelled_reachable)
  have row: "row_at 1 sample_cancelled = Some (cancelled_at 4 (stamp_claim ''w1'' 0 0 sample_job))"
    by (simp add: row_at_def sample_cancelled_jobs)
  then show "\<exists>r. row_at 1 sample_cancelled = Some r \<and> job_state r = CANCELLED \<and> locked_by r = Some ''w1''"
    by (simp add: stamp_claim_def touch_def)
  from row show h: "holder 1 sample_cancelled = None" by (simp add: holder_def)
  then show "fst (mark_succeeded sample_job (Some ''w1'') 5 sample_cancelled) = Inr False"
    using settle_refused(1) [OF reachable_inv [OF sample_cancelled_reachable], of sample_job "''w1''"]
    by simp
qed

text \<open>It can also overtake a verdict: the job ran and succeeded in between, and the late cancel
  turns the succeeded row into a cancelled one.\<close>

theorem late_cancel_replaces_a_verdict:
  "\<exists>db db'. queue_reachable db \<and> queue_step db db'
     \<and> map_option job_state (row_at 1 db) = Some SUCCEEDED
     \<and> map_option job_state (row_at 1 db') = Some CANCELLED"
proof -
  let ?db = "snd (mark_succeeded sample_job (Some ''w1'') 5 sample_claimed)"
  have "queue_reachable ?db" by (rule reach_step [OF sample_reachable(2) step_succeed])
  moreover have "queue_step ?db (cancel_write sample_job 6 ?db)"
    by (rule step_cancel_write [OF sample_cancel_read])
  moreover have "?db = set_row 1 (stamp_succeeded 5) sample_claimed"
    using mark_succeeded_holder [OF sample_inv(2), of sample_job "''w1''"] sample_holder by simp
  then have "row_at 1 ?db = Some (stamp_succeeded 5 (stamp_claim ''w1'' 0 0 sample_job))"
    by (simp add: row_at_set_row sample_row stamp_claim_def touch_def)
  ultimately show ?thesis
    by (intro exI [of _ ?db] exI [of _ "cancel_write sample_job 6 ?db"])
      (simp add: cancel_write_eq row_at_set_row stamp_succeeded_def stamp_claim_def touch_def)
qed

end
