(* ===== verification/CorporateAuthProps.thy ===== *)
theory CorporateAuthProps
  imports CorporateAuth
begin

text \<open>
  Correctness of the permission evaluators: the bulk evaluator agrees with the single-scope one,
  the explanation cites exactly the rows that were used, every permission traces back to a live
  row of the principal in the asked organization, and the gate denies everybody else.
\<close>

section \<open>Grouped maps\<close>

lemma map_of_empty_map: "map_of (empty_map ids) k = (if k \<in> set ids then Some {} else None)"
  by (induction ids) (auto simp: empty_map_def)

lemma grouped_Nil [simp]: "grouped [] k = {}"
  by (simp add: grouped_def)

lemma grouped_empty_map [simp]: "grouped (empty_map ids) k = {}"
  by (simp add: grouped_def map_of_empty_map)

lemma grouped_add: "grouped (group_add kv d) k = grouped d k \<union> {v. kv = (k, v)}"
  by (cases kv) (auto simp: grouped_def group_add_def)

lemma grouped_rows: "grouped (group_rows rows d) k = grouped d k \<union> {v. (k, v) \<in> set rows}"
proof (induction rows arbitrary: d)
  case (Cons r rows)
  show ?case using Cons.IH [of "group_add r d"] by (auto simp: group_rows_def grouped_add)
qed (simp add: group_rows_def)

lemma keys_group_rows: "fst ` set (group_rows rows d) = fst ` set d \<union> fst ` set rows"
proof (induction rows arbitrary: d)
  case (Cons r rows)
  have "fst ` set (group_add r d) = insert (fst r) (fst ` set d)"
    using keys_dict_set [of "fst r" _ d] by (simp add: group_add_def image_image)
  then show ?case using Cons.IH [of "group_add r d"] by (auto simp: group_rows_def)
qed (simp add: group_rows_def)

section \<open>The bulk maps are the sub-queries\<close>

lemmas bex_pull = bex_simps(1,2) [symmetric]

lemma bulk_category_rows_iff:
  "(k, c) \<in> set (bulk_category_rows db oid ids) \<longleftrightarrow> k \<in> set ids \<and> c \<in> set (scope_technology_categories db oid k)"
  by (auto simp: bulk_category_rows_def scope_technology_categories_def)

lemma bulk_project_rows_iff:
  "(k, p) \<in> set (bulk_project_rows db oid ids) \<longleftrightarrow> k \<in> set ids \<and> p \<in> set (technology_current_projects db oid k)"
  unfolding bulk_project_rows_def technology_current_projects_def mem_select bex_pull prod.inject
  by (intro bex_cong refl) blast

lemma bulk_responsible_rows_iff:
  "(k, t) \<in> set (bulk_responsible_rows db oid ids) \<longleftrightarrow> k \<in> set ids \<and> t \<in> set (technology_responsible_teams db oid k)"
  unfolding bulk_responsible_rows_def technology_responsible_teams_def mem_select bex_pull prod.inject
  by (intro bex_cong refl) blast

lemma active_project_teams_mem:
  "r \<in> set (active_project_teams db oid) \<longleftrightarrow> r \<in> set (project_teams db) \<and> (\<exists>t \<in> set (teams db).
     tm_organization_id t = ptr_organization_id r \<and> tm_id t = ptr_team_id r
     \<and> ptr_organization_id r = oid \<and> ptr_state r = ''current'' \<and> tm_state t = ''active'')"
  unfolding active_project_teams_def mem_select by blast

lemma bulk_project_team_rows_iff:
  "(p, t) \<in> set (bulk_project_team_rows db oid wanted) \<longleftrightarrow>
     p \<in> wanted \<and> (\<exists>r \<in> set (active_project_teams db oid). ptr_project_id r = p \<and> ptr_team_id r = t)"
  unfolding bulk_project_team_rows_def active_project_teams_mem mem_select Bex_def prod.inject by blast

lemma bulk_member_team_rows_iff:
  "(k, t) \<in> set (bulk_member_team_rows db oid ids) \<longleftrightarrow> k \<in> set ids \<and> t \<in> set (scope_member_teams db oid k)"
  unfolding bulk_member_team_rows_def scope_member_teams_def mem_select bex_pull prod.inject
  by (intro bex_cong refl) blast

lemma bulk_member_project_rows_iff:
  "(k, p) \<in> set (bulk_member_project_rows db oid ids) \<longleftrightarrow> k \<in> set ids \<and> p \<in> set (scope_member_projects db oid k)"
  unfolding bulk_member_project_rows_def scope_member_projects_def mem_select bex_pull prod.inject
  by (intro bex_cong refl) blast

lemma bulk_eligible_mem:
  "k \<in> bulk_eligible_projects db oid ids \<longleftrightarrow> k \<in> set ids \<and> (\<exists>p \<in> set (projects db). \<exists>i \<in> set (identities db).
     pi_organization_id i = cp_organization_id p \<and> pi_id i = cp_id p
     \<and> cp_organization_id p = oid \<and> cp_id p = k \<and> cp_state p = ''active''
     \<and> pi_state i = ''active'' \<and> pi_namespace i = ''remote'')"
  unfolding bulk_eligible_projects_def mem_select bex_pull by (intro bex_cong refl) blast

lemma scope_current_teams_iff:
  "t \<in> set (scope_current_teams db oid k) \<longleftrightarrow>
     k \<in> bulk_eligible_projects db oid [k]
     \<and> (\<exists>r \<in> set (active_project_teams db oid). ptr_project_id r = k \<and> ptr_team_id r = t)"
proof -
  have org: "ptr_organization_id r = oid" if "r \<in> set (active_project_teams db oid)" for r
    using that unfolding active_project_teams_mem by blast
  show ?thesis
  proof
    assume "t \<in> set (scope_current_teams db oid k)"
    then obtain r p i where r: "r \<in> set (active_project_teams db oid)"
        "ptr_project_id r = k" "t = ptr_team_id r"
      and p: "p \<in> set (projects db)" "i \<in> set (identities db)"
        "cp_organization_id p = ptr_organization_id r" "cp_id p = ptr_project_id r"
        "pi_organization_id i = cp_organization_id p" "pi_id i = cp_id p"
        "cp_state p = ''active''" "pi_state i = ''active''" "pi_namespace i = ''remote''"
      unfolding scope_current_teams_def mem_select by blast
    have "k \<in> bulk_eligible_projects db oid [k]"
      unfolding bulk_eligible_mem using p r(2) org [OF r(1)] by (intro conjI bexI [of _ p] bexI [of _ i]) auto
    with r show "k \<in> bulk_eligible_projects db oid [k]
        \<and> (\<exists>r \<in> set (active_project_teams db oid). ptr_project_id r = k \<and> ptr_team_id r = t)" by blast
  next
    assume "k \<in> bulk_eligible_projects db oid [k]
        \<and> (\<exists>r \<in> set (active_project_teams db oid). ptr_project_id r = k \<and> ptr_team_id r = t)"
    then obtain r p i where r: "r \<in> set (active_project_teams db oid)"
        "ptr_project_id r = k" "ptr_team_id r = t"
      and p: "p \<in> set (projects db)" "i \<in> set (identities db)" "cp_organization_id p = oid" "cp_id p = k"
        "pi_organization_id i = cp_organization_id p" "pi_id i = cp_id p"
        "cp_state p = ''active''" "pi_state i = ''active''" "pi_namespace i = ''remote''"
      unfolding bulk_eligible_mem by blast
    show "t \<in> set (scope_current_teams db oid k)"
      unfolding scope_current_teams_def mem_select
      using p r org [OF r(1)] by (intro bexI [of _ r] bexI [of _ p] bexI [of _ i]) auto
  qed
qed

lemma scope_technology_teams_iff:
  "t \<in> set (scope_technology_teams db oid k) \<longleftrightarrow> t \<in> set (technology_responsible_teams db oid k)
     \<or> (\<exists>p \<in> set (technology_current_projects db oid k).
          \<exists>r \<in> set (active_project_teams db oid). ptr_project_id r = p \<and> ptr_team_id r = t)"
  unfolding scope_technology_teams_def set_append Un_iff mem_select by blast

section \<open>The maps of an asked scope\<close>

text \<open>What each map holds for one of the asked ids.\<close>

lemma map_fields:
  assumes "k \<in> set ids"
  shows "grouped (projects_map (bulk_relation_maps db oid ''technology'' ids)) k
      = set (technology_current_projects db oid k)"
    and "grouped (responsible_map (bulk_relation_maps db oid ''technology'' ids)) k
      = set (technology_responsible_teams db oid k)"
    and "grouped (categories_map (bulk_relation_maps db oid ''technology'' ids)) k
      = set (scope_technology_categories db oid k)"
    and "grouped (member_teams_map (bulk_relation_maps db oid ''member'' ids)) k
      = set (scope_member_teams db oid k)"
    and "grouped (member_projects_map (bulk_relation_maps db oid ''member'' ids)) k
      = set (scope_member_projects db oid k)"
proof -
  have "ids \<noteq> []" using assms by auto
  note simps = bulk_relation_maps_def Let_def grouped_rows this assms
  show "grouped (projects_map (bulk_relation_maps db oid ''technology'' ids)) k
      = set (technology_current_projects db oid k)" by (simp add: simps bulk_project_rows_iff)
  show "grouped (responsible_map (bulk_relation_maps db oid ''technology'' ids)) k
      = set (technology_responsible_teams db oid k)" by (simp add: simps bulk_responsible_rows_iff)
  show "grouped (categories_map (bulk_relation_maps db oid ''technology'' ids)) k
      = set (scope_technology_categories db oid k)" by (simp add: simps bulk_category_rows_iff)
  show "grouped (member_teams_map (bulk_relation_maps db oid ''member'' ids)) k
      = set (scope_member_teams db oid k)" by (simp add: simps bulk_member_team_rows_iff)
  show "grouped (member_projects_map (bulk_relation_maps db oid ''member'' ids)) k
      = set (scope_member_projects db oid k)" by (simp add: simps bulk_member_project_rows_iff)
qed

lemma map_project_teams_project:
  assumes "k \<in> set ids"
  shows "grouped (project_teams_map (bulk_relation_maps db oid ''project'' ids)) k
    = set (scope_current_teams db oid k)"
proof -
  have ids: "ids \<noteq> []" using assms by auto
  let ?e = "bulk_eligible_projects db oid ids"
  have e: "k \<in> ?e \<longleftrightarrow> k \<in> bulk_eligible_projects db oid [k]"
    unfolding bulk_eligible_mem using assms by simp
  have "grouped (project_teams_map (bulk_relation_maps db oid ''project'' ids)) k
      = {t. (k, t) \<in> set (bulk_project_team_rows db oid ?e)}"
  proof (cases "?e = {}")
    case True
    then show ?thesis by (simp add: bulk_relation_maps_def Let_def ids bulk_project_team_rows_iff)
  qed (simp add: bulk_relation_maps_def Let_def ids grouped_rows)
  then show ?thesis
    by (auto simp: bulk_project_team_rows_iff scope_current_teams_iff e)
qed

lemma map_project_teams_technology:
  assumes "k \<in> set ids" and "p \<in> set (technology_current_projects db oid k)"
  shows "grouped (project_teams_map (bulk_relation_maps db oid ''technology'' ids)) p
    = {t. \<exists>r \<in> set (active_project_teams db oid). ptr_project_id r = p \<and> ptr_team_id r = t}"
proof -
  let ?projs = "group_rows (bulk_project_rows db oid ids) (empty_map ids)"
  let ?e = "\<Union> (snd ` set ?projs)"
  have ids: "ids \<noteq> []" using assms by auto
  have "p \<in> ?e"
  proof -
    have "p \<in> grouped ?projs k" using assms by (simp add: grouped_rows bulk_project_rows_iff)
    then obtain s where "map_of ?projs k = Some s" "p \<in> s"
      by (auto simp: grouped_def split: option.splits)
    then show ?thesis using map_of_SomeD [of ?projs k s] by force
  qed
  then have "grouped (project_teams_map (bulk_relation_maps db oid ''technology'' ids)) p
      = {t. (p, t) \<in> set (bulk_project_team_rows db oid ?e)}"
    by (auto simp: bulk_relation_maps_def Let_def ids grouped_rows)
  with \<open>p \<in> ?e\<close> show ?thesis by (simp add: bulk_project_team_rows_iff)
qed

text \<open>The in-memory match is the SQL clause.\<close>

lemma bulk_matches_clause:
  assumes k: "k \<in> set ids"
  shows "bulk_matches (bulk_relation_maps db oid sk ids) sk kind sid k desc
    = scope_clause db oid kind sid sk k desc"
proof -
  consider (p) "sk = ''project''" | (t) "sk = ''technology''" | (m) "sk = ''member''"
    | (o) "sk \<noteq> ''project''" "sk \<noteq> ''technology''" "sk \<noteq> ''member''" by blast
  then show ?thesis
  proof cases
    case p
    then show ?thesis
      by (auto simp: bulk_matches_def scope_clause_def Let_def map_project_teams_project [OF k])
  next
    case t
    have "(\<Union>p \<in> set (technology_current_projects db oid k).
        grouped (project_teams_map (bulk_relation_maps db oid ''technology'' ids)) p)
      = {t. \<exists>p \<in> set (technology_current_projects db oid k).
          \<exists>r \<in> set (active_project_teams db oid). ptr_project_id r = p \<and> ptr_team_id r = t}"
      using map_project_teams_technology [OF k] by auto
    then have teams: "set (technology_responsible_teams db oid k) \<union>
        (\<Union>p \<in> set (technology_current_projects db oid k).
          grouped (project_teams_map (bulk_relation_maps db oid ''technology'' ids)) p)
      = set (scope_technology_teams db oid k)"
      unfolding set_eq_iff Un_iff scope_technology_teams_iff by simp
    have "bulk_matches (bulk_relation_maps db oid sk ids) sk kind sid k desc \<longleftrightarrow>
        kind = ''organization'' \<and> desc \<or> kind = ''technology'' \<and> (sid = ''*'' \<or> sid = k)
        \<or> kind = ''project'' \<and> sid \<in> set (technology_current_projects db oid k)
        \<or> kind = ''team'' \<and> sid \<in> set (scope_technology_teams db oid k)
        \<or> kind = ''category'' \<and> sid \<in> set (scope_technology_categories db oid k)"
      unfolding bulk_matches_def Let_def t map_fields(1-3) [OF k] teams by auto
    then show ?thesis unfolding t by (auto simp: scope_clause_def Let_def)
  next
    case m
    then show ?thesis
      by (auto simp: bulk_matches_def scope_clause_def Let_def map_fields(4,5) [OF k])
  next
    case o
    then show ?thesis by (auto simp: bulk_matches_def scope_clause_def Let_def)
  qed
qed

section \<open>What each evaluator returns\<close>

text \<open>The permissions of an active principal, as one set of rows.\<close>

definition held_permissions :: "corporate_db \<Rightarrow> string \<Rightarrow> PrincipalType \<Rightarrow> string \<Rightarrow> string \<Rightarrow> string \<Rightarrow> string set" where
  "held_permissions db oid pt pid scope_kind scope =
     {p. (\<exists>b \<in> set (scoped_bindings db oid pt pid scope_kind scope).
            \<exists>r \<in> set (role_permission_rows db).
              rp_organization_id r = oid \<and> rp_role r = rb_role b \<and> rp_permission r = p)
       \<or> (\<exists>g \<in> set (scoped_grants db oid pt pid scope_kind scope). pg_permission g = p)}"

lemma grants_for_roles_mem:
  "p \<in> grants_for_roles db oid roles \<longleftrightarrow> (\<exists>r \<in> set (role_permission_rows db).
     rp_organization_id r = oid \<and> rp_role r \<in> roles \<and> rp_permission r = p)"
  unfolding grants_for_roles_def by auto

lemma effective_held:
  "corporate_effective_permissions db oid pt pid sk scope_id ar =
     (if corporate_principal_active db oid pt pid ar
      then Some (held_permissions db oid pt pid sk (effective_scope oid scope_id)) else None)"
proof -
  have "grants_for_roles db oid (rb_role ` set bs) \<union> pg_permission ` set gs =
      {p. (\<exists>b \<in> set bs. \<exists>r \<in> set (role_permission_rows db).
              rp_organization_id r = oid \<and> rp_role r = rb_role b \<and> rp_permission r = p)
         \<or> (\<exists>g \<in> set gs. pg_permission g = p)}" for bs gs
    unfolding set_eq_iff Un_iff grants_for_roles_mem image_iff mem_Collect_eq by blast
  note this [of "scoped_bindings db oid pt pid sk (effective_scope oid scope_id)"
    "scoped_grants db oid pt pid sk (effective_scope oid scope_id)"]
  then show ?thesis
    unfolding corporate_effective_permissions_def held_permissions_def Let_def by simp
qed

lemma explain_fold:
  "fold (\<lambda>x. explain_step (f x)) xs acc
     = (fst acc \<union> (\<Union>x \<in> set xs. ps_permissions (f x)), snd acc @ map f xs)"
  by (induction xs arbitrary: acc) (auto simp: explain_step_def)

lemma role_permissions_lookup:
  "role \<in> wanted \<Longrightarrow> role_permissions db oid wanted role =
     Some {p. \<exists>r \<in> set (role_permission_rows db). rp_organization_id r = oid \<and> rp_role r = role \<and> rp_permission r = p}"
  by (force simp: role_permissions_def Let_def image_iff)

lemma explain_records:
  assumes "corporate_principal_active db oid pt pid None"
  shows "\<exists>records. explain_effective_permissions db oid pt pid sk scope_id
      = Some (\<Union> (ps_permissions ` set records), records)
    \<and> map ps_source_id (filter (\<lambda>r. ps_kind r = SourceBinding) records)
        = map rb_id (scoped_bindings db oid pt pid sk (effective_scope oid scope_id))
    \<and> map ps_source_id (filter (\<lambda>r. ps_kind r = SourceGrant) records)
        = map pg_id (scoped_grants db oid pt pid sk (effective_scope oid scope_id))
    \<and> \<Union> (ps_permissions ` set records) = held_permissions db oid pt pid sk (effective_scope oid scope_id)"
proof -
  let ?bs = "scoped_bindings db oid pt pid sk (effective_scope oid scope_id)"
  let ?gs = "scoped_grants db oid pt pid sk (effective_scope oid scope_id)"
  let ?f = "binding_source (role_permissions db oid (rb_role ` set ?bs))"
  let ?recs = "map ?f ?bs @ map grant_source ?gs"
  have 1: "explain_effective_permissions db oid pt pid sk scope_id = Some (\<Union> (ps_permissions ` set ?recs), ?recs)"
    using assms by (simp add: explain_effective_permissions_def Let_def explain_fold)
  have 2: "map ps_source_id (filter (\<lambda>r. ps_kind r = SourceBinding) ?recs) = map rb_id ?bs"
    by (simp add: filter_map o_def binding_source_def grant_source_def)
  have 3: "map ps_source_id (filter (\<lambda>r. ps_kind r = SourceGrant) ?recs) = map pg_id ?gs"
    by (simp add: filter_map o_def binding_source_def grant_source_def)
  have "ps_permissions (?f b) = {p. \<exists>r \<in> set (role_permission_rows db).
      rp_organization_id r = oid \<and> rp_role r = rb_role b \<and> rp_permission r = p}" if "b \<in> set ?bs" for b
    using that by (simp add: binding_source_def role_permissions_lookup)
  then have 4: "\<Union> (ps_permissions ` set ?recs) = held_permissions db oid pt pid sk (effective_scope oid scope_id)"
    by (auto simp: held_permissions_def grant_source_def)
  from 1 2 3 4 show ?thesis by blast
qed

lemma role_rows_mem:
  "role \<in> R \<Longrightarrow> (role, p) \<in> set [(rp_role r, rp_permission r). r \<leftarrow> rows, rp_organization_id r = oid \<and> rp_role r \<in> R]
     \<longleftrightarrow> (\<exists>r \<in> set rows. rp_organization_id r = oid \<and> rp_role r = role \<and> rp_permission r = p)"
  unfolding mem_select prod.inject by blast

lemma default_role_mem: "x \<in> A \<Longrightarrow> x \<in> (if A = {} then {y} else A)"
  by auto

lemma bulk_held:
  assumes act: "corporate_principal_active db oid pt pid None"
  shows "bulk_effective_permissions db oid pt pid sk scope_ids =
    Some (map (\<lambda>k. (k, held_permissions db oid pt pid sk k)) (sort (remdups scope_ids)))"
proof -
  let ?ids = "sort (remdups scope_ids)"
  let ?m = "bulk_relation_maps db oid sk ?ids"
  let ?bs = "principal_bindings db oid pt pid (\<lambda>_. True)" and ?gs = "principal_grants db oid pt pid (\<lambda>_. True)"
  let ?pairs = "[(k, rb_role b). b \<leftarrow> ?bs, k \<leftarrow> ?ids,
      bulk_matches ?m sk (rb_scope_kind b) (rb_scope_id b) k (rb_coverage b = ''descendants'')]"
  let ?roles = "snd ` set ?pairs"
  let ?perms = "[(rp_role r, rp_permission r). r \<leftarrow> role_permission_rows db,
      rp_organization_id r = oid \<and> rp_role r \<in> (if ?roles = {} then {[]} else ?roles)]"
  have sb: "b \<in> set (scoped_bindings db oid pt pid sk k) \<longleftrightarrow> b \<in> set ?bs
      \<and> bulk_matches ?m sk (rb_scope_kind b) (rb_scope_id b) k (rb_coverage b = ''descendants'')"
    if "k \<in> set ?ids" for b k
    unfolding scoped_bindings_def principal_bindings_def set_filter mem_Collect_eq
      bulk_matches_clause [OF that] by simp
  have sg: "g \<in> set (scoped_grants db oid pt pid sk k) \<longleftrightarrow> g \<in> set ?gs
      \<and> bulk_matches ?m sk (pg_scope_kind g) (pg_scope_id g) k False" if "k \<in> set ?ids" for g k
    unfolding scoped_grants_def principal_grants_def set_filter mem_Collect_eq
      bulk_matches_clause [OF that] by simp
  have pair: "(k, role) \<in> set ?pairs \<longleftrightarrow>
      k \<in> set ?ids \<and> (\<exists>b \<in> set (scoped_bindings db oid pt pid sk k). rb_role b = role)" for k role
    unfolding mem_select using sb by blast
  have "(\<Union> role \<in> grouped (group_rows ?pairs (empty_map ?ids)) k. grouped (group_rows ?perms []) role)
      \<union> grouped (group_rows [(k, pg_permission g). g \<leftarrow> ?gs, k \<leftarrow> ?ids,
          bulk_matches ?m sk (pg_scope_kind g) (pg_scope_id g) k False] (empty_map ?ids)) k
      = held_permissions db oid pt pid sk k" (is "?L1 \<union> ?L2 = _") if k: "k \<in> set ?ids" for k
  proof -
    have "p \<in> ?L1 \<longleftrightarrow> (\<exists>b \<in> set (scoped_bindings db oid pt pid sk k). \<exists>r \<in> set (role_permission_rows db).
        rp_organization_id r = oid \<and> rp_role r = rb_role b \<and> rp_permission r = p)" for p
    proof -
      have "p \<in> ?L1 \<longleftrightarrow> (\<exists>role. (k, role) \<in> set ?pairs \<and> (role, p) \<in> set ?perms)"
        by (simp only: grouped_rows grouped_empty_map grouped_Nil Un_empty_left UN_iff mem_Collect_eq bex_simps Bex_def)
      also have "\<dots> \<longleftrightarrow> (\<exists>role. (k, role) \<in> set ?pairs \<and> (\<exists>r \<in> set (role_permission_rows db).
          rp_organization_id r = oid \<and> rp_role r = role \<and> rp_permission r = p))"
      proof -
        have "(role, p) \<in> set ?perms \<longleftrightarrow> (\<exists>r \<in> set (role_permission_rows db).
            rp_organization_id r = oid \<and> rp_role r = role \<and> rp_permission r = p)"
          if "(k, role) \<in> set ?pairs" for role
        proof -
          from that have "role \<in> ?roles" by (rule image_eqI [rotated]) simp
          then have "role \<in> (if ?roles = {} then {[]} else ?roles)" by (rule default_role_mem)
          then show ?thesis by (rule role_rows_mem)
        qed
        then show ?thesis by blast
      qed
      also have "\<dots> \<longleftrightarrow> (\<exists>b \<in> set (scoped_bindings db oid pt pid sk k). \<exists>r \<in> set (role_permission_rows db).
          rp_organization_id r = oid \<and> rp_role r = rb_role b \<and> rp_permission r = p)"
        unfolding pair using k by blast
      finally show ?thesis .
    qed
    moreover have "p \<in> ?L2 \<longleftrightarrow> (\<exists>g \<in> set (scoped_grants db oid pt pid sk k). pg_permission g = p)" for p
      unfolding grouped_rows grouped_empty_map mem_select using sg [OF k] k by auto
    ultimately show ?thesis unfolding held_permissions_def by blast
  qed
  then have "map (\<lambda>k. (k, (\<Union> role \<in> grouped (group_rows ?pairs (empty_map ?ids)) k. grouped (group_rows ?perms []) role)
      \<union> grouped (group_rows [(k, pg_permission g). g \<leftarrow> ?gs, k \<leftarrow> ?ids,
          bulk_matches ?m sk (pg_scope_kind g) (pg_scope_id g) k False] (empty_map ?ids)) k)) ?ids
      = map (\<lambda>k. (k, held_permissions db oid pt pid sk k)) ?ids"
    by (intro map_cong refl) blast
  then show ?thesis
    using act unfolding bulk_effective_permissions_def Let_def by (simp only: not_not simp_thms if_False)
qed

end
