(* ===== verification/CorporateAuthTheorems.thy ===== *)
theory CorporateAuthTheorems
  imports CorporateAuthProps
begin

text \<open>
  The properties of the permission evaluators, with a small sample tenant for their witnesses.
\<close>

section \<open>Tenant isolation\<close>

text \<open>The rows of one organization in every table.\<close>

definition tenant_view :: "string \<Rightarrow> corporate_db \<Rightarrow> corporate_db" where
  "tenant_view oid db =
     \<lparr>organizations = filter (\<lambda>r. org_id r = oid) (organizations db),
      memberships = filter (\<lambda>r. om_organization_id r = oid) (memberships db),
      service_principals = filter (\<lambda>r. sp_organization_id r = oid) (service_principals db),
      role_permission_rows = filter (\<lambda>r. rp_organization_id r = oid) (role_permission_rows db),
      role_bindings = filter (\<lambda>r. rb_organization_id r = oid) (role_bindings db),
      permission_grants = filter (\<lambda>r. pg_organization_id r = oid) (permission_grants db),
      teams = filter (\<lambda>r. tm_organization_id r = oid) (teams db),
      team_members = filter (\<lambda>r. tmm_organization_id r = oid) (team_members db),
      projects = filter (\<lambda>r. cp_organization_id r = oid) (projects db),
      project_members = filter (\<lambda>r. cpm_organization_id r = oid) (project_members db),
      identities = filter (\<lambda>r. pi_organization_id r = oid) (identities db),
      project_teams = filter (\<lambda>r. ptr_organization_id r = oid) (project_teams db),
      project_technologies = filter (\<lambda>r. ptx_organization_id r = oid) (project_technologies db),
      usage_facts = filter (\<lambda>r. tuf_organization_id r = oid) (usage_facts db),
      technologies = filter (\<lambda>r. tech_organization_id r = oid) (technologies db),
      classifications = filter (\<lambda>r. tc_organization_id r = oid) (classifications db),
      responsibilities = filter (\<lambda>r. ttr_organization_id r = oid) (responsibilities db)\<rparr>"

lemma tenant_view_fields [simp]:
  "organizations (tenant_view oid db) = filter (\<lambda>r. org_id r = oid) (organizations db)"
  "memberships (tenant_view oid db) = filter (\<lambda>r. om_organization_id r = oid) (memberships db)"
  "service_principals (tenant_view oid db) = filter (\<lambda>r. sp_organization_id r = oid) (service_principals db)"
  "role_permission_rows (tenant_view oid db) = filter (\<lambda>r. rp_organization_id r = oid) (role_permission_rows db)"
  "role_bindings (tenant_view oid db) = filter (\<lambda>r. rb_organization_id r = oid) (role_bindings db)"
  "permission_grants (tenant_view oid db) = filter (\<lambda>r. pg_organization_id r = oid) (permission_grants db)"
  "teams (tenant_view oid db) = filter (\<lambda>r. tm_organization_id r = oid) (teams db)"
  "team_members (tenant_view oid db) = filter (\<lambda>r. tmm_organization_id r = oid) (team_members db)"
  "projects (tenant_view oid db) = filter (\<lambda>r. cp_organization_id r = oid) (projects db)"
  "project_members (tenant_view oid db) = filter (\<lambda>r. cpm_organization_id r = oid) (project_members db)"
  "identities (tenant_view oid db) = filter (\<lambda>r. pi_organization_id r = oid) (identities db)"
  "project_teams (tenant_view oid db) = filter (\<lambda>r. ptr_organization_id r = oid) (project_teams db)"
  "project_technologies (tenant_view oid db) = filter (\<lambda>r. ptx_organization_id r = oid) (project_technologies db)"
  "usage_facts (tenant_view oid db) = filter (\<lambda>r. tuf_organization_id r = oid) (usage_facts db)"
  "technologies (tenant_view oid db) = filter (\<lambda>r. tech_organization_id r = oid) (technologies db)"
  "classifications (tenant_view oid db) = filter (\<lambda>r. tc_organization_id r = oid) (classifications db)"
  "responsibilities (tenant_view oid db) = filter (\<lambda>r. ttr_organization_id r = oid) (responsibilities db)"
  by (simp_all add: tenant_view_def)

lemma find_filter_same: "find P (filter P xs) = find P xs"
  by (induction xs) auto

lemma bex_filter: "(\<exists>x \<in> set (filter P xs). Q x) \<longleftrightarrow> (\<exists>x \<in> set xs. P x \<and> Q x)"
  by auto

lemma gate_view: "corporate_principal_active (tenant_view oid db) oid pt pid ar
    = corporate_principal_active db oid pt pid ar"
  unfolding corporate_principal_active_def get_organization_def tenant_view_fields find_filter_same bex_filter
  by (auto split: option.split PrincipalType.split)

lemma subqueries_view:
  "set (active_team_ids (tenant_view oid db) oid) = set (active_team_ids db oid)"
  "set (active_project_teams (tenant_view oid db) oid) = set (active_project_teams db oid)"
  "set (technology_responsible_teams (tenant_view oid db) oid k) = set (technology_responsible_teams db oid k)"
  "set (scope_technology_categories (tenant_view oid db) oid k) = set (scope_technology_categories db oid k)"
  "set (scope_member_teams (tenant_view oid db) oid k) = set (scope_member_teams db oid k)"
  "set (scope_member_projects (tenant_view oid db) oid k) = set (scope_member_projects db oid k)"
  unfolding set_eq_iff active_team_ids_def active_project_teams_def technology_responsible_teams_def
    scope_technology_categories_def scope_member_teams_def scope_member_projects_def
    mem_select tenant_view_fields bex_filter
  by blast+

lemma technology_projects_view:
  "set (technology_current_projects (tenant_view oid db) oid k) = set (technology_current_projects db oid k)"
proof -
  have "(x \<in> set (technology_current_projects (tenant_view oid db) oid k))
      = (x \<in> set (technology_current_projects db oid k))" for x
    unfolding technology_current_projects_def mem_select tenant_view_fields bex_filter
    by (intro bex_cong refl conj_cong iffI; elim bexE conjE; intro bexI conjI; (assumption | simp))
  then show ?thesis by blast
qed

lemma eligible_view:
  "k \<in> bulk_eligible_projects (tenant_view oid db) oid ids \<longleftrightarrow> k \<in> bulk_eligible_projects db oid ids"
  unfolding bulk_eligible_mem tenant_view_fields bex_filter by blast

lemma scope_clause_view:
  "scope_clause (tenant_view oid db) oid kind sid sk k desc = scope_clause db oid kind sid sk k desc"
proof -
  have cur: "x \<in> set (scope_current_teams (tenant_view oid db) oid k) \<longleftrightarrow> x \<in> set (scope_current_teams db oid k)" for x
    unfolding scope_current_teams_iff eligible_view subqueries_view ..
  have tech: "x \<in> set (scope_technology_teams (tenant_view oid db) oid k) \<longleftrightarrow> x \<in> set (scope_technology_teams db oid k)" for x
    unfolding scope_technology_teams_iff technology_projects_view subqueries_view ..
  show ?thesis
    unfolding scope_clause_def cur tech technology_projects_view subqueries_view ..
qed

lemma scoped_rows_view:
  "set (scoped_bindings (tenant_view oid db) oid pt pid sk k) = set (scoped_bindings db oid pt pid sk k)"
  "set (scoped_grants (tenant_view oid db) oid pt pid sk k) = set (scoped_grants db oid pt pid sk k)"
  unfolding scoped_bindings_def scoped_grants_def principal_bindings_def principal_grants_def
    scope_clause_view subqueries_view tenant_view_fields set_filter mem_Collect_eq
  by blast+

lemma held_view: "held_permissions (tenant_view oid db) oid pt pid sk k = held_permissions db oid pt pid sk k"
  unfolding held_permissions_def scoped_rows_view tenant_view_fields bex_filter by blast

section \<open>A sample tenant\<close>

definition sample_tenant :: corporate_db where
  "sample_tenant =
     \<lparr>organizations = [\<lparr>org_id = ''o1'', org_kind = ''corporate'', org_state = ''active'', org_policy_revision = 3\<rparr>],
      memberships = [\<lparr>om_organization_id = ''o1'', om_account_id = ''ann'', om_state = ''active''\<rparr>],
      service_principals = [],
      role_permission_rows = [\<lparr>rp_organization_id = ''o1'', rp_role = ''dev'', rp_permission = ''scan''\<rparr>,
        \<lparr>rp_organization_id = ''o1'', rp_role = ''dev'', rp_permission = ''read''\<rparr>],
      role_bindings = [\<lparr>rb_id = ''b1'', rb_organization_id = ''o1'', rb_principal_type = ''user'',
        rb_account_id = Some ''ann'', rb_service_principal_id = None, rb_role = ''dev'',
        rb_scope_kind = ''team'', rb_scope_id = ''t1'', rb_state = ''active'', rb_origin = ''direct'',
        rb_coverage = ''self''\<rparr>],
      permission_grants = [\<lparr>pg_id = ''g1'', pg_organization_id = ''o1'', pg_principal_type = ''user'',
        pg_account_id = Some ''ann'', pg_service_principal_id = None, pg_permission = ''admin'',
        pg_scope_kind = ''organization'', pg_scope_id = ''*'', pg_state = ''active''\<rparr>],
      teams = [\<lparr>tm_id = ''t1'', tm_organization_id = ''o1'', tm_state = ''active''\<rparr>],
      team_members = [], 
      projects = [\<lparr>cp_id = ''p1'', cp_organization_id = ''o1'', cp_state = ''active''\<rparr>],
      project_members = [],
      identities = [\<lparr>pi_id = ''p1'', pi_organization_id = ''o1'', pi_namespace = ''remote'', pi_state = ''active''\<rparr>],
      project_teams = [\<lparr>ptr_organization_id = ''o1'', ptr_project_id = ''p1'', ptr_team_id = ''t1'', ptr_state = ''current''\<rparr>],
      project_technologies = [], usage_facts = [], technologies = [], classifications = [],
      responsibilities = []\<rparr>"

definition other_tenants :: "corporate_db \<Rightarrow> corporate_db" where
  "other_tenants db = db\<lparr>role_bindings := role_bindings db
     @ [\<lparr>rb_id = ''b9'', rb_organization_id = ''o2'', rb_principal_type = ''user'',
         rb_account_id = Some ''ann'', rb_service_principal_id = None, rb_role = ''owner'',
         rb_scope_kind = ''organization'', rb_scope_id = ''*'', rb_state = ''active'',
         rb_origin = ''direct'', rb_coverage = ''descendants''\<rparr>]\<rparr>"

lemma sample_active: "corporate_principal_active sample_tenant ''o1'' User ''ann'' (Some 3)"
  by (simp add: corporate_principal_active_def get_organization_def sample_tenant_def)

section \<open>Properties\<close>

text \<open>C28. The bulk evaluator is the single-scope evaluator asked once per distinct id, in sorted
  order, for every scope kind, whatever the tables hold; when the gate denies, both deny.
  The empty string is the one id on which they differ by construction: the single-scope
  evaluator reads it as the organization itself.\<close>

theorem bulk_is_the_single_evaluator:
  assumes "[] \<notin> set scope_ids"
  shows "(case bulk_effective_permissions db oid pt pid sk scope_ids of
      None \<Rightarrow> (\<forall>k. corporate_effective_permissions db oid pt pid sk k None = None)
    | Some rows \<Rightarrow> map (\<lambda>(k, ps). (k, Some ps)) rows
        = map (\<lambda>k. (k, corporate_effective_permissions db oid pt pid sk (Some k) None))
            (sort (remdups scope_ids)))"
proof (cases "corporate_principal_active db oid pt pid None")
  case True
  have "effective_scope oid (Some k) = k" if "k \<in> set scope_ids" for k
    using that assms by (auto simp: effective_scope_def)
  with True show ?thesis by (simp add: bulk_held effective_held)
qed (simp add: bulk_effective_permissions_def effective_held)

theorem bulk_is_the_single_evaluator_witness:
  "bulk_effective_permissions sample_tenant ''o1'' User ''ann'' ''project'' [''p2'', ''p1'', ''p2'']
     = Some [(''p1'', {''scan'', ''read''}), (''p2'', {})]"
proof -
  have one: "corporate_effective_permissions sample_tenant ''o1'' User ''ann'' ''project'' (Some ''p1'') None
      = Some {''scan'', ''read''}"
    "corporate_effective_permissions sample_tenant ''o1'' User ''ann'' ''project'' (Some ''p2'') None = Some {}"
    by code_simp+
  have "sort (remdups [''p2'', ''p1'', ''p2'']) = [''p1'', ''p2'']" by code_simp
  moreover have "bulk_effective_permissions sample_tenant ''o1'' User ''ann'' ''project'' [''p2'', ''p1'', ''p2''] \<noteq> None"
    by (simp add: bulk_effective_permissions_def corporate_principal_active_def
        get_organization_def sample_tenant_def Let_def)
  ultimately show ?thesis
    using bulk_is_the_single_evaluator [of "[''p2'', ''p1'', ''p2'']" sample_tenant "''o1''" User "''ann''" "''project''"] one
    by (auto simp: map_eq_Cons_conv)
qed

text \<open>C29. A decision about one organization depends on that organization's rows only: two
  databases that agree on them give the same effective permissions, the same bulk answer and
  the same yes or no, whatever other tenants own.\<close>

theorem tenants_are_isolated:
  assumes "tenant_view oid db = tenant_view oid db'"
  shows "corporate_effective_permissions db oid pt pid sk scope_id ar
      = corporate_effective_permissions db' oid pt pid sk scope_id ar
    \<and> bulk_effective_permissions db oid pt pid sk scope_ids = bulk_effective_permissions db' oid pt pid sk scope_ids
    \<and> has_corporate_permission db oid pt pid permission sk scope_id ar
      = has_corporate_permission db' oid pt pid permission sk scope_id ar"
proof -
  have gate: "corporate_principal_active db oid pt pid r = corporate_principal_active db' oid pt pid r" for r
    using gate_view [of oid db] gate_view [of oid db'] assms by metis
  have held: "held_permissions db oid pt pid sk k = held_permissions db' oid pt pid sk k" for k
    using held_view [of oid db] held_view [of oid db'] assms by metis
  have eff: "corporate_effective_permissions db oid pt pid sk scope_id ar
      = corporate_effective_permissions db' oid pt pid sk scope_id ar"
    by (simp add: effective_held gate held)
  have bulk: "bulk_effective_permissions db oid pt pid sk scope_ids
      = bulk_effective_permissions db' oid pt pid sk scope_ids"
  proof (cases "corporate_principal_active db oid pt pid None")
    case True
    then show ?thesis using bulk_held [of db] bulk_held [of db'] gate held by simp
  qed (simp add: bulk_effective_permissions_def gate)
  show ?thesis using eff bulk by (simp add: has_corporate_permission_def)
qed

theorem tenants_are_isolated_witness:
  "\<not> has_corporate_permission (other_tenants sample_tenant) ''o1'' User ''ann'' ''owner'' ''organization'' None (Some 3)"
proof -
  have "tenant_view ''o1'' (other_tenants sample_tenant) = tenant_view ''o1'' sample_tenant"
    by (simp add: tenant_view_def other_tenants_def)
  note tenants_are_isolated [OF this, of User "''ann''" "''organization''" None "Some 3" "[]" "''owner''"]
  moreover have "\<not> has_corporate_permission sample_tenant ''o1'' User ''ann'' ''owner'' ''organization'' None (Some 3)"
    by code_simp
  ultimately show ?thesis by simp
qed

text \<open>The explanation is exact: it is refused exactly when the evaluator is, its effective set is
  the evaluator's and is the union of what its records contribute, and its records cite exactly the
  bindings and direct grants that match the scope.\<close>

theorem explanation_is_exact:
  "(case explain_effective_permissions db oid pt pid sk scope_id of
      None \<Rightarrow> corporate_effective_permissions db oid pt pid sk scope_id None = None
    | Some (effective, records) \<Rightarrow>
        corporate_effective_permissions db oid pt pid sk scope_id None = Some effective
        \<and> effective = \<Union> (ps_permissions ` set records)
        \<and> map ps_source_id (filter (\<lambda>r. ps_kind r = SourceBinding) records)
            = map rb_id (scoped_bindings db oid pt pid sk (effective_scope oid scope_id))
        \<and> map ps_source_id (filter (\<lambda>r. ps_kind r = SourceGrant) records)
            = map pg_id (scoped_grants db oid pt pid sk (effective_scope oid scope_id)))"
proof (cases "corporate_principal_active db oid pt pid None")
  case True
  then show ?thesis
    using explain_records [OF True, of sk scope_id] by (auto simp: effective_held)
qed (simp add: explain_effective_permissions_def effective_held)

text \<open>A permission is granted only to an active principal of an active corporate organization, at
  the asked policy revision when one is given, and only through an active binding or direct grant
  of that principal in that organization, never one bound to an inactive team.\<close>

theorem permission_has_a_live_source:
  assumes "has_corporate_permission db oid pt pid permission sk scope_id ar"
  shows "(\<exists>organization. get_organization db oid = Some organization
       \<and> org_kind organization = ''corporate'' \<and> org_state organization = ''active''
       \<and> (ar = None \<or> ar = Some (org_policy_revision organization)))
    \<and> ((\<exists>b \<in> set (role_bindings db). rb_organization_id b = oid \<and> rb_state b = ''active''
          \<and> (if pt = User then rb_account_id b else rb_service_principal_id b) = Some pid
          \<and> (rb_scope_kind b = ''team'' \<and> rb_scope_id b \<in> set (active_team_ids db oid) \<or> rb_scope_kind b \<noteq> ''team'')
          \<and> (\<exists>r \<in> set (role_permission_rows db). rp_organization_id r = oid
                \<and> rp_role r = rb_role b \<and> rp_permission r = permission))
       \<or> (\<exists>g \<in> set (permission_grants db). pg_organization_id g = oid \<and> pg_state g = ''active''
          \<and> (if pt = User then pg_account_id g else pg_service_principal_id g) = Some pid
          \<and> (pg_scope_kind g = ''team'' \<and> pg_scope_id g \<in> set (active_team_ids db oid) \<or> pg_scope_kind g \<noteq> ''team'')
          \<and> pg_permission g = permission))"
proof -
  from assms have act: "corporate_principal_active db oid pt pid ar"
    and mem: "permission \<in> held_permissions db oid pt pid sk (effective_scope oid scope_id)"
    by (simp_all add: has_corporate_permission_def effective_held split: if_splits)
  from act have "\<exists>organization. get_organization db oid = Some organization
       \<and> org_kind organization = ''corporate'' \<and> org_state organization = ''active''
       \<and> (ar = None \<or> ar = Some (org_policy_revision organization))"
    unfolding corporate_principal_active_def by (simp split: option.splits if_splits)
  moreover from mem have "(\<exists>b \<in> set (role_bindings db). rb_organization_id b = oid \<and> rb_state b = ''active''
          \<and> (if pt = User then rb_account_id b else rb_service_principal_id b) = Some pid
          \<and> (rb_scope_kind b = ''team'' \<and> rb_scope_id b \<in> set (active_team_ids db oid) \<or> rb_scope_kind b \<noteq> ''team'')
          \<and> (\<exists>r \<in> set (role_permission_rows db). rp_organization_id r = oid
                \<and> rp_role r = rb_role b \<and> rp_permission r = permission))
       \<or> (\<exists>g \<in> set (permission_grants db). pg_organization_id g = oid \<and> pg_state g = ''active''
          \<and> (if pt = User then pg_account_id g else pg_service_principal_id g) = Some pid
          \<and> (pg_scope_kind g = ''team'' \<and> pg_scope_id g \<in> set (active_team_ids db oid) \<or> pg_scope_kind g \<noteq> ''team'')
          \<and> pg_permission g = permission)"
    unfolding held_permissions_def scoped_bindings_def scoped_grants_def principal_bindings_def
      principal_grants_def set_filter mem_Collect_eq by blast
  ultimately show ?thesis by blast
qed

theorem permission_has_a_live_source_witness:
  "has_corporate_permission sample_tenant ''o1'' User ''ann'' ''scan'' ''project'' (Some ''p1'') (Some 3)
   \<and> get_organization sample_tenant ''o1'' \<noteq> None"
proof -
  have "has_corporate_permission sample_tenant ''o1'' User ''ann'' ''scan'' ''project'' (Some ''p1'') (Some 3)"
    by code_simp
  then show ?thesis using permission_has_a_live_source by blast
qed

text \<open>An organization-scope binding reaches a child scope exactly when descendants coverage was
  delegated to it, and an organization-scope direct grant never does; both reach every check at
  organization scope.\<close>

theorem organization_rows_propagate_only_by_coverage:
  assumes "b \<in> set (principal_bindings db oid pt pid (\<lambda>_. True))" and "rb_scope_kind b = ''organization''"
    and "g \<in> set (principal_grants db oid pt pid (\<lambda>_. True))" and "pg_scope_kind g = ''organization''"
  shows "(b \<in> set (scoped_bindings db oid pt pid sk scope) \<longleftrightarrow>
      sk = ''organization'' \<or> rb_coverage b = ''descendants'')
    \<and> (g \<in> set (scoped_grants db oid pt pid sk scope) \<longleftrightarrow> sk = ''organization'')"
  using assms
  by (auto simp: scoped_bindings_def scoped_grants_def principal_bindings_def principal_grants_def
      scope_clause_def Let_def)

theorem organization_rows_propagate_only_by_coverage_witness:
  "hd (permission_grants sample_tenant) \<notin> set (scoped_grants sample_tenant ''o1'' User ''ann'' ''project'' ''p1'')"
proof -
  let ?b = "\<lparr>rb_id = ''b2'', rb_organization_id = ''o1'', rb_principal_type = ''user'',
         rb_account_id = Some ''ann'', rb_service_principal_id = None, rb_role = ''dev'',
         rb_scope_kind = ''organization'', rb_scope_id = ''*'', rb_state = ''active'',
         rb_origin = ''direct'', rb_coverage = ''self''\<rparr>"
  let ?db = "sample_tenant\<lparr>role_bindings := [?b]\<rparr>"
  have "?b \<in> set (principal_bindings ?db ''o1'' User ''ann'' (\<lambda>_. True))"
    by (simp add: principal_bindings_def)
  moreover have "hd (permission_grants sample_tenant) \<in> set (principal_grants ?db ''o1'' User ''ann'' (\<lambda>_. True))"
    by (simp add: principal_grants_def sample_tenant_def)
  ultimately have "hd (permission_grants sample_tenant) \<notin> set (scoped_grants ?db ''o1'' User ''ann'' ''project'' ''p1'')"
    using organization_rows_propagate_only_by_coverage [of ?b ?db "''o1''" User "''ann''"
        "hd (permission_grants sample_tenant)" "''project''" "''p1''"]
    by (simp add: sample_tenant_def)
  then show ?thesis
    by (simp add: scoped_grants_def principal_grants_def sample_tenant_def scope_clause_def)
qed

end
