(* ===== verification/Worker.thy ===== *)
theory Worker
  imports QueueContract CorporateAuthTheorems
begin

text \<open>
  What a worker does with one claimed job (\<open>apps/worker/src/ai_stp_worker/runner.py\<close>, with
  \<open>validate_tenant_job\<close> of \<open>queue/engine.py\<close>): the authority re-check against the current
  corporate tables, the handler in its own transaction, the verdict in another, and the audit
  event. The registered handlers, the ledger hook and the plan hook act on an abstract business
  store \<open>'s\<close> and are arguments. Other transactions commit in between: \<open>env1\<close> between reading
  the job and the handler, \<open>env2\<close> between the handler and the verdict.
\<close>

section \<open>The authority check\<close>

text \<open>\<open>isinstance(x, int)\<close>: Python's booleans are integers.\<close>

fun py_int :: "json \<Rightarrow> int option" where
  "py_int (JInt i) = Some i"
| "py_int (JBool b) = Some (if b then 1 else 0)"
| "py_int _ = None"

fun json_text :: "json \<Rightarrow> string option" where
  "json_text (JStr s) = Some s" | "json_text _ = None"

definition read_principal_type :: "json \<Rightarrow> PrincipalType option" where
  "read_principal_type v =
     (if v = JStr ''user'' then Some User
      else if v = JStr ''service_principal'' then Some ServicePrincipal else None)"

text \<open>
  The result carries the payload and the tenant scope the session ends in (\<^const>\<open>None\<close> when
  the function never set one).
\<close>

definition validate_tenant_job :: "corporate_db \<Rightarrow> job \<Rightarrow> queue_error + dict \<times> string option" where
  "validate_tenant_job cdb j =
    (let payload = job_payload j in
     case organization_id j of
       None \<Rightarrow>
         if has_key payload TENANT_ENVELOPE_KEY
         then Inl (TenantJobInvalid ''global job carries a tenant envelope'')
         else Inr (payload, None)
     | Some oid \<Rightarrow>
         (case dict_get payload TENANT_ENVELOPE_KEY of
            JDict envelope \<Rightarrow>
              if dict_get envelope ''organization_id'' \<noteq> JStr oid
              then Inl (TenantJobInvalid ''job tenant envelope does not match persisted scope'')
              else
                (case py_int (dict_get envelope ''authorization_revision'') of
                   None \<Rightarrow> Inl (TenantJobInvalid ''job tenant envelope has no authorization revision'')
                 | Some ar \<Rightarrow>
                     if ar < 1
                     then Inl (TenantJobInvalid ''job tenant envelope has no authorization revision'')
                     else
                       let sid = dict_get envelope ''scope_id'' in
                       (case (read_principal_type (dict_get envelope ''principal_type''),
                              json_text (dict_get envelope ''principal_id''),
                              json_text (dict_get envelope ''required_permission''),
                              json_text (dict_get envelope ''scope_kind'')) of
                          (Some pt, Some pid, Some permission, Some sk) \<Rightarrow>
                            if sid \<noteq> JNull \<and> json_text sid = None
                            then Inl (TenantJobInvalid ''job tenant envelope has no authorization decision'')
                            else
                              (case get_organization cdb oid of
                                 None \<Rightarrow> Inl (TenantJobInvalid ''job organization is unavailable'')
                               | Some current \<Rightarrow>
                                   if org_state current \<noteq> ''active''
                                   then Inl (TenantJobInvalid ''job organization is unavailable'')
                                   else if org_policy_revision current \<noteq> ar
                                   then Inl (TenantJobInvalid ''job authorization revision is stale'')
                                   else if \<not> has_corporate_permission cdb oid pt pid permission sk (json_text sid) (Some ar)
                                   then Inl (TenantJobInvalid ''job authorization is no longer effective'')
                                   else Inr (payload, Some oid))
                        | _ \<Rightarrow> Inl (TenantJobInvalid ''job tenant envelope has no authorization decision'')))
          | _ \<Rightarrow> Inl (TenantJobInvalid ''job tenant envelope does not match persisted scope'')))"

section \<open>The worker's world\<close>

text \<open>An exception a handler ends in: its type name, \<open>str(exc).strip()\<close> and the retry hints.\<close>

record job_exception =
  exc_name :: string
  exc_detail :: string
  exc_permanent :: bool
  exc_not_before :: "time option"

definition error_text :: "job_exception \<Rightarrow> string" where
  "error_text e = exc_name e @ (if exc_detail e = [] then [] else '': '' @ exc_detail e)"

fun queue_exception :: "queue_error \<Rightarrow> job_exception" where
  "queue_exception (TenantJobInvalid m) =
     \<lparr>exc_name = ''TenantJobInvalid'', exc_detail = m, exc_permanent = False, exc_not_before = None\<rparr>"
| "queue_exception (Raised _) =
     \<lparr>exc_name = ''Exception'', exc_detail = [], exc_permanent = False, exc_not_before = None\<rparr>"

record audit_event =
  ev_organization_id :: string
  ev_actor_account_id :: "string option"
  ev_actor_type :: string
  ev_actor_id :: string
  ev_role_bindings :: "(string \<times> string \<times> string) list"
  ev_action :: string
  ev_target_table :: string
  ev_target_id :: string
  ev_outcome :: string
  ev_reason :: "string option"
  ev_job_type :: string

record 's world =
  w_queue :: queue_db
  w_corp :: corporate_db
  w_audit :: "audit_event list"
  w_store :: 's

definition audit_tenant_job_outcome :: "corporate_db \<Rightarrow> job \<Rightarrow> string \<Rightarrow> string option \<Rightarrow> audit_event list" where
  "audit_tenant_job_outcome cdb j outcome err =
    (case organization_id j of
       None \<Rightarrow> []
     | Some oid \<Rightarrow>
         (case dict_get (job_payload j) TENANT_ENVELOPE_KEY of
            JDict envelope \<Rightarrow>
              (case (read_principal_type (dict_get envelope ''principal_type''),
                     json_text (dict_get envelope ''principal_id'')) of
                 (Some pt, Some actor_id) \<Rightarrow>
                   [\<lparr>ev_organization_id = oid,
                     ev_actor_account_id = (if pt = User then Some actor_id else None),
                     ev_actor_type = principal_wire pt, ev_actor_id = actor_id,
                     ev_role_bindings =
                       map (\<lambda>b. (rb_role b, rb_scope_kind b, rb_scope_id b))
                         (filter (\<lambda>b. rb_organization_id b = oid \<and> rb_principal_type b = principal_wire pt
                            \<and> (if pt = User then rb_account_id b else rb_service_principal_id b) = Some actor_id
                            \<and> rb_state b = ''active'') (role_bindings cdb)),
                     ev_action = ''job.execute'', ev_target_table = ''job'',
                     ev_target_id = int_str (job_id j), ev_outcome = outcome,
                     ev_reason = (case err of None \<Rightarrow> None
                        | Some e \<Rightarrow> if e = [] then None else Some (takeWhile (\<lambda>c. c \<noteq> CHR '':'') e)),
                     ev_job_type = job_type j\<rparr>]
               | _ \<Rightarrow> [])
          | _ \<Rightarrow> []))"

section \<open>One job\<close>

text \<open>
  A handler answers with the exception it ended in, if any, and with the business state it leaves
  committed: the new state when it returned; when it raised, whatever it had committed itself before
  (\<open>validate\<close> commits before its scanners run, the others nothing), the rest being rolled back.
\<close>

type_synonym 's handler = "string option \<Rightarrow> dict \<Rightarrow> 's \<Rightarrow> job_exception option \<times> 's"

datatype verdict = Missing | Failed | Succeeded | Superseded | Crashed queue_error

text \<open>The authority check, and then the handler.\<close>

definition run_handler :: "'s handler \<Rightarrow> job \<Rightarrow> 's world \<Rightarrow> job_exception option \<times> 's world" where
  "run_handler h j w =
    (case validate_tenant_job (w_corp w) j of
       Inl e \<Rightarrow> (Some (queue_exception e), w)
     | Inr (payload, scope) \<Rightarrow>
         (let (err, st) = h scope payload (w_store w) in (err, w\<lparr>w_store := st\<rparr>)))"

definition status_scope :: "job \<Rightarrow> string" where
  "status_scope j = (case organization_id j of None \<Rightarrow> ''*'' | Some oid \<Rightarrow> if oid = [] then ''*'' else oid)"

text \<open>
  The verdict's transaction. \<open>record_outcome\<close> is the upstream ledger's hook on a failure,
  \<open>settle_plan\<close> the publication hook on a dead letter. An exception rolls the transaction back.
\<close>

definition settle_job ::
  "(job \<Rightarrow> 's \<Rightarrow> 's) \<Rightarrow> (job \<Rightarrow> 's \<Rightarrow> 's) \<Rightarrow> string \<Rightarrow> job \<Rightarrow> job_exception option
     \<Rightarrow> time \<Rightarrow> time \<Rightarrow> 's world \<Rightarrow> verdict \<times> 's world" where
  "settle_job record_outcome settle_plan worker j err moment dbnow w =
    (let q = set_tenant_scope (status_scope j) (w_queue w) in
     case row_at (job_id j) q of
       None \<Rightarrow> (Missing, w\<lparr>w_queue := q\<rparr>)
     | Some current \<Rightarrow>
         (case err of
            None \<Rightarrow>
              (case mark_succeeded current (Some worker) dbnow q of
                 (Inl e, _) \<Rightarrow> (Crashed e, w)
               | (Inr False, q') \<Rightarrow> (Superseded, w\<lparr>w_queue := q'\<rparr>)
               | (Inr True, q') \<Rightarrow>
                   (case row_at (job_id j) q' of
                      None \<Rightarrow> (Succeeded, w\<lparr>w_queue := q'\<rparr>)
                    | Some row \<Rightarrow>
                        (Succeeded, w\<lparr>w_queue := q',
                           w_audit := w_audit w @ audit_tenant_job_outcome (w_corp w) row ''succeeded'' None\<rparr>)))
          | Some e \<Rightarrow>
              (case fail current (error_text e) (exc_permanent e) (Some worker) (exc_not_before e) moment dbnow q of
                 (Inl err', _) \<Rightarrow> (Crashed err', w)
               | (Inr False, q') \<Rightarrow> (Superseded, w\<lparr>w_queue := q'\<rparr>)
               | (Inr True, q') \<Rightarrow>
                   (case row_at (job_id j) q' of
                      None \<Rightarrow> (Failed, w\<lparr>w_queue := q'\<rparr>)
                    | Some row \<Rightarrow>
                        let st = record_outcome row (w_store w);
                            st' = (if job_state row = DEAD_LETTER then settle_plan row st else st)
                        in (Failed, w\<lparr>w_queue := q', w_store := st',
                              w_audit := w_audit w @
                                audit_tenant_job_outcome (w_corp w) row ''failed'' (Some (error_text e))\<rparr>)))))"

definition refuse_unregistered :: "string \<Rightarrow> int \<Rightarrow> time \<Rightarrow> time \<Rightarrow> 's world \<Rightarrow> verdict \<times> 's world" where
  "refuse_unregistered worker i moment dbnow w =
    (let q = set_tenant_scope ''*'' (w_queue w) in
     case row_at i q of
       None \<Rightarrow> (Failed, w\<lparr>w_queue := q\<rparr>)
     | Some current \<Rightarrow>
         (case fail current ''unregistered job type'' True (Some worker) None moment dbnow q of
            (Inl e, _) \<Rightarrow> (Crashed e, w)
          | (Inr _, q') \<Rightarrow> (Failed, w\<lparr>w_queue := q'\<rparr>)))"

definition process ::
  "(string \<Rightarrow> 's handler option) \<Rightarrow> (job \<Rightarrow> 's \<Rightarrow> 's) \<Rightarrow> (job \<Rightarrow> 's \<Rightarrow> 's) \<Rightarrow> string \<Rightarrow> int
     \<Rightarrow> time \<Rightarrow> time \<Rightarrow> ('s world \<Rightarrow> 's world) \<Rightarrow> ('s world \<Rightarrow> 's world) \<Rightarrow> 's world \<Rightarrow> verdict \<times> 's world" where
  "process resolve record_outcome settle_plan worker i moment dbnow env1 env2 w =
    (let w0 = w\<lparr>w_queue := set_tenant_scope ''*'' (w_queue w)\<rparr> in
     case row_at i (w_queue w0) of
       None \<Rightarrow> (Missing, w0)
     | Some j \<Rightarrow>
         (case resolve (job_type j) of
            None \<Rightarrow> refuse_unregistered worker i moment dbnow (env1 w0)
          | Some h \<Rightarrow>
              (case run_handler h j (env1 w0) of
                 (err, w1) \<Rightarrow> settle_job record_outcome settle_plan worker j err moment dbnow (env2 w1))))"

end
