(* ===== verification/WorkerTheorems.thy ===== *)
theory WorkerTheorems
  imports Worker
begin

text \<open>
  The worker's guarantees: a tenant job runs exactly while the authority it was queued under still
  holds, in its own tenant's scope; one verdict per lease; no handler effect without authority.
\<close>

section \<open>The authority contract\<close>

text \<open>What the re-check relies on: a permission at a revision implies a live organization at it.\<close>

locale revision_gate =
  fixes current :: "'db \<Rightarrow> string \<Rightarrow> (bool \<times> int) option"
    and permitted :: "'db \<Rightarrow> string \<Rightarrow> 'q \<Rightarrow> int option \<Rightarrow> bool"
  assumes live: "permitted db oid q (Some ar) \<Longrightarrow> current db oid = Some (True, ar)"
begin

lemma stale_denied: "current db oid \<noteq> Some (True, ar) \<Longrightarrow> \<not> permitted db oid q (Some ar)"
  using live by blast

lemma one_revision: "permitted db oid q (Some ar) \<Longrightarrow> permitted db oid q' (Some ar') \<Longrightarrow> ar = ar'"
  using live [of db oid q ar] live [of db oid q' ar'] by simp

end

interpretation corporate: revision_gate
  "\<lambda>db oid. map_option (\<lambda>r. (org_state r = ''active'', org_policy_revision r)) (get_organization db oid)"
  "\<lambda>db oid (pt, pid, permission, sk, sid). has_corporate_permission db oid pt pid permission sk sid"
proof
  fix db oid q ar
  assume "(case q of (pt, pid, permission, sk, sid) \<Rightarrow>
    has_corporate_permission db oid pt pid permission sk sid) (Some ar)"
  then obtain pt pid permission sk sid
    where "has_corporate_permission db oid pt pid permission sk sid (Some ar)"
    by (cases q) auto
  then have "corporate_principal_active db oid pt pid (Some ar)"
    by (simp add: has_corporate_permission_def effective_held split: if_splits)
  then show "map_option (\<lambda>r. (org_state r = ''active'', org_policy_revision r)) (get_organization db oid)
      = Some (True, ar)"
    by (auto simp: corporate_principal_active_def split: option.splits if_splits)
qed

lemma permitted_live:
  "has_corporate_permission db oid pt pid permission sk sid (Some ar) \<Longrightarrow>
     \<exists>r. get_organization db oid = Some r \<and> org_state r = ''active'' \<and> org_policy_revision r = ar"
  using corporate.live [of db oid "(pt, pid, permission, sk, sid)" ar] by auto

section \<open>Envelopes\<close>

lemma read_principal_wire [simp]: "read_principal_type (JStr (principal_wire pt)) = Some pt"
  by (cases pt) (simp_all add: read_principal_type_def)

lemma json_text_opt [simp]: "json_text (opt_str s) = s"
  by (cases s) (simp_all add: opt_str_def)

lemma opt_str_null: "opt_str s \<noteq> JNull \<Longrightarrow> s \<noteq> None"
  by (cases s) (simp_all add: opt_str_def)

lemma envelope_fields [simp]:
  "dict_get (tenant_envelope oid ar pt pid perm sk sid) ''organization_id'' = JStr oid"
  "dict_get (tenant_envelope oid ar pt pid perm sk sid) ''authorization_revision'' = JInt ar"
  "dict_get (tenant_envelope oid ar pt pid perm sk sid) ''principal_type'' = JStr (principal_wire pt)"
  "dict_get (tenant_envelope oid ar pt pid perm sk sid) ''principal_id'' = JStr pid"
  "dict_get (tenant_envelope oid ar pt pid perm sk sid) ''required_permission'' = JStr perm"
  "dict_get (tenant_envelope oid ar pt pid perm sk sid) ''scope_kind'' = JStr sk"
  "dict_get (tenant_envelope oid ar pt pid perm sk sid) ''scope_id'' = opt_str sid"
  by (simp_all add: tenant_envelope_def dict_get_def)

lemma validate_envelope:
  assumes "organization_id j = Some oid"
    and "dict_get (job_payload j) TENANT_ENVELOPE_KEY = JDict (tenant_envelope oid ar pt pid perm sk sid)"
    and "1 \<le> ar"
  shows "has_corporate_permission cdb oid pt pid perm sk sid (Some ar) \<Longrightarrow>
      validate_tenant_job cdb j = Inr (job_payload j, Some oid)"
    and "\<not> has_corporate_permission cdb oid pt pid perm sk sid (Some ar) \<Longrightarrow>
      \<exists>m. validate_tenant_job cdb j = Inl (TenantJobInvalid m)"
proof -
  assume "has_corporate_permission cdb oid pt pid perm sk sid (Some ar)"
  with permitted_live [OF this] assms show "validate_tenant_job cdb j = Inr (job_payload j, Some oid)"
    using opt_str_null [of sid] by (auto simp: validate_tenant_job_def Let_def)
next
  assume "\<not> has_corporate_permission cdb oid pt pid perm sk sid (Some ar)"
  with assms show "\<exists>m. validate_tenant_job cdb j = Inl (TenantJobInvalid m)"
    by (auto simp: validate_tenant_job_def Let_def split: option.splits)
qed

lemma enqueue_fresh_row:
  assumes "enqueue a now dbnow db = (Inr j, db')" and "\<forall>x \<in> set (jobs db). \<not> same_slot (e_org a) (e_key a) x"
  shows "\<exists>p. enqueue_payload a = Inr p \<and> j = new_job a p (next_job_id db) now dbnow"
proof -
  from assms(2) have none: "filter (same_slot (e_org a) (e_key a)) (jobs db) = []"
    by (auto simp: filter_empty_conv)
  show ?thesis
  proof (cases "enqueue_payload a")
    case (Inr p)
    have slot: "same_slot (e_org a) (e_key a) (new_job a p i now dbnow)" for i
      by (simp add: same_slot_def new_job_def)
    from assms Inr none slot show ?thesis
      by (cases "e_org a") (auto simp: enqueue_def Let_def set_tenant_scope_def)
  qed (use assms in \<open>simp add: enqueue_def\<close>)
qed

section \<open>One job\<close>

lemma run_handler_audit: "run_handler h j w = (err, w1) \<Longrightarrow> w_audit w1 = w_audit w \<and> w_queue w1 = w_queue w"
  by (auto simp: run_handler_def split: sum.splits prod.splits)

lemma holder_scope [simp]: "holder i (set_tenant_scope org db) = holder i db"
  by (simp add: holder_def)

lemma settle_superseded:
  assumes inv: "queue_inv (w_queue w)" and row: "row_at (job_id j) (w_queue w) = Some r"
    and no: "holder (job_id j) (w_queue w) \<noteq> Some worker"
  shows "settle_job ro sp worker j err moment dbnow w
    = (Superseded, w\<lparr>w_queue := set_tenant_scope (status_scope j) (w_queue w)\<rparr>)"
proof -
  let ?q = "set_tenant_scope (status_scope j) (w_queue w)"
  have id: "job_id r = job_id j" using row_at_Some [OF row] by simp
  have "queue_inv ?q" "holder (job_id r) ?q \<noteq> Some worker"
    using inv no id by (simp_all add: queue_inv_scope)
  note settle_refused [OF this]
  then show ?thesis using row by (cases err) (simp_all add: settle_job_def Let_def)
qed

lemma settle_success:
  assumes inv: "queue_inv (w_queue w)" and row: "row_at (job_id j) (w_queue w) = Some r"
    and mine: "holder (job_id j) (w_queue w) = Some worker"
  shows "\<exists>w'. settle_job ro sp worker j None moment dbnow w = (Succeeded, w')
    \<and> row_at (job_id j) (w_queue w') = Some (stamp_succeeded dbnow r) \<and> w_store w' = w_store w
    \<and> w_audit w' = w_audit w
        @ audit_tenant_job_outcome (w_corp w) (stamp_succeeded dbnow r) ''succeeded'' None"
proof -
  let ?q = "set_tenant_scope (status_scope j) (w_queue w)"
  have id: "job_id r = job_id j" using row_at_Some [OF row] by simp
  have "queue_inv ?q" "holder (job_id r) ?q = Some worker"
    using inv mine id by (simp_all add: queue_inv_scope)
  note m = mark_succeeded_holder [OF this]
  have "row_at (job_id j) (set_row (job_id r) (stamp_succeeded dbnow) ?q) = Some (stamp_succeeded dbnow r)"
    using row id by (simp add: row_at_set_row stamp_succeeded_def touch_def)
  then show ?thesis using row m by (simp add: settle_job_def Let_def)
qed

lemma settle_failure:
  assumes inv: "queue_inv (w_queue w)" and row: "row_at (job_id j) (w_queue w) = Some r"
    and mine: "holder (job_id j) (w_queue w) = Some worker" and few: "attempts r + 1 < 1024"
  shows "\<exists>w' r'. settle_job ro sp worker j (Some e) moment dbnow w = (Failed, w')
    \<and> row_at (job_id j) (w_queue w') = Some r' \<and> attempts r' = attempts r + 1
    \<and> last_error r' = Some (take 2000 (error_text e)) \<and> locked_by r' = None
    \<and> job_state r' = (if exc_permanent e \<or> int (attempts r + 1) \<ge> max_attempts r
                      then DEAD_LETTER else RETRY_SCHEDULED)
    \<and> w_store w' = (if job_state r' = DEAD_LETTER then sp r' (ro r' (w_store w)) else ro r' (w_store w))
    \<and> w_audit w' = w_audit w
        @ audit_tenant_job_outcome (w_corp w) r' ''failed'' (Some (error_text e))"
proof -
  let ?q = "set_tenant_scope (status_scope j) (w_queue w)"
  have id: "job_id r = job_id j" using row_at_Some [OF row] by simp
  have inv': "queue_inv ?q" and h: "holder (job_id r) ?q = Some worker"
    using inv mine id by (simp_all add: queue_inv_scope)
  have rq: "row_at (job_id r) ?q = Some r" using row id by simp
  from owned_running_holder [OF inv' h] rq
  have own: "owned_running_job (job_id r) (Some worker) ?q = Inr (Some r)" by (metis option.inject)
  obtain s where s: "backoff_seconds (attempts r + 1) = Inr s"
    using few by (simp add: backoff_seconds_def)
  have at: "row_at (job_id j) (set_row (job_id r) f ?q) = Some (f r)" if "\<And>x. job_id (f x) = job_id x" for f
    using row id that by (simp add: row_at_set_row)
  let ?dead = "stamp_dead (error_text e) dbnow"
  let ?retry = "stamp_retry (error_text e) (retry_at moment s (exc_not_before e)) dbnow"
  have "row_at (job_id j) (set_row (job_id r) ?dead ?q) = Some (?dead r)"
    "row_at (job_id j) (set_row (job_id r) ?retry ?q) = Some (?retry r)"
    by (rule at; simp add: stamp_dead_def stamp_retry_def touch_def)+
  moreover have "attempts (?dead r) = attempts r + 1" "attempts (?retry r) = attempts r + 1"
    "last_error (?dead r) = Some (take 2000 (error_text e))"
    "last_error (?retry r) = Some (take 2000 (error_text e))"
    "job_state (?dead r) = DEAD_LETTER" "job_state (?retry r) = RETRY_SCHEDULED"
    by (simp_all add: stamp_dead_def stamp_retry_def touch_def)
  ultimately show ?thesis
    using row own s by (auto simp: settle_job_def Let_def fail_def expected_owner_def)
qed

section \<open>A sample job\<close>

definition sample_args :: "string option \<Rightarrow> enqueue_args" where
  "sample_args org =
     \<lparr>e_job_type = VALIDATE, e_payload = [(''plan'', JStr ''p'')], e_key = ''k'', e_priority = 0,
      e_max_attempts = 5, e_run_after = None, e_org = org, e_revision = Some 3,
      e_principal_type = Some User, e_principal_id = Some ''ann'', e_permission = Some ''scan'',
      e_scope_kind = ''project'', e_scope_id = Some ''p1''\<rparr>"

definition empty_queue :: queue_db where
  "empty_queue = \<lparr>jobs = [], next_job_id = 1, tenant_scope = []\<rparr>"

definition sample_payload :: dict where
  "sample_payload = [(''plan'', JStr ''p''), (TENANT_ENVELOPE_KEY,
     JDict (tenant_envelope ''o1'' 3 User ''ann'' ''scan'' ''project'' (Some ''p1'')))]"

definition sample_job :: job where
  "sample_job = new_job (sample_args (Some ''o1'')) sample_payload 1 0 0"

definition claimed_job :: job where
  "claimed_job = stamp_claim ''w1'' 5 5 sample_job"

definition sample_world :: "corporate_db \<Rightarrow> nat world" where
  "sample_world cdb = \<lparr>w_queue = \<lparr>jobs = [claimed_job], next_job_id = 2, tenant_scope = ''*''\<rparr>,
     w_corp = cdb, w_audit = [], w_store = 0\<rparr>"

definition count_handler :: "nat handler" where
  "count_handler scope payload n = (None, n + 1)"

lemma sample_enqueued:
  "fst (enqueue (sample_args (Some ''o1'')) 0 0 empty_queue) = Inr sample_job"
  by (simp add: enqueue_def enqueue_payload_def sample_args_def sample_job_def sample_payload_def
      empty_queue_def new_job_def same_slot_def set_tenant_scope_def dict_get_def Let_def TENANT_ENVELOPE_KEY_def)

lemma sample_allowed: "has_corporate_permission sample_tenant ''o1'' User ''ann'' ''scan'' ''project'' (Some ''p1'') (Some 3)"
  by code_simp

lemma claimed_fields:
  "job_id claimed_job = 1" "organization_id claimed_job = Some ''o1''" "job_payload claimed_job = sample_payload"
  "job_state claimed_job = RUNNING" "locked_by claimed_job = Some ''w1''" "attempts claimed_job = 0"
  "job_type claimed_job = ''validate''" "max_attempts claimed_job = 5" "locked_at claimed_job = Some 5"
  by (simp_all add: claimed_job_def stamp_claim_def touch_def sample_job_def new_job_def sample_args_def)

lemma sample_envelope: "dict_get sample_payload TENANT_ENVELOPE_KEY =
    JDict (tenant_envelope ''o1'' 3 User ''ann'' ''scan'' ''project'' (Some ''p1''))"
  by (simp add: sample_payload_def dict_get_def TENANT_ENVELOPE_KEY_def)

lemma sample_inv: "queue_inv (w_queue (sample_world cdb))"
  by (simp add: sample_world_def queue_inv_def row_defs claimed_fields)

section \<open>Properties\<close>

text \<open>C30. The row a tenant enqueue inserts validates, at any later time and against any state of
  the corporate tables, exactly when the principal it was queued for then holds the required
  permission at the queued scope and the organization is still at the queued revision; it then
  yields the stored payload and the row's own tenant scope, and otherwise a refusal.\<close>

theorem queued_job_runs_iff_still_authorized:
  assumes "enqueue a now dbnow db = (Inr j, db')"
    and "\<forall>x \<in> set (jobs db). \<not> same_slot (e_org a) (e_key a) x"
    and "e_org a = Some oid" and "e_revision a = Some ar" and "e_principal_type a = Some pt"
    and "e_principal_id a = Some pid" and "e_permission a = Some perm"
  shows "if has_corporate_permission cdb oid pt pid perm (e_scope_kind a) (e_scope_id a) (Some ar)
    then validate_tenant_job cdb j = Inr (job_payload j, Some oid)
    else \<exists>m. validate_tenant_job cdb j = Inl (TenantJobInvalid m)"
proof -
  obtain p where p: "enqueue_payload a = Inr p" "j = new_job a p (next_job_id db) now dbnow"
    using enqueue_fresh_row [OF assms(1,2)] by blast
  from p(1) assms(3-7) have "1 \<le> ar"
    and "dict_get p TENANT_ENVELOPE_KEY = JDict (tenant_envelope oid ar pt pid perm (e_scope_kind a) (e_scope_id a))"
    by (auto simp: enqueue_payload_def Let_def split: if_splits)
  with p(2) assms(3) validate_envelope [of j oid ar pt pid perm "e_scope_kind a" "e_scope_id a" cdb]
  show ?thesis by (simp add: new_job_def)
qed

theorem queued_job_runs_iff_still_authorized_witness:
  "validate_tenant_job sample_tenant sample_job = Inr (job_payload sample_job, Some ''o1'')"
proof -
  obtain db' where "enqueue (sample_args (Some ''o1'')) 0 0 empty_queue = (Inr sample_job, db')"
    using sample_enqueued by (metis prod.collapse)
  from queued_job_runs_iff_still_authorized [OF this, of "''o1''" 3 User "''ann''" "''scan''" sample_tenant]
  show ?thesis using sample_allowed by (simp add: empty_queue_def sample_args_def)
qed

text \<open>Whatever a job row holds, a successful validation returns its payload unchanged and its own
  tenant; a global job then carries no envelope, and a tenant job carries an envelope for its own
  organization, which is active, with a principal that holds the named permission right now.\<close>

theorem validation_is_sound:
  assumes "validate_tenant_job cdb j = Inr (payload, scope)"
  shows "payload = job_payload j \<and> scope = organization_id j
    \<and> (case organization_id j of
         None \<Rightarrow> \<not> has_key (job_payload j) TENANT_ENVELOPE_KEY
       | Some oid \<Rightarrow> \<exists>envelope pt pid perm sk sid ar. dict_get (job_payload j) TENANT_ENVELOPE_KEY = JDict envelope
           \<and> dict_get envelope ''organization_id'' = JStr oid
           \<and> dict_get envelope ''principal_id'' = JStr pid \<and> dict_get envelope ''required_permission'' = JStr perm
           \<and> dict_get envelope ''principal_type'' = JStr (principal_wire pt)
           \<and> has_corporate_permission cdb oid pt pid perm sk sid (Some ar)
           \<and> (\<exists>r. get_organization cdb oid = Some r \<and> org_state r = ''active'' \<and> org_policy_revision r = ar))"
proof (cases "organization_id j")
  case None
  with assms show ?thesis by (auto simp: validate_tenant_job_def Let_def split: if_splits)
next
  case (Some oid)
  have str: "json_text v = Some s \<longleftrightarrow> v = JStr s" for v s by (cases v) auto
  have wire: "read_principal_type v = Some pt \<Longrightarrow> v = JStr (principal_wire pt)" for v pt
    by (auto simp: read_principal_type_def split: if_splits)
  from assms Some obtain envelope pt pid perm sk ar where f:
      "dict_get (job_payload j) TENANT_ENVELOPE_KEY = JDict envelope"
      "dict_get envelope ''organization_id'' = JStr oid"
      "json_text (dict_get envelope ''principal_id'') = Some pid"
      "json_text (dict_get envelope ''required_permission'') = Some perm"
      "read_principal_type (dict_get envelope ''principal_type'') = Some pt"
      "payload = job_payload j" "scope = Some oid"
      and perm: "has_corporate_permission cdb oid pt pid perm sk (json_text (dict_get envelope ''scope_id'')) (Some ar)"
    by (auto simp: validate_tenant_job_def Let_def split: json.splits option.splits if_splits)
  from permitted_live [OF perm]
  have "\<exists>r. get_organization cdb oid = Some r \<and> org_state r = ''active'' \<and> org_policy_revision r = ar"
    by blast
  with f perm show ?thesis
    unfolding f(6,7) Some option.case
    by (intro conjI refl exI [of _ envelope] exI [of _ pt] exI [of _ pid] exI [of _ perm] exI [of _ sk]
        exI [of _ "json_text (dict_get envelope ''scope_id'')"] exI [of _ ar]) (simp_all add: str wire)
qed

theorem validation_is_sound_witness:
  "\<exists>r. get_organization sample_tenant ''o1'' = Some r \<and> org_state r = ''active''"
proof -
  have "validate_tenant_job sample_tenant claimed_job = Inr (sample_payload, Some ''o1'')"
    using validate_envelope(1) [of claimed_job "''o1''" 3 User "''ann''" "''scan''" "''project''" "Some ''p1''" sample_tenant]
    by (simp add: claimed_fields sample_envelope sample_allowed)
  from validation_is_sound [OF this] show ?thesis by (auto simp: claimed_fields)
qed

text \<open>A job whose authority check fails has no handler effect: whichever handlers are registered,
  the run is the same, and it is never reported as a success.\<close>

theorem unauthorized_job_runs_no_handler:
  assumes "row_at i (w_queue w) = Some j" and "resolve (job_type j) = Some h" and "resolve' (job_type j) = Some h'"
    and "validate_tenant_job (w_corp (env1 (w\<lparr>w_queue := set_tenant_scope ''*'' (w_queue w)\<rparr>))) j = Inl e"
  shows "process resolve ro sp worker i moment dbnow env1 env2 w
      = process resolve' ro sp worker i moment dbnow env1 env2 w
    \<and> fst (process resolve ro sp worker i moment dbnow env1 env2 w) \<noteq> Succeeded"
proof -
  let ?w1 = "env1 (w\<lparr>w_queue := set_tenant_scope ''*'' (w_queue w)\<rparr>)"
  have run: "run_handler g j ?w1 = (Some (queue_exception e), ?w1)" for g
    using assms(4) by (simp add: run_handler_def)
  have "fst (settle_job ro sp worker j (Some x) moment dbnow v) \<noteq> Succeeded" for x v
    by (auto simp: settle_job_def Let_def split: option.splits sum.splits prod.splits bool.splits)
  then show ?thesis using assms(1-3) run by (simp add: process_def Let_def)
qed

theorem unauthorized_job_runs_no_handler_witness:
  "fst (process (\<lambda>_. Some count_handler) (\<lambda>_ s. s) (\<lambda>_ s. s) ''w1'' 1 9 9 id id
     (sample_world (sample_tenant\<lparr>role_bindings := []\<rparr>))) \<noteq> Succeeded"
proof -
  let ?db = "sample_tenant\<lparr>role_bindings := []\<rparr>"
  have "\<not> has_corporate_permission ?db ''o1'' User ''ann'' ''scan'' ''project'' (Some ''p1'') (Some 3)"
    by code_simp
  then obtain m where "validate_tenant_job ?db claimed_job = Inl (TenantJobInvalid m)"
    using validate_envelope(2) [of claimed_job "''o1''" 3 User "''ann''" "''scan''" "''project''" "Some ''p1''" ?db]
    by (auto simp: claimed_fields sample_envelope)
  with unauthorized_job_runs_no_handler [of 1 "sample_world ?db" claimed_job "\<lambda>_. Some count_handler"
      count_handler "\<lambda>_. Some count_handler" count_handler id]
  show ?thesis by (simp add: sample_world_def row_at_def claimed_fields)
qed

text \<open>C27. One job, one verdict. Whatever other transactions commit around the handler: if the lease is
  no longer this worker's when the verdict is written, the verdict is \<open>Superseded\<close> and rows, audit
  trail and store stay as they are; if it still is, a handler that returned makes the row succeeded
  with its credentials scrubbed and the lease gone, and a handler that raised consumes one attempt,
  stores the error and dead-letters exactly when the failure is permanent or the attempts are used
  up, calling the plan hook only then. Each verdict writes its audit events in the same step.\<close>

theorem one_job_one_verdict:
  assumes "row_at i (w_queue w) = Some j" and "resolve (job_type j) = Some h"
    and "run_handler h j (before (w\<lparr>w_queue := set_tenant_scope ''*'' (w_queue w)\<rparr>)) = (err, mid)"
    and "queue_inv (w_queue (after mid))" and "row_at i (w_queue (after mid)) = Some r" and "attempts r + 1 < 1024"
  shows "\<exists>v w'. process resolve ro sp worker i moment dbnow before after w = (v, w')
    \<and> (if holder i (w_queue (after mid)) \<noteq> Some worker
       then v = Superseded \<and> jobs (w_queue w') = jobs (w_queue (after mid))
         \<and> w_audit w' = w_audit (after mid) \<and> w_store w' = w_store (after mid)
       else case err of
         None \<Rightarrow> v = Succeeded \<and> row_at i (w_queue w') = Some (stamp_succeeded dbnow r)
           \<and> w_store w' = w_store (after mid)
           \<and> w_audit w' = w_audit (after mid)
               @ audit_tenant_job_outcome (w_corp (after mid)) (stamp_succeeded dbnow r) ''succeeded'' None
       | Some e \<Rightarrow> v = Failed \<and> (\<exists>r'. row_at i (w_queue w') = Some r' \<and> attempts r' = attempts r + 1
           \<and> last_error r' = Some (take 2000 (error_text e)) \<and> locked_by r' = None
           \<and> job_state r' = (if exc_permanent e \<or> int (attempts r + 1) \<ge> max_attempts r
                             then DEAD_LETTER else RETRY_SCHEDULED)
           \<and> w_store w' = (if job_state r' = DEAD_LETTER then sp r' (ro r' (w_store (after mid)))
                           else ro r' (w_store (after mid)))
           \<and> w_audit w' = w_audit (after mid)
               @ audit_tenant_job_outcome (w_corp (after mid)) r' ''failed'' (Some (error_text e))))"
proof -
  have id: "job_id j = i" using row_at_Some [OF assms(1)] by simp
  have p: "process resolve ro sp worker i moment dbnow before after w
      = settle_job ro sp worker j err moment dbnow (after mid)"
    using assms(1-3) by (simp add: process_def Let_def)
  have row: "row_at (job_id j) (w_queue (after mid)) = Some r" using assms(5) id by simp
  show ?thesis
  proof (cases "holder i (w_queue (after mid)) = Some worker")
    case False
    then show ?thesis using settle_superseded [OF assms(4) row] p id by simp
  next
    case True
    then have mine: "holder (job_id j) (w_queue (after mid)) = Some worker" using id by simp
    show ?thesis
    proof (cases err)
      case None
      then show ?thesis using settle_success [OF assms(4) row mine, of ro sp moment dbnow] p True id by auto
    next
      case (Some e)
      then show ?thesis
        using settle_failure [OF assms(4) row mine assms(6), of ro sp e moment dbnow] p True id by auto
    qed
  qed
qed

theorem one_job_one_verdict_witness:
  "\<exists>w'. process (\<lambda>_. Some count_handler) (\<lambda>_ s. s) (\<lambda>_ s. s) ''w1'' 1 9 9 id id
     (sample_world sample_tenant) = (Succeeded, w') \<and> w_store w' = 1"
proof -
  let ?w = "sample_world sample_tenant"
  let ?begun = "?w\<lparr>w_queue := set_tenant_scope ''*'' (w_queue ?w)\<rparr>"
  have "validate_tenant_job sample_tenant claimed_job = Inr (sample_payload, Some ''o1'')"
    using validate_envelope(1) [of claimed_job "''o1''" 3 User "''ann''" "''scan''" "''project''" "Some ''p1''" sample_tenant]
    by (simp add: claimed_fields sample_envelope sample_allowed)
  then have "run_handler count_handler claimed_job (id ?begun) = (None, ?begun\<lparr>w_store := 1\<rparr>)"
    by (simp add: run_handler_def count_handler_def sample_world_def)
  note run = this
  have "row_at 1 (w_queue ?w) = Some claimed_job"
    "row_at 1 (w_queue (id (?begun\<lparr>w_store := 1\<rparr>))) = Some claimed_job"
    by (simp_all add: sample_world_def row_at_def claimed_fields)
  moreover have "queue_inv (w_queue (id (?begun\<lparr>w_store := 1\<rparr>)))"
    using sample_inv [of sample_tenant] by (simp add: queue_inv_scope)
  moreover have "holder 1 (w_queue (id (?begun\<lparr>w_store := 1\<rparr>))) = Some ''w1''"
    by (simp add: sample_world_def row_at_def claimed_fields holder_def)
  ultimately show ?thesis
    using one_job_one_verdict [where i = 1 and w = ?w and j = claimed_job and before = id and after = id
        and h = count_handler and err = None and mid = "?begun\<lparr>w_store := 1\<rparr>" and r = claimed_job
        and resolve = "\<lambda>_. Some count_handler" and ro = "\<lambda>_ s. s" and sp = "\<lambda>_ s. s"
        and worker = "''w1''" and moment = 9 and dbnow = 9] run
    by (auto simp: claimed_fields)
qed

end
