(* ===== verification/RateLimit.thy ===== *)
theory RateLimit
  imports Prelude
begin

text \<open>
  The in-memory request limiter of the API (\<open>apps/api/src/ai_stp_api/rate_limit.py\<close>): sliding
  windows per key with a bounded number of keys, and the gate that combines a process-wide and
  a per-peer window. The \<open>OrderedDict\<close> is an association list from the least to the most
  recently used key, a deque a list from the oldest stamp; instants are whole clock ticks.
\<close>

section \<open>The limiter\<close>

record limiter =
  lim_maximum :: int
  lim_window :: int
  lim_max_keys :: int
  lim_entries :: "(string \<times> int list) list"

definition new_limiter :: "int \<Rightarrow> int \<Rightarrow> int \<Rightarrow> limiter" where
  "new_limiter mx w mk =
     \<lparr>lim_maximum = mx, lim_window = w, lim_max_keys = mk, lim_entries = []\<rparr>"

definition stamps :: "limiter \<Rightarrow> string \<Rightarrow> int list" where
  "stamps s key = (case map_of (lim_entries s) key of None \<Rightarrow> [] | Some ds \<Rightarrow> ds)"

definition would_allow :: "string \<Rightarrow> int \<Rightarrow> limiter \<Rightarrow> bool" where
  "would_allow key moment s =
     (if lim_maximum s = 0 then True
      else if stamps s key = [] then True
      else int (length (filter (\<lambda>x. x > moment - lim_window s) (stamps s key))) < lim_maximum s)"

definition drop_idle :: "int \<Rightarrow> (string \<times> int list) list \<Rightarrow> (string \<times> int list) list" where
  "drop_idle threshold = filter (\<lambda>(k, ds). \<not> (ds = [] \<or> last ds \<le> threshold))"

text \<open>\<open>move_to_end\<close> after \<open>setdefault\<close>: the key's deque becomes the most recent entry.\<close>

definition put_last :: "string \<Rightarrow> int list \<Rightarrow> (string \<times> int list) list \<Rightarrow> (string \<times> int list) list" where
  "put_last key ds es = filter (\<lambda>(k, _). k \<noteq> key) es @ [(key, ds)]"

text \<open>
  \<open>allow\<close>: \<open>popitem\<close> on an empty dictionary raises \<^const>\<open>KeyError\<close>, which happens for a bound of no keys.
\<close>

definition allow :: "string \<Rightarrow> int \<Rightarrow> limiter \<Rightarrow> py_error + bool \<times> limiter" where
  "allow key moment s =
     (if lim_maximum s = 0 then Inr (True, s)
      else
        let threshold = moment - lim_window s;
            es = drop_idle threshold (lim_entries s);
            full = (key \<notin> fst ` set es \<and> int (length es) \<ge> lim_max_keys s)
        in if full \<and> es = [] then Inl (KeyError ''dictionary is empty'')
           else
             let es' = (if full then tl es else es);
                 ds = dropWhile (\<lambda>x. x \<le> threshold)
                        (case map_of es' key of None \<Rightarrow> [] | Some ds \<Rightarrow> ds)
             in if int (length ds) \<ge> lim_maximum s
                then Inr (False, s\<lparr>lim_entries := put_last key ds es'\<rparr>)
                else Inr (True, s\<lparr>lim_entries := put_last key (ds @ [moment]) es'\<rparr>))"

definition slot_count :: "int \<Rightarrow> limiter \<Rightarrow> nat \<times> limiter" where
  "slot_count moment s =
     (let es = drop_idle (moment - lim_window s) (lim_entries s)
      in (length es, s\<lparr>lim_entries := es\<rparr>))"

definition holds :: "string \<Rightarrow> int \<Rightarrow> limiter \<Rightarrow> bool \<times> limiter" where
  "holds key moment s =
     (let es = drop_idle (moment - lim_window s) (lim_entries s)
      in (key \<in> fst ` set es, s\<lparr>lim_entries := es\<rparr>))"

section \<open>The gate\<close>

record rate_gate =
  gate_overall :: limiter
  gate_per_peer :: limiter
  retry_after_seconds :: int

definition OVERALL_WINDOW_KEY :: string where
  "OVERALL_WINDOW_KEY = ''overall''"

definition gate_allow :: "string \<Rightarrow> int \<Rightarrow> rate_gate \<Rightarrow> py_error + bool \<times> rate_gate" where
  "gate_allow origin now g =
     (if \<not> would_allow OVERALL_WINDOW_KEY now (gate_overall g)
      then Inr (False, g\<lparr>retry_after_seconds := lim_window (gate_overall g)\<rparr>)
      else if \<not> would_allow origin now (gate_per_peer g)
      then Inr (False, g\<lparr>retry_after_seconds := lim_window (gate_per_peer g)\<rparr>)
      else
        (case allow OVERALL_WINDOW_KEY now (gate_overall g) of
           Inl e \<Rightarrow> Inl e
         | Inr (_, ov) \<Rightarrow>
             (case allow origin now (gate_per_peer g) of
                Inl e \<Rightarrow> Inl e
              | Inr (_, pp) \<Rightarrow> Inr (True, g\<lparr>gate_overall := ov, gate_per_peer := pp\<rparr>))))"

definition build_http_rate_gate :: "int \<Rightarrow> int \<Rightarrow> int \<Rightarrow> int \<Rightarrow> int \<Rightarrow> rate_gate" where
  "build_http_rate_gate overall_requests overall_window ip_requests ip_window max_keys =
     (let ov = new_limiter overall_requests overall_window 1
      in \<lparr>gate_overall = ov, gate_per_peer = new_limiter ip_requests ip_window max_keys,
          retry_after_seconds = lim_window ov\<rparr>)"

section \<open>Well-formed limiters\<close>

text \<open>
  What holds between calls made at instants up to \<open>now\<close>: keys are distinct and within the
  bound, each deque is sorted, within the budget and holds no stamp from the future.
\<close>

definition limiter_ok :: "int \<Rightarrow> limiter \<Rightarrow> bool" where
  "limiter_ok now s \<longleftrightarrow> distinct (map fst (lim_entries s))
     \<and> int (length (lim_entries s)) \<le> lim_max_keys s
     \<and> (\<forall>(k, ds) \<in> set (lim_entries s). sorted ds \<and> (\<forall>x \<in> set ds. x \<le> now)
          \<and> int (length ds) \<le> lim_maximum s)"

lemma limiter_ok_mono: "limiter_ok t s \<Longrightarrow> t \<le> t' \<Longrightarrow> limiter_ok t' s"
  by (fastforce simp: limiter_ok_def)

lemma limiter_ok_new: "0 \<le> mk \<Longrightarrow> limiter_ok t (new_limiter mx w mk)"
  by (simp add: limiter_ok_def new_limiter_def)

lemma drop_idle_sub: "set (drop_idle th es) \<subseteq> set es"
  by (auto simp: drop_idle_def)

lemma distinct_drop_idle: "distinct (map fst es) \<Longrightarrow> distinct (map fst (drop_idle th es))"
  by (simp add: drop_idle_def distinct_map_filter)

lemma length_drop_idle: "length (drop_idle th es) \<le> length es"
  by (simp add: drop_idle_def)

lemma limiter_ok_drop: "limiter_ok t s \<Longrightarrow> limiter_ok t (s\<lparr>lim_entries := drop_idle th (lim_entries s)\<rparr>)"
  using drop_idle_sub [of th "lim_entries s"] length_drop_idle [of th "lim_entries s"]
  by (fastforce simp: limiter_ok_def distinct_drop_idle)

lemma sorted_dropWhile_filter: "sorted ds \<Longrightarrow> dropWhile (\<lambda>x. x \<le> (th::int)) ds = filter (\<lambda>x. x > th) ds"
proof (induction ds)
  case (Cons x xs)
  show ?case
  proof (cases "x \<le> th")
    case False
    with Cons.prems have "filter (\<lambda>x. x > th) xs = xs"
      by (auto simp: filter_id_conv)
    with False show ?thesis by simp
  qed (use Cons in auto)
qed simp

text \<open>The live stamps a call looks at are the same whether or not idle keys were dropped first.\<close>

definition live :: "int \<Rightarrow> limiter \<Rightarrow> string \<Rightarrow> int list" where
  "live th s key = filter (\<lambda>x. x > th) (stamps s key)"

lemma sorted_last_max: "sorted ds \<Longrightarrow> x \<in> set ds \<Longrightarrow> x \<le> last (ds :: int list)"
  by (induction ds) (auto split: if_splits)

lemma live_drop_idle:
  assumes "limiter_ok t s"
  shows "filter (\<lambda>x. x > th) (case map_of (drop_idle th (lim_entries s)) key of
     None \<Rightarrow> [] | Some ds \<Rightarrow> ds) = live th s key"
proof -
  have "filter (\<lambda>x. x > th) (case map_of (drop_idle th es) key of None \<Rightarrow> [] | Some ds \<Rightarrow> ds)
      = filter (\<lambda>x. x > th) (case map_of es key of None \<Rightarrow> [] | Some ds \<Rightarrow> ds)"
    if "distinct (map fst es)" "\<forall>(k, ds) \<in> set es. sorted ds" for es :: "(string \<times> int list) list"
    using that
  proof (induction es)
    case (Cons e es)
    obtain k ds where e: "e = (k, ds)" by force
    have none: "k = key \<Longrightarrow> map_of (drop_idle th es) key = None"
      using Cons.prems e drop_idle_sub [of th es] by (auto simp: map_of_eq_None_iff)
    have "filter (\<lambda>x. x > th) ds = []" if "last ds \<le> th"
      using Cons.prems e sorted_last_max [of ds] that by (fastforce simp: filter_empty_conv)
    with none Cons e show ?case by (auto simp: drop_idle_def)
  qed (simp add: drop_idle_def)
  from this [of "lim_entries s"] assms show ?thesis
    by (fastforce simp: limiter_ok_def live_def stamps_def)
qed

end
