(* ===== verification/RateLimitProps.thy ===== *)
theory RateLimitProps
  imports RateLimit
begin

text \<open>
  The limiter's guarantees: the probe \<open>would_allow\<close> predicts \<open>allow\<close>, the number of keys and of
  stamps per key stay bounded, and over any run no window of the configured length admits more
  than the budget; the gate records a request in both windows or in neither.
\<close>

section \<open>One call\<close>

lemma map_of_put_last:
  "map_of (put_last key ds es) k = (if k = key then Some ds else map_of es k)"
proof -
  have "map_of (filter (\<lambda>(k, _). k \<noteq> key) es) k = (if k = key then None else map_of es k)"
    by (induction es) auto
  then show ?thesis by (auto simp: put_last_def map_add_def split: option.splits)
qed

lemma keys_put_last: "fst ` set (put_last key ds es) = insert key (fst ` set es)"
  by (force simp: put_last_def image_iff)

lemma length_filter_key:
  "distinct (map fst es) \<Longrightarrow> key \<in> fst ` set es \<Longrightarrow>
     Suc (length (filter (\<lambda>(k, _). k \<noteq> key) es)) = length es"
proof (induction es)
  case (Cons e es)
  obtain k ds where e: "e = (k, ds)" by force
  show ?case
  proof (cases "k = key")
    case True
    with Cons.prems e have "filter (\<lambda>(k, _). k \<noteq> key) es = es"
      by (force simp: filter_id_conv)
    with True e show ?thesis by simp
  qed (use Cons e in auto)
qed simp

lemma put_last_ok:
  assumes "distinct (map fst es)" and "key \<in> fst ` set es \<and> int (length es) \<le> mk \<or> int (length es) < mk"
  shows "distinct (map fst (put_last key ds es)) \<and> int (length (put_last key ds es)) \<le> mk"
proof -
  let ?n = "length (filter (\<lambda>(k, _). k \<noteq> key) es)"
  have le: "?n \<le> length es" by (rule length_filter_le)
  have len: "length (put_last key ds es) = Suc ?n" by (simp add: put_last_def)
  from assms(2) have "int (length (put_last key ds es)) \<le> mk"
  proof
    assume "key \<in> fst ` set es \<and> int (length es) \<le> mk"
    then show ?thesis using length_filter_key [OF assms(1), of key] len by linarith
  next
    assume "int (length es) < mk"
    then show ?thesis using le len by linarith
  qed
  moreover have "distinct (map fst (put_last key ds es))"
    using distinct_map_filter [OF assms(1)] by (auto simp: put_last_def)
  ultimately show ?thesis by blast
qed

lemma limiter_ok_stamps:
  assumes "limiter_ok t s" shows "sorted (stamps s k)" "\<forall>x \<in> set (stamps s k). x \<le> t"
  using assms by (auto simp: limiter_ok_def stamps_def split: option.splits dest!: map_of_SomeD)

text \<open>The window a call at \<open>moment\<close> looks at, and the dictionary it works on.\<close>

definition evicts :: "string \<Rightarrow> int \<Rightarrow> limiter \<Rightarrow> bool" where
  "evicts key moment s \<longleftrightarrow> key \<notin> fst ` set (drop_idle (moment - lim_window s) (lim_entries s))
     \<and> int (length (drop_idle (moment - lim_window s) (lim_entries s))) \<ge> lim_max_keys s"

definition kept_entries :: "string \<Rightarrow> int \<Rightarrow> limiter \<Rightarrow> (string \<times> int list) list" where
  "kept_entries key moment s =
     (let es = drop_idle (moment - lim_window s) (lim_entries s)
      in if evicts key moment s then tl es else es)"

definition in_budget :: "string \<Rightarrow> int \<Rightarrow> limiter \<Rightarrow> bool" where
  "in_budget key moment s \<longleftrightarrow> int (length (live (moment - lim_window s) s key)) < lim_maximum s"

lemma kept_entries_mem: "set (kept_entries key moment s) \<subseteq> set (lim_entries s)"
  using drop_idle_sub [of "moment - lim_window s" "lim_entries s"]
  by (auto simp: kept_entries_def Let_def dest: list.set_sel(2) [rotated] split: if_splits)
    (metis list.sel(2) list.set_sel(2) subsetD)+

lemma map_of_tl_None: "map_of es k = None \<Longrightarrow> map_of (tl es) k = None"
  by (cases es) (auto split: if_splits)

lemma kept_entries_live:
  assumes ok: "limiter_ok t s"
  shows "dropWhile (\<lambda>x. x \<le> moment - lim_window s)
      (case map_of (kept_entries key moment s) key of None \<Rightarrow> [] | Some ds \<Rightarrow> ds)
    = live (moment - lim_window s) s key"
proof -
  let ?th = "moment - lim_window s"
  let ?es = "drop_idle ?th (lim_entries s)"
  have "map_of (kept_entries key moment s) key = map_of ?es key"
  proof (cases "evicts key moment s")
    case True
    then have "map_of ?es key = None" by (simp add: evicts_def map_of_eq_None_iff)
    moreover from this have "map_of (tl ?es) key = None" by (rule map_of_tl_None)
    ultimately show ?thesis using True by (simp add: kept_entries_def Let_def)
  qed (simp add: kept_entries_def Let_def)
  moreover have "sorted (case map_of ?es key of None \<Rightarrow> [] | Some ds \<Rightarrow> ds)"
    using ok drop_idle_sub [of ?th "lim_entries s"]
    by (fastforce simp: limiter_ok_def split: option.splits dest!: map_of_SomeD)
  ultimately show ?thesis
    using sorted_dropWhile_filter live_drop_idle [OF ok, of ?th key] by simp
qed

text \<open>
  A call on a well-formed limiter never raises; it admits exactly the requests whose live window
  is within budget, and stores that window (with the new stamp when admitted).
\<close>

lemma allow_eq:
  assumes ok: "limiter_ok t s" and mx: "0 < lim_maximum s" and mk: "0 < lim_max_keys s"
  shows "allow key moment s = Inr (in_budget key moment s, s\<lparr>lim_entries :=
     put_last key (live (moment - lim_window s) s key @ (if in_budget key moment s then [moment] else []))
       (kept_entries key moment s)\<rparr>)"
  using kept_entries_live [OF ok, of moment key] mx mk
  by (auto simp: allow_def Let_def kept_entries_def evicts_def in_budget_def)

lemma kept_entries_ok:
  assumes ok: "limiter_ok t s" and mk: "0 < lim_max_keys s"
  shows "distinct (map fst (kept_entries key moment s))"
    "key \<in> fst ` set (kept_entries key moment s) \<and> int (length (kept_entries key moment s)) \<le> lim_max_keys s
     \<or> int (length (kept_entries key moment s)) < lim_max_keys s"
proof -
  let ?es = "drop_idle (moment - lim_window s) (lim_entries s)"
  have d: "distinct (map fst ?es)" and l: "int (length ?es) \<le> lim_max_keys s"
    using ok length_drop_idle [of "moment - lim_window s" "lim_entries s"]
    by (auto simp: limiter_ok_def distinct_drop_idle)
  from d show "distinct (map fst (kept_entries key moment s))"
    by (auto simp: kept_entries_def Let_def map_tl distinct_tl)
  from l mk show "key \<in> fst ` set (kept_entries key moment s)
      \<and> int (length (kept_entries key moment s)) \<le> lim_max_keys s
      \<or> int (length (kept_entries key moment s)) < lim_max_keys s"
    by (cases ?es) (auto simp: kept_entries_def Let_def evicts_def)
qed

lemma allow_keeps_ok:
  assumes ok: "limiter_ok t s" and mx: "0 < lim_maximum s" and mk: "0 < lim_max_keys s"
    and le: "t \<le> moment" and call: "allow key moment s = Inr (b, s')"
  shows "limiter_ok moment s'"
proof -
  let ?th = "moment - lim_window s"
  let ?ds = "live ?th s key @ (if in_budget key moment s then [moment] else [])"
  have s': "s' = s\<lparr>lim_entries := put_last key ?ds (kept_entries key moment s)\<rparr>"
    using call allow_eq [OF ok mx mk, of key moment] by auto
  have "sorted ?ds" "\<forall>x \<in> set ?ds. x \<le> moment"
    using limiter_ok_stamps [OF ok, of key] le
    by (auto simp: live_def sorted_append sorted_wrt_filter)
  moreover have "int (length ?ds) \<le> lim_maximum s"
  proof -
    have "int (length (stamps s key)) \<le> lim_maximum s"
      using ok mx by (auto simp: limiter_ok_def stamps_def split: option.splits dest!: map_of_SomeD)
    moreover have "length (live ?th s key) \<le> length (stamps s key)" by (simp add: live_def)
    ultimately show ?thesis by (auto simp: in_budget_def)
  qed
  moreover have "sorted ds \<and> (\<forall>x \<in> set ds. x \<le> moment) \<and> int (length ds) \<le> lim_maximum s"
    if "(k, ds) \<in> set (kept_entries key moment s)" for k ds
    using that kept_entries_mem [of key moment s] ok le by (fastforce simp: limiter_ok_def)
  ultimately show ?thesis
    using put_last_ok [OF kept_entries_ok [OF ok mk]] s'
    by (auto simp: limiter_ok_def put_last_def)
qed

lemma would_allow_iff:
  "0 < lim_maximum s \<Longrightarrow> would_allow key moment s = in_budget key moment s"
  by (auto simp: would_allow_def in_budget_def live_def)

section \<open>The contract of a window\<close>

text \<open>
  What the gate relies on: the probe predicts the recording call, which never raises on a
  well-formed window and leaves a well-formed window.
\<close>

locale admission =
  fixes ok :: "int \<Rightarrow> 's \<Rightarrow> bool"
    and would :: "'k \<Rightarrow> int \<Rightarrow> 's \<Rightarrow> bool"
    and admit :: "'k \<Rightarrow> int \<Rightarrow> 's \<Rightarrow> py_error + bool \<times> 's"
  assumes predicted: "ok t s \<Longrightarrow> t \<le> now \<Longrightarrow> \<exists>s'. admit k now s = Inr (would k now s, s') \<and> ok now s'"
begin

lemma admit_total: "ok t s \<Longrightarrow> t \<le> now \<Longrightarrow> admit k now s \<noteq> Inl e"
  using predicted [of t s now k] by auto

lemma admit_iff: "ok t s \<Longrightarrow> t \<le> now \<Longrightarrow> admit k now s = Inr (b, s') \<Longrightarrow> b = would k now s"
  using predicted [of t s now k] by auto

lemma admit_keeps: "ok t s \<Longrightarrow> t \<le> now \<Longrightarrow> admit k now s = Inr (b, s') \<Longrightarrow> ok now s'"
  using predicted [of t s now k] by auto

lemma both_admit:
  assumes "ok t1 s1" "ok t2 s2" "t1 \<le> now" "t2 \<le> now" "would k1 now s1" "would k2 now s2"
  obtains s1' s2' where "admit k1 now s1 = Inr (True, s1')" "admit k2 now s2 = Inr (True, s2')"
    "ok now s1'" "ok now s2'"
  using predicted [of t1 s1 now k1] predicted [of t2 s2 now k2] assms by auto

end

text \<open>A limiter that is off (no maximum) admits everything and never touches its entries.\<close>

definition window_ok :: "int \<Rightarrow> limiter \<Rightarrow> bool" where
  "window_ok t s \<longleftrightarrow> lim_maximum s = 0 \<or> 0 < lim_maximum s \<and> 0 < lim_max_keys s \<and> limiter_ok t s"

lemma allow_off: "lim_maximum s = 0 \<Longrightarrow> allow key moment s = Inr (True, s)"
  by (simp add: allow_def)

lemma allow_frame:
  "allow key moment s = Inr (b, s') \<Longrightarrow>
     lim_maximum s' = lim_maximum s \<and> lim_window s' = lim_window s \<and> lim_max_keys s' = lim_max_keys s"
  by (auto simp: allow_def Let_def split: if_splits)

lemma would_allow_off: "lim_maximum s = 0 \<Longrightarrow> would_allow key moment s"
  by (simp add: would_allow_def)

interpretation window: admission window_ok would_allow allow
proof
  fix t now :: int and s key
  assume ok: "window_ok t s" and le: "t \<le> now"
  show "\<exists>s'. allow key now s = Inr (would_allow key now s, s') \<and> window_ok now s'"
  proof (cases "lim_maximum s = 0")
    case True
    then show ?thesis by (simp add: allow_off would_allow_off window_ok_def)
  next
    case False
    with ok have *: "limiter_ok t s" "0 < lim_maximum s" "0 < lim_max_keys s"
      by (auto simp: window_ok_def)
    obtain s' where call: "allow key now s = Inr (would_allow key now s, s')"
      using allow_eq [OF *, of key now] would_allow_iff [OF *(2), of key now] by auto
    then have "window_ok now s'"
      using allow_keeps_ok [OF * le call] allow_frame [OF call] * by (simp add: window_ok_def)
    with call show ?thesis by blast
  qed
qed

section \<open>Runs\<close>

text \<open>Serve a list of timed requests and keep a log of the admitted ones.\<close>

fun serve :: "(string \<times> int) list \<Rightarrow> limiter \<Rightarrow> py_error + (string \<times> int) list \<times> limiter" where
  "serve [] s = Inr ([], s)"
| "serve ((k, t) # rs) s =
     (case allow k t s of
        Inl e \<Rightarrow> Inl e
      | Inr (b, s') \<Rightarrow>
          (case serve rs s' of
             Inl e \<Rightarrow> Inl e
           | Inr (adm, s'') \<Rightarrow> Inr ((if b then [(k, t)] else []) @ adm, s'')))"

definition admitted_in :: "string \<Rightarrow> int \<Rightarrow> int \<Rightarrow> (string \<times> int) list \<Rightarrow> nat" where
  "admitted_in k w t adm = length (filter (\<lambda>(k', u). k' = k \<and> t - w < u \<and> u \<le> t) adm)"

text \<open>The stamps of a key are, inside the live window, exactly the admitted requests.\<close>

definition tracks :: "int \<Rightarrow> (string \<times> int) list \<Rightarrow> limiter \<Rightarrow> bool" where
  "tracks now past s \<longleftrightarrow> (\<forall>k th. now - lim_window s \<le> th \<longrightarrow>
     live th s k = map snd (filter (\<lambda>(k', u). k' = k \<and> th < u) past))"

lemma kept_all:
  assumes ok: "limiter_ok t s" and K: "finite K" "int (card K) \<le> lim_max_keys s"
    and sub: "fst ` set (lim_entries s) \<subseteq> K" and key: "key \<in> K"
  shows "kept_entries key moment s = drop_idle (moment - lim_window s) (lim_entries s)"
proof -
  let ?es = "drop_idle (moment - lim_window s) (lim_entries s)"
  have "int (length ?es) < lim_max_keys s" if "key \<notin> fst ` set ?es"
  proof -
    have "distinct (map fst ?es)" using ok by (simp add: limiter_ok_def distinct_drop_idle)
    then have "length ?es = card (fst ` set ?es)"
      by (metis distinct_card length_map list.set_map)
    also have "\<dots> < card K"
      using that key sub drop_idle_sub [of "moment - lim_window s" "lim_entries s"]
      by (intro psubset_card_mono [OF K(1)]) blast
    finally show ?thesis using K(2) by simp
  qed
  then show ?thesis by (auto simp: kept_entries_def evicts_def Let_def)
qed

lemma live_after:
  assumes ok: "limiter_ok t s" and mx: "0 < lim_maximum s" and mk: "0 < lim_max_keys s"
    and K: "finite K" "int (card K) \<le> lim_max_keys s"
    and sub: "fst ` set (lim_entries s) \<subseteq> K" and key: "key \<in> K"
    and call: "allow key now s = Inr (b, s')" and th: "now - lim_window s \<le> th"
  shows "live th s' k = live th s k @ (if b \<and> k = key \<and> th < now then [now] else [])"
    and "fst ` set (lim_entries s') \<subseteq> K"
proof -
  let ?es = "drop_idle (now - lim_window s) (lim_entries s)"
  note eq = allow_eq [OF ok mx mk, of key now, unfolded kept_all [OF ok K sub key]]
  from call eq have s': "lim_entries s' = put_last key
      (live (now - lim_window s) s key @ (if b then [now] else [])) ?es" by auto
  have "live th s k = filter (\<lambda>x. x > th)
      (filter (\<lambda>x. x > now - lim_window s) (stamps s k))" for k
    using th by (auto simp: live_def intro!: filter_cong)
  then have two: "filter (\<lambda>x. x > th) (live (now - lim_window s) s k) = live th s k" for k
    by (simp add: live_def)
  have "filter (\<lambda>x. x > th) (case map_of ?es k of None \<Rightarrow> [] | Some ds \<Rightarrow> ds) = live th s k"
  proof -
    have "filter (\<lambda>x. x > th) (case map_of ?es k of None \<Rightarrow> [] | Some ds \<Rightarrow> ds)
       = filter (\<lambda>x. x > th) (filter (\<lambda>x. x > now - lim_window s)
            (case map_of ?es k of None \<Rightarrow> [] | Some ds \<Rightarrow> ds))"
      using th by (auto intro!: filter_cong)
    then show ?thesis using live_drop_idle [OF ok, of "now - lim_window s" k] two [of k] by simp
  qed
  then show "live th s' k = live th s k @ (if b \<and> k = key \<and> th < now then [now] else [])"
    using two [of key] by (auto simp: live_def [of th s'] stamps_def s' map_of_put_last)
  show "fst ` set (lim_entries s') \<subseteq> K"
    using sub key drop_idle_sub [of "now - lim_window s" "lim_entries s"]
    by (auto simp: s' keys_put_last)
qed

definition within_budget :: "int \<Rightarrow> int \<Rightarrow> (string \<times> int) list \<Rightarrow> bool" where
  "within_budget mx w past \<longleftrightarrow> (\<forall>k t. int (admitted_in k w t past) \<le> mx)"

lemma within_budget_snoc:
  assumes past: "within_budget mx w past" and le: "\<forall>(k', u) \<in> set past. u \<le> now"
    and room: "int (length (filter (\<lambda>(k', u). k' = key \<and> now - w < u) past)) < mx"
  shows "within_budget mx w (past @ [(key, now)])"
proof -
  have "int (admitted_in k w t (past @ [(key, now)])) \<le> mx" for k t
  proof (cases "k = key \<and> now \<le> t \<and> t - w < now")
    case True
    have "length (filter (\<lambda>(k', u). k' = k \<and> t - w < u \<and> u \<le> t) past)
        \<le> length (filter (\<lambda>(k', u). k' = key \<and> now - w < u) past)"
    proof -
      have "filter (\<lambda>(k', u). k' = k \<and> t - w < u \<and> u \<le> t) past =
        filter (\<lambda>(k', u). t - w < u \<and> u \<le> t) (filter (\<lambda>(k', u). k' = key \<and> now - w < u) past)"
        using True by (auto intro!: filter_cong)
      then show ?thesis by (simp del: filter_filter)
    qed
    with room True show ?thesis by (simp add: admitted_in_def)
  next
    case False
    with past show ?thesis by (auto simp: within_budget_def admitted_in_def)
  qed
  then show ?thesis by (simp add: within_budget_def)
qed

lemma serve_from:
  assumes "limiter_ok t s" "0 < lim_maximum s" "0 < lim_max_keys s"
    and "finite K" "int (card K) \<le> lim_max_keys s" "fst ` set (lim_entries s) \<subseteq> K"
    and "fst ` set rs \<subseteq> K" and "sorted (t # map snd rs)"
    and "tracks t past s" and "\<forall>(k', u) \<in> set past. u \<le> t"
    and "within_budget (lim_maximum s) (lim_window s) past"
  shows "\<exists>adm s'. serve rs s = Inr (adm, s') \<and> within_budget (lim_maximum s) (lim_window s) (past @ adm)
     \<and> (\<exists>t'. limiter_ok t' s')"
  using assms
proof (induction rs arbitrary: t s past)
  case (Cons r rs)
  obtain key now where r: "r = (key, now)" by force
  have le: "t \<le> now" and key: "key \<in> K" and later: "sorted (now # map snd rs)"
    using Cons.prems r by auto
  note ok = Cons.prems(1,2,3) and K = Cons.prems(4,5,6)
  obtain b s1 where call: "allow key now s = Inr (b, s1)" and b: "b = in_budget key now s"
    using allow_eq [OF ok, of key now] by auto
  note frame = allow_frame [OF call] and live = live_after [OF ok K key call]
  let ?past = "past @ (if b then [(key, now)] else [])"
  have tr: "live th s k = map snd (filter (\<lambda>(k', u). k' = k \<and> th < u) past)"
    if "now - lim_window s \<le> th" for k th
    using Cons.prems(9) le that by (simp add: tracks_def)
  have "tracks now ?past s1"
    using live(1) tr frame by (auto simp: tracks_def)
  moreover have past: "\<forall>(k', u) \<in> set past. u \<le> now" using Cons.prems(10) le by fastforce
  then have "\<forall>(k', u) \<in> set ?past. u \<le> now" by auto
  moreover have "within_budget (lim_maximum s) (lim_window s) ?past"
  proof (cases b)
    case True
    with b tr [of "now - lim_window s" key] within_budget_snoc [OF Cons.prems(11) past]
    show ?thesis by (auto simp: in_budget_def)
  qed (use Cons.prems(11) in simp)
  moreover have "limiter_ok now s1" by (rule allow_keeps_ok [OF ok le call])
  moreover have "fst ` set (lim_entries s1) \<subseteq> K" by (rule live(2) [OF order_refl])
  ultimately obtain adm s' where "serve rs s1 = Inr (adm, s')"
      "within_budget (lim_maximum s) (lim_window s) (?past @ adm)" "\<exists>t'. limiter_ok t' s'"
    using Cons.IH [of now s1 ?past] frame ok K later Cons.prems(7) r by auto
  then show ?case using call r by auto
qed auto

section \<open>Properties\<close>

text \<open>C32. A limiter started empty and asked about requests in time order, from no more callers
  than it has keys, never raises, and in every window of the configured length and for every
  caller it admits at most the configured maximum of requests. It ends within its memory bounds:
  at most the configured number of keys, each with at most the maximum of stamps.\<close>

theorem windows_stay_within_budget:
  assumes "0 < mx" and "0 < mk" and "sorted (map snd rs)"
    and "int (card (fst ` set rs)) \<le> mk"
  shows "\<exists>adm s'. serve rs (new_limiter mx w mk) = Inr (adm, s')
     \<and> (\<forall>k t. int (admitted_in k w t adm) \<le> mx) \<and> (\<exists>t. limiter_ok t s')"
proof -
  let ?t = "case rs of [] \<Rightarrow> 0 | r # _ \<Rightarrow> snd r"
  have "sorted (?t # map snd rs)" using assms(3) by (cases rs) auto
  then show ?thesis
    using serve_from [of ?t "new_limiter mx w mk" "fst ` set rs" rs "[]"] assms
    by (auto simp: limiter_ok_new new_limiter_def [of mx w mk] tracks_def live_def stamps_def
        within_budget_def admitted_in_def limiter_ok_def)
qed

theorem windows_stay_within_budget_witness:
  "serve [(''a'', 0), (''a'', 1), (''b'', 2), (''a'', 3), (''a'', 11)] (new_limiter 2 10 2)
     \<noteq> Inl (KeyError ''dictionary is empty'')"
  using windows_stay_within_budget [of 2 2 "[(''a'', 0), (''a'', 1), (''b'', 2), (''a'', 3), (''a'', 11)]" 10]
  by (auto simp: insert_commute)

text \<open>The two-window gate, on well-formed windows and a clock that does not run backwards,
  never raises; it admits a request exactly when both windows have budget, and then records it
  in both; a rejection leaves both windows as they were and reports the waiting time of the
  window that refused, the overall one first.\<close>

theorem gate_records_in_both_or_neither:
  assumes "window_ok t (gate_overall g)" and "window_ok t (gate_per_peer g)" and "t \<le> now"
  shows "\<exists>g'. gate_allow origin now g =
       Inr (would_allow OVERALL_WINDOW_KEY now (gate_overall g) \<and> would_allow origin now (gate_per_peer g), g')
     \<and> window_ok now (gate_overall g') \<and> window_ok now (gate_per_peer g')
     \<and> (if would_allow OVERALL_WINDOW_KEY now (gate_overall g) \<and> would_allow origin now (gate_per_peer g)
        then allow OVERALL_WINDOW_KEY now (gate_overall g) = Inr (True, gate_overall g')
           \<and> allow origin now (gate_per_peer g) = Inr (True, gate_per_peer g')
        else gate_overall g' = gate_overall g \<and> gate_per_peer g' = gate_per_peer g
           \<and> retry_after_seconds g' = (if would_allow OVERALL_WINDOW_KEY now (gate_overall g)
                then lim_window (gate_per_peer g) else lim_window (gate_overall g)))"
proof (cases "would_allow OVERALL_WINDOW_KEY now (gate_overall g) \<and> would_allow origin now (gate_per_peer g)")
  case True
  then obtain ov pp where
    "allow OVERALL_WINDOW_KEY now (gate_overall g) = Inr (True, ov)"
    "allow origin now (gate_per_peer g) = Inr (True, pp)" "window_ok now ov" "window_ok now pp"
    using window.both_admit [OF assms(1,2,3,3)] by metis
  with True show ?thesis by (simp add: gate_allow_def)
next
  case False
  have "window_ok now (gate_overall g)" "window_ok now (gate_per_peer g)"
    using assms limiter_ok_mono by (auto simp: window_ok_def)
  with False show ?thesis by (auto simp: gate_allow_def)
qed

theorem gate_records_in_both_or_neither_witness:
  "\<exists>g'. gate_allow ''10.0.0.1'' 5 (build_http_rate_gate 2 10 1 10 3) = Inr (True, g')
     \<and> window_ok 5 (gate_overall g') \<and> window_ok 5 (gate_per_peer g')"
proof -
  have "window_ok 5 (gate_overall (build_http_rate_gate 2 10 1 10 3))"
    "window_ok 5 (gate_per_peer (build_http_rate_gate 2 10 1 10 3))"
    by (simp_all add: window_ok_def limiter_ok_def build_http_rate_gate_def new_limiter_def)
  moreover have "would_allow OVERALL_WINDOW_KEY 5 (gate_overall (build_http_rate_gate 2 10 1 10 3))"
    "would_allow ''10.0.0.1'' 5 (gate_per_peer (build_http_rate_gate 2 10 1 10 3))"
    by (simp_all add: would_allow_def stamps_def build_http_rate_gate_def new_limiter_def)
  ultimately show ?thesis
    using gate_records_in_both_or_neither [of 5 "build_http_rate_gate 2 10 1 10 3" 5 "''10.0.0.1''"]
    by auto
qed

text \<open>
  The settings demand a positive number of keys; with none, eviction would raise on the first request.
\<close>

lemma no_keys_raises:
  "0 < mx \<Longrightarrow> allow key now (new_limiter mx w 0) = Inl (KeyError ''dictionary is empty'')"
  by (simp add: allow_def new_limiter_def drop_idle_def)

end
