(* ===== verification/SafetyPolicy.thy ===== *)
theory SafetyPolicy
  imports Prelude "HOL-Library.List_Lexorder" "HOL-Library.Char_ord" "HOL-Library.Multiset"
begin

text \<open>
  The safety check registry and the planner
  (\<open>apps/platform/src/ai_stp_platform/safety/policy.py\<close>, \<open>safety/planner.py\<close>): every
  registered check, the dictionary by id, and the ordered plan for an artifact.
\<close>

section \<open>The registry\<close>

definition POLICY_VERSION :: string where
  "POLICY_VERSION = ''safety-3''"

datatype SafetyProfile = MINIMAL | STANDARD | STRICT

record CheckSpec =
  check_id :: string
  family :: string
  mandatory :: bool
  timeout_seconds :: int
  stage :: int
  kinds :: "string set"
  languages :: "string set"
  requires_any_flag :: "string set"
  profiles :: "SafetyProfile set"
  weight :: rat

definition spec :: "string \<Rightarrow> string \<Rightarrow> bool \<Rightarrow> int \<Rightarrow> int \<Rightarrow> string set \<Rightarrow> string set
    \<Rightarrow> string set \<Rightarrow> SafetyProfile set \<Rightarrow> rat \<Rightarrow> CheckSpec" where
  "spec i f m t s ks ls fs ps w =
     \<lparr>check_id = i, family = f, mandatory = m, timeout_seconds = t, stage = s, kinds = ks,
      languages = ls, requires_any_flag = fs, profiles = ps, weight = w\<rparr>"

abbreviation ALL_PROFILES :: "SafetyProfile set" where
  "ALL_PROFILES \<equiv> {MINIMAL, STANDARD, STRICT}"

text \<open>\<open>CHECK_REGISTRY\<close>, in its order, by stages.\<close>

definition intake_checks :: "CheckSpec list" where
  "intake_checks =
     [spec ''artifact_unpack'' ''unpack'' True 30 0 {''component''} {} {} ALL_PROFILES 2,
      spec ''path_denylist'' ''path'' True 15 0 {''component''} {} {} ALL_PROFILES 2,
      spec ''secrets_heuristic'' ''secrets'' True 20 0 {''component''} {} {} ALL_PROFILES 2,
      spec ''secrets_gitleaks'' ''secrets'' False 15 1 {''component''} {} {} ALL_PROFILES 2]"

definition content_checks :: "CheckSpec list" where
  "content_checks =
     [spec ''pi_content_pack'' ''prompt_injection'' False 20 2 {''component''} {} {} {STANDARD, STRICT} (1/2),
      spec ''content_hidden'' ''content_stego'' False 30 2 {''component''} {} {} {STANDARD, STRICT} (1/2),
      spec ''network_intent'' ''network_intent'' False 15 2 {''component''} {} {} {STANDARD, STRICT} (1/2),
      spec ''agentic_behavior'' ''agentic_behavior'' True 15 2 {''component''} {} {} ALL_PROFILES (3/2),
      spec ''sast_opengrep'' ''sast_generic'' False 20 3 {''component''} {} {} {STANDARD, STRICT} 1]"

definition surface_checks :: "CheckSpec list" where
  "surface_checks =
     [spec ''mcp_config_static'' ''mcp_config'' True 15 4 {''component''} {} {''mcp''} ALL_PROFILES (3/2),
      spec ''hook_schema_static'' ''hook_schema'' True 15 4 {''component''} {} {''hooks''} ALL_PROFILES (3/2),
      spec ''hook_command_argv'' ''hook_command'' True 15 4 {''component''} {} {''hooks''} ALL_PROFILES (3/2),
      spec ''skill_static_gate'' ''skill_static'' True 60 4 {''component''} {} {''skill_md'', ''agent''} {STANDARD, STRICT} (3/2)]"

definition language_checks :: "CheckSpec list" where
  "language_checks =
     [spec ''shell_obfuscation'' ''shell_obfuscation'' False 10 5 {''component''} {} {} {STANDARD, STRICT} 1,
      spec ''sast_shellcheck'' ''sast_shell'' False 15 5 {''component''} {''shell''} {} {STANDARD, STRICT} 1,
      spec ''sast_bandit'' ''sast_python'' False 15 5 {''component''} {''python''} {} {STANDARD, STRICT} 1,
      spec ''sca_pip_audit'' ''sca_python'' False 20 5 {''component''} {''python''} {''manifests''} {STANDARD, STRICT} 1,
      spec ''sast_gosec'' ''sast_go'' False 20 5 {''component''} {''go''} {} {STANDARD, STRICT} 1,
      spec ''sca_govulncheck'' ''sca_go'' False 20 5 {''component''} {''go''} {''manifests''} {STANDARD, STRICT} 1,
      spec ''sca_cargo_audit'' ''sca_rust'' False 20 5 {''component''} {''rust''} {''manifests''} {STANDARD, STRICT} 1,
      spec ''sast_eslint_security'' ''sast_js'' False 20 5 {''component''} {''js''} {} {STANDARD, STRICT} 1,
      spec ''sca_npm_audit'' ''sca_js'' False 20 5 {''component''} {''js''} {''manifests''} {STANDARD, STRICT} 1,
      spec ''sca_cargo_deny'' ''sca_rust_policy'' False 20 5 {''component''} {''rust''} {''manifests''} {STRICT} 1]"

definition artifact_checks :: "CheckSpec list" where
  "artifact_checks =
     [spec ''document_pdf'' ''document_pdf'' False 20 6 {''component''} {} {''pdf''} {STANDARD, STRICT} (1/2),
      spec ''sca_osv'' ''sca'' False 25 6 {''component''} {} {''manifests''} {STANDARD, STRICT} 1,
      spec ''malware_clamav'' ''malware'' True 90 7 {''component''} {} {''binary''} {STANDARD, STRICT} 2,
      spec ''malware_yara'' ''malware_yara'' True 15 7 {''component''} {} {''binary''} {STANDARD, STRICT} (3/2)]"

definition setup_checks :: "CheckSpec list" where
  "setup_checks =
     [spec ''setup_pin_aggregate'' ''setup_aggregate'' True 10 0 {''setup''} {} {} ALL_PROFILES 1]"

definition CHECK_REGISTRY :: "CheckSpec list" where
  "CHECK_REGISTRY = intake_checks @ content_checks @ surface_checks @ language_checks
     @ artifact_checks @ setup_checks"

lemmas registry_defs = CHECK_REGISTRY_def intake_checks_def content_checks_def surface_checks_def
  language_checks_def artifact_checks_def setup_checks_def spec_def

text \<open>The dictionary comprehension: a later entry with the same id replaces the earlier value.\<close>

definition registry_by_id :: "(string \<times> CheckSpec) list" where
  "registry_by_id = fold (\<lambda>s d. dict_set (check_id s) s d) CHECK_REGISTRY []"

section \<open>The planner\<close>

record ArtifactManifest =
  m_component_type :: string
  m_languages :: "string set"
  m_flags :: "string set"

definition EXEMPT_FAMILIES :: "string set" where
  "EXEMPT_FAMILIES = {''shell_obfuscation'', ''sast_shell'', ''secrets''}"

definition applicable :: "SafetyProfile \<Rightarrow> string set \<Rightarrow> string set \<Rightarrow> CheckSpec \<Rightarrow> bool" where
  "applicable profile langs flags s =
     (if ''component'' \<notin> kinds s then False
      else if profile \<notin> profiles s then False
      else if languages s \<noteq> {} \<and> languages s \<inter> langs = {} then False
      else if requires_any_flag s \<noteq> {} \<and> requires_any_flag s \<inter> flags = {} then False
      else True)"

text \<open>The loop: what is left to look at, and the families already seen.\<close>

fun select_checks :: "(CheckSpec \<Rightarrow> bool) \<Rightarrow> string set \<Rightarrow> CheckSpec list \<Rightarrow> CheckSpec list" where
  "select_checks app seen [] = []"
| "select_checks app seen (s # ss) =
     (if \<not> app s then select_checks app seen ss
      else if family s \<in> seen \<and> family s \<notin> EXEMPT_FAMILIES then select_checks app seen ss
      else s # select_checks app (insert (family s) seen) ss)"

definition plan_checks ::
  "string \<Rightarrow> ArtifactManifest option \<Rightarrow> SafetyProfile \<Rightarrow> py_error + CheckSpec list" where
  "plan_checks object_kind manifest profile =
     (if object_kind \<notin> {''component'', ''setup''}
      then Inl (ValueError (''unsupported safety object kind: '' @ object_kind))
      else
        let registry = map snd registry_by_id in
        if object_kind = ''setup''
        then Inr (filter (\<lambda>s. ''setup'' \<in> kinds s \<and> profile \<in> profiles s) registry)
        else
          let langs = (case manifest of None \<Rightarrow> {} | Some m \<Rightarrow> m_languages m);
              flags = (case manifest of None \<Rightarrow> {} | Some m \<Rightarrow> m_flags m)
          in Inr (select_checks (applicable profile langs flags) {}
               (sort_key (\<lambda>s. (stage s, check_id s)) registry)))"

section \<open>The loop keeps every check when families are owned once\<close>

lemma select_checks_sub: "set (select_checks app seen ss) \<subseteq> {s \<in> set ss. app s}"
  by (induction app seen ss rule: select_checks.induct) auto

lemma select_checks_sorted:
  "sorted (map k ss) \<Longrightarrow> sorted (map (k :: CheckSpec \<Rightarrow> 'k :: linorder) (select_checks app seen ss))"
proof (induction app seen ss rule: select_checks.induct)
  case (2 app seen s ss)
  then show ?case using select_checks_sub [of app "insert (family s) seen" ss] by auto
qed simp

lemma select_checks_families:
  "distinct (map family (filter (\<lambda>s. family s \<notin> EXEMPT_FAMILIES) (select_checks app seen ss)))
   \<and> (\<forall>s \<in> set (select_checks app seen ss). family s \<notin> EXEMPT_FAMILIES \<longrightarrow> family s \<notin> seen)"
proof (induction app seen ss rule: select_checks.induct)
  case (2 app seen s ss)
  consider (skip) "\<not> app s" | (owned) "app s" "family s \<in> seen" "family s \<notin> EXEMPT_FAMILIES"
    | (kept) "app s" "\<not> (family s \<in> seen \<and> family s \<notin> EXEMPT_FAMILIES)" by blast
  then show ?case
  proof cases
    case skip
    with 2(1) show ?thesis by simp
  next
    case owned
    with 2(2) show ?thesis by simp
  next
    case kept
    note rest = 2(3) [OF _ kept(2)]
    from kept(1) rest have "family s \<notin> family ` set (filter (\<lambda>s. family s \<notin> EXEMPT_FAMILIES)
        (select_checks app (insert (family s) seen) ss))" by auto
    with kept rest show ?thesis by auto
  qed
qed simp

lemma select_checks_all:
  assumes "distinct (map family (filter (\<lambda>s. family s \<notin> EXEMPT_FAMILIES) ss))"
    and "\<forall>s \<in> set ss. family s \<in> seen \<longrightarrow> family s \<in> EXEMPT_FAMILIES"
  shows "select_checks app seen ss = filter app ss"
  using assms
proof (induction app seen ss rule: select_checks.induct)
  case (2 app seen s ss)
  have "\<forall>t \<in> set ss. family t \<in> insert (family s) seen \<longrightarrow> family t \<in> EXEMPT_FAMILIES"
    using 2(4,5) by (auto simp: image_iff split: if_splits)
  with 2 show ?case by (auto split: if_splits)
qed simp

text \<open>A dictionary built from distinct keys has the values of the list, in its order.\<close>

lemma dict_set_new: "k \<notin> fst ` set d \<Longrightarrow> dict_set k v d = d @ [(k, v)]"
  by (induction k v d rule: dict_set.induct) auto

lemma fold_dict_distinct:
  "distinct (map fst d @ map f xs) \<Longrightarrow> fold (\<lambda>x. dict_set (f x) x) xs d = d @ map (\<lambda>x. (f x, x)) xs"
proof (induction xs arbitrary: d)
  case (Cons x xs)
  then have "f x \<notin> fst ` set d" by auto
  then show ?case using Cons.IH [of "d @ [(f x, x)]"] Cons.prems by (simp add: dict_set_new)
qed simp

lemma registry_ids: "distinct (map check_id CHECK_REGISTRY)"
  by code_simp

lemma registry_values: "map snd registry_by_id = CHECK_REGISTRY"
  using fold_dict_distinct [of "[]" check_id CHECK_REGISTRY] registry_ids
  by (simp add: registry_by_id_def o_def)

lemma registry_families:
  "distinct (map family (filter (\<lambda>s. family s \<notin> EXEMPT_FAMILIES)
     (sort_key (\<lambda>s. (stage s, check_id s)) CHECK_REGISTRY)))"
proof -
  have "distinct (map family (filter (\<lambda>s. family s \<notin> EXEMPT_FAMILIES) CHECK_REGISTRY))"
    by code_simp
  moreover have "mset (map family (filter (\<lambda>s. family s \<notin> EXEMPT_FAMILIES)
      (sort_key (\<lambda>s. (stage s, check_id s)) CHECK_REGISTRY)))
    = mset (map family (filter (\<lambda>s. family s \<notin> EXEMPT_FAMILIES) CHECK_REGISTRY))"
    by simp
  ultimately show ?thesis using mset_eq_imp_distinct_iff by blast
qed

lemma component_plan:
  "plan_checks ''component'' manifest profile = Inr (filter
     (applicable profile (case manifest of None \<Rightarrow> {} | Some m \<Rightarrow> m_languages m)
        (case manifest of None \<Rightarrow> {} | Some m \<Rightarrow> m_flags m))
     (sort_key (\<lambda>s. (stage s, check_id s)) CHECK_REGISTRY))"
  using select_checks_all [OF registry_families, of "{}"]
  by (simp add: plan_checks_def registry_values Let_def)

end
