(* ===== verification/SafetyReport.thy ===== *)
theory SafetyReport
  imports SafetyPolicy
begin

text \<open>
  Results of the safety checks (\<open>apps/platform/src/ai_stp_platform/safety/types.py\<close>,
  \<open>safety/normalize.py\<close>, \<open>safety/percent.py\<close>): findings and their deduplication, the
  bounded public summary, the machine reason, and the catalog's percent and status. Text is
  Latin-1; a binding row is a record of the keys the code reads, \<^const>\<open>None\<close> when missing.
\<close>

section \<open>Text\<close>

text \<open>\<open>str.isalnum\<close> on Latin-1: letters, digits, superscripts and fractions.\<close>

definition is_alnum :: "char \<Rightarrow> bool" where
  "is_alnum c = (let n = of_char c :: nat in
     48 \<le> n \<and> n \<le> 57 \<or> 65 \<le> n \<and> n \<le> 90 \<or> 97 \<le> n \<and> n \<le> 122
     \<or> n \<in> {170, 178, 179, 181, 185, 186, 188, 189, 190} \<or> 192 \<le> n \<and> n \<noteq> 215 \<and> n \<noteq> 247)"

definition LOWER_DIGITS :: string where
  "LOWER_DIGITS = ''abcdefghijklmnopqrstuvwxyz0123456789''"

definition ALNUM :: string where
  "ALNUM = ''ABCDEFGHIJKLMNOPQRSTUVWXYZ'' @ LOWER_DIGITS"

text \<open>The two patterns, as full matches.\<close>

definition RULE_ID :: "string \<Rightarrow> bool" where
  "RULE_ID s = (case s of [] \<Rightarrow> False
     | c # cs \<Rightarrow> c \<in> set LOWER_DIGITS \<and> length cs \<le> 127 \<and> set cs \<subseteq> set (LOWER_DIGITS @ ''_.:-''))"

definition SAFE_PATH :: "string \<Rightarrow> bool" where
  "SAFE_PATH s = (case s of [] \<Rightarrow> False
     | c # cs \<Rightarrow> c \<in> set ALNUM \<and> length cs \<le> 239 \<and> set cs \<subseteq> set (ALNUM @ ''._@+ /-''))"

section \<open>Findings\<close>

record Finding =
  f_check_id :: string
  f_family :: string
  f_rule_id :: string
  f_severity :: string
  f_title :: string
  f_path :: "string option"
  f_message :: string
  f_tool_name :: string
  f_fingerprint :: string

definition sev_rank :: "string \<Rightarrow> nat" where
  "sev_rank s = (case map_of [(''info'', 0), (''low'', 1), (''medium'', 2), (''high'', 3), (''critical'', 4)] s
     of None \<Rightarrow> 0 | Some n \<Rightarrow> n)"

definition known_severity :: "string \<Rightarrow> bool" where
  "known_severity s \<longleftrightarrow> s \<in> {''info'', ''low'', ''medium'', ''high'', ''critical''}"

text \<open>\<open>max(xs, key=k)\<close>: the first of the largest.\<close>

fun max_by :: "('a \<Rightarrow> nat) \<Rightarrow> 'a \<Rightarrow> 'a list \<Rightarrow> 'a" where
  "max_by k best [] = best"
| "max_by k best (x # xs) = max_by k (if k x > k best then x else best) xs"

section \<open>Deduplication\<close>

text \<open>\<open>sha256_hex\<close> is the hex digest of \<open>hashlib\<close>.\<close>

definition fingerprint_finding :: "(string \<Rightarrow> string) \<Rightarrow> Finding \<Rightarrow> string" where
  "fingerprint_finding sha256_hex f =
     take 16 (sha256_hex (f_family f @ ''|'' @ f_rule_id f @ ''|''
       @ (case f_path f of None \<Rightarrow> [] | Some p \<Rightarrow> p) @ ''|'' @ f_title f))"

definition with_fingerprint :: "(string \<Rightarrow> string) \<Rightarrow> Finding \<Rightarrow> Finding" where
  "with_fingerprint sha f =
     f\<lparr>f_fingerprint := (if f_fingerprint f = [] then fingerprint_finding sha f else f_fingerprint f)\<rparr>"

definition dedupe_step :: "(string \<Rightarrow> string) \<Rightarrow> Finding \<Rightarrow> (string \<times> Finding) list \<Rightarrow> (string \<times> Finding) list" where
  "dedupe_step sha f best =
     (let f' = with_fingerprint sha f; fp = f_fingerprint f' in
      case map_of best fp of
        None \<Rightarrow> dict_set fp f' best
      | Some prev \<Rightarrow> if sev_rank (f_severity f') > sev_rank (f_severity prev) then dict_set fp f' best else best)"

definition dedupe_findings :: "(string \<Rightarrow> string) \<Rightarrow> Finding list \<Rightarrow> Finding list" where
  "dedupe_findings sha fs = map snd (fold (dedupe_step sha) fs [])"

section \<open>Check outcomes\<close>

text \<open>The keys of \<open>detail\<close> that \<open>reason\<close> reads.\<close>

record outcome_detail =
  timed_out :: "string list"
  timeout_limit :: "int option"
  no_report :: "string list"

record CheckOutcome =
  o_check_id :: string
  o_family :: string
  o_result :: string
  o_source :: string
  o_mandatory :: bool
  o_tool_name :: string
  o_tool_version :: string
  o_duration_ms :: int
  o_severity_max :: string
  o_findings :: "Finding list"
  o_detail :: outcome_detail

definition apply_findings_to_outcome :: "(string \<Rightarrow> string) \<Rightarrow> CheckOutcome \<Rightarrow> CheckOutcome" where
  "apply_findings_to_outcome sha out =
     (let fs = dedupe_findings sha (o_findings out); out' = out\<lparr>o_findings := fs\<rparr> in
      case fs of [] \<Rightarrow> out'
      | f # rest \<Rightarrow> out'\<lparr>o_severity_max := f_severity (max_by (\<lambda>f. sev_rank (f_severity f)) f rest)\<rparr>)"

definition PUBLIC_LIMIT :: nat where
  "PUBLIC_LIMIT = 16"

definition public_rule_id :: "Finding \<Rightarrow> string" where
  "public_rule_id f =
     (let rule = lower (f_rule_id f) in
      if RULE_ID rule then rule
      else
        let tool = map (\<lambda>c. if c = CHR ''-'' then CHR ''_'' else c) (lower (f_tool_name f)) in
        if RULE_ID tool then tool @ ''_finding'' else ''scanner_finding'')"

text \<open>\<open>PurePosixPath\<close>: empty and \<open>.\<close> segments are dropped, \<open>..\<close> is kept.\<close>

definition path_parts :: "string \<Rightarrow> string list" where
  "path_parts s = filter (\<lambda>p. p \<noteq> [] \<and> p \<noteq> ''.'') (split_on (CHR ''/'') s)"

definition public_path :: "string \<Rightarrow> string option" where
  "public_path value =
     (let normalized = map (\<lambda>c. if c = CHR 0x5C then CHR ''/'' else c) value;
          absolute = (case normalized of [] \<Rightarrow> False | c # _ \<Rightarrow> c = CHR ''/'')
      in if absolute \<or> ''..'' \<in> set (path_parts normalized) \<or> \<not> SAFE_PATH normalized then None
         else Some (join ''/'' (path_parts normalized)))"

record finding_summary =
  fs_count :: nat
  fs_severity_max :: string
  fs_rule_ids :: "string list"
  fs_paths :: "string list"
  fs_truncated :: bool

definition finding_paths :: "Finding list \<Rightarrow> string list" where
  "finding_paths fs = [p. f \<leftarrow> fs, p \<leftarrow> (case f_path f of None \<Rightarrow> []
     | Some v \<Rightarrow> if v = [] then [] else (case public_path v of None \<Rightarrow> [] | Some p \<Rightarrow> [p]))]"

definition public_finding_summary :: "CheckOutcome \<Rightarrow> finding_summary option" where
  "public_finding_summary out =
     (case o_findings out of [] \<Rightarrow> None
      | f # rest \<Rightarrow>
          let rules = sort (remdups (map public_rule_id (f # rest)));
              paths = sort (remdups (finding_paths (f # rest)));
              severity = max_by sev_rank (f_severity f) (map f_severity rest)
          in Some \<lparr>fs_count = length (f # rest),
               fs_severity_max = (if known_severity severity then severity else ''info''),
               fs_rule_ids = take PUBLIC_LIMIT rules, fs_paths = take PUBLIC_LIMIT paths,
               fs_truncated = (length rules > PUBLIC_LIMIT \<or> length paths > PUBLIC_LIMIT)\<rparr>)"

definition outcome_reason :: "CheckOutcome \<Rightarrow> string option" where
  "outcome_reason out =
     (if o_result out = ''passed'' then None
      else if timed_out (o_detail out) \<noteq> [] then
        (let names = join '', '' (timed_out (o_detail out)) in
         case timeout_limit (o_detail out) of
           None \<Rightarrow> Some (take 200 (''did not finish, and no limit was recorded: '' @ names))
         | Some limit_s \<Rightarrow> Some (take 200 (''did not finish within '' @ int_str limit_s @ ''s: '' @ names)))
      else if no_report (o_detail out) \<noteq> [] then
        Some (take 200 (''ran without producing a report: '' @ join '', '' (no_report (o_detail out))))
      else if o_findings out \<noteq> [] then
        (let rules = sort (remdups (map f_rule_id (o_findings out)));
             more = (if length rules > 5 then '' and '' @ nat_str (length rules - 5) @ '' more'' else [])
         in Some (take 200 (nat_str (length (o_findings out)) @ '' finding(s): ''
              @ join '', '' (take 5 rules) @ more)))
      else Some (take 200 (''result '' @ o_result out)))"

section \<open>Percent and status\<close>

record binding_row =
  br_check_id :: "string option"
  br_result :: "string option"
  br_mandatory :: "bool option"
  br_source :: "string option"
  br_family :: "string option"
  br_tool_name :: "string option"
  br_tool_version :: "string option"
  br_duration_ms :: "int option"
  br_severity_max :: "string option"
  br_reason :: json
  br_detail :: json
  br_finding_summary :: "finding_summary option"

definition str_opt :: "string option \<Rightarrow> string" where
  "str_opt s = (case s of None \<Rightarrow> ''None'' | Some x \<Rightarrow> x)"

definition br_verdict :: "binding_row \<Rightarrow> string" where
  "br_verdict r = str_opt (br_result r)"

definition br_required :: "binding_row \<Rightarrow> bool" where
  "br_required r = (case br_mandatory r of None \<Rightarrow> True | Some b \<Rightarrow> b)"

definition as_binding :: "CheckOutcome \<Rightarrow> binding_row" where
  "as_binding out =
     \<lparr>br_check_id = Some (o_check_id out), br_result = Some (o_result out),
      br_mandatory = Some (o_mandatory out), br_source = Some (o_source out),
      br_family = Some (o_family out), br_tool_name = Some (o_tool_name out),
      br_tool_version = Some (o_tool_version out), br_duration_ms = Some (o_duration_ms out),
      br_severity_max = Some (o_severity_max out),
      br_reason = (case outcome_reason out of None \<Rightarrow> JNull | Some s \<Rightarrow> JStr s),
      br_detail = JNull, br_finding_summary = public_finding_summary out\<rparr>"

definition VERDICT :: "string set" where "VERDICT = {''passed'', ''failed'', ''warning''}"
definition INCOMPLETE :: "string set" where "INCOMPLETE = {''not_run'', ''degraded'', ''running''}"
definition SKIPPED :: "string set" where "SKIPPED = {''not_applicable'', ''skipped''}"

definition tally :: "string \<Rightarrow> binding_row list \<Rightarrow> nat" where
  "tally v rows = length (filter (\<lambda>r. br_verdict r = v) rows)"

text \<open>\<open>round(100 * passed / denom)\<close>: to the nearest integer, ties to the even one (exact
  while the counts stay far below the precision of a double).\<close>

definition round_half_even :: "int \<Rightarrow> int \<Rightarrow> int" where
  "round_half_even n d =
     (let q = n div d; r = n mod d in
      if 2 * r < d then q else if 2 * r > d then q + 1 else if even q then q else q + 1)"

definition verdict_percent :: "int \<Rightarrow> int \<Rightarrow> int \<Rightarrow> int option" where
  "verdict_percent passed failed warning =
     (let denom = passed + failed + warning in
      if denom \<le> 0 then None else Some (round_half_even (100 * passed) denom))"

definition checks_passed_percent :: "binding_row list \<Rightarrow> int option" where
  "checks_passed_percent rows =
     verdict_percent (int (tally ''passed'' rows)) (int (tally ''failed'' rows)) (int (tally ''warning'' rows))"

fun is_pending :: "binding_row list \<Rightarrow> bool" where
  "is_pending [] = False"
| "is_pending (row # rows) =
     (if \<not> br_required row then is_pending rows
      else if br_verdict row \<in> SKIPPED then is_pending rows
      else if br_verdict row \<in> INCOMPLETE then True else is_pending rows)"

fun is_incomplete_coverage :: "binding_row list \<Rightarrow> bool" where
  "is_incomplete_coverage [] = False"
| "is_incomplete_coverage (row # rows) =
     (if br_verdict row \<in> SKIPPED then is_incomplete_coverage rows
      else if br_verdict row \<in> INCOMPLETE then True else is_incomplete_coverage rows)"

definition checks_status :: "binding_row list \<Rightarrow> string" where
  "checks_status rows =
     (if rows = [] then ''empty''
      else if is_pending rows then ''pending''
      else if is_incomplete_coverage rows then ''incomplete''
      else if list_ex (\<lambda>r. br_verdict r \<in> VERDICT) rows then ''available'' else ''empty'')"

definition coverage_complete :: "binding_row list \<Rightarrow> bool" where
  "coverage_complete rows \<longleftrightarrow> \<not> is_pending rows \<and> \<not> is_incomplete_coverage rows"

definition is_user_facing_row :: "binding_row \<Rightarrow> bool" where
  "is_user_facing_row row \<longleftrightarrow>
     br_verdict row \<in> VERDICT \<or> br_verdict row \<in> INCOMPLETE \<and> br_required row"

definition public_reason :: "binding_row \<Rightarrow> string option" where
  "public_reason row =
     (case br_reason row of
        JStr (c # cs) \<Rightarrow> Some (take 200 (c # cs))
      | _ \<Rightarrow>
          (case br_detail row of
             JDict detail \<Rightarrow>
               (case dict_get detail ''reason'' of
                  JStr (c # cs) \<Rightarrow>
                    (let safe = filter (\<lambda>ch. is_alnum ch \<or> ch \<in> {CHR ''_'', CHR ''-'', CHR '' ''}) (c # cs)
                     in if take 200 safe = [] then None else Some (take 200 safe))
                | _ \<Rightarrow> None)
           | _ \<Rightarrow> None))"

record check_entry =
  ce_check_id :: string
  ce_result :: string
  ce_mandatory :: bool
  ce_source :: string
  ce_family :: string
  ce_reason :: "string option"
  ce_finding_summary :: "finding_summary option"

record checks_summary =
  sum_status :: string
  sum_percent :: "int option"
  sum_coverage_complete :: bool
  sum_passed :: nat
  sum_failed :: nat
  sum_warning :: nat
  sum_not_run :: nat
  sum_total_countable :: nat
  sum_checks :: "check_entry list"

definition build_checks_summary :: "binding_row list \<Rightarrow> checks_summary" where
  "build_checks_summary rows =
     (let passed = tally ''passed'' rows; failed = tally ''failed'' rows;
          warning = tally ''warning'' rows
      in \<lparr>sum_status = checks_status rows,
          sum_percent = verdict_percent (int passed) (int failed) (int warning),
          sum_coverage_complete = coverage_complete rows,
          sum_passed = passed, sum_failed = failed, sum_warning = warning,
          sum_not_run = tally ''not_run'' rows, sum_total_countable = passed + failed + warning,
          sum_checks = map (\<lambda>r. \<lparr>ce_check_id = str_opt (br_check_id r), ce_result = br_verdict r,
            ce_mandatory = br_required r,
            ce_source = (case br_source r of None \<Rightarrow> [] | Some s \<Rightarrow> s),
            ce_family = (case br_family r of None \<Rightarrow> [] | Some s \<Rightarrow> s),
            ce_reason = public_reason r, ce_finding_summary = br_finding_summary r\<rparr>) rows\<rparr>)"

end
