(* ===== verification/SafetyTheorems.thy ===== *)
theory SafetyTheorems
  imports SafetyReport
begin

text \<open>
  Properties of the safety subsystem: the plan is complete, ordered and keeps its always-on gates;
  deduplication keeps the worst finding of each kind; what is published about findings is bounded
  and well-formed; the catalog status and percent mean what they say.
\<close>

section \<open>The plan\<close>

abbreviation plan_key :: "CheckSpec \<Rightarrow> int \<times> string" where
  "plan_key s \<equiv> (stage s, check_id s)"

abbreviation manifest_applicable :: "ArtifactManifest option \<Rightarrow> SafetyProfile \<Rightarrow> CheckSpec \<Rightarrow> bool" where
  "manifest_applicable manifest profile \<equiv> applicable profile
     (case manifest of None \<Rightarrow> {} | Some m \<Rightarrow> m_languages m) (case manifest of None \<Rightarrow> {} | Some m \<Rightarrow> m_flags m)"

lemma profiles_grow:
  "\<forall>s \<in> set CHECK_REGISTRY. (MINIMAL \<in> profiles s \<longrightarrow> STANDARD \<in> profiles s) \<and> (STANDARD \<in> profiles s \<longrightarrow> STRICT \<in> profiles s)"
  by code_simp

lemma always_on:
  "\<forall>i \<in> {''artifact_unpack'', ''path_denylist'', ''secrets_heuristic'', ''agentic_behavior''}.
     \<exists>s \<in> set CHECK_REGISTRY. check_id s = i \<and> mandatory s \<and> ''component'' \<in> kinds s
       \<and> languages s = {} \<and> requires_any_flag s = {} \<and> profiles s = {MINIMAL, STANDARD, STRICT}"
  by code_simp

lemma always_applicable:
  "''component'' \<in> kinds s \<Longrightarrow> languages s = {} \<Longrightarrow> requires_any_flag s = {} \<Longrightarrow>
     profiles s = {MINIMAL, STANDARD, STRICT} \<Longrightarrow> applicable p l f s"
  by (cases p) (auto simp: applicable_def)

lemma applicable_mono:
  "(p \<in> profiles s \<longrightarrow> p' \<in> profiles s) \<Longrightarrow> applicable p l f s \<Longrightarrow> applicable p' l f s"
  by (auto simp: applicable_def split: if_splits)

lemma profile_plans_grow:
  "set (filter (applicable MINIMAL l f) (sort_key k CHECK_REGISTRY)) \<subseteq> set (filter (applicable STANDARD l f) (sort_key k CHECK_REGISTRY))"
  "set (filter (applicable STANDARD l f) (sort_key k CHECK_REGISTRY)) \<subseteq> set (filter (applicable STRICT l f) (sort_key k CHECK_REGISTRY))"
proof -
  have step: "applicable p l f s \<Longrightarrow> s \<in> set CHECK_REGISTRY \<Longrightarrow> applicable p' l f s"
    if "p = MINIMAL \<and> p' = STANDARD \<or> p = STANDARD \<and> p' = STRICT" for p p' s
    using that bspec [OF profiles_grow, of s] applicable_mono [of p s p'] by blast
  show "set (filter (applicable MINIMAL l f) (sort_key k CHECK_REGISTRY)) \<subseteq> set (filter (applicable STANDARD l f) (sort_key k CHECK_REGISTRY))"
    using step [of MINIMAL STANDARD] by simp blast
  show "set (filter (applicable STANDARD l f) (sort_key k CHECK_REGISTRY)) \<subseteq> set (filter (applicable STRICT l f) (sort_key k CHECK_REGISTRY))"
    using step [of STANDARD STRICT] by simp blast
qed

lemma setup_plan:
  "plan_checks ''setup'' manifest profile = Inr (filter (\<lambda>s. ''setup'' \<in> kinds s \<and> profile \<in> profiles s) CHECK_REGISTRY)"
  by (simp add: plan_checks_def registry_values Let_def)

text \<open>C33. The plan of a component holds exactly the registered checks for components of the profile
  whose languages and flags, where a check names any, meet those of the manifest (giving each family one owner drops none of them), each once, by stage and then by id, and no
  family outside the three shared ones has two checks. A setup is only aggregated over its pins,
  and any other kind of object is refused.\<close>

theorem plan_is_complete_and_ordered:
  "(\<exists>plan. plan_checks ''component'' manifest profile = Inr plan
     \<and> set plan = {s \<in> set CHECK_REGISTRY. ''component'' \<in> kinds s \<and> profile \<in> profiles s
         \<and> (languages s = {} \<or> (\<exists>m. manifest = Some m \<and> languages s \<inter> m_languages m \<noteq> {}))
         \<and> (requires_any_flag s = {} \<or> (\<exists>m. manifest = Some m \<and> requires_any_flag s \<inter> m_flags m \<noteq> {}))}
     \<and> sorted (map plan_key plan) \<and> distinct (map check_id plan)
     \<and> distinct (map family (filter (\<lambda>s. family s \<notin> EXEMPT_FAMILIES) plan)))
   \<and> (\<exists>s. plan_checks ''setup'' manifest profile = Inr [s] \<and> check_id s = ''setup_pin_aggregate'')
   \<and> (\<forall>k. k \<notin> {''component'', ''setup''} \<longrightarrow>
        plan_checks k manifest profile = Inl (ValueError (''unsupported safety object kind: '' @ k)))"
proof -
  let ?plan = "filter (manifest_applicable manifest profile) (sort_key plan_key CHECK_REGISTRY)"
  have "distinct (map check_id (sort_key plan_key CHECK_REGISTRY))"
  proof -
    have "mset (map check_id (sort_key plan_key CHECK_REGISTRY)) = mset (map check_id CHECK_REGISTRY)" by simp
    then show ?thesis using registry_ids mset_eq_imp_distinct_iff by blast
  qed
  then have ids: "distinct (map check_id ?plan)" by (rule distinct_map_filter)
  have "distinct (map family (filter (\<lambda>s. manifest_applicable manifest profile s)
      (filter (\<lambda>s. family s \<notin> EXEMPT_FAMILIES) (sort_key plan_key CHECK_REGISTRY))))"
    by (rule distinct_map_filter) (rule registry_families)
  then have fams: "distinct (map family (filter (\<lambda>s. family s \<notin> EXEMPT_FAMILIES) ?plan))"
    by (simp add: conj_commute)
  have sorted: "sorted (map plan_key ?plan)"
    by (rule sorted_filter) (rule sorted_sort_key)
  have "plan_checks ''component'' manifest profile = Inr ?plan" by (rule component_plan)
  moreover have "set ?plan = {s \<in> set CHECK_REGISTRY. ''component'' \<in> kinds s \<and> profile \<in> profiles s
      \<and> (languages s = {} \<or> (\<exists>m. manifest = Some m \<and> languages s \<inter> m_languages m \<noteq> {}))
      \<and> (requires_any_flag s = {} \<or> (\<exists>m. manifest = Some m \<and> requires_any_flag s \<inter> m_flags m \<noteq> {}))}"
    by (auto simp: applicable_def split: option.splits if_splits)
  moreover have "filter (\<lambda>s. ''setup'' \<in> kinds s \<and> profile \<in> profiles s) CHECK_REGISTRY = setup_checks"
    by (cases profile; hypsubst; code_simp)
  then have "\<exists>s. plan_checks ''setup'' manifest profile = Inr [s] \<and> check_id s = ''setup_pin_aggregate''"
    by (simp add: setup_plan setup_checks_def spec_def)
  moreover have "plan_checks k manifest profile = Inl (ValueError (''unsupported safety object kind: '' @ k))"
    if "k \<notin> {''component'', ''setup''}" for k
    using that by (simp add: plan_checks_def)
  ultimately show ?thesis using ids fams sorted by blast
qed

theorem plan_is_complete_and_ordered_witness:
  "plan_checks ''skill'' None MINIMAL = Inl (ValueError ''unsupported safety object kind: skill'')"
  using plan_is_complete_and_ordered [of None MINIMAL] by simp

text \<open>The intake, path, secrets and agentic-behavior gates are mandatory members of every component
  plan, whatever was detected in the artifact and whichever profile runs; and a stricter profile only
  adds checks.\<close>

theorem gates_are_always_planned:
  "\<exists>plan. plan_checks ''component'' manifest profile = Inr plan
     \<and> {''artifact_unpack'', ''path_denylist'', ''secrets_heuristic'', ''agentic_behavior''}
         \<subseteq> check_id ` {s \<in> set plan. mandatory s}
     \<and> (\<exists>minimal standard strict. plan_checks ''component'' manifest MINIMAL = Inr minimal
         \<and> plan_checks ''component'' manifest STANDARD = Inr standard
         \<and> plan_checks ''component'' manifest STRICT = Inr strict
         \<and> set minimal \<subseteq> set standard \<and> set standard \<subseteq> set strict)"
proof -
  let ?plan = "\<lambda>p. filter (manifest_applicable manifest p) (sort_key plan_key CHECK_REGISTRY)"
  have "i \<in> check_id ` {s \<in> set (?plan profile). mandatory s}"
    if i: "i \<in> {''artifact_unpack'', ''path_denylist'', ''secrets_heuristic'', ''agentic_behavior''}" for i
  proof -
    from bspec [OF always_on i] obtain s where s: "s \<in> set CHECK_REGISTRY" "check_id s = i" "mandatory s"
      and "''component'' \<in> kinds s" "languages s = {}" "requires_any_flag s = {}"
        "profiles s = {MINIMAL, STANDARD, STRICT}" by blast
    then have "manifest_applicable manifest profile s" using always_applicable by blast
    with s show ?thesis by auto
  qed
  then have gates: "{''artifact_unpack'', ''path_denylist'', ''secrets_heuristic'', ''agentic_behavior''}
      \<subseteq> check_id ` {s \<in> set (?plan profile). mandatory s}" by blast
  then show ?thesis
    using component_plan [of manifest profile] component_plan [of manifest MINIMAL]
      component_plan [of manifest STANDARD] component_plan [of manifest STRICT]
      profile_plans_grow by (intro exI conjI) assumption+
qed

section \<open>Deduplication\<close>

definition dedupe_ok :: "(string \<Rightarrow> string) \<Rightarrow> Finding set \<Rightarrow> (string \<times> Finding) list \<Rightarrow> bool" where
  "dedupe_ok sha seen best \<longleftrightarrow> distinct (map fst best)
     \<and> (\<forall>(k, f) \<in> set best. f_fingerprint f = k \<and> f \<in> with_fingerprint sha ` seen)
     \<and> (\<forall>f \<in> seen. \<exists>g. map_of best (f_fingerprint (with_fingerprint sha f)) = Some g
          \<and> sev_rank (f_severity f) \<le> sev_rank (f_severity g))"

lemma with_fingerprint_severity [simp]: "f_severity (with_fingerprint sha f) = f_severity f"
  by (simp add: with_fingerprint_def)

lemma set_dict_set: "set (dict_set k v d) \<subseteq> insert (k, v) (set d)"
  by (induction k v d rule: dict_set.induct) auto

lemma dedupe_step_map_of:
  "map_of (dedupe_step sha f best) = (let f' = with_fingerprint sha f; fp = f_fingerprint f' in
     case map_of best fp of None \<Rightarrow> (map_of best)(fp \<mapsto> f')
     | Some prev \<Rightarrow> if sev_rank (f_severity prev) < sev_rank (f_severity f)
                   then (map_of best)(fp \<mapsto> f') else map_of best)"
  by (auto simp: dedupe_step_def Let_def split: option.splits)

lemma dedupe_step_ok:
  assumes "dedupe_ok sha seen best"
  shows "dedupe_ok sha (insert f seen) (dedupe_step sha f best)"
proof -
  let ?f = "with_fingerprint sha f"
  have "distinct (map fst (dedupe_step sha f best))"
    using assms by (auto simp: dedupe_ok_def dedupe_step_def Let_def distinct_dict_set split: option.splits)
  moreover have "f_fingerprint g = k \<and> g \<in> with_fingerprint sha ` insert f seen"
    if "(k, g) \<in> set (dedupe_step sha f best)" for k g
  proof -
    have "set (dedupe_step sha f best) \<subseteq> insert (f_fingerprint ?f, ?f) (set best)"
      using set_dict_set [of "f_fingerprint ?f" ?f best]
      by (simp add: dedupe_step_def Let_def split: option.splits if_splits) blast
    with that assms show ?thesis by (fastforce simp: dedupe_ok_def)
  qed
  moreover have "\<exists>h. map_of (dedupe_step sha f best) (f_fingerprint (with_fingerprint sha g)) = Some h
      \<and> sev_rank (f_severity g) \<le> sev_rank (f_severity h)" if "g \<in> insert f seen" for g
  proof (cases "f_fingerprint (with_fingerprint sha g) = f_fingerprint ?f")
    case True
    show ?thesis
    proof (cases "map_of best (f_fingerprint ?f)")
      case None
      with True that assms have "g = f" by (auto simp: dedupe_ok_def)
      with None show ?thesis by (simp add: dedupe_step_map_of Let_def)
    next
      case (Some prev)
      have "g \<noteq> f \<Longrightarrow> sev_rank (f_severity g) \<le> sev_rank (f_severity prev)"
        using that assms True Some by (auto simp: dedupe_ok_def)
      then show ?thesis using Some True by (cases "g = f") (auto simp: dedupe_step_map_of Let_def)
    qed
  next
    case False
    with that assms have "\<exists>h. map_of best (f_fingerprint (with_fingerprint sha g)) = Some h
      \<and> sev_rank (f_severity g) \<le> sev_rank (f_severity h)" by (auto simp: dedupe_ok_def)
    with False show ?thesis by (auto simp: dedupe_step_map_of Let_def split: option.splits)
  qed
  ultimately show ?thesis by (auto simp: dedupe_ok_def)
qed

lemma dedupe_fold_ok:
  "dedupe_ok sha seen best \<Longrightarrow> dedupe_ok sha (seen \<union> set fs) (fold (dedupe_step sha) fs best)"
proof (induction fs arbitrary: seen best)
  case (Cons f fs)
  from Cons.IH [OF dedupe_step_ok [OF Cons.prems, of f]] show ?case by simp
qed simp

lemma max_by_ge: "k best \<le> k (max_by k best xs)"
proof (induction xs arbitrary: best)
  case (Cons y xs)
  show ?case using Cons.IH [of y] Cons.IH [of best] by auto
qed simp

lemma max_by_max: "x = best \<or> x \<in> set xs \<Longrightarrow> k x \<le> k (max_by k best xs)"
proof (induction xs arbitrary: best)
  case (Cons y xs)
  show ?case
  proof (cases "x \<in> set xs")
    case True
    then show ?thesis using Cons.IH [of "if k y > k best then y else best"] by simp
  next
    case False
    with Cons.prems have "x = best \<or> x = y" by simp
    then show ?thesis using max_by_ge [of k y xs] max_by_ge [of k best xs] by auto
  qed
qed simp

text \<open>Deduplication keeps one finding per fingerprint, each of them a reported one, and for every
  reported finding one at least as severe with its fingerprint; the outcome's severity is then the
  highest of what was reported.\<close>

theorem dedupe_keeps_the_worst:
  "distinct (map f_fingerprint (dedupe_findings sha fs))
   \<and> set (dedupe_findings sha fs) \<subseteq> with_fingerprint sha ` set fs
   \<and> (\<forall>f \<in> set fs. \<exists>g \<in> set (dedupe_findings sha fs).
        f_fingerprint g = f_fingerprint (with_fingerprint sha f)
        \<and> sev_rank (f_severity f) \<le> sev_rank (f_severity g))
   \<and> (\<forall>f \<in> set (o_findings out).
        sev_rank (f_severity f) \<le> sev_rank (o_severity_max (apply_findings_to_outcome sha out)))"
proof -
  have ok: "dedupe_ok sha (set xs) (fold (dedupe_step sha) xs [])" for xs
  proof -
    have "dedupe_ok sha {} []" by (simp add: dedupe_ok_def)
    from dedupe_fold_ok [OF this, of xs] show ?thesis by simp
  qed
  let ?best = "fold (dedupe_step sha) fs []"
  have "map f_fingerprint (map snd ?best) = map fst ?best"
    using ok [of fs] by (auto simp: dedupe_ok_def)
  then have 1: "distinct (map f_fingerprint (dedupe_findings sha fs))"
    using ok [of fs] by (metis dedupe_findings_def dedupe_ok_def)
  have 2: "set (dedupe_findings sha fs) \<subseteq> with_fingerprint sha ` set fs"
    using ok [of fs] by (fastforce simp: dedupe_findings_def dedupe_ok_def)
  have 3: "\<exists>g \<in> set (dedupe_findings sha xs). f_fingerprint g = f_fingerprint (with_fingerprint sha f)
        \<and> sev_rank (f_severity f) \<le> sev_rank (f_severity g)" if f: "f \<in> set xs" for f xs
  proof -
    from ok [of xs] f obtain g where g: "map_of (fold (dedupe_step sha) xs []) (f_fingerprint (with_fingerprint sha f)) = Some g"
      "sev_rank (f_severity f) \<le> sev_rank (f_severity g)" by (auto simp: dedupe_ok_def)
    from map_of_SomeD [OF g(1)] ok [of xs] have "f_fingerprint g = f_fingerprint (with_fingerprint sha f)"
      by (fastforce simp: dedupe_ok_def)
    moreover from map_of_SomeD [OF g(1)] have "g \<in> set (dedupe_findings sha xs)"
      unfolding dedupe_findings_def by force
    ultimately show ?thesis using g(2) by blast
  qed
  have 4: "sev_rank (f_severity f) \<le> sev_rank (o_severity_max (apply_findings_to_outcome sha out))"
    if f: "f \<in> set (o_findings out)" for f
  proof -
    obtain g where g: "g \<in> set (dedupe_findings sha (o_findings out))" "sev_rank (f_severity f) \<le> sev_rank (f_severity g)"
      using 3 [OF f] by blast
    then obtain h rest where rest: "dedupe_findings sha (o_findings out) = h # rest" by (cases "dedupe_findings sha (o_findings out)") auto
    then have "sev_rank (f_severity g) \<le> sev_rank (f_severity (max_by (\<lambda>f. sev_rank (f_severity f)) h rest))"
      using g(1) max_by_max [of g h rest "\<lambda>f. sev_rank (f_severity f)"] by auto
    with g(2) rest show ?thesis by (simp add: apply_findings_to_outcome_def Let_def)
  qed
  show ?thesis using 1 2 3 4 by blast
qed

definition sample_finding :: "string \<Rightarrow> Finding" where
  "sample_finding severity = \<lparr>f_check_id = ''c'', f_family = ''secrets'', f_rule_id = ''Gh-Token'',
     f_severity = severity, f_title = ''t'', f_path = Some ''src/./a.py'', f_message = [],
     f_tool_name = ''Git-Leaks'', f_fingerprint = ''x''\<rparr>"

theorem dedupe_keeps_the_worst_witness:
  "\<exists>g \<in> set (dedupe_findings (\<lambda>_. []) [sample_finding ''low'', sample_finding ''high'']).
     3 \<le> sev_rank (f_severity g)"
proof -
  have "sample_finding ''high'' \<in> set [sample_finding ''low'', sample_finding ''high'']" by simp
  moreover have "sev_rank (f_severity (sample_finding ''high'')) = 3" by (simp add: sample_finding_def sev_rank_def)
  ultimately show ?thesis
    using dedupe_keeps_the_worst [of "\<lambda>_. []" "[sample_finding ''low'', sample_finding ''high'']"] by metis
qed

section \<open>What is published\<close>

lemma public_rule_id_safe:
  "length (public_rule_id f) \<le> 136 \<and> set (public_rule_id f) \<subseteq> set (LOWER_DIGITS @ ''_.:-'')"
proof -
  have ok: "RULE_ID s \<Longrightarrow> length s \<le> 128 \<and> set s \<subseteq> set (LOWER_DIGITS @ ''_.:-'')" for s
    by (auto simp: RULE_ID_def split: list.splits)
  have lit: "set ''_finding'' \<subseteq> set (LOWER_DIGITS @ ''_.:-'')" "set ''scanner_finding'' \<subseteq> set (LOWER_DIGITS @ ''_.:-'')"
    by code_simp+
  show ?thesis
  proof (cases "RULE_ID (lower (f_rule_id f))")
    case True
    with ok [OF True] show ?thesis by (simp add: public_rule_id_def)
  next
    case False
    let ?tool = "map (\<lambda>c. if c = CHR ''-'' then CHR ''_'' else c) (lower (f_tool_name f))"
    have id: "public_rule_id f = (if RULE_ID ?tool then ?tool @ ''_finding'' else ''scanner_finding'')"
      using False by (simp only: public_rule_id_def Let_def if_False)
    show ?thesis
    proof (cases "RULE_ID ?tool")
      case True
      from ok [OF True] have "length ?tool \<le> 128" "set (?tool @ ''_finding'') \<subseteq> set (LOWER_DIGITS @ ''_.:-'')"
        using lit(1) unfolding set_append by blast+
      then show ?thesis unfolding id using True by simp
    next
      case False
      then show ?thesis unfolding id using lit(2) by simp
    qed
  qed
qed

lemma public_path_safe:
  assumes "public_path v = Some p"
  shows "set p \<subseteq> set (ALNUM @ ''._@+ /-'')" "''..'' \<notin> set (split_on (CHR ''/'') p)" "hd p \<noteq> CHR ''/''"
proof -
  let ?n = "map (\<lambda>c. if c = CHR 0x5C then CHR ''/'' else c) v"
  from assms have parts: "''..'' \<notin> set (path_parts ?n)" and safe: "SAFE_PATH ?n"
    and p: "p = join ''/'' (path_parts ?n)"
    by (auto simp: public_path_def Let_def split: if_splits)
  from safe obtain c cs where n: "?n = c # cs" and c: "c \<in> set ALNUM" and cs: "set cs \<subseteq> set (ALNUM @ ''._@+ /-'')"
    unfolding SAFE_PATH_def by (metis (no_types, lifting) list.case_eq_if list.collapse)
  have chars: "set ?n \<subseteq> set (ALNUM @ ''._@+ /-'')" using c cs unfolding n by auto
  have mem: "q \<in> set (path_parts ?n) \<Longrightarrow> CHR ''/'' \<notin> set q \<and> set q \<subseteq> set ?n \<and> q \<noteq> []" for q
    using split_on_no_sep [of q "CHR ''/''" ?n] split_on_chars [of q "CHR ''/''" ?n] by (simp add: path_parts_def)
  have slash: "CHR ''/'' \<in> set (ALNUM @ ''._@+ /-'')" by simp
  show "set p \<subseteq> set (ALNUM @ ''._@+ /-'')"
  proof
    fix x assume "x \<in> set p"
    then have "x = CHR ''/'' \<or> (\<exists>q \<in> set (path_parts ?n). x \<in> set q)"
      using join_chars [of x "''/''" "path_parts ?n"] p by auto
    then show "x \<in> set (ALNUM @ ''._@+ /-'')" using mem chars slash by blast
  qed
  have first: "\<exists>q qs. path_parts ?n = (c # q) # qs"
  proof -
    have "c \<noteq> CHR ''/''" "c \<noteq> CHR ''.''" using c by (auto simp: ALNUM_def LOWER_DIGITS_def)
    then show ?thesis unfolding n path_parts_def by (auto split: list.splits)
  qed
  then have "split_on (CHR ''/'') p = path_parts ?n"
    using mem split_on_join [of "path_parts ?n" "CHR ''/''"] p by auto
  with parts show "''..'' \<notin> set (split_on (CHR ''/'') p)" by simp
  from first obtain q qs where "path_parts ?n = (c # q) # qs" by blast
  with p have "hd p = c" by (cases qs) auto
  moreover have "c \<noteq> CHR ''/''" using c by (auto simp: ALNUM_def LOWER_DIGITS_def)
  ultimately show "hd p \<noteq> CHR ''/''" by simp
qed

lemma known_or_info: "known_severity (if known_severity x then x else ''info'')"
  by (simp add: known_severity_def)

text \<open>A finding summary publishes bounded, well-formed identifiers only: every rule id is at most 136
  lower-case rule characters, every path is relative, free of \<open>..\<close> segments and of any character
  outside the safe set, at most sixteen of each are listed, the truncation flag says whether some
  were left out, and the severity is one of the five known ones.\<close>

theorem published_findings_are_bounded:
  assumes "public_finding_summary out = Some s"
  shows "(\<forall>r \<in> set (fs_rule_ids s). length r \<le> 136 \<and> set r \<subseteq> set (LOWER_DIGITS @ ''_.:-''))
    \<and> (\<forall>p \<in> set (fs_paths s). set p \<subseteq> set (ALNUM @ ''._@+ /-'') \<and> ''..'' \<notin> set (split_on (CHR ''/'') p)
         \<and> hd p \<noteq> CHR ''/'')
    \<and> length (fs_rule_ids s) \<le> 16 \<and> length (fs_paths s) \<le> 16
    \<and> known_severity (fs_severity_max s) \<and> fs_count s = length (o_findings out)
    \<and> (\<not> fs_truncated s \<longrightarrow> set (fs_rule_ids s) = public_rule_id ` set (o_findings out))"
proof -
  obtain f rest where out: "o_findings out = f # rest"
    using assms by (cases "o_findings out") (auto simp: public_finding_summary_def)
  let ?rules = "sort (remdups (map public_rule_id (f # rest)))"
  let ?paths = "sort (remdups (finding_paths (f # rest)))"
  from assms out have s: "fs_rule_ids s = take PUBLIC_LIMIT ?rules" "fs_paths s = take PUBLIC_LIMIT ?paths"
    "fs_truncated s = (length ?rules > PUBLIC_LIMIT \<or> length ?paths > PUBLIC_LIMIT)"
    "known_severity (fs_severity_max s)" "fs_count s = length (o_findings out)"
    by (auto simp: public_finding_summary_def Let_def known_or_info)
  have "r \<in> public_rule_id ` set (f # rest)" if "r \<in> set (fs_rule_ids s)" for r
  proof -
    from that set_take_subset [of PUBLIC_LIMIT ?rules] have "r \<in> set ?rules" unfolding s by blast
    then show ?thesis by (simp only: set_sort set_remdups list.set_map)
  qed
  then have rules: "\<forall>r \<in> set (fs_rule_ids s). length r \<le> 136 \<and> set r \<subseteq> set (LOWER_DIGITS @ ''_.:-'')"
    using public_rule_id_safe by blast
  have "\<exists>v. public_path v = Some p" if "p \<in> set (fs_paths s)" for p
  proof -
    from that set_take_subset [of PUBLIC_LIMIT ?paths] have "p \<in> set ?paths" unfolding s by blast
    then have "p \<in> set (finding_paths (f # rest))" by (simp only: set_sort set_remdups)
    then show ?thesis by (auto simp: finding_paths_def split: option.splits if_splits)
  qed
  then have paths: "\<forall>p \<in> set (fs_paths s). set p \<subseteq> set (ALNUM @ ''._@+ /-'')
      \<and> ''..'' \<notin> set (split_on (CHR ''/'') p) \<and> hd p \<noteq> CHR ''/''"
    using public_path_safe by metis
  have full: "\<not> fs_truncated s \<longrightarrow> set (fs_rule_ids s) = public_rule_id ` set (o_findings out)"
  proof
    assume "\<not> fs_truncated s"
    then have "take PUBLIC_LIMIT ?rules = ?rules" unfolding s by simp
    then have "set (fs_rule_ids s) = set ?rules" unfolding s by simp
    then show "set (fs_rule_ids s) = public_rule_id ` set (o_findings out)"
      unfolding out by (simp only: set_sort set_remdups list.set_map)
  qed
  show ?thesis using rules paths full s by (simp add: PUBLIC_LIMIT_def)
qed

definition sample_outcome :: CheckOutcome where
  "sample_outcome = \<lparr>o_check_id = ''c'', o_family = ''secrets'', o_result = ''failed'', o_source = [],
     o_mandatory = True, o_tool_name = [], o_tool_version = [], o_duration_ms = 0, o_severity_max = ''info'',
     o_findings = [sample_finding ''high''],
     o_detail = \<lparr>timed_out = [], timeout_limit = None, no_report = []\<rparr>\<rparr>"

theorem published_findings_are_bounded_witness:
  "public_finding_summary sample_outcome = Some \<lparr>fs_count = 1, fs_severity_max = ''high'',
     fs_rule_ids = [''gh-token''], fs_paths = [''src/a.py''], fs_truncated = False\<rparr>
   \<and> known_severity ''high''"
proof -
  have s: "public_finding_summary sample_outcome = Some \<lparr>fs_count = 1, fs_severity_max = ''high'',
     fs_rule_ids = [''gh-token''], fs_paths = [''src/a.py''], fs_truncated = False\<rparr>"
    by code_simp
  from published_findings_are_bounded [OF s] s show ?thesis by simp
qed

section \<open>Status and percent\<close>

lemma is_pending_iff: "is_pending rows \<longleftrightarrow> (\<exists>r \<in> set rows. br_required r \<and> br_verdict r \<in> INCOMPLETE)"
  by (induction rows) (auto simp: SKIPPED_def INCOMPLETE_def)

lemma is_incomplete_iff: "is_incomplete_coverage rows \<longleftrightarrow> (\<exists>r \<in> set rows. br_verdict r \<in> INCOMPLETE)"
  by (induction rows) (auto simp: SKIPPED_def INCOMPLETE_def)

lemma tally_pos: "(\<exists>r \<in> set rows. br_verdict r = v) \<longleftrightarrow> 0 < tally v rows"
  by (auto simp: tally_def filter_empty_conv)

lemma status_table:
  assumes "P \<Longrightarrow> I" and "s = (if P then ''pending'' else if I then ''incomplete'' else if V then ''available'' else ''empty'')"
  shows "s = ''pending'' \<longleftrightarrow> P" "s = ''incomplete'' \<longleftrightarrow> I \<and> \<not> P" "s = ''available'' \<longleftrightarrow> \<not> I \<and> V"
    "s = ''empty'' \<longleftrightarrow> \<not> I \<and> \<not> V"
  using assms by auto

text \<open>The catalog status is \<open>pending\<close> exactly while some mandatory check has no verdict,
  \<open>incomplete\<close> exactly when only optional ones lack theirs, and \<open>available\<close> only with full coverage
  and at least one verdict, which is exactly when a percent is shown beside it. Rows that were all
  skipped read \<open>empty\<close>, like no rows at all.\<close>

theorem status_means_coverage:
  "(checks_status rows = ''pending'' \<longleftrightarrow> (\<exists>r \<in> set rows. br_required r \<and> br_verdict r \<in> INCOMPLETE))
   \<and> (checks_status rows = ''incomplete'' \<longleftrightarrow> (\<exists>r \<in> set rows. br_verdict r \<in> INCOMPLETE)
        \<and> \<not> (\<exists>r \<in> set rows. br_required r \<and> br_verdict r \<in> INCOMPLETE))
   \<and> (checks_status rows = ''available'' \<longleftrightarrow> coverage_complete rows \<and> (\<exists>r \<in> set rows. br_verdict r \<in> VERDICT))
   \<and> (checks_status rows = ''empty'' \<longleftrightarrow> (\<forall>r \<in> set rows. br_verdict r \<notin> INCOMPLETE \<and> br_verdict r \<notin> VERDICT))
   \<and> (checks_passed_percent rows \<noteq> None \<longleftrightarrow> (\<exists>r \<in> set rows. br_verdict r \<in> VERDICT))
   \<and> (coverage_complete rows \<longleftrightarrow> (\<forall>r \<in> set rows. br_verdict r \<notin> INCOMPLETE))"
proof -
  have verdict: "list_ex (\<lambda>r. br_verdict r \<in> VERDICT) rows \<longleftrightarrow> (\<exists>r \<in> set rows. br_verdict r \<in> VERDICT)"
    by (simp add: list_ex_iff)
  have percent: "checks_passed_percent rows \<noteq> None \<longleftrightarrow> (\<exists>r \<in> set rows. br_verdict r \<in> VERDICT)"
  proof -
    have "(\<exists>r \<in> set rows. br_verdict r \<in> VERDICT) \<longleftrightarrow>
        0 < tally ''passed'' rows \<or> 0 < tally ''failed'' rows \<or> 0 < tally ''warning'' rows"
      unfolding tally_pos [symmetric] VERDICT_def by blast
    then show ?thesis by (auto simp: checks_passed_percent_def verdict_percent_def Let_def)
  qed
  have cov: "coverage_complete rows \<longleftrightarrow> (\<forall>r \<in> set rows. br_verdict r \<notin> INCOMPLETE)"
    unfolding coverage_complete_def is_pending_iff is_incomplete_iff by blast
  let ?P = "\<exists>r \<in> set rows. br_required r \<and> br_verdict r \<in> INCOMPLETE"
  let ?I = "\<exists>r \<in> set rows. br_verdict r \<in> INCOMPLETE"
  let ?V = "\<exists>r \<in> set rows. br_verdict r \<in> VERDICT"
  have st: "checks_status rows = (if ?P then ''pending'' else if ?I then ''incomplete''
      else if ?V then ''available'' else ''empty'')"
    unfolding checks_status_def is_pending_iff is_incomplete_iff verdict by simp
  have "?P \<Longrightarrow> ?I" by blast
  note table = status_table [OF this st]
  have "(\<forall>r \<in> set rows. br_verdict r \<notin> INCOMPLETE \<and> br_verdict r \<notin> VERDICT) \<longleftrightarrow> \<not> ?I \<and> \<not> ?V" by blast
  moreover have "coverage_complete rows \<longleftrightarrow> \<not> ?I" unfolding cov by blast
  ultimately show ?thesis using table percent cov by (intro conjI) blast+
qed

theorem status_means_coverage_witness:
  "checks_status [as_binding (sample_outcome\<lparr>o_result := ''not_run''\<rparr>)] = ''pending''"
  using status_means_coverage [of "[as_binding (sample_outcome\<lparr>o_result := ''not_run''\<rparr>)]"]
  by (simp add: as_binding_def sample_outcome_def br_required_def br_verdict_def str_opt_def INCOMPLETE_def)

lemma round_half_even_iff:
  assumes d: "0 < d" and n: "0 \<le> n" "n \<le> 100 * d"
  shows "0 \<le> round_half_even n d \<and> round_half_even n d \<le> 100
    \<and> 2 * \<bar>n - d * round_half_even n d\<bar> \<le> d"
proof -
  let ?q = "n div d" and ?r = "n mod d"
  have eq: "n = d * ?q + ?r" by simp
  have r: "0 \<le> ?r" "?r < d" using d by simp_all
  have q0: "0 \<le> ?q" using d n(1) by (simp add: pos_imp_zdiv_nonneg_iff)
  have q100: "?q \<le> 100" using d n(2) zdiv_mono1 [OF n(2) d] by simp
  have top: "?r = 0" if "?q = 100" using eq n(2) r that by (simp add: mult.commute)
  have near: "round_half_even n d = ?q \<and> 2 * ?r \<le> d \<or> round_half_even n d = ?q + 1 \<and> 2 * ?r \<ge> d"
    by (auto simp: round_half_even_def Let_def)
  then show ?thesis
  proof
    assume *: "round_half_even n d = ?q \<and> 2 * ?r \<le> d"
    then have "n - d * round_half_even n d = ?r" by (simp add: minus_mult_div_eq_mod)
    with * q0 q100 r show ?thesis by simp
  next
    assume *: "round_half_even n d = ?q + 1 \<and> 2 * ?r \<ge> d"
    then have "n - d * round_half_even n d = n - d * ?q - d" by (simp add: algebra_simps)
    then have "n - d * round_half_even n d = ?r - d" by (simp add: minus_mult_div_eq_mod)
    moreover have "?q \<noteq> 100" using top * d by auto
    ultimately show ?thesis using * q0 q100 r by simp
  qed
qed

lemma two_abs: "2 * \<bar>x\<bar> \<le> (d :: int) \<Longrightarrow> 2 * x \<le> d \<and> 2 * (- x) \<le> d"
  by linarith

lemma half_div:
  assumes "0 < (d::int)" and "2 * n = 199 * d"
  shows "n div d = 99 \<and> 2 * (n mod d) = d"
proof -
  define h where "h = n - 99 * d"
  have n: "n = h + d * 99" by (simp add: h_def)
  have h: "2 * h = d" using assms(2) by (simp add: h_def)
  then have "0 \<le> h" "h < d" using assms(1) by presburger+
  then have "n div d = 99" "n mod d = h"
    unfolding n using assms(1) by (simp_all add: div_pos_pos_trivial mod_pos_pos_trivial)
  with h show ?thesis by simp
qed

lemma percent_edge:
  "p \<le> D * 99 \<Longrightarrow> 2 * (100 * n - p) \<le> D \<Longrightarrow> 200 * (D - n) \<le> D \<Longrightarrow> 200 * (D - n) = (D :: int)"
  by presburger

text \<open>The percent shown lies between 0 and 100, is within half a percent of the passed share of
  finished verdicts, and reads 100 exactly when at most one verdict in two hundred is not a pass:
  a failed check can stand beside a full score.\<close>

theorem percent_is_the_rounded_share:
  assumes "0 \<le> passed" "0 \<le> failed" "0 \<le> warning" and "verdict_percent passed failed warning = Some pct"
  shows "0 \<le> pct \<and> pct \<le> 100 \<and> 2 * \<bar>100 * passed - (passed + failed + warning) * pct\<bar> \<le> passed + failed + warning
    \<and> (pct = 100 \<longleftrightarrow> 200 * (failed + warning) \<le> passed + failed + warning)"
proof -
  let ?d = "passed + failed + warning"
  from assms(4) have d: "0 < ?d" and pct: "pct = round_half_even (100 * passed) ?d"
    by (auto simp: verdict_percent_def Let_def split: if_splits)
  define D where "D = ?d"
  have *: "0 \<le> pct \<and> pct \<le> 100 \<and> 2 * \<bar>100 * passed - ?d * pct\<bar> \<le> ?d"
    unfolding pct using assms(1-3) by (intro round_half_even_iff d) auto
  have "pct = 100" if "200 * (failed + warning) \<le> ?d"
  proof (rule ccontr)
    assume "pct \<noteq> 100"
    with * have le: "pct \<le> 99" by simp
    have "D * pct \<le> D * 99" using le d unfolding D_def by (intro mult_left_mono) auto
    moreover have "2 * (100 * passed - D * pct) \<le> D"
      using two_abs [OF conjunct2 [OF conjunct2 [OF *]]] unfolding D_def by blast
    moreover have rest: "failed + warning = D - passed" by (simp add: D_def)
    ultimately have "200 * (failed + warning) = D"
      using percent_edge [of "D * pct" D passed] that unfolding D_def [symmetric] rest by blast
    then have half: "2 * (100 * passed) = 199 * ?d" by (simp add: D_def)
    have "100 * passed div ?d = 99 \<and> 2 * (100 * passed mod ?d) = ?d"
      by (rule half_div [OF d half])
    then have "round_half_even (100 * passed) ?d = 100" by (simp add: round_half_even_def Let_def)
    with pct \<open>pct \<noteq> 100\<close> show False by simp
  qed
  moreover have "200 * (failed + warning) \<le> ?d" if "pct = 100"
  proof -
    have "2 * \<bar>100 * passed - ?d * 100\<bar> \<le> ?d" using * that by simp
    then have "2 * (?d * 100 - 100 * passed) \<le> ?d"
      using two_abs [of "100 * passed - ?d * 100" ?d] by simp
    then show ?thesis by simp
  qed
  ultimately show ?thesis using * by blast
qed

theorem percent_is_the_rounded_share_witness:
  "verdict_percent 199 1 0 = Some 100 \<and> (100::int) \<le> 100"
proof -
  have v: "verdict_percent 199 1 0 = Some 100" by (simp add: verdict_percent_def round_half_even_def)
  from percent_is_the_rounded_share [OF _ _ _ v] v show ?thesis by simp
qed

end
