(* ===== verification/DeviceFlow.thy ===== *)
theory DeviceFlow
  imports Prelude
begin

text \<open>
  The device-code login (\<open>apps/api/src/ai_stp_api/slices/auth/device_flow.py\<close>, with
  \<open>issue_session\<close> of \<open>session.py\<close>): starting, approving and exchanging an authorization. An
  exchange is two transactions, the poll that commits its timestamp and the redemption that works
  on the row the poll read, so other transactions may commit in between. Random codes, minted ids
  and tokens are arguments; so are the key normalisation of \<open>devices/crypto.py\<close>, the token digest
  and the geographic location. Text is Latin-1.
\<close>

section \<open>Tables and errors\<close>

datatype error_category =
    VALIDATION | NOT_FOUND | AUTH_REQUIRED | PERMISSION | CONFLICT | RATE_LIMITED | DEPENDENCY
    | INTERNAL | CATALOG_INTEGRITY | AUTHORIZATION_PENDING | AUTHORIZATION_EXPIRED
    | AUTHORIZATION_DECLINED | PRECONDITION | DEVICE_REVOKED | SEO_FACTS_INVALID
    | SEO_OUTPUT_INVALID | SEO_ENRICHMENT_UNAVAILABLE | SEO_SOURCE_STALE | SEO_RENDER_FAILED
    | CONTENT_INVALID | CONTENT_SOURCE_CONFLICT | CONTENT_STALE | CONTENT_IMPORT_FORBIDDEN
    | HANDLE_CONFLICT | ACCOUNT_DISPLAY_NAME_CONFLICT | CANONICAL_NAME_CONFLICT
    | LOCALIZED_NAME_CONFLICT | FOREIGN_LINE_OWNERSHIP | STALE_OWNERSHIP_REVISION
    | MIGRATION_CONFLICT | MANIFEST_MISMATCH | SYNC_DELIVERY

text \<open>An \<open>ApiError\<close>, or a database exception.\<close>

datatype api_error =
    ApiError error_category string "string option"
  | IntegrityError
  | RowGone
  | SqlError py_error

record device_authorization =
  da_device_code :: string
  da_user_code :: string
  da_provider :: string
  da_status :: string
  da_account_id :: "string option"
  da_interval_seconds :: int
  da_expires_at :: time
  da_last_poll_at :: "time option"
  da_idempotency_key :: "string option"

record device =
  dv_id :: string
  dv_account_id :: string
  dv_public_key :: string
  dv_device_type :: string
  dv_display_name :: "string option"
  dv_approximate_location :: "string option"
  dv_user_agent :: "string option"
  dv_state :: string
  dv_last_seen_at :: "time option"

record account_session =
  ss_id :: string
  ss_account_id :: string
  ss_device_id :: "string option"
  ss_expires_at :: time
  ss_revoked_at :: "time option"
  ss_kind :: string

record auth_db =
  authorizations :: "device_authorization list"
  devices :: "device list"
  sessions :: "account_session list"

definition auth_row :: "string \<Rightarrow> auth_db \<Rightarrow> device_authorization option" where
  "auth_row code db = find (\<lambda>r. da_device_code r = code) (authorizations db)"

section \<open>Starting\<close>

definition SUPPORTED_PROVIDERS :: "string list" where
  "SUPPORTED_PROVIDERS = [''google'', ''github'', ''authentik'', ''keycloak'', ''gitlab'', ''saml'']"

definition DEFAULT_INTERVAL :: int where "DEFAULT_INTERVAL = 5"
definition DEFAULT_EXPIRES :: int where "DEFAULT_EXPIRES = 600"
definition ACCESS_TTL_CAP :: int where "ACCESS_TTL_CAP = 86400"

definition held_authorization :: "string option \<Rightarrow> auth_db \<Rightarrow> py_error + device_authorization option" where
  "held_authorization key db =
     (case key of None \<Rightarrow> Inr None
      | Some k \<Rightarrow> scalar_one_or_none (filter (\<lambda>r. da_idempotency_key r = Some k) (authorizations db)))"

definition replay :: "string \<Rightarrow> device_authorization \<Rightarrow> api_error + device_authorization" where
  "replay provider held =
     (if da_provider held \<noteq> provider
      then Inl (ApiError CONFLICT ''idempotency key was reused with different content'' None)
      else Inr held)"

definition clashes :: "device_authorization \<Rightarrow> device_authorization \<Rightarrow> bool" where
  "clashes new r \<longleftrightarrow> da_device_code r = da_device_code new \<or> da_user_code r = da_user_code new
     \<or> (da_idempotency_key new \<noteq> None \<and> da_idempotency_key r = da_idempotency_key new)"

definition new_authorization :: "string \<times> string \<Rightarrow> string \<Rightarrow> string option \<Rightarrow> time \<Rightarrow> device_authorization" where
  "new_authorization codes provider key now =
     \<lparr>da_device_code = fst codes, da_user_code = snd codes, da_provider = provider,
      da_status = ''pending'', da_account_id = None, da_interval_seconds = DEFAULT_INTERVAL,
      da_expires_at = now + seconds DEFAULT_EXPIRES, da_last_poll_at = None, da_idempotency_key = key\<rparr>"

text \<open>The attempts, one per minted pair of codes; the code makes two.\<close>

fun mint_attempts :: "(string \<times> string) list \<Rightarrow> string \<Rightarrow> string option \<Rightarrow> time \<Rightarrow> auth_db
    \<Rightarrow> (api_error + device_authorization) \<times> auth_db" where
  "mint_attempts [] provider key now db =
     (Inl (ApiError INTERNAL ''could not allocate a unique device user code'' None), db)"
| "mint_attempts (codes # rest) provider key now db =
     (let new = new_authorization codes provider key now in
      if \<not> list_ex (clashes new) (authorizations db)
      then (Inr new, db\<lparr>authorizations := authorizations db @ [new]\<rparr>)
      else
        (case held_authorization key db of
           Inl e \<Rightarrow> (Inl (SqlError e), db)
         | Inr (Some held) \<Rightarrow> (replay provider held, db)
         | Inr None \<Rightarrow> mint_attempts rest provider key now db))"

definition start_device_authorization ::
  "(string \<Rightarrow> bool) \<Rightarrow> string \<Rightarrow> string option \<Rightarrow> string \<times> string \<Rightarrow> string \<times> string \<Rightarrow> time \<Rightarrow> auth_db
     \<Rightarrow> (api_error + device_authorization) \<times> auth_db" where
  "start_device_authorization provider_enabled provider key codes1 codes2 now db =
     (if provider \<notin> set SUPPORTED_PROVIDERS
      then (Inl (ApiError VALIDATION ''unsupported oauth provider'' None), db)
      else if \<not> provider_enabled provider
      then (Inl (ApiError DEPENDENCY ''oauth provider is not configured'' None), db)
      else
        (case held_authorization key db of
           Inl e \<Rightarrow> (Inl (SqlError e), db)
         | Inr (Some held) \<Rightarrow> (replay provider held, db)
         | Inr None \<Rightarrow> mint_attempts [codes1, codes2] provider key now db))"

section \<open>Approving\<close>

definition approvable :: "string \<Rightarrow> time \<Rightarrow> device_authorization \<Rightarrow> bool" where
  "approvable code now r \<longleftrightarrow> da_user_code r = code \<and> da_status r = ''pending'' \<and> da_expires_at r > now"

definition stamp_approved :: "string \<Rightarrow> device_authorization \<Rightarrow> device_authorization" where
  "stamp_approved account r = r\<lparr>da_status := ''approved'', da_account_id := Some account\<rparr>"

definition approve_device_authorization ::
  "string \<Rightarrow> string \<Rightarrow> time \<Rightarrow> auth_db \<Rightarrow> (api_error + device_authorization) \<times> auth_db" where
  "approve_device_authorization user_code account now db =
     (let normalized = upper (strip user_code);
          claimed = rowcount (approvable normalized now) (authorizations db);
          db' = db\<lparr>authorizations := update_where (approvable normalized now) (stamp_approved account) (authorizations db)\<rparr>
      in case scalar_one_or_none (filter (\<lambda>r. da_user_code r = normalized) (authorizations db')) of
           Inl e \<Rightarrow> (Inl (SqlError e), db)
         | Inr None \<Rightarrow> (Inl (ApiError NOT_FOUND ''unknown user code'' None), db)
         | Inr (Some row) \<Rightarrow>
             if claimed = 1 then (Inr row, db')
             else if da_expires_at row \<le> now \<or> da_status row \<in> {''consumed'', ''declined''}
             then (Inl (ApiError VALIDATION ''authorization expired'' None), db)
             else if da_status row = ''approved'' \<and> da_account_id row = Some account then (Inr row, db')
             else (Inl (ApiError CONFLICT ''authorization already resolved'' None), db))"

section \<open>Exchanging: the poll\<close>

definition poll_device_code :: "string \<Rightarrow> time \<Rightarrow> auth_db \<Rightarrow> (api_error + device_authorization) \<times> auth_db" where
  "poll_device_code device_code now db =
     (case auth_row device_code db of
        None \<Rightarrow> (Inl (ApiError VALIDATION ''unknown device code'' None), db)
      | Some row \<Rightarrow>
          if (case da_last_poll_at row of None \<Rightarrow> False
              | Some t \<Rightarrow> now - t < seconds (da_interval_seconds row))
          then (Inl (ApiError RATE_LIMITED ''slow down'' None), db)
          else
            (Inr (row\<lparr>da_last_poll_at := Some now\<rparr>),
             db\<lparr>authorizations := update_where (\<lambda>r. da_device_code r = device_code)
                  (\<lambda>r. r\<lparr>da_last_poll_at := Some now\<rparr>) (authorizations db)\<rparr>))"

section \<open>Exchanging: the redemption\<close>

record exchange_args =
  x_device_id :: string
  x_public_key :: string
  x_display_name :: string
  x_expected_account_id :: "string option"
  x_revoked_public_key :: "string option"
  x_user_agent :: "string option"
  x_location :: "string option"
  x_session_ttl_seconds :: int

record minted =
  mt_device_id :: string
  mt_access_token :: string
  mt_refresh_token :: string

record exchange_payload =
  xp_access_token :: string
  xp_refresh_token :: string
  xp_expires_in :: int
  xp_account_id :: string
  xp_device_id :: string

definition issue_session ::
  "(string \<Rightarrow> string) \<Rightarrow> string \<Rightarrow> string \<Rightarrow> string option \<Rightarrow> int \<Rightarrow> string \<Rightarrow> time \<Rightarrow> auth_db \<Rightarrow> api_error + auth_db" where
  "issue_session digest raw account device_id ttl_seconds kind now db =
     (if digest raw \<in> ss_id ` set (sessions db) then Inl IntegrityError
      else Inr (db\<lparr>sessions := sessions db @
        [\<lparr>ss_id = digest raw, ss_account_id = account, ss_device_id = device_id,
          ss_expires_at = now + seconds ttl_seconds, ss_revoked_at = None, ss_kind = kind\<rparr>]\<rparr>))"

text \<open>The verdict on the status of the row the poll returned.\<close>

definition status_refusal :: "time \<Rightarrow> device_authorization \<Rightarrow> api_error option" where
  "status_refusal now row =
     (if da_expires_at row \<le> now \<or> da_status row = ''consumed''
      then Some (ApiError AUTHORIZATION_EXPIRED ''authorization expired'' None)
      else if da_status row = ''pending''
      then Some (ApiError AUTHORIZATION_PENDING ''authorization pending'' None)
      else if da_status row = ''declined''
      then Some (ApiError AUTHORIZATION_DECLINED ''authorization declined'' None)
      else if da_status row \<noteq> ''approved'' \<or> da_account_id row \<in> {None, Some []}
      then Some (ApiError AUTHORIZATION_PENDING ''authorization pending'' None)
      else None)"

text \<open>Recovery of a revoked device: the retired key must be a revoked one of the same account.\<close>

definition recovery_refusal ::
  "(string \<Rightarrow> string option) \<Rightarrow> exchange_args \<Rightarrow> string option \<Rightarrow> auth_db \<Rightarrow> api_error option" where
  "recovery_refusal norm_key x account db =
     (case x_revoked_public_key x of
        None \<Rightarrow> None
      | Some old \<Rightarrow>
          (case norm_key old of
             None \<Rightarrow> Some (ApiError VALIDATION ''public key must be 32 bytes'' None)
           | Some previous_key \<Rightarrow>
               (case scalar_one_or_none (filter (\<lambda>d. dv_public_key d = previous_key) (devices db)) of
                  Inl e \<Rightarrow> Some (SqlError e)
                | Inr None \<Rightarrow> Some (ApiError PERMISSION ''the retired key does not belong to this account'' None)
                | Inr (Some previous) \<Rightarrow>
                    if Some (dv_account_id previous) \<noteq> account
                    then Some (ApiError PERMISSION ''the retired key does not belong to this account'' None)
                    else if dv_state previous \<noteq> ''revoked''
                    then Some (ApiError PRECONDITION ''recovery requires a revoked device and a new key'' None)
                    else
                      (case norm_key (x_public_key x) of
                         None \<Rightarrow> Some (ApiError VALIDATION ''public key must be 32 bytes'' None)
                       | Some new_key \<Rightarrow>
                           if previous_key = new_key
                           then Some (ApiError PRECONDITION ''recovery requires a revoked device and a new key'' None)
                           else None))))"

definition consumable :: "string \<Rightarrow> time \<Rightarrow> device_authorization \<Rightarrow> bool" where
  "consumable code now r \<longleftrightarrow> da_device_code r = code \<and> da_status r = ''approved'' \<and> da_expires_at r > now"

definition stamp_consumed :: "device_authorization \<Rightarrow> device_authorization" where
  "stamp_consumed r = r\<lparr>da_status := ''consumed''\<rparr>"

text \<open>Binding the key to a device of the account, creating it when the key is new.\<close>

definition bind_device ::
  "exchange_args \<Rightarrow> minted \<Rightarrow> string \<Rightarrow> string \<Rightarrow> time \<Rightarrow> auth_db \<Rightarrow> api_error + device \<times> auth_db" where
  "bind_device x m account pk now db =
     (let with_key = (\<lambda>db. filter (\<lambda>d. dv_public_key d = pk) (devices db)) in
      case scalar_one_or_none (with_key db) of
        Inl e \<Rightarrow> Inl (SqlError e)
      | Inr (Some d) \<Rightarrow> Inr (d, db)
      | Inr None \<Rightarrow>
          let i = (if x_device_id x \<in> dv_id ` set (devices db) then mt_device_id m else x_device_id x);
              new = \<lparr>dv_id = i, dv_account_id = account, dv_public_key = pk, dv_device_type = ''cli'',
                     dv_display_name = (if x_display_name x = [] then None else Some (x_display_name x)),
                     dv_approximate_location = None, dv_user_agent = None, dv_state = ''active'',
                     dv_last_seen_at = Some now\<rparr>
          in if i \<in> dv_id ` set (devices db) then Inl IntegrityError
             else Inr (new, db\<lparr>devices := devices db @ [new]\<rparr>))"

definition stamp_device :: "exchange_args \<Rightarrow> time \<Rightarrow> device \<Rightarrow> device" where
  "stamp_device x now d =
     d\<lparr>dv_last_seen_at := Some now,
       dv_display_name := (if x_display_name x = [] then dv_display_name d else Some (x_display_name x)),
       dv_user_agent := x_user_agent x, dv_approximate_location := x_location x\<rparr>"

definition issue_pair ::
  "(string \<Rightarrow> string) \<Rightarrow> exchange_args \<Rightarrow> minted \<Rightarrow> string \<Rightarrow> string \<Rightarrow> time \<Rightarrow> auth_db
     \<Rightarrow> api_error + exchange_payload \<times> auth_db" where
  "issue_pair digest x m account device_id now db =
     (let access_ttl = min (x_session_ttl_seconds x) ACCESS_TTL_CAP in
      case issue_session digest (mt_access_token m) account (Some device_id) access_ttl ''access'' now db of
        Inl e \<Rightarrow> Inl e
      | Inr db1 \<Rightarrow>
          (case issue_session digest (mt_refresh_token m) account (Some device_id) (x_session_ttl_seconds x)
                  ''refresh'' now db1 of
             Inl e \<Rightarrow> Inl e
           | Inr db2 \<Rightarrow>
               Inr (\<lparr>xp_access_token = mt_access_token m, xp_refresh_token = mt_refresh_token m,
                     xp_expires_in = access_ttl, xp_account_id = account, xp_device_id = device_id\<rparr>, db2)))"

text \<open>Everything after the poll's commit; an error rolls the transaction back.\<close>

definition redeem ::
  "(string \<Rightarrow> string option) \<Rightarrow> (string \<Rightarrow> string) \<Rightarrow> exchange_args \<Rightarrow> minted \<Rightarrow> device_authorization \<Rightarrow> time
     \<Rightarrow> auth_db \<Rightarrow> api_error + exchange_payload \<times> auth_db" where
  "redeem norm_key digest x m row now db =
     (case status_refusal now row of
        Some e \<Rightarrow> Inl e
      | None \<Rightarrow>
          (case da_account_id row of
             None \<Rightarrow> Inl (ApiError AUTHORIZATION_PENDING ''authorization pending'' None)
           | Some account \<Rightarrow>
          if x_expected_account_id x \<noteq> None \<and> x_expected_account_id x \<noteq> Some account
          then Inl (ApiError PERMISSION ''the authorization belongs to a different account'' (Some ''account_binding_mismatch''))
          else
            (case recovery_refusal norm_key x (da_account_id row) db of
               Some e \<Rightarrow> Inl e
             | None \<Rightarrow>
                 if take 7 (x_device_id x) \<noteq> ''device_'' then Inl (ApiError VALIDATION ''invalid device id'' None)
                 else if rowcount (consumable (da_device_code row) now) (authorizations db) \<noteq> 1
                 then (case auth_row (da_device_code row) db of
                         None \<Rightarrow> Inl RowGone
                       | Some fresh \<Rightarrow>
                           if da_expires_at fresh \<le> now \<or> da_status fresh = ''consumed''
                           then Inl (ApiError AUTHORIZATION_EXPIRED ''authorization expired'' None)
                           else if da_status fresh = ''declined''
                           then Inl (ApiError AUTHORIZATION_DECLINED ''authorization declined'' None)
                           else Inl (ApiError AUTHORIZATION_PENDING ''authorization pending'' None))
                 else
                   let db1 = db\<lparr>authorizations := update_where (consumable (da_device_code row) now)
                               stamp_consumed (authorizations db)\<rparr> in
                   (case norm_key (x_public_key x) of
                      None \<Rightarrow> Inl (ApiError VALIDATION ''public key must be 32 bytes'' None)
                    | Some pk \<Rightarrow>
                        (case bind_device x m account pk now db1 of
                           Inl e \<Rightarrow> Inl e
                         | Inr (d, db2) \<Rightarrow>
                             if dv_account_id d \<noteq> account
                             then Inl (ApiError PERMISSION ''device key belongs to another account'' (Some ''device_key_foreign''))
                             else if dv_state d = ''revoked''
                             then Inl (ApiError DEVICE_REVOKED ''device is revoked; register a new device key'' None)
                             else issue_pair digest x m account (dv_id d) now
                                    (db2\<lparr>devices := update_where (\<lambda>r. dv_id r = dv_id d) (stamp_device x now) (devices db2)\<rparr>))))))"

text \<open>The whole exchange, with what other transactions commit after the poll.\<close>

definition exchange_device_code ::
  "(string \<Rightarrow> string option) \<Rightarrow> (string \<Rightarrow> string) \<Rightarrow> (auth_db \<Rightarrow> auth_db) \<Rightarrow> string \<Rightarrow> exchange_args \<Rightarrow> minted \<Rightarrow> time
     \<Rightarrow> auth_db \<Rightarrow> (api_error + exchange_payload) \<times> auth_db" where
  "exchange_device_code norm_key digest env device_code x m now db =
     (case poll_device_code device_code now db of
        (Inl e, db1) \<Rightarrow> (Inl e, db1)
      | (Inr row, db1) \<Rightarrow>
          (case redeem norm_key digest x m row now (env db1) of
             Inl e \<Rightarrow> (Inl e, env db1)
           | Inr (payload, db2) \<Rightarrow> (Inr payload, db2)))"

section \<open>Retention\<close>

text \<open>\<open>auth_retention.py\<close>: dead grants and dead sessions are deleted in bounded passes.\<close>

definition gc_expired_device_authorizations :: "int \<Rightarrow> nat \<Rightarrow> time \<Rightarrow> auth_db \<Rightarrow> nat \<times> auth_db" where
  "gc_expired_device_authorizations retention_days limit_n now db =
     (let cutoff = now - seconds (86400 * retention_days);
          ids = map da_device_code (order_limit da_expires_at limit_n
                  (filter (\<lambda>r. da_expires_at r < cutoff) (authorizations db)))
      in if ids = [] then (0, db)
         else (rowcount (\<lambda>r. da_device_code r \<in> set ids) (authorizations db),
               db\<lparr>authorizations := filter (\<lambda>r. da_device_code r \<notin> set ids) (authorizations db)\<rparr>))"

definition gc_expired_sessions :: "int \<Rightarrow> nat \<Rightarrow> time \<Rightarrow> auth_db \<Rightarrow> nat \<times> auth_db" where
  "gc_expired_sessions retention_days limit_n now db =
     (let cutoff = now - seconds (86400 * retention_days);
          ids = map ss_id (order_limit ss_expires_at limit_n
                  (filter (\<lambda>r. ss_expires_at r < cutoff) (sessions db)))
      in if ids = [] then (0, db)
         else (rowcount (\<lambda>r. ss_id r \<in> set ids) (sessions db),
               db\<lparr>sessions := filter (\<lambda>r. ss_id r \<notin> set ids) (sessions db)\<rparr>))"

end
