(* ===== verification/DeviceTheorems.thy ===== *)
theory DeviceTheorems
  imports DeviceFlow
begin

text \<open>
  The device-code login as a step relation over its tables, and its guarantees: a grant is redeemed
  at most once, for the account that approved it, and an approval is never re-bound.
\<close>

section \<open>Steps\<close>

text \<open>
  Everything that is committed to the tables while code \<open>c\<close> is in use: starts that mint other
  codes, approvals, polls, redemptions (of any grant, with any row read earlier) and the sweeps.
\<close>

inductive device_step :: "string \<Rightarrow> auth_db \<Rightarrow> auth_db \<Rightarrow> bool" for c where
  start: "fst codes1 \<noteq> c \<Longrightarrow> fst codes2 \<noteq> c \<Longrightarrow>
    device_step c db (snd (start_device_authorization enabled provider key codes1 codes2 now db))"
| approve: "device_step c db (snd (approve_device_authorization user_code account now db))"
| poll: "device_step c db (snd (poll_device_code code now db))"
| redeemed: "redeem norm_key digest x m row now db = Inr (payload, db') \<Longrightarrow> device_step c db db'"
| sweep_grants: "device_step c db (snd (gc_expired_device_authorizations days n now db))"
| sweep_sessions: "device_step c db (snd (gc_expired_sessions days n now db))"

abbreviation device_run :: "string \<Rightarrow> auth_db \<Rightarrow> auth_db \<Rightarrow> bool" where
  "device_run c \<equiv> (device_step c)\<^sup>*\<^sup>*"

section \<open>How a row may change\<close>

definition follows :: "device_authorization \<Rightarrow> device_authorization \<Rightarrow> bool" where
  "follows r r' \<longleftrightarrow> da_device_code r' = da_device_code r \<and> da_expires_at r' = da_expires_at r
     \<and> (da_status r = ''pending'' \<or> da_account_id r' = da_account_id r
          \<and> (da_status r' = da_status r \<or> da_status r = ''approved'' \<and> da_status r' = ''consumed''))"

lemma follows_refl [simp]: "follows r r"
  by (simp add: follows_def)

lemma follows_trans: "follows r s \<Longrightarrow> follows s t \<Longrightarrow> follows r t"
  by (auto simp: follows_def)

text \<open>Rows of one code come from rows of that code.\<close>

definition grows_from :: "string \<Rightarrow> device_authorization list \<Rightarrow> device_authorization list \<Rightarrow> bool" where
  "grows_from c rows rows' \<longleftrightarrow>
     (\<forall>r' \<in> set rows'. da_device_code r' = c \<longrightarrow> (\<exists>r \<in> set rows. da_device_code r = c \<and> follows r r'))"

lemma grows_refl [simp]: "grows_from c rows rows"
  by (auto simp: grows_from_def intro: follows_refl)

lemma grows_trans: "grows_from c rows rows' \<Longrightarrow> grows_from c rows' rows'' \<Longrightarrow> grows_from c rows rows''"
  unfolding grows_from_def by (meson follows_trans)

lemma grows_update:
  assumes "\<And>r. r \<in> set rows \<Longrightarrow> P r \<Longrightarrow> follows r (f r)"
  shows "grows_from c rows (update_where P f rows)"
proof -
  have "\<exists>r \<in> set rows. da_device_code r = c \<and> follows r r'"
    if "r' \<in> set (update_where P f rows)" "da_device_code r' = c" for r'
    using that(1)
  proof (cases rule: update_where_mem_cases)
    case 1
    with that(2) show ?thesis by (auto intro: follows_refl)
  next
    case (2 s)
    with assms [of s] that(2) show ?thesis by (auto simp: follows_def)
  qed
  then show ?thesis by (simp add: grows_from_def)
qed

lemma grows_filter: "grows_from c rows (filter P rows)"
  by (auto simp: grows_from_def intro: follows_refl)

lemma grows_snoc: "da_device_code r \<noteq> c \<Longrightarrow> grows_from c rows (rows @ [r])"
  by (auto simp: grows_from_def intro: follows_refl)

lemma distinct_codes_update:
  "(\<And>r. da_device_code (f r) = da_device_code r) \<Longrightarrow>
     map da_device_code (update_where P f rows) = map da_device_code rows"
  by (rule map_update_where)

interpretation approval: keyed_update da_device_code "stamp_approved account" for account
  by unfold_locales (simp add: stamp_approved_def)

interpretation consumption: keyed_update da_device_code stamp_consumed
  by unfold_locales (simp add: stamp_consumed_def)

lemma mint_attempts_rows:
  "\<forall>p \<in> set codes. fst p \<noteq> c \<Longrightarrow>
     authorizations (snd (mint_attempts codes provider key now db)) = authorizations db
     \<or> (\<exists>new. authorizations (snd (mint_attempts codes provider key now db)) = authorizations db @ [new]
          \<and> da_device_code new \<noteq> c \<and> \<not> list_ex (clashes new) (authorizations db))"
  by (induction codes provider key now db rule: mint_attempts.induct)
    (auto simp: Let_def new_authorization_def split: sum.splits option.splits)

lemma redeem_Inr:
  assumes "redeem norm_key digest x m row now db = Inr (payload, db')"
  obtains account pk d db2 where
    "status_refusal now row = None" "da_account_id row = Some account" "norm_key (x_public_key x) = Some pk"
    "rowcount (consumable (da_device_code row) now) (authorizations db) = 1"
    "bind_device x m account pk now (db\<lparr>authorizations := update_where (consumable (da_device_code row) now)
        stamp_consumed (authorizations db)\<rparr>) = Inr (d, db2)"
    "dv_account_id d = account" "dv_state d \<noteq> ''revoked''"
    "issue_pair digest x m account (dv_id d) now
      (db2\<lparr>devices := update_where (\<lambda>r. dv_id r = dv_id d) (stamp_device x now) (devices db2)\<rparr>) = Inr (payload, db')"
  using assms unfolding redeem_def
  by (auto simp: Let_def split: option.splits if_splits sum.splits prod.splits)

lemma bind_device_authorizations: "bind_device x m account pk now db = Inr (d, db') \<Longrightarrow>
    authorizations db' = authorizations db \<and> sessions db' = sessions db"
  by (auto simp: bind_device_def Let_def split: sum.splits option.splits if_splits)

lemma issue_session_Inr: "issue_session digest raw account i ttl kind now db = Inr db' \<Longrightarrow>
    authorizations db' = authorizations db \<and> devices db' = devices db
    \<and> sessions db' = sessions db @ [\<lparr>ss_id = digest raw, ss_account_id = account, ss_device_id = i,
          ss_expires_at = now + seconds ttl, ss_revoked_at = None, ss_kind = kind\<rparr>]"
  by (auto simp: issue_session_def split: if_splits)

lemma issue_pair_Inr: "issue_pair digest x m account i now db = Inr (payload, db') \<Longrightarrow>
    authorizations db' = authorizations db \<and> devices db' = devices db
    \<and> xp_account_id payload = account \<and> xp_device_id payload = i
    \<and> (\<exists>a r. sessions db' = sessions db @ [a, r] \<and> ss_account_id a = account \<and> ss_account_id r = account
         \<and> ss_device_id a = Some i \<and> ss_device_id r = Some i \<and> ss_kind a = ''access'' \<and> ss_kind r = ''refresh''
         \<and> ss_expires_at a = now + seconds (xp_expires_in payload) \<and> xp_expires_in payload \<le> ACCESS_TTL_CAP)"
  by (auto simp: issue_pair_def Let_def split: sum.splits dest!: issue_session_Inr)

lemma redeem_rows:
  assumes "redeem norm_key digest x m row now db = Inr (payload, db')"
  shows "authorizations db' = update_where (consumable (da_device_code row) now) stamp_consumed (authorizations db)"
  using assms by (rule redeem_Inr) (auto dest!: bind_device_authorizations issue_pair_Inr)

lemma step_grows: "device_step c db db' \<Longrightarrow> grows_from c (authorizations db) (authorizations db')"
proof (induction rule: device_step.induct)
  case (start codes1 codes2 db enabled provider key now)
  then show ?case
    using mint_attempts_rows [of "[codes1, codes2]" c provider key now db] grows_snoc
    by (auto simp: start_device_authorization_def split: sum.splits option.splits)
next
  case (approve db user_code account now)
  have "grows_from c (authorizations db) (update_where (approvable u now) (stamp_approved account) (authorizations db))" for u
    by (rule grows_update) (simp add: approvable_def stamp_approved_def follows_def)
  then show ?case
    by (auto simp: approve_device_authorization_def Let_def split: sum.splits option.splits)
next
  case (poll db code now)
  have "grows_from c (authorizations db) (update_where (\<lambda>r. da_device_code r = code)
      (\<lambda>r. r\<lparr>da_last_poll_at := Some now\<rparr>) (authorizations db))"
    by (rule grows_update) (simp add: follows_def)
  then show ?case by (auto simp: poll_device_code_def split: option.splits)
next
  case (redeemed norm_key digest x m row now db payload db')
  have "grows_from c (authorizations db)
      (update_where (consumable (da_device_code row) now) stamp_consumed (authorizations db))"
    by (rule grows_update) (simp add: consumable_def stamp_consumed_def follows_def)
  then show ?case using redeem_rows [OF redeemed] by simp
next
  case (sweep_grants db days n now)
  then show ?case by (auto simp: gc_expired_device_authorizations_def Let_def grows_filter)
next
  case (sweep_sessions db days n now)
  then show ?case by (simp add: gc_expired_sessions_def Let_def)
qed

lemma run_grows: "device_run c db db' \<Longrightarrow> grows_from c (authorizations db) (authorizations db')"
  by (induction rule: rtranclp_induct) (auto intro: grows_trans step_grows)

section \<open>Unique codes\<close>

definition codes_ok :: "auth_db \<Rightarrow> bool" where
  "codes_ok db \<longleftrightarrow> distinct (map da_device_code (authorizations db))"

lemma rowcount_one: "rowcount P rows = 1 \<Longrightarrow> \<exists>r \<in> set rows. P r"
  unfolding rowcount_def by (metis One_nat_def filter_single length_0_conv length_Suc_conv)

lemma rowcount_none: "(\<And>r. r \<in> set rows \<Longrightarrow> \<not> P r) \<Longrightarrow> rowcount P rows = 0"
  by (simp add: rowcount_def)

lemma redeemed_row:
  assumes "redeem norm_key digest x m row now db = Inr (payload, db')"
  obtains r where "r \<in> set (authorizations db)" "consumable (da_device_code row) now r"
  using assms by (rule redeem_Inr) (use rowcount_one in blast)

section \<open>A sample login\<close>

definition sample_grant :: "string \<Rightarrow> string option \<Rightarrow> device_authorization" where
  "sample_grant status account = \<lparr>da_device_code = ''dc'', da_user_code = ''ABCD-EFGH'', da_provider = ''github'',
     da_status = status, da_account_id = account, da_interval_seconds = 5, da_expires_at = 600000000,
     da_last_poll_at = None, da_idempotency_key = None\<rparr>"

definition sample_auth :: "string \<Rightarrow> string option \<Rightarrow> auth_db" where
  "sample_auth status account = \<lparr>authorizations = [sample_grant status account], devices = [], sessions = []\<rparr>"

definition sample_exchange :: exchange_args where
  "sample_exchange = \<lparr>x_device_id = ''device_1'', x_public_key = ''pk'', x_display_name = [],
     x_expected_account_id = None, x_revoked_public_key = None, x_user_agent = None, x_location = None,
     x_session_ttl_seconds = 100000\<rparr>"

definition sample_minted :: minted where
  "sample_minted = \<lparr>mt_device_id = ''device_2'', mt_access_token = ''a'', mt_refresh_token = ''r''\<rparr>"

lemma sample_redeem:
  "\<exists>p db'. redeem Some id sample_exchange sample_minted (sample_grant ''approved'' (Some ''ann'')) 7
     (sample_auth ''approved'' (Some ''ann'')) = Inr (p, db')"
  by (simp add: redeem_def sample_exchange_def sample_minted_def sample_grant_def sample_auth_def
      status_refusal_def recovery_refusal_def consumable_def stamp_consumed_def bind_device_def
      issue_pair_def issue_session_def rowcount_def Let_def numeral_eq_Suc stamp_device_def)

section \<open>Properties\<close>

text \<open>C34. A device grant is redeemed at most once. After one exchange has issued credentials for a device
  code, whatever starts, approvals, polls, redemptions of other grants and sweeps follow (as long as
  the random code is not minted again), every further redemption of it is refused, even one that
  works on a row it had read while the grant was still approved.\<close>

theorem grant_is_redeemed_once:
  assumes "redeem norm_key digest x m row now db = Inr (payload, db1)" and "codes_ok db"
    and "device_run (da_device_code row) db1 db2" and "da_device_code row' = da_device_code row"
  shows "\<exists>e. redeem norm_key' digest' x' m' row' now' db2 = Inl e"
proof -
  let ?c = "da_device_code row"
  obtain r where r: "r \<in> set (authorizations db)" "consumable ?c now r"
    by (rule redeemed_row [OF assms(1)])
  have rows: "authorizations db1 = update_where (consumable ?c now) stamp_consumed (authorizations db)"
    by (rule redeem_rows [OF assms(1)])
  have spent: "da_status s = ''consumed''" if "s \<in> set (authorizations db1)" "da_device_code s = ?c" for s
  proof -
    from that(1) [unfolded rows] show ?thesis
    proof (cases rule: update_where_mem_cases)
      case 1
      have "da_device_code s = da_device_code r" using that(2) r(2) by (simp add: consumable_def)
      from same_key [OF assms(2) [unfolded codes_ok_def] 1(1) r(1) this] have "s = r" .
      with 1 r(2) show ?thesis by simp
    qed (simp add: stamp_consumed_def)
  qed
  have "\<not> consumable ?c now' t" if "t \<in> set (authorizations db2)" for t
  proof
    assume t: "consumable ?c now' t"
    then have "da_device_code t = ?c" "da_status t = ''approved''" by (simp_all add: consumable_def)
    with run_grows [OF assms(3)] that obtain s where "s \<in> set (authorizations db1)"
      "da_device_code s = ?c" "follows s t" by (auto simp: grows_from_def)
    with spent [of s] \<open>da_status t = ''approved''\<close> show False by (simp add: follows_def)
  qed
  then have no: "\<nexists>t. t \<in> set (authorizations db2) \<and> consumable (da_device_code row') now' t"
    using assms(4) by auto
  show ?thesis
  proof (cases "redeem norm_key' digest' x' m' row' now' db2")
    case (Inr p)
    obtain q db' where "p = (q, db')" by (cases p)
    with Inr have "redeem norm_key' digest' x' m' row' now' db2 = Inr (q, db')" by simp
    then show ?thesis by (rule redeemed_row) (use no in blast)
  qed simp
qed

theorem grant_is_redeemed_once_witness:
  "\<exists>p db' e. redeem Some id sample_exchange sample_minted (sample_grant ''approved'' (Some ''ann'')) 7
      (sample_auth ''approved'' (Some ''ann'')) = Inr (p, db')
    \<and> redeem Some id sample_exchange sample_minted (sample_grant ''approved'' (Some ''ann'')) 7 db' = Inl e"
proof -
  obtain p db' where r: "redeem Some id sample_exchange sample_minted (sample_grant ''approved'' (Some ''ann'')) 7
      (sample_auth ''approved'' (Some ''ann'')) = Inr (p, db')" using sample_redeem by blast
  have "codes_ok (sample_auth ''approved'' (Some ''ann''))" by (simp add: codes_ok_def sample_auth_def)
  from grant_is_redeemed_once [OF r this rtranclp.rtrancl_refl refl] r show ?thesis by blast
qed

text \<open>Credentials go to the account that approved the grant. When an exchange succeeds, however the
  tables moved between its poll and its redemption, the redeemed row was approved and unexpired at
  that moment and becomes consumed; the two new sessions, and nothing else, are issued to the
  account that row names, on a device of that account that is not revoked, and the access session
  lasts exactly as long as reported, at most a day.\<close>

theorem credentials_go_to_the_approver:
  assumes "exchange_device_code norm_key digest env code x m now db = (Inr payload, db2)"
    and "codes_ok db" and "device_run code (snd (poll_device_code code now db)) (env (snd (poll_device_code code now db)))"
  shows "\<exists>r a s d. r \<in> set (authorizations (env (snd (poll_device_code code now db))))
    \<and> da_device_code r = code \<and> da_status r = ''approved'' \<and> now < da_expires_at r
    \<and> da_account_id r = Some (xp_account_id payload)
    \<and> stamp_consumed r \<in> set (authorizations db2)
    \<and> sessions db2 = sessions (env (snd (poll_device_code code now db))) @ [a, s]
    \<and> ss_account_id a = xp_account_id payload \<and> ss_account_id s = xp_account_id payload
    \<and> ss_device_id a = Some (xp_device_id payload) \<and> ss_device_id s = Some (xp_device_id payload)
    \<and> ss_kind a = ''access'' \<and> ss_kind s = ''refresh''
    \<and> ss_expires_at a = now + seconds (xp_expires_in payload) \<and> xp_expires_in payload \<le> ACCESS_TTL_CAP
    \<and> d \<in> set (devices db2) \<and> dv_id d = xp_device_id payload \<and> dv_account_id d = xp_account_id payload
    \<and> dv_state d \<noteq> ''revoked''"
proof -
  let ?db1 = "snd (poll_device_code code now db)"
  obtain row where poll: "poll_device_code code now db = (Inr row, ?db1)"
    and red: "redeem norm_key digest x m row now (env ?db1) = Inr (payload, db2)"
    using assms(1) by (cases "poll_device_code code now db")
      (auto simp: exchange_device_code_def split: sum.splits prod.splits)
  obtain row0 where row0: "auth_row code db = Some row0" "row = row0\<lparr>da_last_poll_at := Some now\<rparr>"
    and db1: "?db1 = db\<lparr>authorizations := update_where (\<lambda>r. da_device_code r = code)
                  (\<lambda>r. r\<lparr>da_last_poll_at := Some now\<rparr>) (authorizations db)\<rparr>"
    using poll by (auto simp: poll_device_code_def split: option.splits if_splits)
  have m0: "row0 \<in> set (authorizations db)" "da_device_code row0 = code"
    using find_mem [OF row0(1) [unfolded auth_row_def]] by simp_all
  obtain account pk d db3 where st: "status_refusal now row = None" "da_account_id row = Some account"
    and bind: "bind_device x m account pk now ((env ?db1)\<lparr>authorizations := update_where (consumable (da_device_code row) now)
        stamp_consumed (authorizations (env ?db1))\<rparr>) = Inr (d, db3)"
    and dev: "dv_account_id d = account" "dv_state d \<noteq> ''revoked''"
    and pair: "issue_pair digest x m account (dv_id d) now
      (db3\<lparr>devices := update_where (\<lambda>r. dv_id r = dv_id d) (stamp_device x now) (devices db3)\<rparr>) = Inr (payload, db2)"
    by (rule redeem_Inr [OF red])
  obtain r where r: "r \<in> set (authorizations (env ?db1))" "consumable code now r"
    using redeemed_row [OF red] row0(2) m0(2) by auto
  from run_grows [OF assms(3)] r obtain r1 where r1: "r1 \<in> set (authorizations ?db1)"
      "da_device_code r1 = code" "follows r1 r"
    by (auto simp: grows_from_def consumable_def)
  have "r1 = row"
  proof -
    from r1(1) have "r1 \<in> set (update_where (\<lambda>r. da_device_code r = code) (\<lambda>r. r\<lparr>da_last_poll_at := Some now\<rparr>) (authorizations db))"
      unfolding db1 by simp
    then obtain q where "q \<in> set (authorizations db)" "da_device_code q = code" "r1 = q\<lparr>da_last_poll_at := Some now\<rparr>"
      by (rule update_where_mem_cases) (use r1(2) in auto)
    with m0 have "q = row0" using same_key [OF assms(2) [unfolded codes_ok_def]] by metis
    with \<open>r1 = _\<close> row0(2) show ?thesis by simp
  qed
  moreover have "da_status row \<noteq> ''pending''" using st(1) by (auto simp: status_refusal_def split: if_splits)
  ultimately have acc: "da_account_id r = Some account" using r1(3) st(2) by (simp add: follows_def)
  have rows2: "authorizations db2 = update_where (consumable code now) stamp_consumed (authorizations (env ?db1))"
    using redeem_rows [OF red] row0(2) m0(2) by simp
  then have used: "stamp_consumed r \<in> set (authorizations db2)" using r by (auto simp: set_update_where)
  have d_mem: "d \<in> set (devices db3)" using bind
    by (auto simp: bind_device_def Let_def split: sum.splits option.splits if_splits
        dest!: scalar_one_or_none_mem)
  have sess3: "sessions db3 = sessions (env ?db1)" using bind_device_authorizations [OF bind] by simp
  note pair' = issue_pair_Inr [OF pair]
  have d2: "stamp_device x now d \<in> set (devices db2)" using pair' d_mem by (auto simp: set_update_where)
  have keep: "dv_id (stamp_device x now d) = dv_id d" "dv_account_id (stamp_device x now d) = dv_account_id d"
    "dv_state (stamp_device x now d) = dv_state d" by (simp_all add: stamp_device_def)
  from pair' sess3 obtain a s where "sessions db2 = sessions (env ?db1) @ [a, s]"
    "ss_account_id a = account" "ss_account_id s = account" "ss_device_id a = Some (dv_id d)"
    "ss_device_id s = Some (dv_id d)" "ss_kind a = ''access''" "ss_kind s = ''refresh''"
    "ss_expires_at a = now + seconds (xp_expires_in payload)" "xp_expires_in payload \<le> ACCESS_TTL_CAP"
    "xp_account_id payload = account" "xp_device_id payload = dv_id d" by auto
  then show ?thesis using r acc used d2 keep dev
    by (intro exI [of _ r] exI [of _ a] exI [of _ s] exI [of _ "stamp_device x now d"])
      (auto simp: consumable_def)
qed

theorem credentials_go_to_the_approver_witness:
  "\<exists>p db2. exchange_device_code Some id id ''dc'' sample_exchange sample_minted 7 (sample_auth ''approved'' (Some ''ann''))
     = (Inr p, db2) \<and> xp_account_id p = ''ann''"
proof -
  let ?db = "sample_auth ''approved'' (Some ''ann'')"
  have "\<exists>p db2. exchange_device_code Some id id ''dc'' sample_exchange sample_minted 7 ?db = (Inr p, db2)"
    by (simp add: exchange_device_code_def poll_device_code_def auth_row_def redeem_def sample_exchange_def
      sample_minted_def sample_grant_def sample_auth_def
      status_refusal_def recovery_refusal_def consumable_def stamp_consumed_def bind_device_def
      issue_pair_def issue_session_def rowcount_def Let_def numeral_eq_Suc stamp_device_def)
  then obtain p db2 where e: "exchange_device_code Some id id ''dc'' sample_exchange sample_minted 7 ?db = (Inr p, db2)"
    by blast
  have ok: "codes_ok ?db" by (simp add: codes_ok_def sample_auth_def)
  have run: "device_run ''dc'' (snd (poll_device_code ''dc'' 7 ?db)) (id (snd (poll_device_code ''dc'' 7 ?db)))" by simp
  from credentials_go_to_the_approver [OF e ok run] have "Some (xp_account_id p) = Some ''ann''"
    by (auto simp: poll_device_code_def auth_row_def sample_auth_def sample_grant_def)
  with e show ?thesis by auto
qed

text \<open>An approval binds a pending, unexpired code once. A success returns the stored row, approved for
  the asking account; a refusal changes nothing; and a row that was not pending, so in particular one
  approved for another account, stays as it is, as do all rows of other codes.\<close>

theorem approval_is_never_rebound:
  assumes "approve_device_authorization user_code account now db = (res, db')"
    and "distinct (map da_user_code (authorizations db))"
  shows "(case res of
      Inl e \<Rightarrow> db' = db
    | Inr row \<Rightarrow> row \<in> set (authorizations db') \<and> da_user_code row = upper (strip user_code)
        \<and> da_status row = ''approved'' \<and> da_account_id row = Some account \<and> now < da_expires_at row)
    \<and> (\<forall>r \<in> set (authorizations db). (da_status r \<noteq> ''pending'' \<or> da_user_code r \<noteq> upper (strip user_code)
          \<or> da_expires_at r \<le> now) \<longrightarrow> r \<in> set (authorizations db'))"
proof -
  let ?u = "upper (strip user_code)"
  let ?rows = "update_where (approvable ?u now) (stamp_approved account) (authorizations db)"
  have frame: "r \<in> set ?rows" if "r \<in> set (authorizations db)"
      "da_status r \<noteq> ''pending'' \<or> da_user_code r \<noteq> ?u \<or> da_expires_at r \<le> now" for r
    using that by (force simp: set_update_where approvable_def)
  have db': "db' = db \<or> db' = db\<lparr>authorizations := ?rows\<rparr>"
    using assms(1) by (auto simp: approve_device_authorization_def Let_def split: sum.splits option.splits if_splits)
  have ok: "row \<in> set (authorizations db') \<and> da_user_code row = ?u
        \<and> da_status row = ''approved'' \<and> da_account_id row = Some account \<and> now < da_expires_at row"
    if res: "res = Inr row" for row
  proof -
    from assms(1) res have one: "scalar_one_or_none (filter (\<lambda>r. da_user_code r = ?u) ?rows) = Inr (Some row)"
      and d: "db' = db\<lparr>authorizations := ?rows\<rparr>"
      and verdict: "rowcount (approvable ?u now) (authorizations db) = 1
        \<or> now < da_expires_at row \<and> da_status row = ''approved'' \<and> da_account_id row = Some account"
      by (auto simp: approve_device_authorization_def Let_def split: sum.splits option.splits if_splits)
    from one have mem: "row \<in> set ?rows" "da_user_code row = ?u"
      using scalar_one_or_none_mem by fastforce+
    from verdict show ?thesis
    proof
      assume "rowcount (approvable ?u now) (authorizations db) = 1"
      then obtain r where r: "r \<in> set (authorizations db)" "approvable ?u now r" using rowcount_one by blast
      from mem(1) have "row = stamp_approved account r"
      proof (cases rule: update_where_mem_cases)
        case 1
        have "da_user_code row = da_user_code r" using mem(2) r(2) by (simp add: approvable_def)
        from same_key [OF assms(2) 1(1) r(1) this] have "row = r" .
        with 1 r show ?thesis by simp
      next
        case (2 s)
        then have "da_user_code s = da_user_code r" using r by (simp add: approvable_def)
        from same_key [OF assms(2) 2(1) r(1) this] have "s = r" .
        with 2 show ?thesis by simp
      qed
      with r d mem show ?thesis by (simp add: stamp_approved_def approvable_def)
    qed (use d mem in simp)
  qed
  have "\<forall>r \<in> set (authorizations db). (da_status r \<noteq> ''pending'' \<or> da_user_code r \<noteq> ?u
          \<or> da_expires_at r \<le> now) \<longrightarrow> r \<in> set (authorizations db')"
    using db' frame by auto
  moreover have "db' = db" if "res = Inl e" for e
    using assms(1) that by (auto simp: approve_device_authorization_def Let_def split: sum.splits option.splits if_splits)
  ultimately show ?thesis using ok by (cases res) auto
qed

theorem approval_is_never_rebound_witness:
  "snd (approve_device_authorization '' abcd-efgh'' ''bob'' 7 (sample_auth ''approved'' (Some ''ann'')))
     = sample_auth ''approved'' (Some ''ann'')"
proof -
  let ?db = "sample_auth ''approved'' (Some ''ann'')"
  obtain res db' where a: "approve_device_authorization '' abcd-efgh'' ''bob'' 7 ?db = (res, db')" by force
  have "distinct (map da_user_code (authorizations ?db))" by (simp add: sample_auth_def)
  note t = approval_is_never_rebound [OF a this]
  have "fst (approve_device_authorization '' abcd-efgh'' ''bob'' 7 ?db) = Inl (ApiError CONFLICT ''authorization already resolved'' None)"
    by code_simp
  with a t show ?thesis by simp
qed

end
