(* ===== verification/CatalogQL.thy ===== *)
theory CatalogQL
  imports Prelude
begin

text \<open>
  The catalog query language
  (\<open>apps/platform/src/ai_stp_platform/catalog_query_language.py\<close>): tokenizer, recursive-descent
  parser and the in-memory evaluation of a query on a passport. Positions are indices into the
  source. The parser's state is the list of tokens from \<open>self.index\<close> on; reading past its end is
  \<open>IndexError\<close>. The mutually recursive methods and their loops carry a fuel (a bound on the depth
  of calls) and \<open>OutOfFuel\<close> marks its end, which \<open>CatalogQLTheorems\<close> shows never to be reached.
\<close>

section \<open>Limits, tokens and expressions\<close>

definition MAX_QUERY_LENGTH :: nat where "MAX_QUERY_LENGTH = 500"
definition MAX_TOKENS :: nat where "MAX_TOKENS = 128"
definition MAX_DEPTH :: nat where "MAX_DEPTH = 8"
definition MAX_IN_VALUES :: nat where "MAX_IN_VALUES = 32"

datatype ql_error =
    QuerySyntaxError string nat "string option"
  | IndexError
  | OutOfFuel

datatype token_kind = WORD | STRING | LPAREN | RPAREN | COMMA | COLON | EOF

record token =
  tk_kind :: token_kind
  tk_value :: string
  tk_offset :: nat

datatype ql_field = F_NAME | F_TAGS | F_HARNESS | F_TYPE | F_AUTHOR | F_VERIFIED
datatype ql_operator = Is | In | Not_in
datatype connective = And | Or

datatype expression =
    TextTerm string
  | Predicate ql_field ql_operator "string list"
  | Unary expression
  | Binary connective expression expression

definition CATALOG_QL_FIELDS :: "(string \<times> ql_field) list" where
  "CATALOG_QL_FIELDS = [(''NAME'', F_NAME), (''TAGS'', F_TAGS), (''HARNESS'', F_HARNESS),
     (''TYPE'', F_TYPE), (''AUTHOR'', F_AUTHOR), (''VERIFIED'', F_VERIFIED)]"

definition CATALOG_QL_OPERATORS :: "string list" where
  "CATALOG_QL_OPERATORS = [''AND'', ''OR'', ''NOT'', ''IN'']"

section \<open>The tokenizer\<close>

fun punctuation :: "char \<Rightarrow> token_kind option" where
  "punctuation c =
     (if c = CHR ''('' then Some LPAREN else if c = CHR '')'' then Some RPAREN
      else if c = CHR '','' then Some COMMA else if c = CHR '':'' then Some COLON else None)"

abbreviation is_quote :: "char \<Rightarrow> bool" where
  "is_quote c \<equiv> c = CHR 0x22 \<or> c = CHR 0x27"

definition word_char :: "char \<Rightarrow> bool" where
  "word_char c \<longleftrightarrow> \<not> is_space c \<and> punctuation c = None \<and> \<not> is_quote c"

text \<open>The rest of a quoted value: its text and what follows the closing quote.\<close>

fun read_quoted :: "char \<Rightarrow> string \<Rightarrow> (string \<times> string) option" where
  "read_quoted q [] = None"
| "read_quoted q (c # cs) =
     (if c = q then Some ([], cs)
      else if c = CHR 0x5C then
        (case cs of [] \<Rightarrow> None | d # ds \<Rightarrow> map_option (apfst ((#) d)) (read_quoted q ds))
      else map_option (apfst ((#) c)) (read_quoted q cs))"

lemma read_quoted_shorter: "read_quoted q s = Some (v, rest) \<Longrightarrow> length rest < length s"
  by (induction q s arbitrary: v rest rule: read_quoted.induct)
    (fastforce split: if_splits list.splits)+

function scan :: "nat \<Rightarrow> string \<Rightarrow> token list \<Rightarrow> ql_error + token list" where
  "scan i [] acc = Inr (acc @ [\<lparr>tk_kind = EOF, tk_value = [], tk_offset = i\<rparr>])"
| "scan i (c # cs) acc =
     (if is_space c then scan (Suc i) cs acc
      else
        (case punctuation c of
           Some k \<Rightarrow>
             (let acc' = acc @ [\<lparr>tk_kind = k, tk_value = [c], tk_offset = i\<rparr>] in
              if length acc' > MAX_TOKENS
              then Inl (QuerySyntaxError ''query has too many tokens'' (Suc i) None)
              else scan (Suc i) cs acc')
         | None \<Rightarrow>
             if is_quote c then
               (case read_quoted c cs of
                  None \<Rightarrow> Inl (QuerySyntaxError ''unterminated quoted value'' i (Some [c]))
                | Some (v, rest) \<Rightarrow>
                    (let acc' = acc @ [\<lparr>tk_kind = STRING, tk_value = v, tk_offset = i\<rparr>];
                         j = Suc i + (length cs - length rest) in
                     if length acc' > MAX_TOKENS
                     then Inl (QuerySyntaxError ''query has too many tokens'' j None)
                     else scan j rest acc'))
             else
               (let w = takeWhile word_char (c # cs); rest = dropWhile word_char (c # cs);
                    acc' = acc @ [\<lparr>tk_kind = WORD, tk_value = w, tk_offset = i\<rparr>];
                    j = i + length w in
                if length acc' > MAX_TOKENS
                then Inl (QuerySyntaxError ''query has too many tokens'' j None)
                else scan j rest acc')))"
  by pat_completeness auto
termination
  by (relation "measure (\<lambda>(i, s, acc). length s)")
    (auto dest!: read_quoted_shorter simp: word_char_def less_Suc_eq_le length_dropWhile_le)

declare scan.simps(2) [simp del]

definition tokenize :: "string \<Rightarrow> ql_error + token list" where
  "tokenize source =
     (if length source > MAX_QUERY_LENGTH
      then Inl (QuerySyntaxError ''query is too long'' MAX_QUERY_LENGTH None)
      else scan 0 source [])"

section \<open>Values and predicates\<close>

definition keyword :: "string \<Rightarrow> token \<Rightarrow> bool" where
  "keyword k t \<longleftrightarrow> tk_kind t = WORD \<and> upper (tk_value t) = k"

abbreviation valued :: "token \<Rightarrow> bool" where
  "valued t \<equiv> tk_kind t = WORD \<or> tk_kind t = STRING"

text \<open>An error at the current token; without one, \<open>self.current\<close> raises.\<close>

fun fail_at :: "string \<Rightarrow> string option \<Rightarrow> token list \<Rightarrow> ql_error + 'a" where
  "fail_at msg expected [] = Inl IndexError"
| "fail_at msg expected (t # ts) = Inl (QuerySyntaxError msg (tk_offset t) expected)"

fun parse_value :: "token list \<Rightarrow> ql_error + string \<times> token list" where
  "parse_value [] = Inl IndexError"
| "parse_value (t # ts) =
     (if \<not> valued t then fail_at ''expected value'' (Some ''value'') (t # ts)
      else if strip (tk_value t) = [] then fail_at ''value cannot be empty'' (Some ''value'') ts
      else Inr (strip (tk_value t), ts))"

lemma fail_at_Inr [simp]: "fail_at msg e ts \<noteq> Inr x"
  by (cases ts) auto

lemma parse_value_shorter: "parse_value ts = Inr (v, ts') \<Longrightarrow> length ts = Suc (length ts')"
  by (cases ts) (auto split: if_splits)

text \<open>The loop over \<open>, value\<close>.\<close>

function more_values :: "string list \<Rightarrow> token list \<Rightarrow> ql_error + string list \<times> token list" where
  "more_values collected [] = Inl IndexError"
| "more_values collected (t # ts) =
     (if tk_kind t = COMMA then
        and_then (parse_value ts) (\<lambda>(v, ts').
          if length (collected @ [v]) > MAX_IN_VALUES then fail_at ''IN list is too large'' None ts'
          else more_values (collected @ [v]) ts')
      else Inr (collected, t # ts))"
  by pat_completeness auto
termination
  by (relation "measure (\<lambda>(c, ts). length ts)") (auto dest: parse_value_shorter)

declare more_values.simps(2) [simp del]

fun expect_rparen :: "string list \<times> token list \<Rightarrow> ql_error + string list \<times> token list" where
  "expect_rparen (vs, []) = Inl IndexError"
| "expect_rparen (vs, t # ts) =
     (if tk_kind t \<noteq> RPAREN then fail_at ''missing closing parenthesis'' (Some '')'') (t # ts)
      else Inr (vs, ts))"

text \<open>What follows the skipped \<open>IN\<close>.\<close>

fun parse_value_list :: "token list \<Rightarrow> ql_error + string list \<times> token list" where
  "parse_value_list [] = Inl IndexError"
| "parse_value_list (t # ts) =
     (if tk_kind t \<noteq> LPAREN then fail_at ''expected value list'' (Some ''('') (t # ts)
      else and_then (parse_value ts) (\<lambda>(v, ts'). and_then (more_values [v] ts') expect_rparen))"

fun parse_operator :: "token list \<Rightarrow> ql_error + (ql_operator \<times> string list) \<times> token list" where
  "parse_operator [] = Inl IndexError"
| "parse_operator (t # ts) =
     (if tk_kind t = COLON then
        and_then (parse_value ts) (\<lambda>(v, ts'). Inr ((Is, [v]), ts'))
      else if keyword ''NOT'' t then
        (case ts of
           [] \<Rightarrow> Inl IndexError
         | u # us \<Rightarrow>
             if \<not> keyword ''IN'' u then fail_at ''expected IN after NOT'' (Some ''IN'') ts
             else and_then (parse_value_list us) (\<lambda>(vs, ts'). Inr ((Not_in, vs), ts')))
      else and_then (parse_value_list ts) (\<lambda>(vs, ts'). Inr ((In, vs), ts')))"

definition parse_predicate ::
  "ql_field \<Rightarrow> nat \<Rightarrow> token list \<Rightarrow> ql_error + expression \<times> token list" where
  "parse_predicate field offset ts =
     and_then (parse_operator ts) (\<lambda>((operator, values), ts').
       if field = F_VERIFIED \<and> list_ex (\<lambda>v. casefold v \<notin> {''true'', ''false''}) values
       then Inl (QuerySyntaxError ''VERIFIED accepts true or false'' offset (Some ''boolean''))
       else Inr (Predicate field operator values, ts'))"

section \<open>Expressions\<close>

definition starts_predicate :: "token \<Rightarrow> bool" where
  "starts_predicate t \<longleftrightarrow> tk_kind t = COLON \<or> keyword ''IN'' t \<or> keyword ''NOT'' t"

text \<open>A term that is not parenthesised, at a token that carries a value.\<close>

definition parse_term :: "token \<Rightarrow> token list \<Rightarrow> ql_error + expression \<times> token list" where
  "parse_term t ts =
     (let plain =
        (if tk_kind t = WORD \<and> upper (tk_value t) \<in> set CATALOG_QL_OPERATORS
         then Inl (QuerySyntaxError ''operator has no left operand'' (tk_offset t) (Some ''term''))
         else Inr (TextTerm (tk_value t), ts))
      in case (if tk_kind t = WORD then map_of CATALOG_QL_FIELDS (upper (tk_value t)) else None) of
           Some field \<Rightarrow>
             (case ts of
                [] \<Rightarrow> Inl IndexError
              | u # _ \<Rightarrow> if starts_predicate u then parse_predicate field (tk_offset t) ts else plain)
         | None \<Rightarrow> plain)"

function parse_or :: "nat \<Rightarrow> nat \<Rightarrow> token list \<Rightarrow> ql_error + expression \<times> token list"
  and or_rest :: "nat \<Rightarrow> nat \<Rightarrow> expression \<times> token list \<Rightarrow> ql_error + expression \<times> token list"
  and parse_and :: "nat \<Rightarrow> nat \<Rightarrow> token list \<Rightarrow> ql_error + expression \<times> token list"
  and and_rest :: "nat \<Rightarrow> nat \<Rightarrow> expression \<times> token list \<Rightarrow> ql_error + expression \<times> token list"
  and parse_unary :: "nat \<Rightarrow> nat \<Rightarrow> token list \<Rightarrow> ql_error + expression \<times> token list"
  and parse_primary :: "nat \<Rightarrow> nat \<Rightarrow> token list \<Rightarrow> ql_error + expression \<times> token list" where
  "parse_or 0 d ts = Inl OutOfFuel"
| "parse_or (Suc n) d ts = and_then (parse_and n d ts) (or_rest n d)"
| "or_rest 0 d s = Inl OutOfFuel"
| "or_rest (Suc n) d s =
     (case s of (e, ts) \<Rightarrow>
        (case ts of
           [] \<Rightarrow> Inl IndexError
         | t # us \<Rightarrow>
             if keyword ''OR'' t
             then and_then (parse_and n d us) (\<lambda>(e', ts'). or_rest n d (Binary Or e e', ts'))
             else Inr (e, ts)))"
| "parse_and 0 d ts = Inl OutOfFuel"
| "parse_and (Suc n) d ts = and_then (parse_unary n d ts) (and_rest n d)"
| "and_rest 0 d s = Inl OutOfFuel"
| "and_rest (Suc n) d s =
     (case s of (e, ts) \<Rightarrow>
        (case ts of
           [] \<Rightarrow> Inl IndexError
         | t # us \<Rightarrow>
             if keyword ''AND'' t
             then and_then (parse_unary n d us) (\<lambda>(e', ts'). and_rest n d (Binary And e e', ts'))
             else if (valued t \<or> tk_kind t = LPAREN) \<and> \<not> keyword ''OR'' t
             then and_then (parse_unary n d ts) (\<lambda>(e', ts'). and_rest n d (Binary And e e', ts'))
             else Inr (e, ts)))"
| "parse_unary 0 d ts = Inl OutOfFuel"
| "parse_unary (Suc n) d ts =
     (case ts of
        [] \<Rightarrow> Inl IndexError
      | t # us \<Rightarrow>
          if keyword ''NOT'' t then and_then (parse_unary n d us) (\<lambda>(e, ts'). Inr (Unary e, ts'))
          else parse_primary n d ts)"
| "parse_primary 0 d ts = Inl OutOfFuel"
| "parse_primary (Suc n) d ts =
     (if d > MAX_DEPTH then fail_at ''query nesting is too deep'' None ts
      else
        (case ts of
           [] \<Rightarrow> Inl IndexError
         | t # us \<Rightarrow>
             if tk_kind t = LPAREN then
               and_then (parse_or n (Suc d) us) (\<lambda>(e, ts').
                 case ts' of
                   [] \<Rightarrow> Inl IndexError
                 | u # vs \<Rightarrow>
                     if tk_kind u \<noteq> RPAREN
                     then Inl (QuerySyntaxError ''missing closing parenthesis'' (tk_offset t) (Some '')''))
                     else Inr (e, vs))
             else if \<not> valued t then fail_at ''expected search term'' (Some ''term'') ts
             else parse_term t us))"
  by pat_completeness auto
termination
  by (relation "measure (case_sum (case_sum fst (case_sum fst fst)) (case_sum fst (case_sum fst fst)))") simp_all

text \<open>Six calls at most separate the reading of two tokens.\<close>

definition parse_fuel :: "token list \<Rightarrow> nat" where
  "parse_fuel ts = 6 * length ts + 6"

definition parse :: "token list \<Rightarrow> ql_error + expression" where
  "parse tokens =
     and_then (parse_or (parse_fuel tokens) 0 tokens) (\<lambda>(e, ts).
       case ts of
         [] \<Rightarrow> Inl IndexError
       | t # _ \<Rightarrow> if tk_kind t \<noteq> EOF then fail_at ''unexpected token'' (Some ''operator'') ts else Inr e)"

definition parse_query :: "string \<Rightarrow> ql_error + expression option" where
  "parse_query source =
     (if strip source = [] then Inr None
      else and_then (tokenize source) (\<lambda>ts. and_then (parse ts) (\<lambda>e. Inr (Some e))))"

section \<open>Evaluation\<close>

definition named_harness_ids :: "(rat \<Rightarrow> string) \<Rightarrow> dict \<Rightarrow> string list" where
  "named_harness_ids fl passport =
     (let primary = py_str fl (or_else (dict_get passport ''harness_id'') (JStr []));
          extra = (case dict_get passport ''adaptations'' of
              JList items \<Rightarrow>
                concat (map (\<lambda>item. case item of
                    JDict d \<Rightarrow> (case dict_get d ''harness_id'' of JStr h \<Rightarrow> [h] | _ \<Rightarrow> [])
                  | _ \<Rightarrow> []) items)
            | _ \<Rightarrow> [])
      in foldl (\<lambda>ordered v. if v \<noteq> [] \<and> v \<notin> set ordered then ordered @ [v] else ordered) [] (primary # extra))"

text \<open>\<open>\w\<close> on Latin-1, and \<open>re.findall(r"\w+", s)\<close>.\<close>

definition is_word :: "char \<Rightarrow> bool" where
  "is_word c = (let n = of_char c :: nat in
     48 \<le> n \<and> n \<le> 57 \<or> 65 \<le> n \<and> n \<le> 90 \<or> 97 \<le> n \<and> n \<le> 122 \<or> n = 95
     \<or> n \<in> {170, 178, 179, 181, 185, 186, 188, 189, 190} \<or> 192 \<le> n \<and> n \<noteq> 215 \<and> n \<noteq> 247)"

function find_words :: "string \<Rightarrow> string list" where
  "find_words [] = []"
| "find_words (c # cs) =
     (if is_word c then takeWhile is_word (c # cs) # find_words (dropWhile is_word cs) else find_words cs)"
  by pat_completeness auto
termination
  by (relation "measure length") (auto simp: less_Suc_eq_le length_dropWhile_le)

text \<open>\<open>q in t\<close> for text.\<close>

fun contains_text :: "string \<Rightarrow> string \<Rightarrow> bool" where
  "contains_text q [] = (q = [])"
| "contains_text q (c # cs) = (take (length q) (c # cs) = q \<or> contains_text q cs)"

definition haystack :: "(rat \<Rightarrow> string) \<Rightarrow> dict \<Rightarrow> string \<Rightarrow> string" where
  "haystack fl passport author =
     (let tags = (case dict_get passport ''tags'' of JList xs \<Rightarrow> xs | _ \<Rightarrow> []);
          field = (\<lambda>k. py_str fl (or_else (dict_get passport k) (JStr [])))
      in casefold (join '' '' [field ''name'', field ''description'', field ''stable_id'',
           join '' '' (map (py_str fl) tags), author]))"

definition text_matches :: "string \<Rightarrow> string \<Rightarrow> bool" where
  "text_matches doc wanted =
     (let document_terms = find_words doc; query_terms = find_words (casefold wanted)
      in query_terms \<noteq> [] \<and> list_all (\<lambda>q. list_ex (contains_text q) document_terms) query_terms)"

definition field_value :: "(rat \<Rightarrow> string) \<Rightarrow> dict \<Rightarrow> string \<Rightarrow> bool \<Rightarrow> ql_field \<Rightarrow> json" where
  "field_value fl passport author verified f =
     (case f of
        F_NAME \<Rightarrow> or_else (dict_get passport ''name'') (JStr [])
      | F_TAGS \<Rightarrow> or_else (dict_get passport ''tags'') (JList [])
      | F_HARNESS \<Rightarrow> JList (map JStr (named_harness_ids fl passport))
      | F_TYPE \<Rightarrow> or_else (dict_get passport ''component_type'') (JStr [])
      | F_AUTHOR \<Rightarrow> JStr author
      | F_VERIFIED \<Rightarrow> JStr (if verified then ''true'' else ''false''))"

definition candidates :: "(rat \<Rightarrow> string) \<Rightarrow> json \<Rightarrow> string list" where
  "candidates fl raw =
     (case raw of JList xs \<Rightarrow> map (\<lambda>x. casefold (py_str fl x)) xs | _ \<Rightarrow> [casefold (py_str fl raw)])"

fun matches_expr :: "(rat \<Rightarrow> string) \<Rightarrow> expression \<Rightarrow> dict \<Rightarrow> string \<Rightarrow> bool \<Rightarrow> bool" where
  "matches_expr fl (TextTerm v) passport author verified = text_matches (haystack fl passport author) v"
| "matches_expr fl (Unary e) passport author verified = (\<not> matches_expr fl e passport author verified)"
| "matches_expr fl (Binary c l r) passport author verified =
     (case c of
        And \<Rightarrow> matches_expr fl l passport author verified \<and> matches_expr fl r passport author verified
      | Or \<Rightarrow> matches_expr fl l passport author verified \<or> matches_expr fl r passport author verified)"
| "matches_expr fl (Predicate f op vs) passport author verified =
     (let wanted = map casefold vs;
          present = list_ex (\<lambda>c. c \<in> set wanted) (candidates fl (field_value fl passport author verified f))
      in if op = Not_in then \<not> present else present)"

definition matches :: "(rat \<Rightarrow> string) \<Rightarrow> expression option \<Rightarrow> dict \<Rightarrow> string \<Rightarrow> bool \<Rightarrow> bool" where
  "matches fl expr passport author verified =
     (case expr of None \<Rightarrow> True | Some e \<Rightarrow> matches_expr fl e passport author verified)"

end
