(* ===== verification/CatalogQLTheorems.thy ===== *)
theory CatalogQLTheorems
  imports CatalogQL
begin

text \<open>
  What the query language promises: the parser always answers (its fuel is never used up and it
  never reads past the tokens), its errors carry a position of the source, its expressions are
  well typed and bounded, and every bounded expression has a source text that parses back to it.
\<close>

section \<open>Token lists\<close>

text \<open>A token list ends in its only end-of-file token.\<close>

fun closed :: "token list \<Rightarrow> bool" where
  "closed [] = False"
| "closed (t # ts) = (if tk_kind t = EOF then ts = [] else closed ts)"

lemma closed_append: "\<forall>t \<in> set ts. tk_kind t \<noteq> EOF \<Longrightarrow> closed (ts @ us) = closed us"
  by (induction ts) auto

lemma closed_length: "closed ts \<Longrightarrow> 0 < length ts"
  by (cases ts) auto

lemma keyword_kind [dest]: "keyword k t \<Longrightarrow> tk_kind t = WORD"
  by (simp add: keyword_def)

lemma keyword_eq: "keyword k t \<Longrightarrow> keyword k' t \<Longrightarrow> k = k'"
  by (simp add: keyword_def)

text \<open>What the scanner adds to the tokens it has: at most as many as fit, each at its place in the
  source, and the end.\<close>

definition scanned :: "nat \<Rightarrow> string \<Rightarrow> token list \<Rightarrow> ql_error + token list \<Rightarrow> bool" where
  "scanned i s acc r \<longleftrightarrow>
     (case r of
        Inl e \<Rightarrow> \<exists>m off x. e = QuerySyntaxError m off x \<and> off \<le> i + length s
      | Inr ts \<Rightarrow> \<exists>body. ts = acc @ body @ [\<lparr>tk_kind = EOF, tk_value = [], tk_offset = i + length s\<rparr>]
          \<and> (\<forall>t \<in> set body. tk_kind t \<noteq> EOF \<and> tk_offset t < i + length s)
          \<and> (body = [] \<or> length acc + length body \<le> MAX_TOKENS))"

lemma scanned_push:
  assumes "length acc < MAX_TOKENS \<Longrightarrow> scanned j rest (acc @ [t]) r" and "j + length rest = i + length s"
    and "tk_kind t \<noteq> EOF" "tk_offset t < i + length s"
  shows "scanned i s acc (if length (acc @ [t]) > MAX_TOKENS then Inl (QuerySyntaxError m j None) else r)"
proof (cases "length acc < MAX_TOKENS")
  case True
  then have r: "scanned j rest (acc @ [t]) r" by (rule assms(1))
  show ?thesis
  proof (cases r)
    case (Inl e)
    with r True assms(2) show ?thesis by (auto simp: scanned_def)
  next
    case (Inr ts)
    with r obtain body where b: "ts = (acc @ [t]) @ body @ [\<lparr>tk_kind = EOF, tk_value = [], tk_offset = j + length rest\<rparr>]"
      "\<forall>t \<in> set body. tk_kind t \<noteq> EOF \<and> tk_offset t < j + length rest"
      "body = [] \<or> length (acc @ [t]) + length body \<le> MAX_TOKENS" by (auto simp: scanned_def)
    have "scanned i s acc (Inr ts)"
      unfolding scanned_def sum.case using b assms(2-4) True
      by (intro exI [of _ "t # body"]) auto
    with Inr True show ?thesis by simp
  qed
next
  case False
  with assms(2) show ?thesis by (auto simp: scanned_def)
qed

lemma scan_scanned: "scanned i s acc (scan i s acc)"
proof (induction i s acc rule: scan.induct)
  case (1 i acc)
  show ?case by (simp add: scanned_def)
next
  case (2 i c cs acc)
  consider (space) "is_space c" | (punct) k where "\<not> is_space c" "punctuation c = Some k"
    | (quote) "\<not> is_space c" "punctuation c = None" "is_quote c" | (word) "word_char c"
    by (cases "punctuation c") (auto simp: word_char_def simp del: punctuation.simps)
  then show ?case
  proof cases
    case space
    with "2.IH"(1) show ?thesis
      by (auto simp: scan.simps scanned_def split: sum.splits)
  next
    case punct
    then have "k \<noteq> EOF" by (auto split: if_splits)
    have "scanned i (c # cs) acc (if length (acc @ [\<lparr>tk_kind = k, tk_value = [c], tk_offset = i\<rparr>]) > MAX_TOKENS
        then Inl (QuerySyntaxError ''query has too many tokens'' (Suc i) None)
        else scan (Suc i) cs (acc @ [\<lparr>tk_kind = k, tk_value = [c], tk_offset = i\<rparr>]))"
      by (rule scanned_push) (use "2.IH"(4) [OF punct refl] \<open>k \<noteq> EOF\<close> in auto)
    with punct show ?thesis by (simp add: scan.simps Let_def del: punctuation.simps)
  next
    case quote
    show ?thesis
    proof (cases "read_quoted c cs")
      case None
      with quote show ?thesis by (simp add: scan.simps scanned_def del: punctuation.simps)
    next
      case (Some p)
      obtain v rest where p: "p = (v, rest)" by (cases p)
      note Some = Some [unfolded p]
      let ?t = "\<lparr>tk_kind = STRING, tk_value = v, tk_offset = i\<rparr>"
      let ?j = "Suc i + (length cs - length rest)"
      have "scanned i (c # cs) acc (if length (acc @ [?t]) > MAX_TOKENS
          then Inl (QuerySyntaxError ''query has too many tokens'' ?j None) else scan ?j rest (acc @ [?t]))"
        by (rule scanned_push)
          (use "2.IH"(2) [OF quote Some refl refl refl] read_quoted_shorter [OF Some] refl in auto)
      with quote Some show ?thesis by (simp add: scan.simps Let_def del: punctuation.simps split: if_splits)
    qed
  next
    case word
    then have nw: "\<not> is_space c" "punctuation c = None" "\<not> is_quote c" by (auto simp: word_char_def)
    let ?w = "takeWhile word_char (c # cs)" and ?rest = "dropWhile word_char (c # cs)"
    let ?t = "\<lparr>tk_kind = WORD, tk_value = ?w, tk_offset = i\<rparr>"
    have len: "length ?w + length ?rest = length (c # cs)"
      by (metis length_append takeWhile_dropWhile_id)
    have "scanned i (c # cs) acc (if length (acc @ [?t]) > MAX_TOKENS
        then Inl (QuerySyntaxError ''query has too many tokens'' (i + length ?w) None)
        else scan (i + length ?w) ?rest (acc @ [?t]))"
      by (rule scanned_push) (use "2.IH"(3) [OF nw refl refl refl refl] len in auto)
    with nw show ?thesis by (simp add: scan.simps Let_def del: punctuation.simps takeWhile.simps dropWhile.simps)
  qed
qed

lemma tokenize_error:
  "tokenize s = Inl e \<Longrightarrow> \<exists>m off x. e = QuerySyntaxError m off x \<and> off \<le> length s"
  using scan_scanned [of 0 s "[]"] by (auto simp: tokenize_def scanned_def split: if_splits)

lemma tokenize_tokens:
  assumes "tokenize s = Inr ts"
  shows "closed ts" "\<forall>t \<in> set ts. tk_offset t \<le> length s" "length ts \<le> Suc MAX_TOKENS"
proof -
  from assms have "scan 0 s [] = Inr ts" by (simp add: tokenize_def split: if_splits)
  with scan_scanned [of 0 s "[]"] obtain body where
    b: "ts = body @ [\<lparr>tk_kind = EOF, tk_value = [], tk_offset = length s\<rparr>]"
    "\<forall>t \<in> set body. tk_kind t \<noteq> EOF \<and> tk_offset t < length s" "body = [] \<or> length body \<le> MAX_TOKENS"
    by (auto simp: scanned_def)
  then show "closed ts" by (simp add: closed_append)
  from b show "\<forall>t \<in> set ts. tk_offset t \<le> length s" "length ts \<le> Suc MAX_TOKENS" by auto
qed

section \<open>Well-typed, bounded expressions\<close>

definition value_ok :: "string \<Rightarrow> bool" where
  "value_ok v \<longleftrightarrow> v \<noteq> [] \<and> strip v = v"

fun wf_expr :: "expression \<Rightarrow> bool" where
  "wf_expr (TextTerm v) = True"
| "wf_expr (Predicate f op vs) =
     (vs \<noteq> [] \<and> length vs \<le> MAX_IN_VALUES \<and> (op = Is \<longrightarrow> length vs = 1) \<and> list_all value_ok vs
      \<and> (f = F_VERIFIED \<longrightarrow> list_all (\<lambda>v. casefold v \<in> {''true'', ''false''}) vs))"
| "wf_expr (Unary e) = wf_expr e"
| "wf_expr (Binary c l r) = (wf_expr l \<and> wf_expr r)"

text \<open>The tokens an expression needs at least.\<close>

fun weight :: "expression \<Rightarrow> nat" where
  "weight (TextTerm v) = 1"
| "weight (Predicate f op vs) = 2 + length vs"
| "weight (Unary e) = Suc (weight e)"
| "weight (Binary c l r) = weight l + weight r"

lemma weight_pos: "0 < weight e"
  by (induction e) auto

lemma dropWhile_rev_dropWhile:
  "dropWhile P (rev (dropWhile P (rev (dropWhile P s)))) = rev (dropWhile P (rev (dropWhile P s)))"
proof (cases "dropWhile P s")
  case (Cons c cs)
  then have "\<not> P c" by (metis hd_dropWhile list.distinct(1) list.sel(1))
  then have "dropWhile P (rev cs @ [c]) \<noteq> []" by (simp add: dropWhile_append)
  moreover have "rev (dropWhile P (rev cs @ [c])) = c # rev (dropWhile P (rev cs)) \<or>
      rev (dropWhile P (rev cs @ [c])) = [c]"
    using \<open>\<not> P c\<close> by (auto simp: dropWhile_append)
  ultimately show ?thesis unfolding Cons using \<open>\<not> P c\<close> by auto
next
  case Nil
  show ?thesis unfolding Nil by simp
qed

lemma strip_strip [simp]: "strip (strip s) = strip s"
proof -
  have "dropWhile P (rev (dropWhile P (rev t))) = rev (dropWhile P (rev t)) \<Longrightarrow>
      rev (dropWhile P (rev (rev (dropWhile P (rev t))))) = rev (dropWhile P (rev t))" for P and t :: string
    by (simp add: dropWhile_idem)
  then show ?thesis by (simp add: strip_def dropWhile_rev_dropWhile)
qed

section \<open>What a parsing function answers\<close>

text \<open>On a closed list every function either fails at one of its tokens or leaves a closed rest of
  the same tokens.\<close>

definition answers :: "('v \<Rightarrow> token list \<Rightarrow> bool) \<Rightarrow> token list \<Rightarrow> ql_error + 'v \<times> token list \<Rightarrow> bool" where
  "answers P ts r \<longleftrightarrow>
     (case r of
        Inl e \<Rightarrow> \<exists>m t x. e = QuerySyntaxError m (tk_offset t) x \<and> t \<in> set ts
      | Inr (v, ts') \<Rightarrow> closed ts' \<and> set ts' \<subseteq> set ts \<and> P v ts')"

lemma answers_Inr [simp]: "answers P ts (Inr (v, ts')) \<longleftrightarrow> closed ts' \<and> set ts' \<subseteq> set ts \<and> P v ts'"
  by (simp add: answers_def)

lemma answers_Inl [simp]:
  "answers P ts (Inl e) \<longleftrightarrow> (\<exists>m t x. e = QuerySyntaxError m (tk_offset t) x \<and> t \<in> set ts)"
  by (simp add: answers_def)

lemma answers_fail: "closed us \<Longrightarrow> set us \<subseteq> set ts \<Longrightarrow> answers P ts (fail_at m x us)"
  by (cases us) auto

lemma answers_then:
  assumes "answers P us r" and "set us \<subseteq> set ts"
    and "\<And>v ts'. r = Inr (v, ts') \<Longrightarrow> closed ts' \<Longrightarrow> set ts' \<subseteq> set us \<Longrightarrow> P v ts' \<Longrightarrow> answers Q ts (f (v, ts'))"
  shows "answers Q ts (and_then r f)"
proof (cases r)
  case (Inl e)
  with assms(1,2) show ?thesis by auto
next
  case (Inr p)
  with assms(1) assms(3) [of "fst p" "snd p"] show ?thesis by (cases p) auto
qed

lemma answers_weaken:
  assumes "answers P us r" and "set us \<subseteq> set ts"
    and "\<And>v ts'. closed ts' \<Longrightarrow> P v ts' \<Longrightarrow> Q v ts'"
  shows "answers Q ts r"
  using assms by (auto simp: answers_def split: sum.splits; blast)

lemma parse_value_answers:
  "closed ts \<Longrightarrow> answers (\<lambda>v ts'. value_ok v \<and> length ts = Suc (length ts')) ts (parse_value ts)"
  by (cases ts) (auto simp: value_ok_def intro!: answers_fail)

lemma more_values_answers:
  "closed ts \<Longrightarrow> list_all value_ok vs \<Longrightarrow> vs \<noteq> [] \<Longrightarrow> length vs \<le> MAX_IN_VALUES \<Longrightarrow>
    answers (\<lambda>vs' ts'. list_all value_ok vs' \<and> vs' \<noteq> [] \<and> length vs' \<le> MAX_IN_VALUES
      \<and> length vs' + length ts' \<le> length vs + length ts) ts (more_values vs ts)"
proof (induction vs ts rule: more_values.induct)
  case (2 vs t ts)
  show ?case
  proof (cases "tk_kind t = COMMA")
    case True
    with "2.prems" have c: "closed ts" by simp
    have "answers (\<lambda>vs' ts'. list_all value_ok vs' \<and> vs' \<noteq> [] \<and> length vs' \<le> MAX_IN_VALUES
      \<and> length vs' + length ts' \<le> length vs + length (t # ts)) (t # ts)
      (and_then (parse_value ts) (\<lambda>(v, ts').
          if length (vs @ [v]) > MAX_IN_VALUES then fail_at ''IN list is too large'' None ts'
          else more_values (vs @ [v]) ts'))"
    proof (rule answers_then [OF parse_value_answers [OF c]], goal_cases)
      case (2 v ts')
      show ?case
      proof (cases "length (vs @ [v]) > MAX_IN_VALUES")
        case True
        with 2 show ?thesis by (auto intro!: answers_fail)
      next
        case False
        with 2 have "closed ts'" "list_all value_ok (vs @ [v])" using "2.prems" by auto
        note rest = "2.IH" [OF True 2(1) refl False this]
        have "answers (\<lambda>vs' ts'. list_all value_ok vs' \<and> vs' \<noteq> [] \<and> length vs' \<le> MAX_IN_VALUES
            \<and> length vs' + length ts' \<le> length vs + length (t # ts)) (t # ts) (more_values (vs @ [v]) ts')"
          by (rule answers_weaken [OF rest]) (use False 2 in auto)
        with False show ?thesis by simp
      qed
    qed auto
    with True show ?thesis by (simp add: more_values.simps)
  next
    case False
    with "2.prems" show ?thesis by (simp add: more_values.simps)
  qed
qed simp

lemma expect_rparen_answers:
  "closed ts \<Longrightarrow> answers (\<lambda>vs' ts'. vs' = vs \<and> length ts = Suc (length ts')) ts (expect_rparen (vs, ts))"
  by (cases ts) (auto intro!: answers_fail)

text \<open>The values of a list, with the tokens around them.\<close>

abbreviation values_ok :: "nat \<Rightarrow> string list \<Rightarrow> token list \<Rightarrow> bool" where
  "values_ok n vs ts \<equiv> list_all value_ok vs \<and> vs \<noteq> [] \<and> length vs \<le> MAX_IN_VALUES
     \<and> length vs + length ts \<le> n"

lemma parse_value_list_answers:
  assumes "closed ts"
  shows "answers (values_ok (length ts)) ts (parse_value_list ts)"
proof (cases ts)
  case (Cons t us)
  show ?thesis
  proof (cases "tk_kind t = LPAREN")
    case True
    with assms Cons have c: "closed us" by simp
    have "answers (values_ok (length ts)) ts
        (and_then (parse_value us) (\<lambda>(v, ts'). and_then (more_values [v] ts') expect_rparen))"
    proof (rule answers_then [OF parse_value_answers [OF c]], goal_cases)
      case (2 v ts')
      then have "list_all value_ok [v]" "[v] \<noteq> []" "length [v] \<le> MAX_IN_VALUES"
        by (auto simp: MAX_IN_VALUES_def)
      from more_values_answers [OF 2(2) this] have m: "answers (values_ok (1 + length ts')) ts' (more_values [v] ts')"
        by simp
      have "answers (values_ok (length ts)) ts (and_then (more_values [v] ts') expect_rparen)"
      proof (rule answers_then [OF m], goal_cases)
        case 1
        show ?case using 2 Cons by auto
      next
        case e: (2 vs ts'')
        show ?case
          by (rule answers_weaken [OF expect_rparen_answers [OF e(2)]]) (use e 2 Cons in auto)
      qed
      then show ?case by simp
    qed (use Cons in auto)
    with True Cons show ?thesis by simp
  next
    case False
    with assms Cons show ?thesis by auto
  qed
qed (use assms in simp)

lemma parse_operator_answers:
  assumes "closed ts" and "starts_predicate (hd ts)"
  shows "answers (\<lambda>(op, vs) ts'. values_ok (length ts - 1) vs ts' \<and> (op = Is \<longrightarrow> length vs = 1)) ts (parse_operator ts)"
    (is "answers ?P ts _")
proof (cases ts)
  case (Cons t us)
  consider (colon) "tk_kind t = COLON" | (notin) "keyword ''NOT'' t" "tk_kind t \<noteq> COLON"
    | (isin) "tk_kind t \<noteq> COLON" "\<not> keyword ''NOT'' t" "keyword ''IN'' t"
    using assms(2) Cons by (auto simp: starts_predicate_def)
  then show ?thesis
  proof cases
    case colon
    with assms Cons have c: "closed us" by simp
    have "answers ?P ts (and_then (parse_value us) (\<lambda>(v, ts'). Inr ((Is, [v]), ts')))"
      by (rule answers_then [OF parse_value_answers [OF c]]) (use Cons in \<open>auto simp: MAX_IN_VALUES_def\<close>)
    with colon Cons show ?thesis by simp
  next
    case notin
    with assms Cons have c: "closed us" by auto
    then obtain u vs where us: "us = u # vs" by (cases us) auto
    show ?thesis
    proof (cases "keyword ''IN'' u")
      case True
      with c us have cv: "closed vs" by auto
      have "answers ?P ts (and_then (parse_value_list vs) (\<lambda>(vs, ts'). Inr ((Not_in, vs), ts')))"
        by (rule answers_then [OF parse_value_list_answers [OF cv]]) (use Cons us in auto)
      with notin Cons us True show ?thesis by simp
    next
      case False
      with notin Cons us show ?thesis by auto
    qed
  next
    case isin
    with assms Cons have c: "closed us" by auto
    have "answers ?P ts (and_then (parse_value_list us) (\<lambda>(vs, ts'). Inr ((In, vs), ts')))"
      by (rule answers_then [OF parse_value_list_answers [OF c]]) (use Cons in auto)
    with isin Cons show ?thesis by simp
  qed
qed (use assms in simp)

text \<open>An expression read from \<open>ts\<close> is well typed and pays for its tokens.\<close>

abbreviation expr_ok :: "nat \<Rightarrow> expression \<Rightarrow> token list \<Rightarrow> bool" where
  "expr_ok n e ts \<equiv> wf_expr e \<and> weight e + length ts \<le> n"

lemma parse_predicate_answers:
  assumes "closed ts" and "starts_predicate (hd ts)" and "tk_offset t = off"
  shows "answers (expr_ok (Suc (length ts))) (t # ts) (parse_predicate f off ts)"
  unfolding parse_predicate_def
proof (rule answers_then [OF parse_operator_answers [OF assms(1,2)]], goal_cases)
  case (2 v ts')
  obtain op vs where v: "v = (op, vs)" by (cases v)
  show ?case
  proof (cases "f = F_VERIFIED \<and> list_ex (\<lambda>v. casefold v \<notin> {''true'', ''false''}) vs")
    case True
    with v assms(3) show ?thesis by auto
  next
    case False
    obtain k where "length ts = Suc k" using closed_length [OF assms(1)] by (auto simp: gr0_conv_Suc)
    moreover have "f = F_VERIFIED \<longrightarrow> list_all (\<lambda>v. casefold v \<in> {''true'', ''false''}) vs"
      using False by (auto simp: list_ex_iff list_all_iff)
    ultimately have "expr_ok (Suc (length ts)) (Predicate f op vs) ts'" using 2(4) v by auto
    moreover have "set ts' \<subseteq> set (t # ts)" using 2(3) by auto
    ultimately show ?thesis using 2(2) v False by (auto simp del: set_simps)
  qed
qed auto

lemma parse_term_answers:
  assumes "closed (t # ts)" and "valued t"
  shows "answers (expr_ok (length (t # ts))) (t # ts) (parse_term t ts)"
proof -
  from assms have c: "closed ts" by auto
  then obtain u us where ts: "ts = u # us" by (cases ts) auto
  show ?thesis
    using parse_predicate_answers [OF c] c
    by (auto simp: parse_term_def Let_def ts split: option.splits; blast)
qed

section \<open>The parser answers\<close>

text \<open>The fuel each method needs on a list of a given length.\<close>

definition parser_answers :: "nat \<Rightarrow> bool" where
  "parser_answers n \<longleftrightarrow> (\<forall>d ts. closed ts \<longrightarrow>
     (6 * length ts + 1 \<le> n \<longrightarrow> answers (expr_ok (length ts)) ts (parse_primary n d ts))
   \<and> (6 * length ts + 2 \<le> n \<longrightarrow> answers (expr_ok (length ts)) ts (parse_unary n d ts))
   \<and> (6 * length ts + 3 \<le> n \<longrightarrow> (\<forall>e. wf_expr e \<longrightarrow>
        answers (expr_ok (weight e + length ts)) ts (and_rest n d (e, ts))))
   \<and> (6 * length ts + 3 \<le> n \<longrightarrow> answers (expr_ok (length ts)) ts (parse_and n d ts))
   \<and> (6 * length ts + 4 \<le> n \<longrightarrow> (\<forall>e. wf_expr e \<longrightarrow>
        answers (expr_ok (weight e + length ts)) ts (or_rest n d (e, ts))))
   \<and> (6 * length ts + 4 \<le> n \<longrightarrow> answers (expr_ok (length ts)) ts (parse_or n d ts)))"

lemma pa_primary: "parser_answers n \<Longrightarrow> closed ts \<Longrightarrow> 6 * length ts + 1 \<le> n \<Longrightarrow>
    answers (expr_ok (length ts)) ts (parse_primary n d ts)"
  and pa_unary: "parser_answers n \<Longrightarrow> closed ts \<Longrightarrow> 6 * length ts + 2 \<le> n \<Longrightarrow>
    answers (expr_ok (length ts)) ts (parse_unary n d ts)"
  and pa_and_rest: "parser_answers n \<Longrightarrow> closed ts \<Longrightarrow> 6 * length ts + 3 \<le> n \<Longrightarrow> wf_expr e \<Longrightarrow>
    answers (expr_ok (weight e + length ts)) ts (and_rest n d (e, ts))"
  and pa_and: "parser_answers n \<Longrightarrow> closed ts \<Longrightarrow> 6 * length ts + 3 \<le> n \<Longrightarrow>
    answers (expr_ok (length ts)) ts (parse_and n d ts)"
  and pa_or_rest: "parser_answers n \<Longrightarrow> closed ts \<Longrightarrow> 6 * length ts + 4 \<le> n \<Longrightarrow> wf_expr e \<Longrightarrow>
    answers (expr_ok (weight e + length ts)) ts (or_rest n d (e, ts))"
  and pa_or: "parser_answers n \<Longrightarrow> closed ts \<Longrightarrow> 6 * length ts + 4 \<le> n \<Longrightarrow>
    answers (expr_ok (length ts)) ts (parse_or n d ts)"
  by (auto simp: parser_answers_def)

lemma shorter: "expr_ok n e ts \<Longrightarrow> length ts < n"
  using weight_pos [of e] by linarith

text \<open>One round of a loop: a further operand, then the loop again.\<close>

lemma loop_answers:
  assumes operand: "answers (expr_ok (length us)) us r" and "set us \<subseteq> set ts" "length us \<le> length ts" "wf_expr e"
    and loop: "\<And>e' ts'. closed ts' \<Longrightarrow> length ts' < length us \<Longrightarrow> wf_expr e' \<Longrightarrow>
        answers (expr_ok (weight e' + length ts')) ts' (rest (e', ts'))"
  shows "answers (expr_ok (weight e + length ts)) ts (and_then r (\<lambda>(e', ts'). rest (Binary c e e', ts')))"
proof (rule answers_then [OF operand assms(2)], goal_cases)
  case (1 e' ts')
  then have "answers (expr_ok (weight (Binary c e e') + length ts')) ts' (rest (Binary c e e', ts'))"
    using assms(4) shorter [of e' ts' "length us"] by (intro loop) auto
  then show ?case using 1 assms(2,3) by (auto elim!: answers_weaken)
qed

lemma primary_step:
  assumes "parser_answers n" and "closed ts" and "6 * length ts + 1 \<le> Suc n"
  shows "answers (expr_ok (length ts)) ts (parse_primary (Suc n) d ts)"
proof -
  from assms(2) obtain t us where ts: "ts = t # us" by (cases ts) auto
  show ?thesis
  proof (cases "d > MAX_DEPTH")
    case True
    with assms(2) ts show ?thesis by auto
  next
    case d: False
    show ?thesis
    proof (cases "tk_kind t = LPAREN")
      case True
      with assms(2) ts have c: "closed us" by simp
      have inner: "answers (expr_ok (length us)) us (parse_or n (Suc d) us)"
        by (rule pa_or [OF assms(1) c]) (use assms(3) ts in simp)
      have "answers (expr_ok (length ts)) ts (and_then (parse_or n (Suc d) us) (\<lambda>(e, ts').
                 case ts' of
                   [] \<Rightarrow> Inl IndexError
                 | u # vs \<Rightarrow>
                     if tk_kind u \<noteq> RPAREN
                     then Inl (QuerySyntaxError ''missing closing parenthesis'' (tk_offset t) (Some '')''))
                     else Inr (e, vs)))"
        by (rule answers_then [OF inner])
          (use ts in \<open>auto split: list.splits simp: subset_iff\<close>)
      with True d ts show ?thesis by simp
    next
      case False
      with assms(2) d ts parse_term_answers [of t us] show ?thesis by auto
    qed
  qed
qed

lemma unary_step:
  assumes "parser_answers n" and "closed ts" and "6 * length ts + 2 \<le> Suc n"
  shows "answers (expr_ok (length ts)) ts (parse_unary (Suc n) d ts)"
proof -
  from assms(2) obtain t us where ts: "ts = t # us" by (cases ts) auto
  show ?thesis
  proof (cases "keyword ''NOT'' t")
    case True
    with assms(2) ts have c: "closed us" by auto
    have inner: "answers (expr_ok (length us)) us (parse_unary n d us)"
      by (rule pa_unary [OF assms(1) c]) (use assms(3) ts in simp)
    have "answers (expr_ok (length ts)) ts (and_then (parse_unary n d us) (\<lambda>(e, ts'). Inr (Unary e, ts')))"
      by (rule answers_then [OF inner]) (use ts in auto)
    with True ts show ?thesis by simp
  next
    case False
    with ts pa_primary [OF assms(1,2), of d] assms(3) show ?thesis by simp
  qed
qed

lemma and_rest_step:
  assumes "parser_answers n" and "closed ts" and "6 * length ts + 3 \<le> Suc n" and "wf_expr e"
  shows "answers (expr_ok (weight e + length ts)) ts (and_rest (Suc n) d (e, ts))"
proof -
  from assms(2) obtain t us where ts: "ts = t # us" by (cases ts) auto
  have loop: "answers (expr_ok (weight e' + length ts')) ts' (and_rest n d (e', ts'))"
    if "closed ts'" "length ts' < length ts" "wf_expr e'" for e' ts'
    by (rule pa_and_rest [OF assms(1) that(1) _ that(3)]) (use assms(3) that(2) in simp)
  consider (more) "keyword ''AND'' t"
    | (adjacent) "\<not> keyword ''AND'' t" "(valued t \<or> tk_kind t = LPAREN) \<and> \<not> keyword ''OR'' t"
    | (stop) "\<not> keyword ''AND'' t" "\<not> ((valued t \<or> tk_kind t = LPAREN) \<and> \<not> keyword ''OR'' t)"
    by blast
  then show ?thesis
  proof cases
    case more
    with assms(2) ts have c: "closed us" by auto
    have "answers (expr_ok (length us)) us (parse_unary n d us)"
      by (rule pa_unary [OF assms(1) c]) (use assms(3) ts in simp)
    from loop_answers [where ts = ts and e = e and rest = "and_rest n d" and c = And, OF this] ts assms(4) loop more
    show ?thesis by auto
  next
    case adjacent
    have "answers (expr_ok (length ts)) ts (parse_unary n d ts)"
      by (rule pa_unary [OF assms(1,2)]) (use assms(3) in simp)
    from loop_answers [where ts = ts and e = e and rest = "and_rest n d" and c = And, OF this] ts assms(4) loop adjacent
    show ?thesis by auto
  next
    case stop
    with assms ts show ?thesis by auto
  qed
qed

lemma or_rest_step:
  assumes "parser_answers n" and "closed ts" and "6 * length ts + 4 \<le> Suc n" and "wf_expr e"
  shows "answers (expr_ok (weight e + length ts)) ts (or_rest (Suc n) d (e, ts))"
proof -
  from assms(2) obtain t us where ts: "ts = t # us" by (cases ts) auto
  show ?thesis
  proof (cases "keyword ''OR'' t")
    case True
    with assms(2) ts have c: "closed us" by auto
    have first: "answers (expr_ok (length us)) us (parse_and n d us)"
      by (rule pa_and [OF assms(1) c]) (use assms(3) ts in simp)
    have loop: "answers (expr_ok (weight e' + length ts')) ts' (or_rest n d (e', ts'))"
      if "closed ts'" "length ts' < length us" "wf_expr e'" for e' ts'
      by (rule pa_or_rest [OF assms(1) that(1) _ that(3)]) (use assms(3) that(2) ts in simp)
    from loop_answers [where ts = ts and e = e and rest = "or_rest n d" and c = Or, OF first] ts assms(4) loop True
    show ?thesis by auto
  next
    case False
    with assms ts show ?thesis by simp
  qed
qed

lemma and_step:
  assumes "parser_answers n" and "closed ts" and "6 * length ts + 3 \<le> Suc n"
  shows "answers (expr_ok (length ts)) ts (parse_and (Suc n) d ts)"
proof -
  have first: "answers (expr_ok (length ts)) ts (parse_unary n d ts)"
    by (rule pa_unary [OF assms(1,2)]) (use assms(3) in simp)
  have "answers (expr_ok (length ts)) ts (and_then (parse_unary n d ts) (and_rest n d))"
  proof (rule answers_then [OF first], goal_cases)
    case (2 e ts')
    have "answers (expr_ok (weight e + length ts')) ts' (and_rest n d (e, ts'))"
      by (rule pa_and_rest [OF assms(1) 2(2)]) (use 2 assms(3) shorter [OF 2(4)] in auto)
    then show ?case by (rule answers_weaken) (use 2 in auto)
  qed simp
  then show ?thesis by simp
qed

lemma or_step:
  assumes "parser_answers n" and "closed ts" and "6 * length ts + 4 \<le> Suc n"
  shows "answers (expr_ok (length ts)) ts (parse_or (Suc n) d ts)"
proof -
  have first: "answers (expr_ok (length ts)) ts (parse_and n d ts)"
    by (rule pa_and [OF assms(1,2)]) (use assms(3) in simp)
  have "answers (expr_ok (length ts)) ts (and_then (parse_and n d ts) (or_rest n d))"
  proof (rule answers_then [OF first], goal_cases)
    case (2 e ts')
    have "answers (expr_ok (weight e + length ts')) ts' (or_rest n d (e, ts'))"
      by (rule pa_or_rest [OF assms(1) 2(2)]) (use 2 assms(3) shorter [OF 2(4)] in auto)
    then show ?case by (rule answers_weaken) (use 2 in auto)
  qed simp
  then show ?thesis by simp
qed

lemma parser_answers: "parser_answers n"
proof (induction n)
  case 0
  show ?case by (auto simp: parser_answers_def)
next
  case (Suc n)
  show ?case
    unfolding parser_answers_def
    using primary_step [OF Suc] unary_step [OF Suc] and_rest_step [OF Suc] and_step [OF Suc]
      or_rest_step [OF Suc] or_step [OF Suc] by blast
qed

lemma parse_answers:
  assumes "closed ts"
  shows "case parse ts of
      Inl e \<Rightarrow> \<exists>m t x. e = QuerySyntaxError m (tk_offset t) x \<and> t \<in> set ts
    | Inr e \<Rightarrow> wf_expr e \<and> weight e < length ts"
proof -
  have a: "answers (expr_ok (length ts)) ts (parse_or (parse_fuel ts) 0 ts)"
    by (rule pa_or [OF parser_answers assms]) (simp add: parse_fuel_def)
  show ?thesis
  proof (cases "parse_or (parse_fuel ts) 0 ts")
    case (Inl e)
    with a show ?thesis by (auto simp: parse_def)
  next
    case (Inr p)
    with a show ?thesis
      by (cases p) (auto simp: parse_def split: list.splits)
  qed
qed

end
