(* ===== verification/CatalogQLRoundTrip.thy ===== *)
theory CatalogQLRoundTrip
  imports CatalogQLTheorems
begin

text \<open>
  A printer for query expressions, and the proof that parsing its text gives the expression back.
  The parser is followed along its calls: \<open>yields f r\<close> says that with enough fuel the call \<open>f\<close>
  returns \<open>r\<close>.
\<close>

section \<open>More fuel never changes an answer\<close>

definition refines :: "ql_error + 'a \<Rightarrow> ql_error + 'a \<Rightarrow> bool" where
  "refines r r' \<longleftrightarrow> r = Inl OutOfFuel \<or> r' = r"

lemma refines_refl [simp]: "refines r r"
  by (simp add: refines_def)

lemma refines_then:
  "refines r r' \<Longrightarrow> (\<And>x. refines (f x) (f' x)) \<Longrightarrow> refines (and_then r f) (and_then r' f')"
  by (cases r) (auto simp: refines_def)

lemma more_fuel:
  "n \<le> m \<Longrightarrow> (\<forall>d ts e. refines (parse_or n d ts) (parse_or m d ts) \<and> refines (or_rest n d (e, ts)) (or_rest m d (e, ts))
     \<and> refines (parse_and n d ts) (parse_and m d ts) \<and> refines (and_rest n d (e, ts)) (and_rest m d (e, ts))
     \<and> refines (parse_unary n d ts) (parse_unary m d ts) \<and> refines (parse_primary n d ts) (parse_primary m d ts))"
proof (induction n arbitrary: m)
  case 0
  show ?case by (simp add: refines_def)
next
  case (Suc n)
  then obtain k where m: "m = Suc k" and "n \<le> k" by (cases m) auto
  note IH = Suc.IH [OF \<open>n \<le> k\<close>]
  show ?case
    unfolding m
    by (auto intro!: refines_then simp: IH split: list.split prod.split)
qed

section \<open>Following a run\<close>

definition yields :: "(nat \<Rightarrow> ql_error + 'a) \<Rightarrow> 'a \<Rightarrow> bool" where
  "yields f r \<longleftrightarrow> (\<exists>n. \<forall>m \<ge> n. f m = Inr r)"

lemma yields_const: "yields (\<lambda>m. Inr r) r"
  by (simp add: yields_def)

lemma yields_Suc: "(\<And>m. f (Suc m) = g m) \<Longrightarrow> yields g r \<Longrightarrow> yields f r"
  unfolding yields_def by (metis Suc_le_D Suc_le_mono)

lemma yields_then:
  assumes "yields f s" and "yields (\<lambda>m. g m s) r"
  shows "yields (\<lambda>m. and_then (f m) (g m)) r"
proof -
  from assms obtain n1 n2 where "\<forall>m \<ge> n1. f m = Inr s" "\<forall>m \<ge> n2. g m s = Inr r"
    by (auto simp: yields_def)
  then have "\<forall>m \<ge> max n1 n2. and_then (f m) (g m) = Inr r" by simp
  then show ?thesis unfolding yields_def by blast
qed

lemma yields_parse_or:
  "yields (\<lambda>m. parse_and m d ts) s \<Longrightarrow> yields (\<lambda>m. or_rest m d s) r \<Longrightarrow> yields (\<lambda>m. parse_or m d ts) r"
  by (rule yields_Suc [where g = "\<lambda>m. and_then (parse_and m d ts) (or_rest m d)"]) (auto intro: yields_then)

lemma yields_parse_and:
  "yields (\<lambda>m. parse_unary m d ts) s \<Longrightarrow> yields (\<lambda>m. and_rest m d s) r \<Longrightarrow> yields (\<lambda>m. parse_and m d ts) r"
  by (rule yields_Suc [where g = "\<lambda>m. and_then (parse_unary m d ts) (and_rest m d)"]) (auto intro: yields_then)

text \<open>Tokens at which an expression ends.\<close>

definition stops :: "token list \<Rightarrow> bool" where
  "stops ts \<longleftrightarrow> (case ts of [] \<Rightarrow> False | t # _ \<Rightarrow> tk_kind t = RPAREN \<or> tk_kind t = EOF)"

lemma not_keyword: "tk_kind t \<noteq> WORD \<Longrightarrow> \<not> keyword k t"
  by auto

lemma or_rest_stops: "stops ts \<Longrightarrow> yields (\<lambda>m. or_rest m d (e, ts)) (e, ts)"
  by (rule yields_Suc [OF _ yields_const]) (auto simp: stops_def not_keyword split: list.splits)

lemma and_rest_stops:
  "stops ts \<or> (\<exists>t us. ts = t # us \<and> keyword ''OR'' t) \<Longrightarrow> yields (\<lambda>m. and_rest m d (e, ts)) (e, ts)"
  by (rule yields_Suc [OF _ yields_const])
    (auto simp: stops_def not_keyword split: list.splits dest: keyword_eq)

lemma and_rest_more:
  assumes "keyword ''AND'' t" and "yields (\<lambda>m. parse_unary m d us) (e', ts')"
    and "yields (\<lambda>m. and_rest m d (Binary And e e', ts')) r"
  shows "yields (\<lambda>m. and_rest m d (e, t # us)) r"
  by (rule yields_Suc [where g = "\<lambda>m. and_then (parse_unary m d us) (\<lambda>(e', ts'). and_rest m d (Binary And e e', ts'))"])
    (use assms in \<open>auto intro: yields_then\<close>)

lemma or_rest_more:
  assumes "keyword ''OR'' t" and "yields (\<lambda>m. parse_and m d us) (e', ts')"
    and "yields (\<lambda>m. or_rest m d (Binary Or e e', ts')) r"
  shows "yields (\<lambda>m. or_rest m d (e, t # us)) r"
  by (rule yields_Suc [where g = "\<lambda>m. and_then (parse_and m d us) (\<lambda>(e', ts'). or_rest m d (Binary Or e e', ts'))"])
    (use assms in \<open>auto intro: yields_then\<close>)

lemma parse_unary_not:
  assumes "keyword ''NOT'' t" and "yields (\<lambda>m. parse_unary m d us) (e, ts')"
  shows "yields (\<lambda>m. parse_unary m d (t # us)) (Unary e, ts')"
  by (rule yields_Suc [where g = "\<lambda>m. and_then (parse_unary m d us) (\<lambda>(e, ts'). Inr (Unary e, ts'))"])
    (use assms in \<open>auto intro: yields_then yields_const\<close>)

lemma parse_unary_primary:
  assumes "\<not> keyword ''NOT'' t" and "yields (\<lambda>m. parse_primary m d (t # us)) r"
  shows "yields (\<lambda>m. parse_unary m d (t # us)) r"
  by (rule yields_Suc [where g = "\<lambda>m. parse_primary m d (t # us)"]) (use assms in auto)

lemma parse_primary_term:
  assumes "d \<le> MAX_DEPTH" and "valued t" and "parse_term t us = Inr r"
  shows "yields (\<lambda>m. parse_primary m d (t # us)) r"
  by (rule yields_Suc [OF _ yields_const]) (use assms in auto)

lemma parse_primary_paren:
  assumes "d \<le> MAX_DEPTH" and "tk_kind t = LPAREN" and "tk_kind u = RPAREN"
    and "yields (\<lambda>m. parse_or m (Suc d) us) (e, u # vs)"
  shows "yields (\<lambda>m. parse_primary m d (t # us)) (e, vs)"
  by (rule yields_Suc [where g = "\<lambda>m. and_then (parse_or m (Suc d) us) (\<lambda>(e, ts').
                 case ts' of
                   [] \<Rightarrow> Inl IndexError
                 | u # vs \<Rightarrow>
                     if tk_kind u \<noteq> RPAREN
                     then Inl (QuerySyntaxError ''missing closing parenthesis'' (tk_offset t) (Some '')''))
                     else Inr (e, vs))"])
    (use assms in \<open>auto intro!: yields_then [OF assms(4)] yields_const\<close>)

section \<open>The printer\<close>

type_synonym lexeme = "token_kind \<times> string"

definition field_name :: "ql_field \<Rightarrow> string" where
  "field_name f = (case f of F_NAME \<Rightarrow> ''NAME'' | F_TAGS \<Rightarrow> ''TAGS'' | F_HARNESS \<Rightarrow> ''HARNESS''
     | F_TYPE \<Rightarrow> ''TYPE'' | F_AUTHOR \<Rightarrow> ''AUTHOR'' | F_VERIFIED \<Rightarrow> ''VERIFIED'')"

fun spell_values :: "string list \<Rightarrow> lexeme list" where
  "spell_values [] = []"
| "spell_values [v] = [(STRING, v)]"
| "spell_values (v # vs) = (STRING, v) # (COMMA, '','') # spell_values vs"

definition spell_list :: "string list \<Rightarrow> lexeme list" where
  "spell_list vs = [(LPAREN, ''('')] @ spell_values vs @ [(RPAREN, '')'')]"

definition in_parens :: "expression \<Rightarrow> lexeme list \<Rightarrow> lexeme list" where
  "in_parens e s = (case e of Binary _ _ _ \<Rightarrow> [(LPAREN, ''('')] @ s @ [(RPAREN, '')'')] | _ \<Rightarrow> s)"

fun spell :: "expression \<Rightarrow> lexeme list" where
  "spell (TextTerm v) = [(STRING, v)]"
| "spell (Predicate f op vs) = (WORD, field_name f) #
     (case op of
        Is \<Rightarrow> (COLON, '':'') # spell_values vs
      | In \<Rightarrow> (WORD, ''IN'') # spell_list vs
      | Not_in \<Rightarrow> (WORD, ''NOT'') # (WORD, ''IN'') # spell_list vs)"
| "spell (Unary e) = (WORD, ''NOT'') # in_parens e (spell e)"
| "spell (Binary c l r) =
     in_parens l (spell l) @ [(WORD, case c of And \<Rightarrow> ''AND'' | Or \<Rightarrow> ''OR'')] @ in_parens r (spell r)"

text \<open>How deep the printed parentheses nest, around an operand and inside it.\<close>

fun nesting :: "expression \<Rightarrow> nat" where
  "nesting (TextTerm v) = 0"
| "nesting (Predicate f op vs) = 0"
| "nesting (Unary e) = (case e of Binary _ _ _ \<Rightarrow> Suc (nesting e) | _ \<Rightarrow> nesting e)"
| "nesting (Binary c l r) =
     max (case l of Binary _ _ _ \<Rightarrow> Suc (nesting l) | _ \<Rightarrow> nesting l)
         (case r of Binary _ _ _ \<Rightarrow> Suc (nesting r) | _ \<Rightarrow> nesting r)"

abbreviation operand_nesting :: "expression \<Rightarrow> nat" where
  "operand_nesting e \<equiv> (case e of Binary _ _ _ \<Rightarrow> Suc (nesting e) | _ \<Rightarrow> nesting e)"

fun escape :: "char \<Rightarrow> string" where
  "escape c = (if c = CHR 0x22 \<or> c = CHR 0x5C then [CHR 0x5C, c] else [c])"

fun lexeme_text :: "lexeme \<Rightarrow> string" where
  "lexeme_text (k, v) = (if k = STRING then [CHR 0x22] @ concat (map escape v) @ [CHR 0x22] else v)"

definition query_text :: "expression \<Rightarrow> string" where
  "query_text e = concat (map (\<lambda>l. lexeme_text l @ '' '') (spell e))"

section \<open>The printed tokens parse back\<close>

abbreviation spells :: "token list \<Rightarrow> lexeme list \<Rightarrow> bool" where
  "spells ts ls \<equiv> map (\<lambda>t. (tk_kind t, tk_value t)) ts = ls"

lemma upper_words [simp]:
  "upper ''AND'' = ''AND''" "upper ''OR'' = ''OR''" "upper ''NOT'' = ''NOT''" "upper ''IN'' = ''IN''"
  by code_simp+

lemma upper_field [simp]: "upper (field_name f) = field_name f"
proof -
  have "\<forall>w \<in> set [''NAME'', ''TAGS'', ''HARNESS'', ''TYPE'', ''AUTHOR'', ''VERIFIED'']. upper w = w"
    by code_simp
  then show ?thesis by (cases f) (simp_all add: field_name_def)
qed

lemma field_lookup [simp]: "map_of CATALOG_QL_FIELDS (field_name f) = Some f"
  by (cases f) (simp_all add: CATALOG_QL_FIELDS_def field_name_def)

lemma field_not_keyword: "field_name f \<notin> {''AND'', ''OR'', ''NOT'', ''IN''}"
  by (cases f) (simp_all add: field_name_def)

lemma more_values_spells:
  assumes "spells ts (spell_values vs)" and "list_all value_ok vs" and "vs \<noteq> []"
    and "length (acc @ vs) \<le> MAX_IN_VALUES" and "tk_kind u = RPAREN"
  shows "and_then (parse_value (ts @ u # us)) (\<lambda>(v, ts'). more_values (acc @ [v]) ts') = Inr (acc @ vs, u # us)"
  using assms(1-4)
proof (induction vs arbitrary: ts acc rule: spell_values.induct)
  case (2 v)
  then obtain t where "ts = [t]" "tk_kind t = STRING" "tk_value t = v" by (auto simp: map_eq_Cons_conv)
  with 2 assms(5) show ?case by (simp add: value_ok_def more_values.simps)
next
  case (3 v w vs)
  then obtain t c ts' where ts: "ts = t # c # ts'" "tk_kind t = STRING" "tk_value t = v" "tk_kind c = COMMA"
    "spells ts' (spell_values (w # vs))" by (auto simp: map_eq_Cons_conv)
  have "and_then (parse_value (ts' @ u # us)) (\<lambda>(x, ts''). more_values ((acc @ [v]) @ [x]) ts'')
      = Inr ((acc @ [v]) @ w # vs, u # us)"
    by (rule "3.IH") (use 3 ts in auto)
  moreover have "more_values (acc @ [v]) (c # ts' @ u # us)
      = and_then (parse_value (ts' @ u # us)) (\<lambda>(x, ts''). more_values ((acc @ [v]) @ [x]) ts'')"
  proof -
    obtain t' us' where "ts' = t' # us'" "tk_kind t' = STRING" "tk_value t' = w"
      using ts(5) by (cases vs) (auto simp: map_eq_Cons_conv)
    then show ?thesis using ts(4) "3.prems" by (simp add: more_values.simps value_ok_def)
  qed
  ultimately show ?case using ts 3 by (simp add: value_ok_def)
qed simp

lemma parse_value_list_spells:
  assumes "spells ts (spell_list vs)" and "list_all value_ok vs" and "vs \<noteq> []" and "length vs \<le> MAX_IN_VALUES"
  shows "parse_value_list (ts @ us) = Inr (vs, us)"
proof -
  from assms(1) obtain t ts' u where ts: "ts = t # ts' @ [u]" "tk_kind t = LPAREN" "tk_kind u = RPAREN"
    "spells ts' (spell_values vs)"
    by (auto simp: spell_list_def map_eq_Cons_conv map_eq_append_conv)
  have "and_then (parse_value (ts' @ u # us)) (\<lambda>(v, ts'). more_values ([] @ [v]) ts') = Inr ([] @ vs, u # us)"
    by (rule more_values_spells [OF ts(4) assms(2,3) _ ts(3)]) (use assms(4) in simp)
  then obtain v ws where "parse_value (ts' @ u # us) = Inr (v, ws)" "more_values [v] ws = Inr (vs, u # us)"
    by (auto simp: and_then_Inr)
  with ts(1-3) show ?thesis by simp
qed

lemma parse_term_spells:
  assumes "spells ts (spell (Predicate f op vs))" and "wf_expr (Predicate f op vs)"
  obtains t us where "ts = t # us" "tk_kind t = WORD" "\<not> keyword ''NOT'' t"
    "\<forall>rest. parse_term t (us @ rest) = Inr (Predicate f op vs, rest)"
proof -
  from assms(1) obtain t u us where ts: "ts = t # u # us" "tk_kind t = WORD" "tk_value t = field_name f"
    and tail: "spells (u # us) (tl (spell (Predicate f op vs)))"
    by (cases op) (auto simp: map_eq_Cons_conv)
  have start: "starts_predicate u" using tail
    by (cases op) (auto simp: starts_predicate_def keyword_def)
  have "parse_operator ((u # us) @ rest) = Inr ((op, vs), rest)" for rest
  proof (cases op)
    case Is
    with assms(2) obtain v where v: "vs = [v]" "value_ok v" by (cases vs) auto
    with tail Is obtain w where "us = [w]" "tk_kind w = STRING" "tk_value w = v" "tk_kind u = COLON"
      by (auto simp: map_eq_Cons_conv)
    with v Is show ?thesis by (simp add: value_ok_def)
  next
    case In
    with tail have "tk_kind u = WORD" "tk_value u = ''IN''" "spells us (spell_list vs)" by auto
    with In assms(2) parse_value_list_spells [of us vs rest] show ?thesis
      by (simp add: keyword_def)
  next
    case Not_in
    with tail obtain w ws where w: "us = w # ws" "tk_kind w = WORD" "tk_value w = ''IN''" "spells ws (spell_list vs)"
      "tk_kind u = WORD" "tk_value u = ''NOT''" by (auto simp: map_eq_Cons_conv)
    with Not_in assms(2) parse_value_list_spells [of ws vs rest] show ?thesis
      by (simp add: keyword_def)
  qed
  then have "parse_predicate f off ((u # us) @ rest) = Inr (Predicate f op vs, rest)" for off rest
    using assms(2) by (auto simp: parse_predicate_def list_ex_iff list_all_iff)
  with start ts have "parse_term t ((u # us) @ rest) = Inr (Predicate f op vs, rest)" for rest
    by (simp add: parse_term_def)
  moreover have "\<not> keyword ''NOT'' t" using ts field_not_keyword [of f] by (auto simp: keyword_def)
  ultimately show thesis using that [of t "u # us"] ts by blast
qed

lemma term_operand:
  assumes "spells ts (spell e)" and "wf_expr e" and "d \<le> MAX_DEPTH"
    and "(\<exists>v. e = TextTerm v) \<or> (\<exists>f op vs. e = Predicate f op vs)"
  shows "yields (\<lambda>m. parse_unary m d (ts @ rest)) (e, rest)"
  using assms(4)
proof (elim disjE exE)
  fix v assume "e = TextTerm v"
  with assms(1) obtain t where "ts = [t]" "tk_kind t = STRING" "tk_value t = v" by (auto simp: map_eq_Cons_conv)
  with \<open>e = _\<close> assms(3) show ?thesis
    by (auto intro!: parse_unary_primary parse_primary_term simp: parse_term_def not_keyword)
next
  fix f op vs assume e: "e = Predicate f op vs"
  from assms(1,2) obtain t us where "ts = t # us" "tk_kind t = WORD" "\<not> keyword ''NOT'' t"
    "\<forall>rest. parse_term t (us @ rest) = Inr (Predicate f op vs, rest)"
    unfolding e by (rule parse_term_spells)
  with e assms(3) show ?thesis by (auto intro!: parse_unary_primary parse_primary_term)
qed

lemma finish:
  assumes "yields (\<lambda>m. parse_unary m d ts) (e, rest)" and "stops rest"
  shows "yields (\<lambda>m. parse_or m d ts) (e, rest)"
  by (rule yields_parse_or [OF yields_parse_and [OF assms(1) and_rest_stops] or_rest_stops])
    (use assms(2) in auto)

lemma parse_binary:
  assumes l: "yields (\<lambda>m. parse_unary m d ts) (l, t # us)" and r: "yields (\<lambda>m. parse_unary m d us) (r, rest)"
    and "tk_kind t = WORD" "tk_value t = (case c of And \<Rightarrow> ''AND'' | Or \<Rightarrow> ''OR'')" and "stops rest"
  shows "yields (\<lambda>m. parse_or m d ts) (Binary c l r, rest)"
proof (cases c)
  case And
  with assms(3,4) have k: "keyword ''AND'' t" by (simp add: keyword_def)
  have "yields (\<lambda>m. and_rest m d (l, t # us)) (Binary And l r, rest)"
    by (rule and_rest_more [OF k r and_rest_stops]) (use assms(5) in blast)
  with And show ?thesis
    by (auto intro: yields_parse_or [OF yields_parse_and [OF l] or_rest_stops [OF assms(5)]])
next
  case Or
  with assms(3,4) have k: "keyword ''OR'' t" by (simp add: keyword_def)
  have "yields (\<lambda>m. parse_and m d ts) (l, t # us)"
    by (rule yields_parse_and [OF l and_rest_stops]) (use k in blast)
  moreover have "yields (\<lambda>m. parse_and m d us) (r, rest)"
    by (rule yields_parse_and [OF r and_rest_stops]) (use assms(5) in blast)
  then have "yields (\<lambda>m. or_rest m d (l, t # us)) (Binary Or l r, rest)"
    by (rule or_rest_more [OF k _ or_rest_stops [OF assms(5)]])
  ultimately show ?thesis using Or by (auto intro: yields_parse_or)
qed

lemma parse_parens:
  assumes "spells ts ([(LPAREN, ''('')] @ s @ [(RPAREN, '')'')])" and "d \<le> MAX_DEPTH"
    and "\<And>us rest'. spells us s \<Longrightarrow> stops rest' \<Longrightarrow> yields (\<lambda>m. parse_or m (Suc d) (us @ rest')) (e, rest')"
  shows "yields (\<lambda>m. parse_unary m d (ts @ rest)) (e, rest)"
proof -
  from assms(1) obtain t us u where ts: "ts = t # us @ [u]" "tk_kind t = LPAREN" "tk_kind u = RPAREN" "spells us s"
    by (auto simp: map_eq_Cons_conv map_eq_append_conv)
  have "yields (\<lambda>m. parse_or m (Suc d) (us @ u # rest)) (e, u # rest)"
    by (rule assms(3) [OF ts(4)]) (simp add: stops_def ts(3))
  from parse_primary_paren [OF assms(2) ts(2,3) this] ts show ?thesis
    by (auto intro!: parse_unary_primary simp: not_keyword)
qed

lemma spelled_expressions:
  "wf_expr e \<Longrightarrow>
     (\<forall>d ts rest. spells ts (in_parens e (spell e)) \<longrightarrow> d + operand_nesting e \<le> MAX_DEPTH
        \<longrightarrow> yields (\<lambda>m. parse_unary m d (ts @ rest)) (e, rest))
   \<and> (\<forall>d ts rest. spells ts (spell e) \<longrightarrow> d + nesting e \<le> MAX_DEPTH \<longrightarrow> stops rest
        \<longrightarrow> yields (\<lambda>m. parse_or m d (ts @ rest)) (e, rest))"
proof (induction e)
  case (TextTerm v)
  then show ?case by (auto simp: in_parens_def intro!: finish term_operand)
next
  case (Predicate f op vs)
  then show ?case by (auto simp: in_parens_def simp del: spell.simps wf_expr.simps intro!: finish term_operand)
next
  case (Unary e)
  have u: "yields (\<lambda>m. parse_unary m d (ts @ rest)) (Unary e, rest)"
    if ts: "spells ts (spell (Unary e))" and "d + nesting (Unary e) \<le> MAX_DEPTH" for d ts rest
  proof -
    from ts obtain t us where "ts = t # us" "keyword ''NOT'' t" "spells us (in_parens e (spell e))"
      by (auto simp: map_eq_Cons_conv keyword_def)
    with Unary that(2) show ?thesis by (auto intro!: parse_unary_not)
  qed
  then show ?case by (auto simp: in_parens_def simp del: spell.simps nesting.simps intro!: finish)
next
  case (Binary c l r)
  have full: "yields (\<lambda>m. parse_or m d (ts @ rest)) (Binary c l r, rest)"
    if ts: "spells ts (spell (Binary c l r))" and "d + nesting (Binary c l r) \<le> MAX_DEPTH" "stops rest" for d ts rest
  proof -
    from ts obtain ls t rs where t: "ts = ls @ t # rs" "spells ls (in_parens l (spell l))"
      "tk_kind t = WORD" "tk_value t = (case c of And \<Rightarrow> ''AND'' | Or \<Rightarrow> ''OR'')" "spells rs (in_parens r (spell r))"
      by (auto simp: map_eq_append_conv map_eq_Cons_conv)
    have "yields (\<lambda>m. parse_unary m d (ls @ t # (rs @ rest))) (l, t # (rs @ rest))"
      and "yields (\<lambda>m. parse_unary m d (rs @ rest)) (r, rest)"
      using Binary that(2) t(2,5) by simp_all
    from parse_binary [OF this t(3,4) that(3)] t(1) show ?thesis by simp
  qed
  moreover have "yields (\<lambda>m. parse_unary m d (ts @ rest)) (Binary c l r, rest)"
    if "spells ts (in_parens (Binary c l r) (spell (Binary c l r)))"
      and n: "d + operand_nesting (Binary c l r) \<le> MAX_DEPTH" for d ts rest
  proof (rule parse_parens)
    show "spells ts ([(LPAREN, ''('')] @ spell (Binary c l r) @ [(RPAREN, '')'')])"
      using that(1) by (simp add: in_parens_def)
    show "d \<le> MAX_DEPTH" using n by simp
    show "yields (\<lambda>m. parse_or m (Suc d) (us @ rest')) (Binary c l r, rest')"
      if "spells us (spell (Binary c l r))" "stops rest'" for us rest'
      by (rule full [OF that(1) _ that(2)]) (use n in simp)
  qed
  ultimately show ?case by blast
qed

section \<open>The printed text scans back\<close>

definition lexeme_ok :: "lexeme \<Rightarrow> bool" where
  "lexeme_ok l \<longleftrightarrow>
     (case l of (k, v) \<Rightarrow>
        (case k of
           STRING \<Rightarrow> True
         | WORD \<Rightarrow> v \<noteq> [] \<and> list_all word_char v
         | EOF \<Rightarrow> False
         | _ \<Rightarrow> (\<exists>c. v = [c] \<and> punctuation c = Some k)))"

lemma read_quoted_escape:
  "read_quoted (CHR 0x22) (concat (map escape v) @ CHR 0x22 # rest) = Some (v, rest)"
  by (induction v) auto

lemma space_facts: "is_space (CHR '' '')" "\<not> word_char (CHR '' '')" "\<not> is_space (CHR 0x22)"
  "punctuation (CHR 0x22) = None"
  by (simp_all add: is_space_def word_char_def)

lemma punctuation_not_space: "punctuation c = Some k \<Longrightarrow> \<not> is_space c \<and> \<not> is_quote c"
  by (auto simp: is_space_def split: if_splits)

lemma scan_lexeme:
  assumes "lexeme_ok (k, v)" and "length acc < MAX_TOKENS"
  shows "scan i (lexeme_text (k, v) @ '' '' @ rest) acc =
    scan (Suc i + length (lexeme_text (k, v))) rest (acc @ [\<lparr>tk_kind = k, tk_value = v, tk_offset = i\<rparr>])"
proof -
  have skip: "scan j ('' '' @ rest) acc' = scan (Suc j) rest acc'" for j acc'
    by (simp add: scan.simps space_facts)
  consider (str) "k = STRING" | (word) "k = WORD" | (punct) c where "v = [c]" "punctuation c = Some k" "k \<noteq> STRING"
    using assms(1) by (auto simp: lexeme_ok_def split: token_kind.splits)
  then show ?thesis
  proof cases
    case str
    then show ?thesis
      using assms(2) read_quoted_escape [of v "'' '' @ rest"] skip
      by (simp add: scan.simps space_facts Let_def del: punctuation.simps)
  next
    case word
    with assms(1) obtain c cs where v: "v = c # cs" "word_char c" "list_all word_char v"
      by (cases v) (auto simp: lexeme_ok_def)
    have tw: "takeWhile word_char (v @ '' '' @ rest) = v" "dropWhile word_char (v @ '' '' @ rest) = '' '' @ rest"
      using v(3) space_facts(2) by (simp_all add: list_all_iff takeWhile_append dropWhile_append)
    have "scan i (c # (cs @ '' '' @ rest)) acc
        = scan (i + length v) ('' '' @ rest) (acc @ [\<lparr>tk_kind = WORD, tk_value = v, tk_offset = i\<rparr>])"
      using v(1,2) assms(2) tw unfolding scan.simps(2) by (simp add: word_char_def Let_def del: punctuation.simps takeWhile.simps dropWhile.simps)
    then show ?thesis using word v(1) skip by simp
  next
    case punct
    then show ?thesis
      using assms(2) skip punctuation_not_space [OF punct(2)]
      by (simp add: scan.simps Let_def del: punctuation.simps)
  qed
qed

lemma scan_lexemes:
  assumes "list_all lexeme_ok ls" and "length acc + length ls \<le> MAX_TOKENS"
  shows "\<exists>ts t. scan i (concat (map (\<lambda>l. lexeme_text l @ '' '') ls)) acc = Inr (acc @ ts @ [t])
    \<and> spells ts ls \<and> tk_kind t = EOF"
  using assms
proof (induction ls arbitrary: i acc)
  case (Cons l ls)
  obtain k v where l: "l = (k, v)" by (cases l)
  let ?t = "\<lparr>tk_kind = k, tk_value = v, tk_offset = i\<rparr>"
  let ?j = "Suc i + length (lexeme_text (k, v))"
  have step: "scan i (concat (map (\<lambda>l. lexeme_text l @ '' '') (l # ls))) acc
      = scan ?j (concat (map (\<lambda>l. lexeme_text l @ '' '') ls)) (acc @ [?t])"
    using scan_lexeme [of k v acc i] Cons.prems l by (simp del: lexeme_text.simps)
  have "list_all lexeme_ok ls" "length (acc @ [?t]) + length ls \<le> MAX_TOKENS" using Cons.prems by auto
  then obtain ts t where "scan ?j (concat (map (\<lambda>l. lexeme_text l @ '' '') ls)) (acc @ [?t]) = Inr ((acc @ [?t]) @ ts @ [t])"
    "spells ts ls" "tk_kind t = EOF" using Cons.IH by blast
  with step l show ?case by (intro exI [of _ "?t # ts"] exI [of _ t]) (simp del: lexeme_text.simps)
qed simp

lemma words_ok: "list_all (\<lambda>w. w \<noteq> [] \<and> list_all word_char w)
    [''NAME'', ''TAGS'', ''HARNESS'', ''TYPE'', ''AUTHOR'', ''VERIFIED'', ''AND'', ''OR'', ''NOT'', ''IN'']"
  by code_simp

lemma field_ok: "lexeme_ok (WORD, field_name f)"
  using words_ok by (cases f) (simp_all add: lexeme_ok_def field_name_def)

lemma keyword_ok: "lexeme_ok (WORD, ''AND'')" "lexeme_ok (WORD, ''OR'')" "lexeme_ok (WORD, ''NOT'')"
    "lexeme_ok (WORD, ''IN'')" "lexeme_ok (STRING, v)" "lexeme_ok (LPAREN, ''('')" "lexeme_ok (RPAREN, '')'')"
    "lexeme_ok (COMMA, '','')" "lexeme_ok (COLON, '':'')"
  using words_ok by (simp_all add: lexeme_ok_def)

lemma spell_values_ok: "list_all lexeme_ok (spell_values vs)"
  by (induction vs rule: spell_values.induct) (simp_all add: keyword_ok)

lemma in_parens_ok: "list_all lexeme_ok s \<Longrightarrow> list_all lexeme_ok (in_parens e s)"
  by (cases e) (simp_all add: in_parens_def keyword_ok)

lemma spell_ok: "list_all lexeme_ok (spell e)"
proof (induction e)
  case (Predicate f op vs)
  then show ?case by (cases op) (simp_all add: keyword_ok field_ok spell_values_ok spell_list_def)
next
  case (Binary c l r)
  then show ?case by (cases c) (simp_all add: keyword_ok in_parens_ok)
qed (simp_all add: keyword_ok in_parens_ok)

lemma spell_nonempty: "spell e \<noteq> []"
  by (cases e) auto

lemma lexeme_text_start:
  assumes "lexeme_ok l"
  shows "\<exists>c cs. lexeme_text l = c # cs \<and> \<not> is_space c"
proof -
  obtain k v where l: "l = (k, v)" by (cases l)
  consider (str) "k = STRING" | (word) "k = WORD" | (punct) c where "v = [c]" "punctuation c = Some k" "k \<noteq> STRING"
    using assms l by (auto simp: lexeme_ok_def split: token_kind.splits)
  then show ?thesis
  proof cases
    case word
    with assms l show ?thesis by (cases v) (auto simp: lexeme_ok_def word_char_def)
  qed (use l punctuation_not_space in \<open>auto simp: space_facts simp del: punctuation.simps\<close>)
qed

lemma strip_blank: "strip s = [] \<longleftrightarrow> list_all is_space s"
proof (cases "dropWhile is_space s")
  case Nil
  then have "\<forall>c \<in> set s. is_space c" by simp
  with Nil show ?thesis unfolding strip_def Nil by (simp add: list_all_iff)
next
  case (Cons c cs)
  then have "\<not> is_space c" by (metis hd_dropWhile list.distinct(1) list.sel(1))
  moreover from Cons have "c \<in> set s" using set_dropWhileD [of c is_space s] by simp
  ultimately show ?thesis using Cons by (auto simp: strip_def list_all_iff)
qed

lemma query_text_not_blank: "strip (query_text e) \<noteq> []"
proof -
  obtain l ls where s: "spell e = l # ls" using spell_nonempty [of e] by (cases "spell e") auto
  then have "lexeme_ok l" using spell_ok [of e] by simp
  then obtain c cs where "lexeme_text l = c # cs" "\<not> is_space c" using lexeme_text_start by blast
  with s show ?thesis by (simp add: strip_blank query_text_def del: lexeme_text.simps)
qed

lemma parse_spelled:
  assumes "spells ts (spell e)" and "wf_expr e" and "nesting e \<le> MAX_DEPTH" and "tk_kind t = EOF"
  shows "parse (ts @ [t]) = Inr e"
proof -
  have "yields (\<lambda>m. parse_or m 0 (ts @ [t])) (e, [t])"
    using spelled_expressions [OF assms(2)] assms(1,3,4) by (simp add: stops_def)
  then obtain n where n: "\<forall>m \<ge> n. parse_or m 0 (ts @ [t]) = Inr (e, [t])" by (auto simp: yields_def)
  let ?f = "parse_fuel (ts @ [t])"
  have "\<forall>l \<in> set (spell e). fst l \<noteq> EOF"
    using spell_ok [of e] by (auto simp: list_all_iff lexeme_ok_def split: prod.splits)
  then have "\<forall>t \<in> set ts. tk_kind t \<noteq> EOF" unfolding assms(1) [symmetric] by auto
  then have "closed (ts @ [t])" using assms(4) by (simp add: closed_append)
  then have "answers (expr_ok (length (ts @ [t]))) (ts @ [t]) (parse_or ?f 0 (ts @ [t]))"
    by (rule pa_or [OF parser_answers]) (simp add: parse_fuel_def)
  then have "parse_or ?f 0 (ts @ [t]) \<noteq> Inl OutOfFuel" by auto
  moreover have "refines (parse_or ?f 0 (ts @ [t])) (parse_or (max n ?f) 0 (ts @ [t]))"
    using more_fuel [of ?f "max n ?f"] by simp
  ultimately have "parse_or ?f 0 (ts @ [t]) = Inr (e, [t])" using n by (simp add: refines_def)
  with assms(4) show ?thesis by (simp add: parse_def)
qed

section \<open>Properties\<close>

text \<open>C35. Parsing a catalog query always ends with an answer: nothing (a blank query), an expression, or
  a syntax error that points into the source. The parser never runs out of the fuel it starts with,
  never reads past its tokens, and a query over the length limit is refused before it is scanned.\<close>

theorem catalog_query_always_answers:
  "case parse_query source of
     Inl e \<Rightarrow> \<exists>msg off expected. e = QuerySyntaxError msg off expected \<and> off \<le> length source
   | Inr None \<Rightarrow> list_all is_space source
   | Inr (Some e) \<Rightarrow> length source \<le> MAX_QUERY_LENGTH"
proof (cases "strip source = []")
  case True
  then show ?thesis by (simp add: parse_query_def strip_blank)
next
  case False
  show ?thesis
  proof (cases "tokenize source")
    case (Inl e)
    with False tokenize_error [OF Inl] show ?thesis by (auto simp: parse_query_def)
  next
    case (Inr ts)
    then have "length source \<le> MAX_QUERY_LENGTH" by (simp add: tokenize_def split: if_splits)
    with False Inr parse_answers [OF tokenize_tokens(1) [OF Inr]] tokenize_tokens(2) [OF Inr] show ?thesis
      by (auto simp: parse_query_def split: sum.splits)
  qed
qed

text \<open>C37. Every expression the parser returns is well typed and bounded: each predicate has between one
  and 32 values, exactly one after a colon, none blank or padded; a verification predicate compares
  with true or false only; and the whole expression has at most 128 terms, values and negations.\<close>

theorem parsed_queries_are_typed:
  assumes "parse_query source = Inr (Some e)"
  shows "wf_expr e \<and> weight e \<le> MAX_TOKENS"
proof -
  from assms obtain ts where ts: "tokenize source = Inr ts" "parse ts = Inr e"
    by (auto simp: parse_query_def and_then_Inr split: if_splits)
  from parse_answers [OF tokenize_tokens(1) [OF ts(1)]] ts(2) tokenize_tokens(3) [OF ts(1)]
  show ?thesis by simp
qed

theorem parsed_queries_are_typed_witness:
  "\<exists>e. parse_query ''type NOT IN (hook, skill)'' = Inr (Some e) \<and> wf_expr e \<and> weight e \<le> MAX_TOKENS"
proof -
  have "parse_query ''type NOT IN (hook, skill)'' = Inr (Some (Predicate F_TYPE Not_in [''hook'', ''skill'']))"
    by code_simp
  from this parsed_queries_are_typed [OF this] show ?thesis by blast
qed

text \<open>C36. Printing and parsing: every well-typed expression whose printed form keeps the limits (nesting,
  tokens, length) is read back exactly, connectives, negations, quoting and value lists included.
  So every query the language can express has a source text, and quoting loses nothing.\<close>

theorem printed_queries_parse_back:
  assumes "wf_expr e" and "nesting e \<le> MAX_DEPTH" and "length (spell e) \<le> MAX_TOKENS"
    and "length (query_text e) \<le> MAX_QUERY_LENGTH"
  shows "parse_query (query_text e) = Inr (Some e)"
proof -
  obtain ts t where "scan 0 (query_text e) [] = Inr (ts @ [t])" "spells ts (spell e)" "tk_kind t = EOF"
    using scan_lexemes [OF spell_ok, of "[]" e 0] assms(3) by (auto simp: query_text_def)
  with parse_spelled [of ts e t] assms query_text_not_blank [of e] show ?thesis
    by (simp add: parse_query_def tokenize_def)
qed

theorem printed_queries_parse_back_witness:
  "\<exists>e. e = Binary Or (Unary (Binary And (TextTerm ''OR'') (TextTerm [CHR 0x22, CHR 0x5C])))
          (Predicate F_TAGS Not_in [''a b'', ''c''])
     \<and> parse_query (query_text e) = Inr (Some e)"
proof -
  let ?e = "Binary Or (Unary (Binary And (TextTerm ''OR'') (TextTerm [CHR 0x22, CHR 0x5C])))
          (Predicate F_TAGS Not_in [''a b'', ''c''])"
  have "list_all value_ok [''a b'', ''c'']" by code_simp
  then have "wf_expr ?e" by (simp add: MAX_IN_VALUES_def)
  moreover have "nesting ?e \<le> MAX_DEPTH" "length (spell ?e) \<le> MAX_TOKENS" "length (query_text ?e) \<le> MAX_QUERY_LENGTH"
    by code_simp+
  ultimately have "parse_query (query_text ?e) = Inr (Some ?e)" by (rule printed_queries_parse_back)
  then show ?thesis by blast
qed

end
