(* ===== verification/Versioning.thy ===== *)
theory Versioning
  imports Prelude "HOL-Library.List_Lexorder" "HOL-Library.Char_ord"
begin

text \<open>
  Two-integer versions
  (\<open>packages/foundation/src/ai_stp_foundation/versioning.py\<close>): the canonical \<open>X.Y\<close> text, its
  parser, printer and numeric order. A \<open>VersionError\<close> is \<^const>\<open>None\<close>.
\<close>

section \<open>Decimal numbers\<close>

definition is_digit :: "char \<Rightarrow> bool" where
  "is_digit c = (c \<in> set ''0123456789'')"

definition digit_value :: "char \<Rightarrow> nat" where
  "digit_value c = of_char c - 48"

text \<open>The pattern \<open>0|[1-9][0-9]*\<close>, and \<open>int()\<close> of a match.\<close>

definition canonical_number :: "string \<Rightarrow> bool" where
  "canonical_number s = (s = ''0'' \<or> (case s of [] \<Rightarrow> False
     | c # cs \<Rightarrow> is_digit c \<and> c \<noteq> CHR ''0'' \<and> list_all is_digit cs))"

definition read_number :: "string \<Rightarrow> nat" where
  "read_number s = foldl (\<lambda>n c. 10 * n + digit_value c) 0 s"

section \<open>Versions\<close>

definition parse_version :: "string \<Rightarrow> (int \<times> int) option" where
  "parse_version s =
     (case split_on (CHR ''.'') s of
        [a, b] \<Rightarrow> if canonical_number a \<and> canonical_number b
                  then Some (int (read_number a), int (read_number b)) else None
      | _ \<Rightarrow> None)"

definition format_version :: "int \<Rightarrow> int \<Rightarrow> string option" where
  "format_version major minor =
     (if major < 0 \<or> minor < 0 then None else Some (int_str major @ ''.'' @ int_str minor))"

definition compare_versions :: "string \<Rightarrow> string \<Rightarrow> int option" where
  "compare_versions l r =
     (case parse_version l of
        None \<Rightarrow> None
      | Some pl \<Rightarrow>
          (case parse_version r of
             None \<Rightarrow> None
           | Some pr \<Rightarrow> Some (if pl < pr then -1 else if pl > pr then 1 else 0)))"

section \<open>Numbers and their text\<close>

lemma digit_char_value: "d < 10 \<Longrightarrow> digit_value (digit_char d) = d \<and> is_digit (digit_char d)"
proof -
  have "\<forall>d < 10. digit_value (digit_char d) = d \<and> is_digit (digit_char d)"
    by code_simp
  then show "d < 10 \<Longrightarrow> digit_value (digit_char d) = d \<and> is_digit (digit_char d)" by blast
qed

lemma digit_value_char: "is_digit c \<Longrightarrow> digit_char (digit_value c) = c \<and> digit_value c < 10"
proof -
  have "\<forall>c \<in> set ''0123456789''. digit_char (digit_value c) = c \<and> digit_value c < 10"
    by code_simp
  then show "is_digit c \<Longrightarrow> digit_char (digit_value c) = c \<and> digit_value c < 10"
    unfolding is_digit_def by blast
qed

lemma digit_zero: "digit_value c = 0 \<Longrightarrow> is_digit c \<Longrightarrow> c = CHR ''0''"
  using digit_value_char [of c] by (auto simp: digit_char_def)

lemma read_number_snoc [simp]: "read_number (s @ [c]) = 10 * read_number s + digit_value c"
  by (simp add: read_number_def)

lemma read_nat_str: "read_number (nat_str n) = n"
proof (induction n rule: nat_str.induct)
  case (1 n)
  show ?case
  proof (cases "n < 10")
    case True
    then show ?thesis using digit_char_value [of n]
      by (subst nat_str.simps) (simp add: read_number_def)
  next
    case False
    with 1 digit_char_value [of "n mod 10"] show ?thesis
      by (subst nat_str.simps) simp
  qed
qed

lemma nat_str_digits: "list_all is_digit (nat_str n) \<and> nat_str n \<noteq> []"
proof (induction n rule: nat_str.induct)
  case (1 n)
  show ?case
  proof (cases "n < 10")
    case True
    then show ?thesis using digit_char_value [of n] by (subst (1 2) nat_str.simps) simp
  next
    case False
    with 1 digit_char_value [of "n mod 10"] show ?thesis
      by (subst (1 2) nat_str.simps) simp
  qed
qed

lemma nat_str_head: "0 < n \<Longrightarrow> hd (nat_str n) \<noteq> CHR ''0''"
proof (induction n rule: nat_str.induct)
  case (1 n)
  show ?case
  proof (cases "n < 10")
    case True
    have "digit_char n \<noteq> CHR ''0''"
    proof
      assume "digit_char n = CHR ''0''"
      then have "digit_value (digit_char n) = 0" by (simp add: digit_value_def)
      with digit_char_value [OF True] 1(2) show False by simp
    qed
    with True show ?thesis by (subst nat_str.simps) simp
  next
    case False
    then have "hd (nat_str (n div 10)) \<noteq> CHR ''0''" using 1 by simp
    with False nat_str_digits [of "n div 10"] show ?thesis by (subst nat_str.simps) simp
  qed
qed

lemma canonical_nat_str: "canonical_number (nat_str n)"
proof (cases "n = 0")
  case True
  then show ?thesis by (simp add: nat_str.simps digit_char_def canonical_number_def)
next
  case False
  then show ?thesis using nat_str_digits [of n] nat_str_head [of n]
    by (cases "nat_str n") (auto simp: canonical_number_def)
qed

lemma read_number_pos:
  "is_digit c \<Longrightarrow> c \<noteq> CHR ''0'' \<Longrightarrow> list_all is_digit cs \<Longrightarrow> 0 < read_number (c # cs)"
proof (induction cs rule: rev_induct)
  case Nil
  then show ?case using digit_zero [of c] by (auto simp: read_number_def)
next
  case (snoc d ds)
  then have "0 < read_number (c # ds)" by simp
  then show ?case using read_number_snoc [of "c # ds" d] by simp
qed

lemma nat_str_read: "canonical_number s \<Longrightarrow> nat_str (read_number s) = s"
proof -
  have "nat_str (read_number (c # cs)) = c # cs"
    if "is_digit c" "c \<noteq> CHR ''0''" "list_all is_digit cs" for c cs
    using that
  proof (induction cs rule: rev_induct)
    case Nil
    then show ?case using digit_value_char [of c] by (simp add: read_number_def nat_str.simps)
  next
    case (snoc d ds)
    then have pos: "0 < read_number (c # ds)" using read_number_pos by simp
    have d: "digit_char (digit_value d) = d" "digit_value d < 10"
      using snoc.prems digit_value_char [of d] by auto
    have n: "read_number (c # ds @ [d]) = 10 * read_number (c # ds) + digit_value d"
      using read_number_snoc [of "c # ds" d] by simp
    have "nat_str (read_number (c # ds @ [d])) = nat_str (read_number (c # ds)) @ [d]"
      unfolding n using pos d by (subst nat_str.simps) simp
    with snoc show ?case by simp
  qed
  moreover have "nat_str (read_number ''0'') = ''0''" by code_simp
  ultimately show "canonical_number s \<Longrightarrow> nat_str (read_number s) = s"
    by (auto simp: canonical_number_def split: list.splits)
qed

lemma canonical_no_dot: "canonical_number s \<Longrightarrow> CHR ''.'' \<notin> set s"
proof -
  have "\<not> is_digit (CHR ''.'')" by (simp add: is_digit_def)
  then show "canonical_number s \<Longrightarrow> CHR ''.'' \<notin> set s"
    by (auto simp: canonical_number_def list_all_iff split: list.splits)
qed

lemma parse_version_Some:
  "parse_version s = Some (x, y) \<longleftrightarrow>
     (\<exists>a b. s = a @ ''.'' @ b \<and> canonical_number a \<and> canonical_number b
        \<and> x = int (read_number a) \<and> y = int (read_number b))"
proof
  assume "parse_version s = Some (x, y)"
  then obtain a b where s: "split_on (CHR ''.'') s = [a, b]" and c: "canonical_number a" "canonical_number b"
    "x = int (read_number a)" "y = int (read_number b)"
    by (auto simp: parse_version_def split: list.splits if_splits)
  from join_split_on [of "CHR ''.''" s] s have "s = a @ ''.'' @ b" by simp
  with c show "\<exists>a b. s = a @ ''.'' @ b \<and> canonical_number a \<and> canonical_number b
      \<and> x = int (read_number a) \<and> y = int (read_number b)" by blast
next
  assume "\<exists>a b. s = a @ ''.'' @ b \<and> canonical_number a \<and> canonical_number b
      \<and> x = int (read_number a) \<and> y = int (read_number b)"
  then show "parse_version s = Some (x, y)"
    by (auto simp: parse_version_def split_on_append split_on_id canonical_no_dot)
qed

end
