(* ===== verification/Assignments.thy ===== *)
theory Assignments
  imports Versioning "HOL-Library.Multiset"
begin

text \<open>
  Effective catalog assignments (\<open>apps/platform/src/ai_stp_platform/assignment_resolution.py\<close>):
  the scope of an assignment row, the winner among the rows of one object, and the versions an
  assignment may resolve to. The visible versions come from the catalog and are an argument.
\<close>

section \<open>Rows and scopes\<close>

datatype scope_kind = Employee | Team | Project | Technology | Organization_wide

record catalog_assignment =
  as_id :: string
  as_organization_id :: string
  as_account_id :: "string option"
  as_team_id :: "string option"
  as_project_id :: "string option"
  as_technology_id :: "string option"
  as_harness :: "string option"
  as_state :: string
  as_revision :: int

definition assignment_scope :: "catalog_assignment \<Rightarrow> scope_kind \<times> string" where
  "assignment_scope row =
     (case as_account_id row of Some i \<Rightarrow> (Employee, i)
      | None \<Rightarrow> (case as_team_id row of Some i \<Rightarrow> (Team, i)
      | None \<Rightarrow> (case as_project_id row of Some i \<Rightarrow> (Project, i)
      | None \<Rightarrow> (case as_technology_id row of Some i \<Rightarrow> (Technology, i)
      | None \<Rightarrow> (Organization_wide, as_organization_id row)))))"

section \<open>The winner\<close>

fun rank :: "scope_kind \<Rightarrow> nat" where
  "rank Employee = 0"
| "rank Project = 1"
| "rank Technology = 2"
| "rank Team = 3"
| "rank Organization_wide = 4"

type_synonym entry = "catalog_assignment \<times> scope_kind \<times> string"

definition entry_key :: "entry \<Rightarrow> nat \<times> nat \<times> int \<times> string" where
  "entry_key e = (case e of (row, kind, _) \<Rightarrow>
     (rank kind, if as_harness row \<noteq> None then 0 else 1, - as_revision row, as_id row))"

definition considered_entry ::
  "string \<Rightarrow> string set \<Rightarrow> string option \<Rightarrow> string option \<Rightarrow> string option \<Rightarrow> catalog_assignment \<Rightarrow> bool" where
  "considered_entry account_id team_ids project_id technology_id harness row =
     ((as_harness row = None \<or> as_harness row = harness) \<and>
      (case assignment_scope row of
         (Organization_wide, _) \<Rightarrow> True
       | (Employee, i) \<Rightarrow> i = account_id
       | (Team, i) \<Rightarrow> i \<in> team_ids
       | (Project, i) \<Rightarrow> Some i = project_id
       | (Technology, i) \<Rightarrow> Some i = technology_id))"

fun first_current :: "entry list \<Rightarrow> entry option" where
  "first_current [] = None"
| "first_current ((row, scope) # es) =
     (if as_state row = ''current'' then Some (row, scope) else first_current es)"

definition select_assignment_winner ::
  "catalog_assignment list \<Rightarrow> string \<Rightarrow> string set \<Rightarrow> string option \<Rightarrow> string option \<Rightarrow> string option
     \<Rightarrow> catalog_assignment option \<times> (scope_kind \<times> string) option \<times> entry list \<times> bool" where
  "select_assignment_winner rows account_id team_ids project_id technology_id harness =
     (let considered = sort_key entry_key
            (map (\<lambda>row. (row, assignment_scope row))
               (filter (considered_entry account_id team_ids project_id technology_id harness) rows))
      in case filter (\<lambda>e. fst (snd e) = Employee) considered of
           (row, scope) # _ \<Rightarrow>
             (if as_state row = ''current'' then Some row else None,
              if as_state row = ''current'' then Some scope else None,
              considered, as_state row = ''retired'')
         | [] \<Rightarrow>
             (case first_current considered of
                Some (row, scope) \<Rightarrow> (Some row, Some scope, considered, False)
              | None \<Rightarrow> (None, None, considered, False)))"

section \<open>Eligible versions\<close>

record visible_version =
  vv_version :: string
  vv_lifecycle :: string
  vv_passport_digest :: string

definition ELIGIBLE_LIFECYCLES :: "string set" where
  "ELIGIBLE_LIFECYCLES = {''active'', ''deprecated''}"

definition canonical_version :: "string \<Rightarrow> bool" where
  "canonical_version v = (parse_version v \<noteq> None)"

definition eligible_assignment_versions :: "visible_version list \<Rightarrow> (string \<times> string) list" where
  "eligible_assignment_versions rows =
     sort_key (\<lambda>(v, _). case parse_version v of None \<Rightarrow> (0, 0) | Some p \<Rightarrow> p)
       (map (\<lambda>r. (vv_version r, vv_passport_digest r))
          (filter (\<lambda>r. vv_lifecycle r \<in> ELIGIBLE_LIFECYCLES \<and> canonical_version (vv_version r)) rows))"

section \<open>Sorting by a key that tells rows apart\<close>

lemma sort_key_perm:
  assumes "mset xs = mset ys" and "inj_on k (set xs)"
  shows "sort_key k xs = sort_key k ys"
proof -
  have set_eq: "set ys = set xs" using mset_eq_setD [OF assms(1)] by simp
  have one: "filter (\<lambda>x. k a = k x) zs = replicate (count (mset zs) a) a"
    if "set zs = set xs" "a \<in> set xs" for zs a
  proof -
    have "\<forall>x \<in> set zs. k a = k x \<longleftrightarrow> x = a" using assms(2) that by (auto dest: inj_onD)
    then have "filter (\<lambda>x. k a = k x) zs = filter (\<lambda>x. x = a) zs" by (auto intro!: filter_cong)
    moreover have "filter (\<lambda>x. x = a) zs = replicate (count (mset zs) a) a" by (induction zs) auto
    ultimately show ?thesis by simp
  qed
  show ?thesis
  proof (rule properties_for_sort_key)
    show "mset (sort_key k ys) = mset xs" using assms(1) by simp
    show "sorted (map k (sort_key k ys))" by simp
    fix a assume "a \<in> set (sort_key k ys)"
    then have "a \<in> set xs" using set_eq by simp
    then show "filter (\<lambda>x. k a = k x) (sort_key k ys) = filter (\<lambda>x. k a = k x) xs"
      using one [of "sort_key k ys" a] one [of xs a] set_eq assms(1) by simp
  qed
qed

lemma first_current_find: "first_current es = find (\<lambda>e. as_state (fst e) = ''current'') es"
  by (induction es rule: first_current.induct) auto

lemma find_sorted_least:
  assumes "sorted (map (k :: 'a \<Rightarrow> 'k :: linorder) xs)" and "find P xs = Some x" and "y \<in> set xs" and "P y"
  shows "k x \<le> k y"
  using assms by (induction xs) (auto split: if_splits dest: find_mem)

lemma find_exists: "y \<in> set xs \<Longrightarrow> P y \<Longrightarrow> \<exists>x. find P xs = Some x"
  by (induction xs) auto

lemma hd_filter_least:
  assumes "sorted (map (k :: 'a \<Rightarrow> 'k :: linorder) xs)" and "filter P xs = x # r" and "y \<in> set xs" and "P y"
  shows "k x \<le> k y"
proof -
  have "sorted (map k (x # r))" using assms(1,2) sorted_filter [of k xs P] by simp
  moreover have "y \<in> set (filter P xs)" using assms(3,4) by simp
  then have "y \<in> set (x # r)" using assms(2) by simp
  ultimately show ?thesis by auto
qed

section \<open>Properties\<close>

text \<open>Canonical version text and pairs of non-negative numbers correspond one to one: what was
  parsed prints back as the same text, what was printed parses back as the same numbers, and the
  comparison of two versions is the numeric order, equal only for equal text.\<close>

theorem versions_round_trip_and_compare_numerically:
  "(parse_version s = Some (x, y) \<longrightarrow> format_version x y = Some s)
   \<and> (0 \<le> x \<and> 0 \<le> y \<longrightarrow> (\<exists>t. format_version x y = Some t \<and> parse_version t = Some (x, y)))
   \<and> (parse_version s = Some (x, y) \<and> parse_version s' = Some (x', y') \<longrightarrow>
        (compare_versions s s' = Some (-1) \<longleftrightarrow> x < x' \<or> x = x' \<and> y < y')
        \<and> (compare_versions s s' = Some 0 \<longleftrightarrow> s = s'))"
proof -
  have print: "format_version x y = Some s" if p: "parse_version s = Some (x, y)" for s x y
  proof -
    from p obtain a b where "s = a @ ''.'' @ b" and "canonical_number a" "canonical_number b"
      "x = int (read_number a)" "y = int (read_number b)"
      by (auto simp: parse_version_Some)
    then show ?thesis by (simp add: format_version_def int_str_def nat_str_read)
  qed
  have "\<exists>t. format_version x y = Some t \<and> parse_version t = Some (x, y)" if "0 \<le> x" "0 \<le> y"
  proof -
    have "parse_version (nat_str (nat x) @ ''.'' @ nat_str (nat y)) = Some (x, y)"
      unfolding parse_version_Some using that
      by (intro exI [of _ "nat_str (nat x)"] exI [of _ "nat_str (nat y)"])
        (simp add: read_nat_str canonical_nat_str)
    with that show ?thesis by (simp add: format_version_def int_str_def)
  qed
  moreover have "s = s'" if "parse_version s = Some (x, y)" "parse_version s' = Some (x, y)"
    using print [OF that(1)] print [OF that(2)] by simp
  ultimately show ?thesis
    using print [of s x y] by (auto simp: compare_versions_def less_prod_def)
qed

theorem versions_round_trip_and_compare_numerically_witness:
  "format_version 1 10 = Some ''1.10'' \<and> compare_versions ''1.9'' ''1.10'' = Some (-1)"
proof -
  have p: "parse_version ''1.10'' = Some (1, 10)" "parse_version ''1.9'' = Some (1, 9)" by code_simp+
  show ?thesis
    using versions_round_trip_and_compare_numerically [of "''1.10''" 1 10 "''1.9''" 1 9] p
      versions_round_trip_and_compare_numerically [of "''1.9''" 1 9 "''1.10''" 1 10] by simp
qed

lemma entry_key_id: "entry_key (r, s) = entry_key (r', s') \<Longrightarrow> as_id r = as_id r'"
  by (cases s; cases s') (simp add: entry_key_def)

lemma entry_key_employee: "fst s = Employee \<Longrightarrow> fst s' \<noteq> Employee \<Longrightarrow> entry_key (r, s) \<le> entry_key (r', s')"
  by (cases s; cases s'; cases "fst s'") (auto simp: entry_key_def less_eq_prod_def)

lemma rows_entries_inj:
  "distinct (map as_id rows) \<Longrightarrow> inj_on entry_key (set (map (\<lambda>r. (r, assignment_scope r)) (filter P rows)))"
  by (auto simp: inj_on_def distinct_map dest!: entry_key_id)

lemma first_employee_least:
  assumes "sorted (map entry_key cs)" and "filter (\<lambda>e. fst (snd e) = Employee) cs = x # r" and "e \<in> set cs"
  shows "entry_key x \<le> entry_key e"
proof (cases "fst (snd e) = Employee")
  case True
  then show ?thesis by (rule hd_filter_least [OF assms])
next
  case False
  have "x \<in> set (filter (\<lambda>e. fst (snd e) = Employee) cs)" using assms(2) by simp
  then have "fst (snd x) = Employee" by simp
  with False show ?thesis using entry_key_employee [of "snd x" "snd e" "fst x" "fst e"] by simp
qed

text \<open>The winner is a function of the rows, not of their order: any two arrangements of rows with
  distinct ids give the same winner, scope, candidate order and override flag. A winner is current
  and the least current candidate by scope rank, harness-specific first, then newest revision; there
  is none only when no candidate is current or when the least candidate is an employee's own row
  that is not current, which suppresses every wider assignment, and is flagged as an override
  exactly when that row is retired.\<close>

theorem assignment_winner_is_determined:
  assumes "distinct (map as_id rows)" and "mset rows = mset rows'"
    and "select_assignment_winner rows acc tms prj tch har = (w, sc, cs, override)"
  shows "select_assignment_winner rows' acc tms prj tch har = (w, sc, cs, override)
    \<and> set cs = (\<lambda>r. (r, assignment_scope r)) ` {r \<in> set rows. considered_entry acc tms prj tch har r}
    \<and> (\<forall>r. w = Some r \<longrightarrow> as_state r = ''current'' \<and> sc = Some (assignment_scope r) \<and> (r, assignment_scope r) \<in> set cs
         \<and> (\<forall>e \<in> set cs. as_state (fst e) = ''current'' \<longrightarrow> entry_key (r, assignment_scope r) \<le> entry_key e))
    \<and> (w = None \<longrightarrow> (\<forall>e \<in> set cs. as_state (fst e) \<noteq> ''current'')
         \<or> (\<exists>e \<in> set cs. fst (snd e) = Employee \<and> as_state (fst e) \<noteq> ''current'' \<and> (\<forall>e' \<in> set cs. entry_key e \<le> entry_key e')))
    \<and> (override \<longleftrightarrow> (\<exists>e \<in> set cs. fst (snd e) = Employee \<and> as_state (fst e) = ''retired'' \<and> (\<forall>e' \<in> set cs. entry_key e \<le> entry_key e')))"
proof -
  let ?P = "considered_entry acc tms prj tch har"
  let ?es = "\<lambda>rs. map (\<lambda>r. (r, assignment_scope r)) (filter ?P rs)"
  have inj: "inj_on entry_key (set (?es rows))" by (rule rows_entries_inj [OF assms(1)])
  have "mset (?es rows) = mset (?es rows')" using assms(2) by simp
  then have perm: "sort_key entry_key (?es rows) = sort_key entry_key (?es rows')" by (rule sort_key_perm [OF _ inj])
  then have same: "select_assignment_winner rows' acc tms prj tch har = (w, sc, cs, override)"
    using assms(3) unfolding select_assignment_winner_def by simp
  let ?cs = "sort_key entry_key (?es rows)"
  have cs: "cs = ?cs" using assms(3)
    by (auto simp: select_assignment_winner_def Let_def split: list.splits option.splits)
  have srt: "sorted (map entry_key cs)" unfolding cs by simp
  have set_cs: "set cs = (\<lambda>r. (r, assignment_scope r)) ` {r \<in> set rows. ?P r}" unfolding cs by simp
  have uniq: "e = e'" if "e \<in> set cs" "e' \<in> set cs" "entry_key e = entry_key e'" for e e'
    using inj_onD [OF inj that(3)] that(1,2) unfolding cs by simp
  have scope: "snd e = assignment_scope (fst e)" if "e \<in> set cs" for e using that set_cs by auto
  let ?emp = "filter (\<lambda>e. fst (snd e) = Employee) cs"
  show ?thesis
  proof (cases ?emp)
    case (Cons x r)
    then have "x \<in> set ?emp" by simp
    then have x: "x \<in> set cs" "fst (snd x) = Employee" by simp_all
    have least: "entry_key x \<le> entry_key e" if "e \<in> set cs" for e
      by (rule first_employee_least [OF srt Cons that])
    have res: "w = (if as_state (fst x) = ''current'' then Some (fst x) else None)"
      "sc = (if as_state (fst x) = ''current'' then Some (snd x) else None)"
      "override = (as_state (fst x) = ''retired'')"
      using assms(3) Cons unfolding select_assignment_winner_def Let_def cs by (auto split: prod.splits)
    have only: "e = x" if "e \<in> set cs" "\<forall>e' \<in> set cs. entry_key e \<le> entry_key e'" for e
      using uniq [OF that(1) x(1)] least [OF that(1)] that(2) x(1) by (simp add: antisym)
    have entry: "(fst x, assignment_scope (fst x)) = x" using scope [OF x(1)] by (cases x) simp
    show ?thesis
    proof (intro conjI)
      show "\<forall>r. w = Some r \<longrightarrow> as_state r = ''current'' \<and> sc = Some (assignment_scope r) \<and> (r, assignment_scope r) \<in> set cs
         \<and> (\<forall>e \<in> set cs. as_state (fst e) = ''current'' \<longrightarrow> entry_key (r, assignment_scope r) \<le> entry_key e)"
        using res(1,2) least x(1) entry scope [OF x(1)] by (auto split: if_splits)
      show "w = None \<longrightarrow> (\<forall>e \<in> set cs. as_state (fst e) \<noteq> ''current'')
         \<or> (\<exists>e \<in> set cs. fst (snd e) = Employee \<and> as_state (fst e) \<noteq> ''current'' \<and> (\<forall>e' \<in> set cs. entry_key e \<le> entry_key e'))"
        using res(1) least x by (metis option.distinct(1))
      show "override = (\<exists>e \<in> set cs. fst (snd e) = Employee \<and> as_state (fst e) = ''retired'' \<and> (\<forall>e' \<in> set cs. entry_key e \<le> entry_key e'))"
        using res(3) least x only by blast
    qed (rule same set_cs)+
  next
    case Nil
    then have none: "\<forall>e \<in> set cs. fst (snd e) \<noteq> Employee" by (simp add: filter_empty_conv)
    have res: "override = False"
      "(w, sc) = (case first_current cs of None \<Rightarrow> (None, None) | Some (row, scope) \<Rightarrow> (Some row, Some scope))"
      using assms(3) Nil unfolding select_assignment_winner_def Let_def cs by (auto split: option.splits)
    show ?thesis
    proof (cases "first_current cs")
      case None
      then have "\<forall>e \<in> set cs. as_state (fst e) \<noteq> ''current''"
        unfolding first_current_find find_None_iff by blast
      with None res none same set_cs show ?thesis by simp
    next
      case (Some x)
      then have f: "find (\<lambda>e. as_state (fst e) = ''current'') cs = Some x" by (simp add: first_current_find)
      then have x: "x \<in> set cs" "as_state (fst x) = ''current''" using find_mem [OF f] by simp_all
      have least: "entry_key x \<le> entry_key e" if "e \<in> set cs" "as_state (fst e) = ''current''" for e
        using find_sorted_least [OF srt f that(1)] that(2) by simp
      have w: "w = Some (fst x)" "sc = Some (snd x)" using res(2) Some by (simp_all add: prod.case_eq_if)
      have entry: "(fst x, assignment_scope (fst x)) = x" using scope [OF x(1)] by (cases x) simp
      show ?thesis
      proof (intro conjI)
        show "\<forall>r. w = Some r \<longrightarrow> as_state r = ''current'' \<and> sc = Some (assignment_scope r) \<and> (r, assignment_scope r) \<in> set cs
         \<and> (\<forall>e \<in> set cs. as_state (fst e) = ''current'' \<longrightarrow> entry_key (r, assignment_scope r) \<le> entry_key e)"
          using w least x entry scope [OF x(1)] by simp
        show "w = None \<longrightarrow> (\<forall>e \<in> set cs. as_state (fst e) \<noteq> ''current'')
         \<or> (\<exists>e \<in> set cs. fst (snd e) = Employee \<and> as_state (fst e) \<noteq> ''current'' \<and> (\<forall>e' \<in> set cs. entry_key e \<le> entry_key e'))"
          using w(1) by simp
        show "override = (\<exists>e \<in> set cs. fst (snd e) = Employee \<and> as_state (fst e) = ''retired'' \<and> (\<forall>e' \<in> set cs. entry_key e \<le> entry_key e'))"
          using res(1) none by blast
      qed (rule same set_cs)+
    qed
  qed
qed

definition sample_assignment :: "string \<Rightarrow> string option \<Rightarrow> string \<Rightarrow> catalog_assignment" where
  "sample_assignment i acc state = \<lparr>as_id = i, as_organization_id = ''o1'', as_account_id = acc,
     as_team_id = None, as_project_id = None, as_technology_id = None, as_harness = None,
     as_state = state, as_revision = 1\<rparr>"

theorem assignment_winner_is_determined_witness:
  "fst (select_assignment_winner [sample_assignment ''a'' (Some ''ann'') ''retired'', sample_assignment ''b'' None ''current'']
     ''ann'' {} None None None) = None"
proof -
  let ?rows = "[sample_assignment ''b'' None ''current'', sample_assignment ''a'' (Some ''ann'') ''retired'']"
  obtain sc cs override where s: "select_assignment_winner ?rows ''ann'' {} None None None = (None, sc, cs, override)"
    by (simp add: select_assignment_winner_def sample_assignment_def considered_entry_def assignment_scope_def entry_key_def)
  have "distinct (map as_id ?rows)" by (simp add: sample_assignment_def)
  from assignment_winner_is_determined [OF this _ s] show ?thesis by simp
qed

end
