(* ===== verification/CatalogSearch.thy ===== *)
theory CatalogSearch
  imports CatalogQL Assignments CorporateAuth
begin

text \<open>
  The catalog listing in SQL (\<open>apps/platform/src/ai_stp_platform/catalog_search.py\<close>): the compiled
  query predicate in SQL's three-valued logic, the filters of a search, the order, the keyset and
  the two ways to page. Full-text search (\<open>search_vector @@ plainto_tsquery\<close>, \<open>ts_rank_cd\<close>) is
  PostgreSQL's and an argument. \<open>ORDER BY\<close> text is the order of character codes. A WHERE clause that is
  NULL does not select the row; inside EXISTS, where nothing negates it, such a comparison is
  written as plain falsehood.
\<close>

section \<open>SQL truth values\<close>

type_synonym sql_bool = "bool option"

fun sql_not :: "sql_bool \<Rightarrow> sql_bool" where
  "sql_not None = None"
| "sql_not (Some b) = Some (\<not> b)"

definition sql_and :: "sql_bool \<Rightarrow> sql_bool \<Rightarrow> sql_bool" where
  "sql_and a b = (if a = Some False \<or> b = Some False then Some False
     else if a = Some True \<and> b = Some True then Some True else None)"

definition sql_or :: "sql_bool \<Rightarrow> sql_bool \<Rightarrow> sql_bool" where
  "sql_or a b = (if a = Some True \<or> b = Some True then Some True
     else if a = Some False \<and> b = Some False then Some False else None)"

definition sql_any :: "sql_bool list \<Rightarrow> sql_bool" where
  "sql_any cs = foldr sql_or cs (Some False)"

section \<open>Tables and requests\<close>

record search_projection =
  pr_catalog_metadata_id :: int
  pr_object_kind :: string
  pr_stable_id :: string
  pr_version :: string
  pr_name :: string
  pr_description :: string
  pr_owner_account_id :: string
  pr_component_type :: "string option"
  pr_harness_ids :: "string list"
  pr_tags :: "string list"
  pr_trust_lane :: string
  pr_component_verified :: bool
  pr_safety_percent :: "int option"
  pr_component_verified_expires_at :: "time option"
  pr_lifecycle_state :: string
  pr_updated_at :: time
  pr_likes_count :: int
  pr_support_tier :: string
  pr_support_state :: string
  pr_support_expires_at :: "time option"
  pr_family_id :: "string option"
  pr_family_alignment :: "string option"

record governed_assignment = catalog_assignment +
  ga_object_kind :: string
  ga_stable_id :: string

record catalog_lifecycle =
  cl_organization_id :: string
  cl_object_kind :: string
  cl_stable_id :: string
  cl_version :: string
  cl_state :: string

record catalog_verification =
  cv_organization_id :: string
  cv_object_kind :: string
  cv_stable_id :: string
  cv_version :: string
  cv_state :: string

record catalog_maintainer =
  cm_organization_id :: string
  cm_object_kind :: string
  cm_stable_id :: string
  cm_subject_id :: string
  cm_state :: string

record catalog_ownership =
  co_organization_id :: string
  co_object_kind :: string
  co_stable_id :: string
  co_owner_id :: "string option"
  co_owner_account_id :: "string option"

record family_member =
  fm_family_id :: string
  fm_stable_id :: string
  fm_harness_id :: string

record external_product =
  ep_id :: int
  ep_canonical_domain :: string

record search_tables =
  st_projections :: "search_projection list"
  st_author_verified :: "(string \<times> bool) list"
  st_assignments :: "governed_assignment list"
  st_team_members :: "corporate_team_member list"
  st_classifications :: "technology_classification list"
  st_ownerships :: "catalog_ownership list"
  st_maintainers :: "catalog_maintainer list"
  st_verifications :: "catalog_verification list"
  st_lifecycles :: "catalog_lifecycle list"
  st_family_members :: "family_member list"
  st_products :: "external_product list"
  st_product_links :: "(int \<times> int) list"
  st_product_countries :: "(int \<times> string) list"

record relation_filters =
  rf_service_domain :: "string option"
  rf_country_code :: "string option"
  rf_service_domains :: "string list"
  rf_country_codes :: "string list"

record corporate_context =
  cc_organization_id :: string
  cc_account_id :: "string option"
  cc_team_ids :: "string list"
  cc_project_ids :: "string list"
  cc_technology_ids :: "string list"
  cc_category_ids :: "string list"
  cc_owner_ids :: "string list"
  cc_maintainer_ids :: "string list"
  cc_assignment :: "string option"
  cc_verified :: "bool option"

record search_request =
  rq_object_kind :: string
  rq_q :: "string option"
  rq_tags :: "string list"
  rq_harness_id :: "string option"
  rq_harness_ids :: "string list"
  rq_component_type :: "string option"
  rq_component_types :: "string list"
  rq_authors :: "string list"
  rq_verification :: "string list"
  rq_verified_only :: bool
  rq_min_safety_percent :: "int option"
  rq_sort :: string
  rq_sort_direction :: string
  rq_support_tier :: "string option"
  rq_support_state :: "string option"
  rq_relations :: relation_filters
  rq_include_experimental :: bool
  rq_include_deprecated :: bool
  rq_query_expression :: "expression option"
  rq_updated_from :: "int option"
  rq_updated_to :: "int option"
  rq_family_id :: "string option"
  rq_family_alignment :: "string option"
  rq_member_harness_id :: "string option"
  rq_corporate :: "corporate_context option"

text \<open>What PostgreSQL's full-text search answers, and the two clocks.\<close>

record search_engine =
  ts_match :: "string \<Rightarrow> search_projection \<Rightarrow> bool"
  ts_rank :: "string \<Rightarrow> search_projection \<Rightarrow> int"
  db_now :: time
  api_now :: time

section \<open>Text helpers\<close>

definition normalize_search_text :: "string option \<Rightarrow> string option" where
  "normalize_search_text q =
     (case q of None \<Rightarrow> None | Some s \<Rightarrow> if strip s = [] then None else Some (strip s))"

definition unique_sorted :: "string list \<Rightarrow> string list" where
  "unique_sorted values =
     sort (foldl (\<lambda>ordered raw. let token = strip raw in
             if token = [] \<or> token \<in> set ordered then ordered else ordered @ [token]) [] values)"

text \<open>The optional text \<open>s\<close> as a list, without empty text.\<close>

definition some_text :: "string option \<Rightarrow> string list" where
  "some_text s = (case s of Some (c # cs) \<Rightarrow> [c # cs] | _ \<Rightarrow> [])"

definition merged_or_values :: "string option \<Rightarrow> string list \<Rightarrow> string list" where
  "merged_or_values singular values = unique_sorted (values @ some_text singular)"

section \<open>Relation filters\<close>

definition UNSPECIFIED :: string where
  "UNSPECIFIED = ''unspecified''"

record relation_filter_plan =
  rp_active :: bool
  rp_empty :: bool
  rp_include_unlinked :: bool
  rp_query_linked :: bool
  rp_domains :: "string list option"
  rp_countries :: "string list option"
  rp_include_country_less :: bool

text \<open>The domains, whether an unspecified service is asked for, the countries, and whether an
  unspecified country is.\<close>

definition merge_relation_filters :: "relation_filters \<Rightarrow> string list \<times> bool \<times> string list \<times> bool" where
  "merge_relation_filters f =
     (let domain_values = some_text (rf_service_domain f) @ rf_service_domains f;
          country_values = some_text (rf_country_code f) @ rf_country_codes f
      in (map lower (filter (\<lambda>v. casefold v \<noteq> UNSPECIFIED) domain_values),
          list_ex (\<lambda>v. casefold v = UNSPECIFIED) domain_values,
          map upper (filter (\<lambda>v. casefold v \<noteq> UNSPECIFIED) country_values),
          list_ex (\<lambda>v. casefold v = UNSPECIFIED) country_values))"

definition plan_relation_filter :: "relation_filters \<Rightarrow> relation_filter_plan" where
  "plan_relation_filter f =
     (case merge_relation_filters f of (domains, unspecified_service, countries, unspecified_country) \<Rightarrow>
        let service_active = (domains \<noteq> [] \<or> unspecified_service);
            country_active = (countries \<noteq> [] \<or> unspecified_country)
        in if \<not> service_active \<and> \<not> country_active
           then \<lparr>rp_active = False, rp_empty = False, rp_include_unlinked = False, rp_query_linked = False,
                 rp_domains = None, rp_countries = None, rp_include_country_less = False\<rparr>
           else
             let include_unlinked = (unspecified_service \<and> (\<not> country_active \<or> unspecified_country));
                 query_linked = (domains \<noteq> [] \<or> (country_active \<and> \<not> unspecified_service))
             in \<lparr>rp_active = True, rp_empty = (\<not> include_unlinked \<and> \<not> query_linked),
                 rp_include_unlinked = include_unlinked, rp_query_linked = query_linked,
                 rp_domains = (if domains = [] then None else Some domains),
                 rp_countries = (if country_active \<and> countries \<noteq> [] then Some countries else None),
                 rp_include_country_less = (unspecified_country \<and> query_linked)\<rparr>)"

text \<open>A linked product of the row that satisfies the planned facets.\<close>

definition linked_product :: "search_tables \<Rightarrow> relation_filter_plan \<Rightarrow> search_projection \<Rightarrow> bool" where
  "linked_product db plan row =
     list_ex (\<lambda>(m, p). m = pr_catalog_metadata_id row \<and>
       list_ex (\<lambda>product. ep_id product = p
         \<and> (case rp_domains plan of None \<Rightarrow> True | Some ds \<Rightarrow> ep_canonical_domain product \<in> set ds)
         \<and> (let codes = map snd (filter (\<lambda>(i, c). i = p) (st_product_countries db)) in
            case rp_countries plan of
              Some cs \<Rightarrow> (rp_include_country_less plan \<and> codes = []) \<or> list_ex (\<lambda>c. c \<in> set cs) codes
            | None \<Rightarrow> \<not> rp_include_country_less plan \<or> codes = []))
         (st_products db)) (st_product_links db)"

definition relation_clause :: "search_tables \<Rightarrow> relation_filter_plan \<Rightarrow> search_projection \<Rightarrow> bool" where
  "relation_clause db plan row =
     (\<not> rp_active plan \<or>
      (\<not> rp_empty plan \<and>
       ((rp_query_linked plan \<and> linked_product db plan row)
        \<or> (rp_include_unlinked plan
           \<and> \<not> list_ex (\<lambda>(m, p). m = pr_catalog_metadata_id row) (st_product_links db)))))"

section \<open>The compiled query\<close>

definition author_verified :: "search_tables \<Rightarrow> search_projection \<Rightarrow> bool" where
  "author_verified db row = (map_of (st_author_verified db) (pr_owner_account_id row) = Some True)"

text \<open>The indexed badge, expired in SQL.\<close>

definition current_component_verified :: "search_engine \<Rightarrow> search_projection \<Rightarrow> sql_bool" where
  "current_component_verified eng row =
     sql_and (Some (pr_component_verified row))
       (sql_or (Some (pr_component_verified_expires_at row = None))
               (map_option (\<lambda>t. t > db_now eng) (pr_component_verified_expires_at row)))"

definition verified_flag :: "search_tables \<Rightarrow> search_engine \<Rightarrow> search_projection \<Rightarrow> sql_bool" where
  "verified_flag db eng row = sql_and (Some (author_verified db row)) (current_component_verified eng row)"

definition compile_predicate ::
  "search_tables \<Rightarrow> search_engine \<Rightarrow> ql_field \<Rightarrow> ql_operator \<Rightarrow> string list \<Rightarrow> search_projection \<Rightarrow> sql_bool" where
  "compile_predicate db eng f op vs row =
     (let wanted = map casefold vs;
          present =
            (case f of
               F_NAME \<Rightarrow> Some (lower (pr_name row) \<in> set wanted)
             | F_TAGS \<Rightarrow> sql_any (map (\<lambda>v. Some (v \<in> set (pr_tags row))) wanted)
             | F_HARNESS \<Rightarrow> sql_any (map (\<lambda>v. Some (v \<in> set (pr_harness_ids row))) wanted)
             | F_TYPE \<Rightarrow> Some (lower (case pr_component_type row of None \<Rightarrow> [] | Some t \<Rightarrow> t) \<in> set wanted)
             | F_AUTHOR \<Rightarrow> Some (lower (pr_owner_account_id row) \<in> set wanted)
             | F_VERIFIED \<Rightarrow>
                 sql_any (map (\<lambda>v. Some (verified_flag db eng row = Some (v = ''true''))) wanted))
      in if op = Not_in then sql_not present else present)"

fun compile_expr ::
  "search_tables \<Rightarrow> search_engine \<Rightarrow> expression \<Rightarrow> search_projection \<Rightarrow> sql_bool" where
  "compile_expr db eng (TextTerm v) row = Some (ts_match eng v row)"
| "compile_expr db eng (Unary e) row = sql_not (compile_expr db eng e row)"
| "compile_expr db eng (Binary c l r) row =
     (case c of
        And \<Rightarrow> sql_and (compile_expr db eng l row) (compile_expr db eng r row)
      | Or \<Rightarrow> sql_or (compile_expr db eng l row) (compile_expr db eng r row))"
| "compile_expr db eng (Predicate f op vs) row = compile_predicate db eng f op vs row"

definition compile_expression ::
  "search_tables \<Rightarrow> search_engine \<Rightarrow> expression option \<Rightarrow> search_projection \<Rightarrow> sql_bool" where
  "compile_expression db eng e row = (case e of None \<Rightarrow> Some True | Some e \<Rightarrow> compile_expr db eng e row)"

section \<open>Corporate context\<close>

definition PUBLIC_LIFECYCLES :: "string list" where
  "PUBLIC_LIFECYCLES = [''active'', ''deprecated'', ''blocked'']"

text \<open>The current assignments of the object in the organization.\<close>

definition object_assignments ::
  "search_tables \<Rightarrow> corporate_context \<Rightarrow> search_projection \<Rightarrow> governed_assignment list" where
  "object_assignments db cc row =
     filter (\<lambda>a. as_organization_id a = cc_organization_id cc \<and> ga_object_kind a = pr_object_kind row
         \<and> ga_stable_id a = pr_stable_id row \<and> as_state a = ''current'') (st_assignments db)"

definition lifecycle_hidden :: "search_tables \<Rightarrow> corporate_context \<Rightarrow> search_projection \<Rightarrow> bool" where
  "lifecycle_hidden db cc row =
     list_ex (\<lambda>l. cl_organization_id l = cc_organization_id cc \<and> cl_object_kind l = pr_object_kind row
        \<and> cl_stable_id l = pr_stable_id row \<and> cl_version l = pr_version row
        \<and> cl_state l \<in> {''hidden'', ''retired''}) (st_lifecycles db)"

definition category_assigned :: "search_tables \<Rightarrow> corporate_context \<Rightarrow> search_projection \<Rightarrow> bool" where
  "category_assigned db cc row =
     list_ex (\<lambda>a. list_ex (\<lambda>c. tc_organization_id c = as_organization_id a
          \<and> Some (tc_technology_id c) = as_technology_id a \<and> tc_category_id c \<in> set (cc_category_ids cc))
        (st_classifications db)) (object_assignments db cc row)"

definition owned_by :: "search_tables \<Rightarrow> corporate_context \<Rightarrow> search_projection \<Rightarrow> bool" where
  "owned_by db cc row =
     list_ex (\<lambda>w. co_organization_id w = cc_organization_id cc \<and> co_object_kind w = pr_object_kind row
        \<and> co_stable_id w = pr_stable_id row \<and> co_owner_id w \<noteq> None
        \<and> (co_owner_id w \<in> Some ` set (cc_owner_ids cc) \<or> co_owner_account_id w \<in> Some ` set (cc_owner_ids cc)))
       (st_ownerships db)"

definition maintained_by :: "search_tables \<Rightarrow> corporate_context \<Rightarrow> search_projection \<Rightarrow> bool" where
  "maintained_by db cc row =
     list_ex (\<lambda>m. cm_organization_id m = cc_organization_id cc \<and> cm_object_kind m = pr_object_kind row
        \<and> cm_stable_id m = pr_stable_id row \<and> cm_subject_id m \<in> set (cc_maintainer_ids cc)
        \<and> cm_state m = ''current'') (st_maintainers db)"

definition directly_assigned :: "search_tables \<Rightarrow> corporate_context \<Rightarrow> string \<Rightarrow> search_projection \<Rightarrow> bool" where
  "directly_assigned db cc account row =
     list_ex (\<lambda>a. as_account_id a = Some account) (object_assignments db cc row)"

definition team_assigned :: "search_tables \<Rightarrow> corporate_context \<Rightarrow> string \<Rightarrow> search_projection \<Rightarrow> bool" where
  "team_assigned db cc account row =
     list_ex (\<lambda>a. list_ex (\<lambda>m. tmm_organization_id m = as_organization_id a
          \<and> Some (tmm_team_id m) = as_team_id a \<and> tmm_account_id m = account) (st_team_members db))
       (object_assignments db cc row)"

definition verified_in :: "search_tables \<Rightarrow> corporate_context \<Rightarrow> search_projection \<Rightarrow> bool" where
  "verified_in db cc row =
     list_ex (\<lambda>v. cv_organization_id v = cc_organization_id cc \<and> cv_object_kind v = pr_object_kind row
        \<and> cv_stable_id v = pr_stable_id row \<and> cv_version v = pr_version row \<and> cv_state v = ''verified'')
       (st_verifications db)"

definition corporate_clause :: "search_tables \<Rightarrow> corporate_context \<Rightarrow> search_projection \<Rightarrow> bool" where
  "corporate_clause db cc row =
     (let assigned_to = (\<lambda>proj ids. ids = [] \<or> list_ex (\<lambda>a. proj a \<in> Some ` set ids) (object_assignments db cc row))
      in \<not> lifecycle_hidden db cc row
       \<and> assigned_to as_team_id (cc_team_ids cc)
       \<and> assigned_to as_project_id (cc_project_ids cc)
       \<and> assigned_to as_technology_id (cc_technology_ids cc)
       \<and> (cc_category_ids cc = [] \<or> category_assigned db cc row)
       \<and> (cc_owner_ids cc = [] \<or> owned_by db cc row)
       \<and> (cc_maintainer_ids cc = [] \<or> maintained_by db cc row)
       \<and> (if cc_assignment cc = Some ''direct'' then
            (case cc_account_id cc of None \<Rightarrow> False | Some account \<Rightarrow> directly_assigned db cc account row)
          else if cc_assignment cc = Some ''effective'' then
            (case cc_account_id cc of None \<Rightarrow> False
             | Some account \<Rightarrow> directly_assigned db cc account row \<or> team_assigned db cc account row)
          else True)
       \<and> (case cc_verified cc of None \<Rightarrow> True | Some v \<Rightarrow> verified_in db cc row = v))"

section \<open>The filters of a search\<close>

text \<open>\<open>column == value\<close> where the request names a value; a NULL column is not selected.\<close>

definition asks :: "'a option \<Rightarrow> 'a option \<Rightarrow> sql_bool" where
  "asks wanted column =
     (case wanted of None \<Rightarrow> Some True | Some v \<Rightarrow> map_option (\<lambda>c. c = v) column)"

definition is_authoritative :: "search_tables \<Rightarrow> search_engine \<Rightarrow> search_projection \<Rightarrow> sql_bool" where
  "is_authoritative db eng row =
     sql_and (Some (author_verified db row))
       (sql_and (current_component_verified eng row) (Some (pr_trust_lane row = ''authoritative'')))"

definition verification_clause ::
  "search_tables \<Rightarrow> search_engine \<Rightarrow> string list \<Rightarrow> search_projection \<Rightarrow> sql_bool" where
  "verification_clause db eng wanted row =
     (if wanted = [] then Some True
      else sql_any
        ((if ''verified'' \<in> set wanted then [verified_flag db eng row] else [])
         @ (if ''not_verified'' \<in> set wanted
            then [sql_or (Some (\<not> author_verified db row)) (sql_not (current_component_verified eng row))] else [])))"

definition effective_support_state :: "search_engine \<Rightarrow> search_projection \<Rightarrow> string" where
  "effective_support_state eng row =
     (if pr_support_state row = ''verified''
         \<and> (case pr_support_expires_at row of None \<Rightarrow> False | Some t \<Rightarrow> t \<le> api_now eng)
      then ''stale'' else pr_support_state row)"

text \<open>Midnight of a day, in days since the epoch.\<close>

definition day_start :: "int \<Rightarrow> time" where
  "day_start day = seconds (86400 * day)"

definition inclusive_updated_bounds :: "int option \<Rightarrow> int option \<Rightarrow> time option \<times> time option" where
  "inclusive_updated_bounds updated_from updated_to =
     (map_option day_start updated_from, map_option (\<lambda>d. day_start (d + 1)) updated_to)"

text \<open>What the facet base selects, then the whole WHERE clause.\<close>

definition facet_clauses :: "search_tables \<Rightarrow> search_engine \<Rightarrow> search_request \<Rightarrow> search_projection \<Rightarrow> sql_bool list" where
  "facet_clauses db eng rq row =
     [Some (pr_object_kind row = rq_object_kind rq),
      Some (if rq_include_deprecated rq then pr_lifecycle_state row \<in> set PUBLIC_LIFECYCLES
            else pr_lifecycle_state row = ''active''),
      if rq_include_experimental rq then Some True else is_authoritative db eng row,
      if rq_verified_only rq then verified_flag db eng row else Some True,
      verification_clause db eng (unique_sorted (rq_verification rq)) row,
      Some (case rq_corporate rq of None \<Rightarrow> True | Some cc \<Rightarrow> corporate_clause db cc row),
      (case rq_min_safety_percent rq of None \<Rightarrow> Some True
       | Some n \<Rightarrow> map_option (\<lambda>p. p \<ge> n) (pr_safety_percent row)),
      Some (set (unique_sorted (rq_tags rq)) \<subseteq> set (pr_tags row))]"

definition harness_clause :: "search_request \<Rightarrow> search_projection \<Rightarrow> sql_bool" where
  "harness_clause rq row =
     (let wanted = merged_or_values (rq_harness_id rq) (rq_harness_ids rq)
      in Some (wanted = [] \<or> list_ex (\<lambda>h. h \<in> set (pr_harness_ids row)) wanted))"

definition member_clause :: "search_tables \<Rightarrow> search_request \<Rightarrow> search_projection \<Rightarrow> sql_bool" where
  "member_clause db rq row =
     Some (case rq_member_harness_id rq of None \<Rightarrow> True
       | Some h \<Rightarrow> list_ex (\<lambda>current. fm_stable_id current = pr_stable_id row
            \<and> list_ex (\<lambda>sibling. fm_family_id sibling = fm_family_id current \<and> fm_harness_id sibling = h)
                (st_family_members db)) (st_family_members db))"

definition search_clauses :: "search_tables \<Rightarrow> search_engine \<Rightarrow> search_request \<Rightarrow> search_projection \<Rightarrow> sql_bool list" where
  "search_clauses db eng rq row =
     (let types = merged_or_values (rq_component_type rq) (rq_component_types rq);
          authors = unique_sorted (rq_authors rq);
          (start, until) = inclusive_updated_bounds (rq_updated_from rq) (rq_updated_to rq)
      in facet_clauses db eng rq row @
        [harness_clause rq row,
         asks (rq_family_id rq) (pr_family_id row),
         asks (rq_family_alignment rq) (pr_family_alignment row),
         member_clause db rq row,
         (if types = [] then Some True else map_option (\<lambda>t. t \<in> set types) (pr_component_type row)),
         Some (authors = [] \<or> pr_owner_account_id row \<in> set authors),
         asks (rq_support_tier rq) (Some (pr_support_tier row)),
         asks (rq_support_state rq) (Some (effective_support_state eng row)),
         Some (case start of None \<Rightarrow> True | Some t \<Rightarrow> pr_updated_at row \<ge> t),
         Some (case until of None \<Rightarrow> True | Some t \<Rightarrow> pr_updated_at row < t),
         Some (relation_clause db (plan_relation_filter (rq_relations rq)) row),
         compile_expression db eng (rq_query_expression rq) row])"

definition selected :: "search_tables \<Rightarrow> search_engine \<Rightarrow> search_request \<Rightarrow> search_projection list" where
  "selected db eng rq =
     filter (\<lambda>row. list_all (\<lambda>c. c = Some True) (search_clauses db eng rq row)) (st_projections db)"

definition exact_count :: "search_tables \<Rightarrow> search_engine \<Rightarrow> search_request \<Rightarrow> nat" where
  "exact_count db eng rq =
     (if rq_object_kind rq = ''component''
      then length (filter (\<lambda>row. list_all (\<lambda>c. c = Some True) (facet_clauses db eng rq row @ [harness_clause rq row]))
             (st_projections db))
      else 0)"

section \<open>Order and keyset\<close>

datatype sort_value = Num int | Txt string

instantiation sort_value :: linorder
begin

fun less_eq_sort_value :: "sort_value \<Rightarrow> sort_value \<Rightarrow> bool" where
  "less_eq_sort_value (Num a) (Num b) = (a \<le> b)"
| "less_eq_sort_value (Num a) (Txt b) = True"
| "less_eq_sort_value (Txt a) (Num b) = False"
| "less_eq_sort_value (Txt a) (Txt b) = (a \<le> b)"

definition less_sort_value :: "sort_value \<Rightarrow> sort_value \<Rightarrow> bool" where
  "less_sort_value a b \<longleftrightarrow> a \<le> b \<and> \<not> b \<le> a"

instance
proof
  fix x y z :: sort_value
  show "(x < y) = (x \<le> y \<and> \<not> y \<le> x)" by (rule less_sort_value_def)
  show "x \<le> x" by (cases x) auto
  show "x \<le> z" if "x \<le> y" "y \<le> z"
    using that by (cases x; cases y; cases z) auto
  show "x = y" if "x \<le> y" "y \<le> x"
    using that by (cases x; cases y) auto
  show "x \<le> y \<or> y \<le> x" by (cases x; cases y) auto
qed

end

definition time_bucket :: "time \<Rightarrow> time" where
  "time_bucket t = (t div 1000) * 1000"

definition starts_text :: "string \<Rightarrow> string \<Rightarrow> bool" where
  "starts_text needle s \<longleftrightarrow> take (length needle) s = needle"

definition relevance :: "search_engine \<Rightarrow> string option \<Rightarrow> search_projection \<Rightarrow> int" where
  "relevance eng q row =
     (case q of
        None \<Rightarrow> 0
      | Some text \<Rightarrow>
          let needle = casefold (strip text); name = lower (pr_name row) in
          if needle = [] then 0
          else
            let name_score = (if name = needle then 100 else if starts_text needle name then 80
                  else if contains_text needle name then 60 else 0);
                tag_score = (if needle \<in> set (pr_tags row) then 50 else 0);
                author_score = (if contains_text needle (lower (pr_owner_account_id row)) then 40 else 0);
                description_score = (if contains_text needle (lower (pr_description row)) then 20 else 0);
                discrete = max (max name_score tag_score) (max author_score description_score)
            in discrete * 10000 + min (ts_rank eng text row) 9999)"

record cursor_key =
  ck_published_at :: time
  ck_stable_id :: string
  ck_likes_count :: int
  ck_relevance :: int

definition order_key :: "string \<Rightarrow> (search_projection \<Rightarrow> int) \<Rightarrow> search_projection \<Rightarrow> sort_value list" where
  "order_key sort_mode rk row =
     (if sort_mode = ''likes'' then [Num (pr_likes_count row), Num (time_bucket (pr_updated_at row)), Txt (pr_stable_id row)]
      else if sort_mode = ''updated_at'' then [Num (time_bucket (pr_updated_at row)), Txt (pr_stable_id row)]
      else [Num (rk row), Num (time_bucket (pr_updated_at row)), Txt (pr_stable_id row)])"

definition cursor_values :: "string \<Rightarrow> cursor_key \<Rightarrow> sort_value list" where
  "cursor_values sort_mode k =
     (if sort_mode = ''likes'' then [Num (ck_likes_count k), Num (ck_published_at k), Txt (ck_stable_id k)]
      else if sort_mode = ''updated_at'' then [Num (ck_published_at k), Txt (ck_stable_id k)]
      else [Num (ck_relevance k), Num (ck_published_at k), Txt (ck_stable_id k)])"

text \<open>One clause per key column: the columns before it equal the cursor's and it lies beyond.\<close>

definition keyset_clause :: "bool \<Rightarrow> sort_value list \<Rightarrow> sort_value list \<Rightarrow> bool" where
  "keyset_clause descending after columns =
     list_ex (\<lambda>i. take i columns = take i after
        \<and> (if descending then columns ! i < after ! i else columns ! i > after ! i)) [0..<length columns]"

definition ordered :: "bool \<Rightarrow> ('a \<Rightarrow> sort_value list) \<Rightarrow> 'a list \<Rightarrow> 'a list" where
  "ordered descending key rows = (if descending then rev (sort_key key rows) else sort_key key rows)"

section \<open>Pages\<close>

record search_hits =
  sh_rows :: "search_projection list"
  sh_ranks :: "int list"
  sh_next :: "cursor_key option"
  sh_total_items :: "nat option"
  sh_exact_count :: nat

definition search_rank :: "search_engine \<Rightarrow> search_request \<Rightarrow> search_projection \<Rightarrow> int" where
  "search_rank eng rq = relevance eng (normalize_search_text (rq_q rq))"

definition descending_order :: "search_request \<Rightarrow> bool" where
  "descending_order rq \<longleftrightarrow> rq_sort_direction rq \<noteq> ''asc''"

text \<open>The whole listing in its order; pages are parts of it.\<close>

definition listing :: "search_tables \<Rightarrow> search_engine \<Rightarrow> search_request \<Rightarrow> search_projection list" where
  "listing db eng rq =
     ordered (descending_order rq) (order_key (rq_sort rq) (search_rank eng rq)) (selected db eng rq)"

definition row_cursor :: "(search_projection \<Rightarrow> int) \<Rightarrow> search_projection \<Rightarrow> cursor_key" where
  "row_cursor rk row = \<lparr>ck_published_at = time_bucket (pr_updated_at row), ck_stable_id = pr_stable_id row,
     ck_likes_count = pr_likes_count row, ck_relevance = rk row\<rparr>"

text \<open>\<open>OFFSET\<close> pages, numbered from one.\<close>

definition search_page :: "search_tables \<Rightarrow> search_engine \<Rightarrow> search_request \<Rightarrow> nat \<Rightarrow> nat \<Rightarrow> search_hits" where
  "search_page db eng rq page_size page_number =
     (let rows = take page_size (drop ((page_number - 1) * page_size) (listing db eng rq))
      in \<lparr>sh_rows = rows, sh_ranks = map (search_rank eng rq) rows, sh_next = None,
          sh_total_items = Some (length (selected db eng rq)), sh_exact_count = exact_count db eng rq\<rparr>)"

text \<open>Cursor pages: one row more than asked for tells whether there is a next page.\<close>

definition search_after ::
  "search_tables \<Rightarrow> search_engine \<Rightarrow> search_request \<Rightarrow> nat \<Rightarrow> cursor_key option \<Rightarrow> search_hits" where
  "search_after db eng rq page_size after =
     (let rk = search_rank eng rq; key = order_key (rq_sort rq) rk; desc = descending_order rq;
          candidates = (case after of
              None \<Rightarrow> selected db eng rq
            | Some k \<Rightarrow> filter (\<lambda>row. keyset_clause desc (cursor_values (rq_sort rq) k) (key row)) (selected db eng rq));
          fetched = take (page_size + 1) (ordered desc key candidates);
          extra = length fetched > page_size;
          rows = take page_size fetched
      in \<lparr>sh_rows = rows, sh_ranks = map rk rows,
          sh_next = (if extra \<and> rows \<noteq> [] then Some (row_cursor rk (last rows)) else None),
          sh_total_items = None, sh_exact_count = exact_count db eng rq\<rparr>)"

text \<open>Following the cursors from a position, for at most \<open>n\<close> pages.\<close>

fun walk :: "search_tables \<Rightarrow> search_engine \<Rightarrow> search_request \<Rightarrow> nat \<Rightarrow> nat \<Rightarrow> cursor_key option \<Rightarrow> search_projection list list" where
  "walk db eng rq page_size 0 after = []"
| "walk db eng rq page_size (Suc n) after =
     (let hits = search_after db eng rq page_size after
      in sh_rows hits # (case sh_next hits of None \<Rightarrow> [] | Some k \<Rightarrow> walk db eng rq page_size n (Some k)))"

end
