(* ===== verification/CatalogSearchTheorems.thy ===== *)
theory CatalogSearchTheorems
  imports CatalogSearch CatalogQLTheorems
begin

text \<open>
  What the catalog listing promises: the compiled query is never NULL and, where no full-text search
  is involved, selects what the in-memory evaluation selects; following the cursors gives the
  numbered pages, and all of them the whole listing; the default listing is authoritative.
\<close>

section \<open>The keyset is the strict order\<close>

definition beyond :: "bool \<Rightarrow> 'a::linorder \<Rightarrow> 'a \<Rightarrow> bool" where
  "beyond descending a b = (if descending then b < a else a < b)"

lemma beyond_trans: "beyond d a b \<Longrightarrow> beyond d b c \<Longrightarrow> beyond d a c"
  and beyond_irrefl: "\<not> beyond d a a"
  by (auto simp: beyond_def split: if_splits)

lemma first_difference:
  fixes a b :: "'a::linorder list"
  assumes "length a = length b"
  shows "(\<exists>i < length b. take i b = take i a \<and> beyond d (a ! i) (b ! i)) \<longleftrightarrow> beyond d a b"
  using assms
proof (induction a b rule: list_induct2)
  case (Cons x xs y ys)
  have "(\<exists>i < length (y # ys). take i (y # ys) = take i (x # xs) \<and> beyond d ((x # xs) ! i) ((y # ys) ! i)) \<longleftrightarrow>
      beyond d x y \<or> (y = x \<and> (\<exists>i < length ys. take i ys = take i xs \<and> beyond d (xs ! i) (ys ! i)))"
    by (auto simp: less_Suc_eq_0_disj)
  also have "\<dots> \<longleftrightarrow> beyond d (x # xs) (y # ys)"
    unfolding Cons.IH by (auto simp: beyond_def)
  finally show ?case .
qed (simp add: beyond_def)

lemma keyset_is_strict_order:
  assumes "length after = length columns"
  shows "keyset_clause d after columns \<longleftrightarrow> beyond d after columns"
proof -
  have "keyset_clause d after columns \<longleftrightarrow>
      (\<exists>i < length columns. take i columns = take i after \<and> beyond d (after ! i) (columns ! i))"
    by (auto simp: keyset_clause_def list_ex_iff beyond_def)
  with first_difference [OF assms] show ?thesis by simp
qed

section \<open>Ordered listings\<close>

lemma ordered_filter: "ordered d key (filter P rows) = filter P (ordered d key rows)"
  by (simp add: ordered_def filter_sort [symmetric] rev_filter)

lemma set_ordered [simp]: "set (ordered d key rows) = set rows"
  and length_ordered [simp]: "length (ordered d key rows) = length rows"
  by (simp_all add: ordered_def)

lemma ordered_strict:
  assumes "distinct (map key rows)"
  shows "sorted_wrt (\<lambda>a b. beyond d (key a) (key b)) (ordered d key rows)"
proof -
  have "distinct (map key (sort_key key rows))"
    using assms by (simp add: distinct_map)
  then have "sorted_wrt (<) (map key (sort_key key rows))"
    by (simp add: strict_sorted_iff)
  then have "sorted_wrt (\<lambda>a b. key a < key b) (sort_key key rows)" by (simp add: sorted_wrt_map)
  then show ?thesis by (cases d) (simp_all add: ordered_def beyond_def sorted_wrt_rev)
qed

lemma filter_beyond:
  assumes "sorted_wrt (\<lambda>a b. beyond d (key a) (key b)) xs" and "i < length xs"
  shows "filter (\<lambda>r. beyond d (key (xs ! i)) (key r)) xs = drop (Suc i) xs"
  using assms
proof (induction xs arbitrary: i)
  case (Cons x xs)
  show ?case
  proof (cases i)
    case 0
    with Cons.prems show ?thesis by (auto simp: beyond_irrefl intro: filter_True)
  next
    case (Suc j)
    with Cons.prems have j: "j < length xs" "beyond d (key x) (key (xs ! j))" by auto
    then have "\<not> beyond d (key (xs ! j)) (key x)" using beyond_trans beyond_irrefl by blast
    with Suc Cons.IH [OF _ j(1)] Cons.prems(1) show ?thesis by simp
  qed
qed simp

section \<open>Positions in the listing\<close>

lemma cursor_is_key: "cursor_values m (row_cursor rk row) = order_key m rk row"
  by (simp add: cursor_values_def row_cursor_def order_key_def)

lemma order_key_length: "length (order_key m rk row) = (if m = ''updated_at'' then 2 else 3)"
  by (simp add: order_key_def)

lemma order_key_inj: "order_key m rk row = order_key m rk row' \<Longrightarrow> pr_stable_id row = pr_stable_id row'"
  by (auto simp: order_key_def split: if_splits)

text \<open>One row per object of a kind, as the table's unique constraint says.\<close>

definition one_row_per_object :: "search_tables \<Rightarrow> bool" where
  "one_row_per_object db \<longleftrightarrow> distinct (map (\<lambda>r. (pr_object_kind r, pr_stable_id r)) (st_projections db))"

lemma selected_kind: "row \<in> set (selected db eng rq) \<Longrightarrow> pr_object_kind row = rq_object_kind rq"
  by (auto simp: selected_def search_clauses_def facet_clauses_def Let_def split: prod.splits)

lemma selected_keys:
  assumes "one_row_per_object db"
  shows "distinct (map (order_key m rk) (selected db eng rq))"
proof -
  have "distinct (map (\<lambda>r. (pr_object_kind r, pr_stable_id r)) (selected db eng rq))"
    using assms unfolding one_row_per_object_def selected_def by (rule distinct_map_filter)
  then have d: "distinct (selected db eng rq)" and "inj_on (\<lambda>r. (pr_object_kind r, pr_stable_id r)) (set (selected db eng rq))"
    by (simp_all add: distinct_map)
  then have "inj_on (order_key m rk) (set (selected db eng rq))"
    using order_key_inj selected_kind unfolding inj_on_def by (metis (no_types, lifting))
  with d show ?thesis by (simp add: distinct_map)
qed

text \<open>The cursor of the page that starts at a position.\<close>

definition position :: "search_tables \<Rightarrow> search_engine \<Rightarrow> search_request \<Rightarrow> nat \<Rightarrow> cursor_key option" where
  "position db eng rq j =
     (if j = 0 then None else Some (row_cursor (search_rank eng rq) (listing db eng rq ! (j - 1))))"

lemma rows_after:
  assumes "one_row_per_object db" and "j \<le> length (listing db eng rq)"
  shows "ordered (descending_order rq) (order_key (rq_sort rq) (search_rank eng rq))
      (case position db eng rq j of
          None \<Rightarrow> selected db eng rq
        | Some k \<Rightarrow> filter (\<lambda>row. keyset_clause (descending_order rq) (cursor_values (rq_sort rq) k)
             (order_key (rq_sort rq) (search_rank eng rq) row)) (selected db eng rq))
    = drop j (listing db eng rq)"
proof (cases j)
  case 0
  then show ?thesis by (simp add: position_def listing_def)
next
  case (Suc i)
  let ?key = "order_key (rq_sort rq) (search_rank eng rq)" and ?d = "descending_order rq"
  let ?L = "listing db eng rq"
  have L: "?L = ordered ?d ?key (selected db eng rq)" by (simp add: listing_def)
  have "filter (\<lambda>row. keyset_clause ?d (?key (?L ! i)) (?key row)) ?L = drop (Suc i) ?L"
    unfolding keyset_is_strict_order [OF order_key_length [THEN trans, OF order_key_length [symmetric]]]
    by (rule filter_beyond) (use assms Suc ordered_strict [OF selected_keys [OF assms(1)]] L in auto)
  with Suc L show ?thesis by (simp add: position_def cursor_is_key ordered_filter)
qed

lemma page_at:
  assumes "one_row_per_object db" and "j \<le> length (listing db eng rq)" and "0 < ps"
  shows "sh_rows (search_after db eng rq ps (position db eng rq j)) = take ps (drop j (listing db eng rq))"
    and "sh_next (search_after db eng rq ps (position db eng rq j)) =
      (if j + ps < length (listing db eng rq) then position db eng rq (j + ps) else None)"
proof -
  let ?L = "listing db eng rq"
  have f: "take (ps + 1) (ordered (descending_order rq) (order_key (rq_sort rq) (search_rank eng rq))
      (case position db eng rq j of
          None \<Rightarrow> selected db eng rq
        | Some k \<Rightarrow> filter (\<lambda>row. keyset_clause (descending_order rq) (cursor_values (rq_sort rq) k)
             (order_key (rq_sort rq) (search_rank eng rq) row)) (selected db eng rq)))
      = take (ps + 1) (drop j ?L)"
    by (simp only: rows_after [OF assms(1,2)])
  show "sh_rows (search_after db eng rq ps (position db eng rq j)) = take ps (drop j ?L)"
    unfolding search_after_def Let_def f by (simp add: min_def)
  show "sh_next (search_after db eng rq ps (position db eng rq j)) =
      (if j + ps < length ?L then position db eng rq (j + ps) else None)"
  proof (cases "j + ps < length ?L")
    case True
    then have "last (take ps (drop j ?L)) = ?L ! (j + ps - 1)" using assms(3)
      by (simp add: last_conv_nth min_def nth_append)
    moreover have "take ps (drop j ?L) \<noteq> []" "min ps (length ?L - j) = ps" "ps < length ?L - j"
      using True assms(3) by auto
    ultimately show ?thesis
      unfolding search_after_def Let_def f using True assms(3) by (simp add: position_def)
  next
    case False
    then have "\<not> ps < length ?L - j" by arith
    with False show ?thesis unfolding search_after_def Let_def f by simp
  qed
qed

lemma walk_at:
  assumes "one_row_per_object db" and "0 < ps" and "j \<le> length (listing db eng rq)"
  shows "concat (walk db eng rq ps n (position db eng rq j)) = take (n * ps) (drop j (listing db eng rq))
    \<and> (\<forall>i < length (walk db eng rq ps n (position db eng rq j)).
         walk db eng rq ps n (position db eng rq j) ! i = take ps (drop (j + i * ps) (listing db eng rq)))"
  using assms(3)
proof (induction n arbitrary: j)
  case (Suc n)
  let ?L = "listing db eng rq"
  note page = page_at [OF assms(1) Suc.prems assms(2)]
  show ?case
  proof (cases "j + ps < length ?L")
    case True
    then have w: "walk db eng rq ps (Suc n) (position db eng rq j) =
        take ps (drop j ?L) # walk db eng rq ps n (position db eng rq (j + ps))"
      using page assms(2) by (simp add: Let_def position_def split: option.split)
    note IH = Suc.IH [OF less_imp_le [OF True]]
    have "concat (walk db eng rq ps (Suc n) (position db eng rq j)) = take (Suc n * ps) (drop j ?L)"
      using w IH by (simp add: take_add add.commute)
    moreover have "walk db eng rq ps (Suc n) (position db eng rq j) ! i = take ps (drop (j + i * ps) ?L)"
      if "i < length (walk db eng rq ps (Suc n) (position db eng rq j))" for i
    proof (cases i)
      case 0
      with w show ?thesis by simp
    next
      case (Suc k)
      with that w IH show ?thesis by (simp add: add.assoc)
    qed
    ultimately show ?thesis by blast
  next
    case False
    then have w: "walk db eng rq ps (Suc n) (position db eng rq j) = [take ps (drop j ?L)]"
      using page by (simp add: Let_def)
    have "length (drop j ?L) \<le> ps" using False by simp
    moreover have "ps \<le> Suc n * ps" by simp
    ultimately have "take (Suc n * ps) (drop j ?L) = drop j ?L" "take ps (drop j ?L) = drop j ?L"
      by (meson le_trans take_all)+
    with w show ?thesis by simp
  qed
qed simp

section \<open>The compiled query\<close>

lemma sql_ops [simp]:
  "sql_and (Some a) (Some b) = Some (a \<and> b)" "sql_or (Some a) (Some b) = Some (a \<or> b)"
  "sql_not (Some a) = Some (\<not> a)"
  by (auto simp: sql_and_def sql_or_def)

lemma sql_any_known: "sql_any (map (\<lambda>x. Some (P x)) xs) = Some (list_ex P xs)"
  by (induction xs) (simp_all add: sql_any_def)

lemma badge_known:
  "current_component_verified eng row = Some (pr_component_verified row
     \<and> (case pr_component_verified_expires_at row of None \<Rightarrow> True | Some t \<Rightarrow> t > db_now eng))"
  by (auto simp: current_component_verified_def sql_or_def sql_and_def split: option.splits)

definition is_verified :: "search_tables \<Rightarrow> search_engine \<Rightarrow> search_projection \<Rightarrow> bool" where
  "is_verified db eng row \<longleftrightarrow> author_verified db row \<and> pr_component_verified row
     \<and> (case pr_component_verified_expires_at row of None \<Rightarrow> True | Some t \<Rightarrow> t > db_now eng)"

lemma verified_flag_known: "verified_flag db eng row = Some (is_verified db eng row)"
  by (simp add: verified_flag_def badge_known is_verified_def)

lemma compile_predicate_known: "\<exists>b. compile_predicate db eng f op vs row = Some b"
  by (cases f) (simp_all add: compile_predicate_def Let_def sql_any_known comp_def)

lemma compile_known: "\<exists>b. compile_expr db eng e row = Some b"
proof (induction e)
  case (Predicate f op vs)
  show ?case using compile_predicate_known by simp
next
  case (Binary c l r)
  then show ?case by (cases c) auto
qed auto

fun text_free :: "expression \<Rightarrow> bool" where
  "text_free (TextTerm v) = False"
| "text_free (Predicate f op vs) = True"
| "text_free (Unary e) = text_free e"
| "text_free (Binary c l r) = (text_free l \<and> text_free r)"

text \<open>A row that projects a passport of an author, its tags and harnesses in folded form.\<close>

definition projects :: "(rat \<Rightarrow> string) \<Rightarrow> dict \<Rightarrow> string \<Rightarrow> search_projection \<Rightarrow> bool" where
  "projects fl passport author row \<longleftrightarrow>
     lower (pr_name row) = casefold (py_str fl (or_else (dict_get passport ''name'') (JStr [])))
     \<and> \<not> (\<exists>xs. dict_get passport ''name'' = JList xs)
     \<and> pr_tags row = map (\<lambda>t. casefold (py_str fl t)) (case dict_get passport ''tags'' of JList xs \<Rightarrow> xs | _ \<Rightarrow> [])
     \<and> (dict_get passport ''tags'' = JNull \<or> (\<exists>xs. dict_get passport ''tags'' = JList xs))
     \<and> pr_harness_ids row = map casefold (named_harness_ids fl passport)
     \<and> (case pr_component_type row of
          None \<Rightarrow> dict_get passport ''component_type'' = JNull
        | Some t \<Rightarrow> dict_get passport ''component_type'' = JStr t \<and> lower t = casefold t)
     \<and> pr_owner_account_id row = author \<and> lower author = casefold author"

lemma or_else_simps [simp]: "or_else JNull w = w" "or_else (JStr []) w = w" "or_else (JStr (c # cs)) w = JStr (c # cs)"
  "or_else (JList []) w = w" "or_else (JList (x # xs)) w = JList (x # xs)"
  by (simp_all add: or_else_def)

lemma member_any: "list_ex (\<lambda>v. v \<in> set cs) vs \<longleftrightarrow> list_ex (\<lambda>c. c \<in> set vs) cs"
  by (auto simp: list_ex_iff)

lemma casefold_Nil [simp]: "casefold [] = []" and lower_Nil [simp]: "lower [] = []"
  by (simp_all add: casefold_def lower_def)

lemma candidates_not_list: "(\<And>xs. v \<noteq> JList xs) \<Longrightarrow> candidates fl v = [casefold (py_str fl v)]"
  by (cases v) (auto simp: candidates_def)

lemma field_candidates:
  assumes "projects fl passport author row" and "f \<noteq> F_VERIFIED"
  shows "candidates fl (field_value fl passport author v f) =
    (case f of
       F_NAME \<Rightarrow> [lower (pr_name row)] | F_TAGS \<Rightarrow> pr_tags row | F_HARNESS \<Rightarrow> pr_harness_ids row
     | F_TYPE \<Rightarrow> [lower (case pr_component_type row of None \<Rightarrow> [] | Some t \<Rightarrow> t)]
     | F_AUTHOR \<Rightarrow> [lower (pr_owner_account_id row)] | F_VERIFIED \<Rightarrow> [])"
proof (cases f)
  case F_NAME
  have "or_else (dict_get passport ''name'') (JStr []) \<noteq> JList xs" for xs
    using assms(1) by (auto simp: projects_def or_else_def)
  then show ?thesis using assms(1) F_NAME by (simp add: projects_def field_value_def candidates_not_list)
next
  case F_TAGS
  then show ?thesis using assms(1)
    by (auto simp: projects_def field_value_def candidates_def or_else_def split: if_splits)
next
  case F_HARNESS
  then show ?thesis using assms(1) by (simp add: projects_def field_value_def candidates_def comp_def py_str_def)
next
  case F_TYPE
  show ?thesis
  proof (cases "pr_component_type row")
    case None
    with F_TYPE assms(1) show ?thesis by (simp add: projects_def field_value_def candidates_def py_str_def)
  next
    case (Some t)
    with F_TYPE assms(1) show ?thesis
      by (cases t) (simp_all add: projects_def field_value_def candidates_def py_str_def)
  qed
next
  case F_AUTHOR
  then show ?thesis using assms(1) by (simp add: projects_def field_value_def candidates_def py_str_def)
qed (use assms(2) in simp)

lemma verified_values:
  "list_all (\<lambda>v. casefold v \<in> {''true'', ''false''}) vs \<Longrightarrow>
    list_ex (\<lambda>v. b = (casefold v = ''true'')) vs \<longleftrightarrow> (if b then ''true'' else ''false'') \<in> casefold ` set vs"
proof -
  assume vs: "list_all (\<lambda>v. casefold v \<in> {''true'', ''false''}) vs"
  then have "v \<in> set vs \<Longrightarrow> casefold v \<noteq> ''true'' \<longleftrightarrow> casefold v = ''false''" for v
    by (auto simp: list_all_iff)
  then show ?thesis by (cases b) (auto simp: list_ex_iff image_iff; metis)+
qed

lemma casefold_verdict: "casefold ''true'' = ''true''" "casefold ''false'' = ''false''"
  by code_simp+

lemma compile_predicate_matches:
  assumes "projects fl passport author row" and "wf_expr (Predicate f op vs)"
  shows "compile_predicate db eng f op vs row =
    Some (matches_expr fl (Predicate f op vs) passport author (is_verified db eng row))"
proof (cases "f = F_VERIFIED")
  case True
  with assms(2) verified_values [of vs "is_verified db eng row"] show ?thesis
    by (auto simp: compile_predicate_def Let_def sql_any_known comp_def verified_flag_known field_value_def
        candidates_def py_str_def casefold_verdict list_ex_iff)
next
  case False
  then show ?thesis
    using field_candidates [OF assms(1) False]
    by (cases f) (simp_all add: compile_predicate_def Let_def sql_any_known comp_def member_any)
qed

lemma compile_matches:
  assumes "projects fl passport author row" and "wf_expr e" and "text_free e"
  shows "compile_expr db eng e row = Some (matches_expr fl e passport author (is_verified db eng row))"
  using assms(2,3)
proof (induction e)
  case (Predicate f op vs)
  then show ?case using compile_predicate_matches [OF assms(1)] by simp
next
  case (Binary c l r)
  then show ?case by (cases c) auto
qed auto

lemma selected_facets:
  assumes "row \<in> set (selected db eng rq)"
  shows "row \<in> set (st_projections db)" "list_all (\<lambda>c. c = Some True) (facet_clauses db eng rq row)"
proof -
  obtain rest where "search_clauses db eng rq row = facet_clauses db eng rq row @ rest"
    by (cases "inclusive_updated_bounds (rq_updated_from rq) (rq_updated_to rq)")
      (simp add: search_clauses_def Let_def)
  with assms show "row \<in> set (st_projections db)" "list_all (\<lambda>c. c = Some True) (facet_clauses db eng rq row)"
    by (auto simp: selected_def)
qed

section \<open>A sample catalog\<close>

definition sample_row :: "string \<Rightarrow> int \<Rightarrow> search_projection" where
  "sample_row i t = \<lparr>pr_catalog_metadata_id = t, pr_object_kind = ''component'', pr_stable_id = i, pr_version = ''1.0'',
     pr_name = ''hook'', pr_description = [], pr_owner_account_id = ''ann'', pr_component_type = Some ''hook'',
     pr_harness_ids = [''codex''], pr_tags = [''ci''], pr_trust_lane = ''authoritative'', pr_component_verified = True,
     pr_safety_percent = Some 90, pr_component_verified_expires_at = None, pr_lifecycle_state = ''active'',
     pr_updated_at = t, pr_likes_count = 0, pr_support_tier = ''primary'', pr_support_state = ''verified'',
     pr_support_expires_at = None, pr_family_id = None, pr_family_alignment = None\<rparr>"

definition sample_catalog :: search_tables where
  "sample_catalog = \<lparr>st_projections = [sample_row ''b'' 5000, sample_row ''a'' 7000], st_author_verified = [(''ann'', True)],
     st_assignments = [], st_team_members = [], st_classifications = [], st_ownerships = [], st_maintainers = [],
     st_verifications = [], st_lifecycles = [], st_family_members = [], st_products = [], st_product_links = [],
     st_product_countries = []\<rparr>"

definition sample_engine :: search_engine where
  "sample_engine = \<lparr>ts_match = (\<lambda>v row. v = pr_name row), ts_rank = (\<lambda>v row. 0), db_now = 9000, api_now = 9000\<rparr>"

definition sample_request :: "expression option \<Rightarrow> search_request" where
  "sample_request e = \<lparr>rq_object_kind = ''component'', rq_q = None, rq_tags = [], rq_harness_id = None, rq_harness_ids = [],
     rq_component_type = None, rq_component_types = [], rq_authors = [], rq_verification = [], rq_verified_only = False,
     rq_min_safety_percent = None, rq_sort = ''updated_at'', rq_sort_direction = ''desc'', rq_support_tier = None,
     rq_support_state = None, rq_relations = \<lparr>rf_service_domain = None, rf_country_code = None,
       rf_service_domains = [], rf_country_codes = []\<rparr>, rq_include_experimental = False,
     rq_include_deprecated = False, rq_query_expression = e, rq_updated_from = None, rq_updated_to = None,
     rq_family_id = None, rq_family_alignment = None, rq_member_harness_id = None, rq_corporate = None\<rparr>"

lemma sample_walk: "map (map pr_stable_id) (walk sample_catalog sample_engine (sample_request None) 1 2 None) = [[''a''], [''b'']]"
  by code_simp

lemma sample_one_row: "one_row_per_object sample_catalog"
  by (simp add: one_row_per_object_def sample_catalog_def sample_row_def)

section \<open>Properties\<close>

text \<open>C38. Following the cursors walks the listing exactly once. Over unchanging tables, the pages a client
  gets by passing each answer's cursor to the next call are the numbered pages, one after the other,
  and enough of them make up the whole ordered listing: no row is skipped or repeated, for each
  sort, direction, filter and page size.\<close>

theorem cursors_walk_the_listing:
  assumes "one_row_per_object db" and "0 < page_size"
  shows "concat (walk db eng rq page_size n None) = take (n * page_size) (listing db eng rq)
    \<and> (\<forall>i < length (walk db eng rq page_size n None).
         walk db eng rq page_size n None ! i = sh_rows (search_page db eng rq page_size (Suc i)))
    \<and> set (listing db eng rq) = set (selected db eng rq) \<and> distinct (map pr_stable_id (listing db eng rq))"
proof -
  have "position db eng rq 0 = None" by (simp add: position_def)
  with walk_at [OF assms, of 0 eng rq n] have w: "concat (walk db eng rq page_size n None) = take (n * page_size) (listing db eng rq)"
    "\<forall>i < length (walk db eng rq page_size n None). walk db eng rq page_size n None ! i = take page_size (drop (i * page_size) (listing db eng rq))"
    by simp_all
  have L: "set (listing db eng rq) = set (selected db eng rq)" by (simp add: listing_def)
  have "distinct (map (order_key (rq_sort rq) (search_rank eng rq)) (selected db eng rq))"
    by (rule selected_keys [OF assms(1)])
  then have d: "distinct (listing db eng rq)" by (simp add: listing_def ordered_def distinct_map)
  have "inj_on (\<lambda>r. (pr_object_kind r, pr_stable_id r)) (set (st_projections db))"
    using assms(1) by (simp add: one_row_per_object_def distinct_map)
  then have "inj_on pr_stable_id (set (selected db eng rq))"
    using selected_kind by (auto simp: inj_on_def selected_def)
  with d L have "distinct (map pr_stable_id (listing db eng rq))" by (simp add: distinct_map)
  with w L show ?thesis by (auto simp: search_page_def Let_def)
qed

theorem cursors_walk_the_listing_witness:
  "concat (walk sample_catalog sample_engine (sample_request None) 1 2 None)
     = take 2 (listing sample_catalog sample_engine (sample_request None))
   \<and> map (map pr_stable_id) (walk sample_catalog sample_engine (sample_request None) 1 2 None) = [[''a''], [''b'']]"
  using cursors_walk_the_listing [OF sample_one_row, of 1 sample_engine "sample_request None" 2] sample_walk
  by simp

text \<open>C39. The compiled query means what the language means. It is never NULL, so a negation in a query
  really is the complement; and for a query without free text on a row that projects a passport, SQL
  selects the row exactly when the in-memory evaluation of the same expression accepts the
  passport, with the badge read as current.\<close>

theorem compiled_query_agrees_with_matches:
  "(\<exists>b. compile_expression db eng e row = Some b)
   \<and> (\<forall>x. e = Some x \<longrightarrow> wf_expr x \<longrightarrow> text_free x \<longrightarrow> projects fl passport author row \<longrightarrow>
        compile_expression db eng e row = Some (matches fl e passport author (is_verified db eng row)))"
  using compile_known compile_matches
  by (auto simp: compile_expression_def matches_def split: option.splits)

definition sample_passport :: dict where
  "sample_passport = [(''name'', JStr ''hook''), (''tags'', JList [JStr ''ci'']), (''harness_id'', JStr ''codex''),
     (''component_type'', JStr ''hook'')]"

theorem compiled_query_agrees_with_matches_witness:
  "compile_expression sample_catalog sample_engine
     (Some (Binary And (Predicate F_TAGS Is [''CI'']) (Unary (Predicate F_VERIFIED In [''false''])))) (sample_row ''a'' 7000)
   = Some True"
proof -
  let ?e = "Binary And (Predicate F_TAGS Is [''CI'']) (Unary (Predicate F_VERIFIED In [''false'']))"
  have "list_all value_ok [''CI'', ''false'']" by code_simp
  then have "wf_expr ?e" "text_free ?e" by (simp_all add: MAX_IN_VALUES_def casefold_verdict)
  moreover have "projects (\<lambda>r. []) sample_passport ''ann'' (sample_row ''a'' 7000)"
  proof -
    have "lower ''hook'' = ''hook''" "casefold ''hook'' = ''hook''" "casefold ''ci'' = ''ci''" "lower ''ann'' = ''ann''"
      "casefold ''ann'' = ''ann''" "map casefold (named_harness_ids (\<lambda>r. []) sample_passport) = [''codex'']"
      by code_simp+
    then show ?thesis
      by (simp add: projects_def sample_row_def sample_passport_def dict_get_def py_str_def
          named_harness_ids_def or_else_def)
  qed
  ultimately have "compile_expression sample_catalog sample_engine (Some ?e) (sample_row ''a'' 7000)
      = Some (matches (\<lambda>r. []) (Some ?e) sample_passport ''ann'' (is_verified sample_catalog sample_engine (sample_row ''a'' 7000)))"
    using compiled_query_agrees_with_matches [of sample_catalog sample_engine "Some ?e" "sample_row ''a'' 7000" "\<lambda>r. []" sample_passport "''ann''"]
    by blast
  also have "\<dots> = Some True" by code_simp
  finally show ?thesis .
qed

text \<open>The default listing is authoritative. Without the consent to experimental objects, every row on
  any page, numbered or reached by a cursor, is of the asked kind, carries a current component
  badge of a verified author in the authoritative lane, is active or, when deprecated objects are
  asked for, in one of the public states (active, deprecated or blocked), and is not hidden in the
  organization whose context the search runs in.\<close>

theorem default_listing_is_authoritative:
  assumes "row \<in> set (sh_rows (search_page db eng rq page_size page_number))
      \<or> row \<in> set (sh_rows (search_after db eng rq page_size after))"
    and "\<not> rq_include_experimental rq"
  shows "row \<in> set (st_projections db) \<and> pr_object_kind row = rq_object_kind rq
    \<and> is_verified db eng row \<and> pr_trust_lane row = ''authoritative''
    \<and> (pr_lifecycle_state row = ''active'' \<or> rq_include_deprecated rq \<and> pr_lifecycle_state row \<in> set PUBLIC_LIFECYCLES)
    \<and> (\<forall>cc. rq_corporate rq = Some cc \<longrightarrow> \<not> lifecycle_hidden db cc row)"
proof -
  have "row \<in> set (selected db eng rq)"
    using assms(1)
    by (auto simp: search_page_def search_after_def listing_def Let_def dest!: in_set_takeD in_set_dropD split: option.splits)
  note row = selected_facets [OF this]
  from row(2) have "is_authoritative db eng row = Some True" "pr_object_kind row = rq_object_kind rq"
    "if rq_include_deprecated rq then pr_lifecycle_state row \<in> set PUBLIC_LIFECYCLES else pr_lifecycle_state row = ''active''"
    "case rq_corporate rq of None \<Rightarrow> True | Some cc \<Rightarrow> corporate_clause db cc row"
    using assms(2) by (auto simp: facet_clauses_def)
  then show ?thesis
    using row(1)
    by (auto simp: is_authoritative_def badge_known is_verified_def corporate_clause_def Let_def
        split: option.splits if_splits)
qed

theorem default_listing_is_authoritative_witness:
  "\<exists>row. row \<in> set (sh_rows (search_page sample_catalog sample_engine (sample_request None) 5 1))
     \<and> is_verified sample_catalog sample_engine row"
proof -
  have "map pr_stable_id (sh_rows (search_page sample_catalog sample_engine (sample_request None) 5 1)) = [''a'', ''b'']"
    by code_simp
  then obtain row where r: "row \<in> set (sh_rows (search_page sample_catalog sample_engine (sample_request None) 5 1))"
    by (cases "sh_rows (search_page sample_catalog sample_engine (sample_request None) 5 1)") auto
  have "\<not> rq_include_experimental (sample_request None)" by (simp add: sample_request_def)
  from default_listing_is_authoritative [OF disjI1 [OF r] this] r show ?thesis by blast
qed

end
