(* ===== verification/Identity.thy ===== *)
theory Identity
  imports Prelude "HOL-Library.List_Lexorder" "HOL-Library.Char_ord"
begin

text \<open>
  Public identities: the normalisation of names (\<open>packages/foundation/src/ai_stp_foundation/identity.py\<close>)
  and the accounts and catalog lines that own them (\<open>apps/platform/src/ai_stp_platform/identity.py\<close>).
  Text is Latin-1. Unicode NFKC, the byte-order-mark test (its character is not Latin-1) and the
  text the database driver gives for a violated constraint are arguments (\<open>unicode_text\<close>).
\<close>

record unicode_text =
  un_nfkc :: "string \<Rightarrow> string"
  un_has_bom :: "string \<Rightarrow> bool"
  un_conflict_text :: "string \<Rightarrow> string"

section \<open>Normalisation\<close>

definition HANDLE_MAX_LENGTH :: nat where "HANDLE_MAX_LENGTH = 32"
definition DISPLAY_NAME_MAX_LENGTH :: nat where "DISPLAY_NAME_MAX_LENGTH = 80"
definition OFFICIAL_HANDLE :: string where "OFFICIAL_HANDLE = ''ai-stp-official''"
definition OFFICIAL_DISPLAY_NAME :: string where "OFFICIAL_DISPLAY_NAME = ''AI STP Official''"

definition OFFICIAL_ACCOUNT_ID :: string where
  "OFFICIAL_ACCOUNT_ID = ''account_01KZET6ZKJN7S72T5H4WDV62T0''"

definition collapse :: "unicode_text \<Rightarrow> string \<Rightarrow> string" where
  "collapse u value = join '' '' (split_words [] (un_nfkc u value))"

definition normalize_display_key :: "unicode_text \<Rightarrow> string \<Rightarrow> string + string" where
  "normalize_display_key u value =
     (if un_has_bom u value then Inl ''byte-order mark is rejected''
      else
        let collapsed = collapse u value; key = casefold collapsed
        in if key = [] then Inl ''display name is empty after normalization''
           else if length collapsed > DISPLAY_NAME_MAX_LENGTH then Inl ''display name exceeds the length bound''
           else Inr key)"

definition submitted_display_name :: "unicode_text \<Rightarrow> string \<Rightarrow> string + string" where
  "submitted_display_name u value = and_then (normalize_display_key u value) (\<lambda>_. Inr (collapse u value))"

definition is_lower_alpha :: "char \<Rightarrow> bool" where
  "is_lower_alpha c \<longleftrightarrow> (let n = of_char c :: nat in 97 \<le> n \<and> n \<le> 122)"

definition is_slug_char :: "char \<Rightarrow> bool" where
  "is_slug_char c \<longleftrightarrow> (let n = of_char c :: nat in 97 \<le> n \<and> n \<le> 122 \<or> 48 \<le> n \<and> n \<le> 57)"

text \<open>\<open>HANDLE_PATTERN\<close>: a letter, then at most 31 groups, each a letter or digit or a hyphen followed by one.\<close>

fun handle_groups :: "nat \<Rightarrow> string \<Rightarrow> bool" where
  "handle_groups n [] = True"
| "handle_groups 0 (c # cs) = False"
| "handle_groups (Suc n) (c # cs) =
     (if is_slug_char c then handle_groups n cs
      else c = CHR ''-'' \<and> (case cs of d # ds \<Rightarrow> is_slug_char d \<and> handle_groups n ds | [] \<Rightarrow> False))"

definition HANDLE_PATTERN :: "string \<Rightarrow> bool" where
  "HANDLE_PATTERN s = (case s of c # cs \<Rightarrow> is_lower_alpha c \<and> handle_groups 31 cs | [] \<Rightarrow> False)"

definition normalize_handle :: "unicode_text \<Rightarrow> string \<Rightarrow> string + string" where
  "normalize_handle u value =
     (if un_has_bom u value then Inl ''byte-order mark is rejected''
      else
        let folded = casefold (strip (un_nfkc u value))
        in if has_word ''--'' folded then Inl ''handle contains consecutive hyphens''
           else if \<not> HANDLE_PATTERN folded then Inl ''handle is not a closed ASCII handle''
           else if length folded > HANDLE_MAX_LENGTH then Inl ''handle exceeds the length bound''
           else Inr folded)"

text \<open>\<open>re.sub("-{2,}", "-", s)\<close> and \<open>s.strip("-")\<close>.\<close>

fun squeeze_hyphens :: "string \<Rightarrow> string" where
  "squeeze_hyphens [] = []"
| "squeeze_hyphens (c # cs) =
     (if c = CHR ''-'' \<and> (case cs of d # _ \<Rightarrow> d = CHR ''-'' | [] \<Rightarrow> False)
      then squeeze_hyphens cs else c # squeeze_hyphens cs)"

definition strip_hyphens :: "string \<Rightarrow> string" where
  "strip_hyphens s = rev (dropWhile ((=) CHR ''-'') (rev (dropWhile ((=) CHR ''-'') s)))"

definition canonical_slug :: "unicode_text \<Rightarrow> string \<Rightarrow> string + string" where
  "canonical_slug u value = and_then (normalize_display_key u value) (\<lambda>key.
     let hyphened = strip_hyphens (squeeze_hyphens (map (\<lambda>c. if c = CHR '' '' then CHR ''-'' else c) key));
         slug = filter (\<lambda>c. is_slug_char c \<or> c = CHR ''-'') hyphened
     in if slug = [] then Inl ''canonical name is empty after normalization''
        else if length slug > DISPLAY_NAME_MAX_LENGTH then Inl ''canonical name exceeds the length bound''
        else Inr slug)"

definition handle_from_account_id :: "unicode_text \<Rightarrow> string \<Rightarrow> string + string" where
  "handle_from_account_id u account_id =
     (let suffix = drop 1 (dropWhile (\<lambda>c. c \<noteq> CHR ''_'') account_id);
          compact = filter is_slug_char (casefold suffix);
          compact' = (if compact = [] then ''account'' else compact)
      in normalize_handle u (''user-'' @ take (HANDLE_MAX_LENGTH - length ''user-'') compact'))"

definition is_protected_official_handle :: "unicode_text \<Rightarrow> string \<Rightarrow> bool" where
  "is_protected_official_handle u handle =
     (case normalize_handle u handle of Inr h \<Rightarrow> h = OFFICIAL_HANDLE | Inl _ \<Rightarrow> False)"

definition is_protected_official_display :: "unicode_text \<Rightarrow> string \<Rightarrow> bool" where
  "is_protected_official_display u display_name =
     (case (normalize_display_key u display_name, normalize_display_key u OFFICIAL_DISPLAY_NAME) of
        (Inr a, Inr b) \<Rightarrow> a = b | _ \<Rightarrow> False)"

section \<open>Accounts and catalog lines\<close>

record account =
  ia_id :: string
  ia_show_profile_publicly :: bool
  ia_allow_publisher_listing :: bool
  ia_handle :: "string option"
  ia_handle_normalized :: "string option"
  ia_display_name :: "string option"
  ia_display_name_normalized :: "string option"

record catalog_metadata =
  cv_id :: int
  cv_owner_account_id :: string
  cv_object_kind :: string
  cv_stable_id :: string
  cv_version :: "string option"
  cv_current_revision_id :: string
  cv_visibility :: string
  cv_lifecycle_state :: string
  cv_name :: "string option"
  cv_published_at :: "time option"
  cv_trust_lane :: "string option"
  cv_author_verified :: bool
  cv_component_verified :: bool
  cv_passport_digest :: "string option"
  cv_passport_document :: dict
  cv_checks_summary :: dict

record catalog_identity =
  ci_stable_id :: string
  ci_owner_account_id :: string
  ci_canonical_name :: string
  ci_canonical_name_normalized :: string
  ci_ownership_revision_id :: string

record catalog_identity_locale =
  cl_stable_id :: string
  cl_locale :: string
  cl_display_name :: string
  cl_display_name_normalized :: string

record identity_db =
  accounts :: "account list"
  catalog :: "catalog_metadata list"
  identities :: "catalog_identity list"
  locales :: "catalog_identity_locale list"

text \<open>
  \<open>IdentityError\<close>; the same raised from a flush that failed, which leaves the session's transaction
  rolled back; a name that does not normalise; a database constraint that nobody caught.
\<close>

datatype identity_failure =
    IdentityError string string
  | FlushIdentityError string string
  | NormalizationError string
  | ConstraintViolation string

definition conflict_from_integrity :: "unicode_text \<Rightarrow> string \<Rightarrow> identity_failure" where
  "conflict_from_integrity u constraint =
     (let t = un_conflict_text u constraint in
      if has_word ''handle'' t
      then FlushIdentityError ''AI_STP_HANDLE_CONFLICT'' ''the normalized public handle is already assigned''
      else if has_word ''display_name'' t \<and> has_word ''locale'' t
      then FlushIdentityError ''AI_STP_LOCALIZED_NAME_CONFLICT''
        ''the normalized localized component display name is already assigned''
      else if has_word ''display_name'' t
      then FlushIdentityError ''AI_STP_ACCOUNT_DISPLAY_NAME_CONFLICT''
        ''the normalized account display name is already assigned''
      else if has_word ''canonical'' t
      then FlushIdentityError ''AI_STP_CANONICAL_NAME_CONFLICT''
        ''the normalized canonical component name is already assigned''
      else if has_word ''locale_name'' t
      then FlushIdentityError ''AI_STP_LOCALIZED_NAME_CONFLICT''
        ''the normalized localized component display name is already assigned''
      else FlushIdentityError ''AI_STP_HANDLE_CONFLICT'' ''the normalized public identity is already assigned'')"

definition apply_account_names :: "unicode_text \<Rightarrow> string \<Rightarrow> string \<Rightarrow> account \<Rightarrow> string + account" where
  "apply_account_names u handle display_name a =
     and_then (normalize_display_key u display_name) (\<lambda>key.
       Inr (a\<lparr>ia_handle := Some handle, ia_handle_normalized := Some handle,
              ia_display_name := Some display_name, ia_display_name_normalized := Some key\<rparr>))"

text \<open>The two unique indexes of the account table, in the order they were created.\<close>

definition account_conflict :: "account \<Rightarrow> account list \<Rightarrow> string option" where
  "account_conflict a rows =
     (let others = filter (\<lambda>r. ia_id r \<noteq> ia_id a) rows in
      if ia_handle_normalized a \<noteq> None \<and> ia_handle_normalized a \<in> ia_handle_normalized ` set others
      then Some ''uq_account_handle_normalized''
      else if ia_display_name_normalized a \<noteq> None
        \<and> ia_display_name_normalized a \<in> ia_display_name_normalized ` set others
      then Some ''uq_account_display_name_normalized'' else None)"

definition flush_account :: "unicode_text \<Rightarrow> account \<Rightarrow> 'a identity_db_scheme
    \<Rightarrow> (identity_failure + account) \<times> 'a identity_db_scheme" where
  "flush_account u a db =
     (case account_conflict a (accounts db) of
        Some c \<Rightarrow> (Inl (conflict_from_integrity u c), db)
      | None \<Rightarrow> (Inr a, db\<lparr>accounts := update_where (\<lambda>r. ia_id r = ia_id a) (\<lambda>_. a) (accounts db)\<rparr>))"

definition store_names :: "unicode_text \<Rightarrow> account \<Rightarrow> string + string \<Rightarrow> string + string \<Rightarrow> 'a identity_db_scheme
    \<Rightarrow> (identity_failure + account) \<times> 'a identity_db_scheme" where
  "store_names u a handle display db =
     (case (handle, display) of
        (Inl e, _) \<Rightarrow> (Inl (IdentityError ''AI_STP_VALIDATION_ERROR'' e), db)
      | (Inr _, Inl e) \<Rightarrow> (Inl (IdentityError ''AI_STP_VALIDATION_ERROR'' e), db)
      | (Inr h, Inr d) \<Rightarrow>
          if is_protected_official_handle u h \<or> is_protected_official_display u d
          then (Inl (IdentityError ''AI_STP_PERMISSION_DENIED'' ''the Official identity is reserved''), db)
          else (case apply_account_names u h d a of
                  Inl e \<Rightarrow> (Inl (NormalizationError e), db)
                | Inr a' \<Rightarrow> flush_account u a' db))"

text \<open>\<open>allocate_account_identity\<close>: the Official account's flush is outside the \<open>try\<close>. A missing handle
  or name (also the empty one) is derived from the account id.\<close>

definition allocate_account_identity :: "unicode_text \<Rightarrow> account \<Rightarrow> string option \<Rightarrow> string option
    \<Rightarrow> 'a identity_db_scheme \<Rightarrow> (identity_failure + account) \<times> 'a identity_db_scheme" where
  "allocate_account_identity u a handle display_name db =
     (if ia_id a = OFFICIAL_ACCOUNT_ID
      then (case apply_account_names u OFFICIAL_HANDLE OFFICIAL_DISPLAY_NAME a of
              Inl e \<Rightarrow> (Inl (NormalizationError e), db)
            | Inr a' \<Rightarrow>
                (case account_conflict a' (accounts db) of
                   Some c \<Rightarrow> (Inl (ConstraintViolation c), db)
                 | None \<Rightarrow> flush_account u a' db))
      else
        let h = (case handle of Some (c # cs) \<Rightarrow> normalize_handle u (c # cs)
                 | _ \<Rightarrow> handle_from_account_id u (ia_id a));
            d = and_then h (\<lambda>assigned. case display_name of Some (c # cs) \<Rightarrow> submitted_display_name u (c # cs)
                 | _ \<Rightarrow> submitted_display_name u (''User '' @ take 16
                     (if starts_with ''user-'' assigned then drop 5 assigned else assigned)))
        in store_names u a h d db)"

definition set_account_identity :: "unicode_text \<Rightarrow> string \<Rightarrow> string \<Rightarrow> string
    \<Rightarrow> 'a identity_db_scheme \<Rightarrow> (identity_failure + account) \<times> 'a identity_db_scheme" where
  "set_account_identity u account_id handle display_name db =
     (case find (\<lambda>a. ia_id a = account_id) (accounts db) of
        None \<Rightarrow> (Inl (IdentityError ''AI_STP_NOT_FOUND'' ''account not found''), db)
      | Some a \<Rightarrow>
          if ia_id a = OFFICIAL_ACCOUNT_ID
          then (Inl (IdentityError ''AI_STP_PERMISSION_DENIED'' ''the Official identity cannot be renamed''), db)
          else store_names u a (normalize_handle u handle) (submitted_display_name u display_name) db)"

definition assert_catalog_rows_owner :: "string \<Rightarrow> string \<Rightarrow> string \<Rightarrow> 'a identity_db_scheme
    \<Rightarrow> identity_failure option" where
  "assert_catalog_rows_owner stable_id actor object_kind db =
     (if list_ex (\<lambda>r. cv_object_kind r = object_kind \<and> cv_stable_id r = stable_id
            \<and> cv_owner_account_id r \<noteq> actor) (catalog db)
      then Some (IdentityError ''AI_STP_FOREIGN_LINE_OWNERSHIP'' ''the catalog line is owned by another account'')
      else None)"

definition assert_line_owner :: "catalog_identity \<Rightarrow> string \<Rightarrow> string option \<Rightarrow> identity_failure option" where
  "assert_line_owner line actor expected =
     (if ci_owner_account_id line \<noteq> actor
      then Some (IdentityError ''AI_STP_FOREIGN_LINE_OWNERSHIP'' ''the catalog line is owned by another account'')
      else if expected \<noteq> None \<and> expected \<noteq> Some (ci_ownership_revision_id line)
      then Some (IdentityError ''AI_STP_STALE_OWNERSHIP_REVISION''
        ''the expected catalog-line ownership revision is no longer current'')
      else None)"

definition locale_row :: "string \<Rightarrow> string \<Rightarrow> string \<Rightarrow> string \<Rightarrow> catalog_identity_locale" where
  "locale_row stable_id locale_name name key =
     \<lparr>cl_stable_id = stable_id, cl_locale = locale_name, cl_display_name = name,
      cl_display_name_normalized = key\<rparr>"

definition locale_conflict :: "catalog_identity_locale list \<Rightarrow> catalog_identity_locale list \<Rightarrow> string option" where
  "locale_conflict new rows =
     (if list_ex (\<lambda>n. list_ex (\<lambda>r. cl_stable_id r = cl_stable_id n \<and> cl_locale r = cl_locale n) rows) new
      then Some ''uq_catalog_identity_locale_line''
      else if list_ex (\<lambda>n. list_ex (\<lambda>r. cl_locale r = cl_locale n
             \<and> cl_display_name_normalized r = cl_display_name_normalized n) rows) new
      then Some ''uq_catalog_identity_locale_name'' else None)"

text \<open>The first flush of a new line (its canonical name) is outside the \<open>try\<close>, the second inside.\<close>

definition insert_catalog_identity :: "unicode_text \<Rightarrow> string \<Rightarrow> string \<Rightarrow> string \<Rightarrow> string \<Rightarrow> string
    \<Rightarrow> 'a identity_db_scheme \<Rightarrow> (identity_failure + catalog_identity) \<times> 'a identity_db_scheme" where
  "insert_catalog_identity u stable_id owner slug en ru db =
     (let line = \<lparr>ci_stable_id = stable_id, ci_owner_account_id = owner, ci_canonical_name = slug,
                   ci_canonical_name_normalized = slug, ci_ownership_revision_id = []\<rparr>
      in if list_ex (\<lambda>r. ci_canonical_name_normalized r = slug) (identities db)
         then (Inl (ConstraintViolation ''uq_catalog_identity_canonical''), db)
         else (case (normalize_display_key u en, normalize_display_key u ru) of
                 (Inl e, _) \<Rightarrow> (Inl (NormalizationError e), db)
               | (Inr _, Inl e) \<Rightarrow> (Inl (NormalizationError e), db)
               | (Inr en_key, Inr ru_key) \<Rightarrow>
                   let new = [locale_row stable_id ''en'' en en_key, locale_row stable_id ''ru'' ru ru_key]
                   in case locale_conflict new (locales db) of
                        Some c \<Rightarrow> (Inl (conflict_from_integrity u c), db)
                      | None \<Rightarrow> (Inr line, db\<lparr>identities := identities db @ [line],
                                              locales := locales db @ new\<rparr>)))"

definition ensure_catalog_identity :: "unicode_text \<Rightarrow> string \<Rightarrow> string \<Rightarrow> string \<Rightarrow> string \<Rightarrow> string
    \<Rightarrow> string option \<Rightarrow> 'a identity_db_scheme \<Rightarrow> (identity_failure + catalog_identity) \<times> 'a identity_db_scheme" where
  "ensure_catalog_identity u stable_id owner canonical_name en ru expected db =
     (case and_then (canonical_slug u canonical_name) (\<lambda>slug.
             and_then (submitted_display_name u en) (\<lambda>en_name.
             and_then (submitted_display_name u ru) (\<lambda>ru_name. Inr (slug, en_name, ru_name)))) of
        Inl e \<Rightarrow> (Inl (IdentityError ''AI_STP_VALIDATION_ERROR'' e), db)
      | Inr (slug, en_name, ru_name) \<Rightarrow>
          (case assert_catalog_rows_owner stable_id owner ''component'' db of
             Some e \<Rightarrow> (Inl e, db)
           | None \<Rightarrow>
               (case find (\<lambda>r. ci_stable_id r = stable_id) (identities db) of
                  None \<Rightarrow> insert_catalog_identity u stable_id owner slug en_name ru_name db
                | Some line \<Rightarrow>
                    (case assert_line_owner line owner expected of
                       Some e \<Rightarrow> (Inl e, db)
                     | None \<Rightarrow> (Inr line, db)))))"

definition assert_publication_owner :: "string \<Rightarrow> string \<Rightarrow> string option \<Rightarrow> string \<Rightarrow> 'a identity_db_scheme
    \<Rightarrow> identity_failure option" where
  "assert_publication_owner stable_id actor expected object_kind db =
     (if object_kind \<notin> {''component'', ''setup''} then None
      else case assert_catalog_rows_owner stable_id actor object_kind db of
             Some e \<Rightarrow> Some e
           | None \<Rightarrow>
               if object_kind = ''setup'' then None
               else case find (\<lambda>r. ci_stable_id r = stable_id) (identities db) of
                      None \<Rightarrow> None
                    | Some line \<Rightarrow> assert_line_owner line actor expected)"

section \<open>The inventory of collisions\<close>

record IdentityConflict =
  ic_kind :: string
  ic_key :: string
  ic_ids :: string

definition keys_of :: "(string \<times> string) list \<Rightarrow> string list" where
  "keys_of rows = sort (remdups (map fst rows))"

definition ids_under :: "(string \<times> string) list \<Rightarrow> string \<Rightarrow> string list" where
  "ids_under rows key = map snd (filter (\<lambda>r. fst r = key) rows)"

definition collect_identity_conflicts :: "'a identity_db_scheme \<Rightarrow> IdentityConflict list" where
  "collect_identity_conflicts db =
     (let owners = [(cv_stable_id r, cv_owner_account_id r). r \<leftarrow> catalog db, cv_object_kind r = ''component''];
          handles = [(h, ia_id a). a \<leftarrow> accounts db,
            h \<leftarrow> (case ia_handle_normalized a of Some (c # cs) \<Rightarrow> [c # cs] | _ \<Rightarrow> [])];
          displays = [(d, ia_id a). a \<leftarrow> accounts db,
            d \<leftarrow> (case ia_display_name_normalized a of Some (c # cs) \<Rightarrow> [c # cs] | _ \<Rightarrow> [])]
      in [\<lparr>ic_kind = ''mixed_owner'', ic_key = k, ic_ids = join '','' (sort (remdups (ids_under owners k)))\<rparr>.
            k \<leftarrow> keys_of owners, length (remdups (ids_under owners k)) > 1]
         @ [\<lparr>ic_kind = ''handle'', ic_key = k, ic_ids = join '','' (sort (ids_under handles k))\<rparr>.
            k \<leftarrow> keys_of handles, length (ids_under handles k) > 1]
         @ [\<lparr>ic_kind = ''account_display'', ic_key = k, ic_ids = join '','' (sort (ids_under displays k))\<rparr>.
            k \<leftarrow> keys_of displays, length (ids_under displays k) > 1])"

end
