(* ===== verification/IdentityTheorems.thy ===== *)
theory IdentityTheorems
  imports Identity
begin

text \<open>
  Properties of public identities: normal forms, the uniqueness of handles, display names and catalog
  lines in every reachable state, and who may claim a line.
\<close>

section \<open>Normal forms\<close>

text \<open>What the model uses of NFKC and of the byte-order mark: ASCII text is normal and has none.\<close>

definition ascii_stable :: "unicode_text \<Rightarrow> bool" where
  "ascii_stable u \<longleftrightarrow> (\<forall>s. (\<forall>c \<in> set s. (of_char c :: nat) < 128) \<longrightarrow> un_nfkc u s = s \<and> \<not> un_has_bom u s)"

lemma casefold_append [simp]: "casefold (a @ b) = casefold a @ casefold b"
  by (simp add: casefold_def)

lemma fold_slug_char: "is_slug_char c \<or> c = CHR ''-'' \<Longrightarrow> fold_char c = [c] \<and> \<not> is_space c \<and> (of_char c :: nat) < 128"
  by (auto simp: is_slug_char_def Let_def fold_char_def is_space_def)

lemma casefold_slug: "\<forall>c \<in> set s. is_slug_char c \<or> c = CHR ''-'' \<Longrightarrow> casefold s = s"
  by (induction s) (simp_all add: casefold_def fold_slug_char)

lemma dropWhile_none: "\<forall>c \<in> set s. \<not> P c \<Longrightarrow> dropWhile P s = s"
  by (cases s) auto

lemma strip_slug: "\<forall>c \<in> set s. is_slug_char c \<or> c = CHR ''-'' \<Longrightarrow> strip s = s"
  by (simp add: strip_def dropWhile_none fold_slug_char)

lemma handle_groups_chars: "handle_groups n s \<Longrightarrow> \<forall>c \<in> set s. is_slug_char c \<or> c = CHR ''-''"
  by (induction n s rule: handle_groups.induct) (auto split: if_splits list.splits)

lemma alpha_slug: "is_lower_alpha c \<Longrightarrow> is_slug_char c"
  by (simp add: is_lower_alpha_def is_slug_char_def Let_def)

lemma handle_chars: "HANDLE_PATTERN s \<Longrightarrow> \<forall>c \<in> set s. is_slug_char c \<or> c = CHR ''-''"
  by (auto simp: HANDLE_PATTERN_def alpha_slug dest!: handle_groups_chars split: list.splits)

definition closed_handle :: "string \<Rightarrow> bool" where
  "closed_handle h \<longleftrightarrow> HANDLE_PATTERN h \<and> \<not> has_word ''--'' h \<and> length h \<le> HANDLE_MAX_LENGTH"

lemma normalized_closed: "normalize_handle u v = Inr h \<Longrightarrow> closed_handle h"
  by (auto simp: normalize_handle_def closed_handle_def Let_def split: if_splits)

lemma closed_normalizes: "ascii_stable u \<Longrightarrow> closed_handle h \<Longrightarrow> normalize_handle u h = Inr h"
  using handle_chars [of h] fold_slug_char
  by (auto simp: normalize_handle_def closed_handle_def ascii_stable_def strip_slug casefold_slug)

lemma official_closed: "closed_handle OFFICIAL_HANDLE"
  by code_simp

lemma handle_groups_slug: "length s \<le> n \<Longrightarrow> \<forall>c \<in> set s. is_slug_char c \<Longrightarrow> handle_groups n s"
proof (induction s arbitrary: n)
  case (Cons c s)
  then show ?case by (cases n) simp_all
qed simp

lemma no_double_hyphen: "\<forall>c \<in> set s. is_slug_char c \<Longrightarrow> \<not> has_word ''--'' s"
proof (induction s)
  case (Cons c s)
  then have "c \<noteq> CHR ''-''" by (auto simp: is_slug_char_def Let_def)
  with Cons show ?case by simp
qed simp

text \<open>C24. Handles have one normal form. Whatever is accepted as a handle is a closed handle (a letter,
  then letters, digits and single hyphens, at most 32 characters) and normalises to itself; and every
  account id yields one: the derived \<open>user-...\<close> handle is always accepted.\<close>

theorem handles_are_closed_and_normal:
  assumes "ascii_stable u"
  shows "(\<forall>v h. normalize_handle u v = Inr h \<longrightarrow> closed_handle h \<and> normalize_handle u h = Inr h)
    \<and> (\<exists>h. handle_from_account_id u i = Inr h \<and> starts_with ''user-'' h \<and> closed_handle h)"
proof -
  define compact where "compact = (let c = filter is_slug_char (casefold (drop 1 (dropWhile (\<lambda>c. c \<noteq> CHR ''_'') i)))
      in if c = [] then ''account'' else c)"
  have slug: "\<forall>c \<in> set compact. is_slug_char c"
    by (auto simp: compact_def Let_def) (simp_all add: is_slug_char_def)
  obtain d ds where cut: "take 27 compact = d # ds"
    by (cases "take 27 compact") (auto simp: compact_def Let_def split: if_splits)
  have ds: "\<forall>c \<in> set (d # ds). is_slug_char c" using slug set_take_subset [of 27 compact] cut by auto
  have len: "length ds \<le> 26" using arg_cong [OF cut, of length] by simp
  have "handle_groups 27 ds" using ds len by (intro handle_groups_slug) auto
  moreover have "d \<noteq> CHR ''-''" using ds by (auto simp: is_slug_char_def Let_def)
  moreover have "\<not> has_word ''--'' (d # ds)" using no_double_hyphen [OF ds] .
  ultimately have closed: "closed_handle (''user-'' @ d # ds)"
    using ds len by (simp add: closed_handle_def HANDLE_PATTERN_def is_lower_alpha_def is_slug_char_def
        HANDLE_MAX_LENGTH_def numeral_eq_Suc)
  have "handle_from_account_id u i = normalize_handle u (''user-'' @ d # ds)"
    using cut by (simp add: handle_from_account_id_def compact_def Let_def HANDLE_MAX_LENGTH_def)
  then have "handle_from_account_id u i = Inr (''user-'' @ d # ds)"
    using closed_normalizes [OF assms closed] by simp
  then show ?thesis
    using closed normalized_closed closed_normalizes [OF assms] by auto
qed

lemma ascii_stable_identity: "ascii_stable \<lparr>un_nfkc = id, un_has_bom = (\<lambda>_. False), un_conflict_text = id\<rparr>"
  by (simp add: ascii_stable_def)

theorem handles_are_closed_and_normal_witness:
  "normalize_handle \<lparr>un_nfkc = id, un_has_bom = (\<lambda>_. False), un_conflict_text = id\<rparr> ''  Ann-Lee '' = Inr ''ann-lee''
     \<and> closed_handle ''ann-lee''"
proof -
  have "normalize_handle \<lparr>un_nfkc = id, un_has_bom = (\<lambda>_. False), un_conflict_text = id\<rparr> ''  Ann-Lee '' = Inr ''ann-lee''"
    by code_simp
  with handles_are_closed_and_normal [OF ascii_stable_identity] show ?thesis by blast
qed

section \<open>Uniqueness\<close>

definition unique_by :: "(account \<Rightarrow> 'k option) \<Rightarrow> account list \<Rightarrow> bool" where
  "unique_by key rows \<longleftrightarrow> (\<forall>a \<in> set rows. \<forall>b \<in> set rows.
     key a = key b \<and> key a \<noteq> None \<longrightarrow> ia_id a = ia_id b)"

definition account_ok :: "unicode_text \<Rightarrow> account \<Rightarrow> bool" where
  "account_ok u a \<longleftrightarrow>
     (\<forall>h. ia_handle_normalized a = Some h \<longrightarrow> closed_handle h \<and> ia_handle a = Some h
        \<and> (h = OFFICIAL_HANDLE \<longrightarrow> ia_id a = OFFICIAL_ACCOUNT_ID))
     \<and> (\<forall>k. ia_display_name_normalized a = Some k \<and> normalize_display_key u OFFICIAL_DISPLAY_NAME = Inr k
        \<longrightarrow> ia_id a = OFFICIAL_ACCOUNT_ID)"

definition accounts_ok :: "unicode_text \<Rightarrow> account list \<Rightarrow> bool" where
  "accounts_ok u rows \<longleftrightarrow> distinct (map ia_id rows) \<and> (\<forall>a \<in> set rows. account_ok u a)
     \<and> unique_by ia_handle_normalized rows \<and> unique_by ia_display_name_normalized rows"

definition lines_ok :: "catalog_identity list \<Rightarrow> catalog_identity_locale list \<Rightarrow> bool" where
  "lines_ok lines ls \<longleftrightarrow> distinct (map ci_stable_id lines) \<and> distinct (map ci_canonical_name_normalized lines)
     \<and> distinct (map (\<lambda>l. (cl_locale l, cl_display_name_normalized l)) ls)"

abbreviation identity_ok :: "unicode_text \<Rightarrow> identity_db \<Rightarrow> bool" where
  "identity_ok u db \<equiv> accounts_ok u (accounts db) \<and> lines_ok (identities db) (locales db)"

lemma unique_by_update:
  assumes "unique_by key rows" and free: "\<forall>b \<in> set rows. ia_id b \<noteq> ia_id a \<longrightarrow> key a = None \<or> key b \<noteq> key a"
  shows "unique_by key (update_where (\<lambda>r. ia_id r = ia_id a) (\<lambda>_. a) rows)"
  unfolding unique_by_def
proof (intro ballI impI)
  fix x y
  assume "x \<in> set (update_where (\<lambda>r. ia_id r = ia_id a) (\<lambda>_. a) rows)"
    "y \<in> set (update_where (\<lambda>r. ia_id r = ia_id a) (\<lambda>_. a) rows)"
    and same: "key x = key y \<and> key x \<noteq> None"
  then have "x = a \<or> x \<in> set rows \<and> ia_id x \<noteq> ia_id a" "y = a \<or> y \<in> set rows \<and> ia_id y \<noteq> ia_id a"
    by (auto simp: set_update_where)
  with same free assms(1) show "ia_id x = ia_id y" unfolding unique_by_def by metis
qed

lemma conflict_free:
  assumes "account_conflict a rows = None"
  shows "\<forall>b \<in> set rows. ia_id b \<noteq> ia_id a \<longrightarrow> ia_handle_normalized a = None \<or> ia_handle_normalized b \<noteq> ia_handle_normalized a"
    and "\<forall>b \<in> set rows. ia_id b \<noteq> ia_id a \<longrightarrow>
      ia_display_name_normalized a = None \<or> ia_display_name_normalized b \<noteq> ia_display_name_normalized a"
proof -
  have rows: "b \<in> set (filter (\<lambda>r. ia_id r \<noteq> ia_id a) rows)" if "b \<in> set rows" "ia_id b \<noteq> ia_id a" for b
    using that by simp
  from assms have "ia_handle_normalized a = None
      \<or> ia_handle_normalized a \<notin> ia_handle_normalized ` set (filter (\<lambda>r. ia_id r \<noteq> ia_id a) rows)"
    and "ia_display_name_normalized a = None
      \<or> ia_display_name_normalized a \<notin> ia_display_name_normalized ` set (filter (\<lambda>r. ia_id r \<noteq> ia_id a) rows)"
    unfolding account_conflict_def Let_def by (simp_all split: if_splits)
  then show "\<forall>b \<in> set rows. ia_id b \<noteq> ia_id a \<longrightarrow> ia_handle_normalized a = None \<or> ia_handle_normalized b \<noteq> ia_handle_normalized a"
    "\<forall>b \<in> set rows. ia_id b \<noteq> ia_id a \<longrightarrow>
      ia_display_name_normalized a = None \<or> ia_display_name_normalized b \<noteq> ia_display_name_normalized a"
    using rows by (metis image_eqI)+
qed

lemma flush_account_ok:
  assumes "accounts_ok u (accounts db)" and "account_ok u a"
  shows "accounts_ok u (accounts (snd (flush_account u' a db)))"
proof (cases "account_conflict a (accounts db)")
  case None
  have "map ia_id (update_where (\<lambda>r. ia_id r = ia_id a) (\<lambda>_. a) (accounts db)) = map ia_id (accounts db)"
    by (induction "accounts db") (auto simp: update_where_def)
  with None assms show ?thesis
    using unique_by_update [OF _ conflict_free(1) [OF None]] unique_by_update [OF _ conflict_free(2) [OF None]]
    by (auto simp: flush_account_def accounts_ok_def set_update_where)
qed (use assms in \<open>simp add: flush_account_def\<close>)

lemma flush_account_other:
  "identities (snd (flush_account u a db)) = identities db" "locales (snd (flush_account u a db)) = locales db"
  by (simp_all add: flush_account_def split: option.split)

lemma store_names_ok:
  assumes "ascii_stable u" and "accounts_ok u (accounts db)" and "\<And>h. handle = Inr h \<Longrightarrow> closed_handle h"
  shows "accounts_ok u (accounts (snd (store_names u a handle display db)))
    \<and> identities (snd (store_names u a handle display db)) = identities db
    \<and> locales (snd (store_names u a handle display db)) = locales db"
proof (cases "\<exists>h d a'. handle = Inr h \<and> display = Inr d \<and> apply_account_names u h d a = Inr a'
    \<and> \<not> (is_protected_official_handle u h \<or> is_protected_official_display u d)")
  case True
  then obtain h d a' where named: "handle = Inr h" "display = Inr d" "apply_account_names u h d a = Inr a'"
    and free: "\<not> is_protected_official_handle u h" "\<not> is_protected_official_display u d" by blast
  have "h \<noteq> OFFICIAL_HANDLE"
    using free(1) closed_normalizes [OF assms(1) official_closed] by (auto simp: is_protected_official_handle_def)
  then have "account_ok u a'"
    using named(3) free(2) assms(3) [OF named(1)]
    by (auto simp: apply_account_names_def and_then_def account_ok_def is_protected_official_display_def
        split: sum.splits)
  then show ?thesis
    using named free flush_account_ok [OF assms(2)] by (simp add: store_names_def flush_account_other)
next
  case False
  then show ?thesis using assms(2) by (auto simp: store_names_def split: sum.splits)
qed

lemma allocate_ok:
  assumes "ascii_stable u" and "accounts_ok u (accounts db)"
  shows "accounts_ok u (accounts (snd (allocate_account_identity u a handle display db)))
    \<and> identities (snd (allocate_account_identity u a handle display db)) = identities db
    \<and> locales (snd (allocate_account_identity u a handle display db)) = locales db"
proof (cases "ia_id a = OFFICIAL_ACCOUNT_ID")
  case True
  have "account_ok u a'" if "apply_account_names u OFFICIAL_HANDLE OFFICIAL_DISPLAY_NAME a = Inr a'" for a'
    using that True official_closed by (auto simp: apply_account_names_def and_then_def account_ok_def split: sum.splits)
  then show ?thesis using True assms(2) flush_account_ok [OF assms(2)]
    by (auto simp: allocate_account_identity_def flush_account_other split: sum.split option.split)
next
  case False
  have "closed_handle h" if "(case handle of Some (c # cs) \<Rightarrow> normalize_handle u (c # cs)
      | _ \<Rightarrow> handle_from_account_id u (ia_id a)) = Inr h" for h
    using that normalized_closed by (auto simp: handle_from_account_id_def Let_def split: option.splits list.splits)
  with False store_names_ok [OF assms] show ?thesis by (simp add: allocate_account_identity_def Let_def)
qed

lemma rename_ok:
  assumes "ascii_stable u" and "accounts_ok u (accounts db)"
  shows "accounts_ok u (accounts (snd (set_account_identity u i handle display db)))
    \<and> identities (snd (set_account_identity u i handle display db)) = identities db
    \<and> locales (snd (set_account_identity u i handle display db)) = locales db"
  using store_names_ok [OF assms normalized_closed] assms(2)
  by (auto simp: set_account_identity_def split: option.split)

lemma locale_free:
  assumes "locale_conflict new rows = None" and "n \<in> set new" and "r \<in> set rows"
  shows "(cl_locale n, cl_display_name_normalized n) \<noteq> (cl_locale r, cl_display_name_normalized r)"
proof -
  from assms(1) have "\<not> list_ex (\<lambda>n. list_ex (\<lambda>r. cl_locale r = cl_locale n
      \<and> cl_display_name_normalized r = cl_display_name_normalized n) rows) new"
    by (simp add: locale_conflict_def split: if_splits)
  with assms(2,3) show ?thesis unfolding list_ex_iff by (metis prod.inject)
qed

text \<open>The answers of a claim: the line that is there, a new line, or an error that changes nothing.\<close>

lemma claim_cases:
  assumes "ensure_catalog_identity u i owner name en ru expected db = (x, db')"
  obtains (rejected) e where "x = Inl e" "db' = db"
  | (present) line where "x = Inr line" "db' = db" "line \<in> set (identities db)" "ci_stable_id line = i"
      "assert_line_owner line owner expected = None" "assert_catalog_rows_owner i owner ''component'' db = None"
  | (claimed) line ek rk e r where "x = Inr line" "find (\<lambda>r. ci_stable_id r = i) (identities db) = None"
      "\<forall>l \<in> set (identities db). ci_canonical_name_normalized l \<noteq> ci_canonical_name_normalized line"
      "ci_stable_id line = i" "ci_owner_account_id line = owner" "canonical_slug u name = Inr (ci_canonical_name line)"
      "ci_canonical_name_normalized line = ci_canonical_name line" "assert_catalog_rows_owner i owner ''component'' db = None"
      "locale_conflict [locale_row i ''en'' e ek, locale_row i ''ru'' r rk] (locales db) = None"
      "db' = db\<lparr>identities := identities db @ [line],
         locales := locales db @ [locale_row i ''en'' e ek, locale_row i ''ru'' r rk]\<rparr>"
proof -
  show thesis
  proof (cases x)
    case (Inl e)
    with assms have "db' = db"
      by (auto simp: ensure_catalog_identity_def insert_catalog_identity_def Let_def
          split: sum.splits option.splits if_splits prod.splits)
    with Inl show thesis by (rule rejected)
  next
    case (Inr line)
    with assms obtain slug e r where slug: "canonical_slug u name = Inr slug"
      and rows: "assert_catalog_rows_owner i owner ''component'' db = None"
      and rest: "(case find (\<lambda>r. ci_stable_id r = i) (identities db) of
            None \<Rightarrow> insert_catalog_identity u i owner slug e r db
          | Some line \<Rightarrow> (case assert_line_owner line owner expected of
                Some e \<Rightarrow> (Inl e, db) | None \<Rightarrow> (Inr line, db))) = (Inr line, db')"
      by (auto simp: ensure_catalog_identity_def and_then_def split: sum.splits option.splits)
    show thesis
    proof (cases "find (\<lambda>r. ci_stable_id r = i) (identities db)")
      case (Some l)
      with rest have "assert_line_owner l owner expected = None" "l = line" "db' = db"
        by (simp_all split: option.splits)
      with Inr rows find_mem [OF Some] show thesis by (intro present) simp_all
    next
      case None
      with rest show thesis
        by (auto simp: insert_catalog_identity_def Let_def list_ex_iff slug rows
            split: if_splits sum.splits option.splits intro!: claimed [OF Inr None])
    qed
  qed
qed

lemma claim_ok:
  assumes "lines_ok (identities db) (locales db)"
  shows "lines_ok (identities (snd (ensure_catalog_identity u i owner name en ru expected db)))
      (locales (snd (ensure_catalog_identity u i owner name en ru expected db)))
    \<and> accounts (snd (ensure_catalog_identity u i owner name en ru expected db)) = accounts db"
proof (cases "ensure_catalog_identity u i owner name en ru expected db")
  case (Pair x db')
  then show ?thesis
  proof (cases rule: claim_cases)
    case (claimed line ek rk e r)
    let ?new = "[locale_row i ''en'' e ek, locale_row i ''ru'' r rk]"
    have "ci_stable_id l \<noteq> ci_stable_id line" if "l \<in> set (identities db)" for l
      using claimed(2,4) that by (auto simp: find_None_iff)
    moreover have "(''en'', ek) \<noteq> (cl_locale l, cl_display_name_normalized l)"
      "(''ru'', rk) \<noteq> (cl_locale l, cl_display_name_normalized l)" if "l \<in> set (locales db)" for l
      using locale_free [OF claimed(9) _ that, of "locale_row i ''en'' e ek"]
        locale_free [OF claimed(9) _ that, of "locale_row i ''ru'' r rk"] by (simp_all add: locale_row_def)
    then have "(''en'', ek) \<notin> (\<lambda>l. (cl_locale l, cl_display_name_normalized l)) ` set (locales db)"
      "(''ru'', rk) \<notin> (\<lambda>l. (cl_locale l, cl_display_name_normalized l)) ` set (locales db)" by blast+
    ultimately have "ci_stable_id line \<notin> ci_stable_id ` set (identities db)"
      and "ci_canonical_name_normalized line \<notin> ci_canonical_name_normalized ` set (identities db)"
      and "(''en'', ek) \<notin> (\<lambda>l. (cl_locale l, cl_display_name_normalized l)) ` set (locales db)"
      "(''ru'', rk) \<notin> (\<lambda>l. (cl_locale l, cl_display_name_normalized l)) ` set (locales db)"
      using claimed(3) by force+
    with assms claimed(10) Pair show ?thesis by (simp add: lines_ok_def locale_row_def)
  qed (use assms Pair in simp_all)
qed

text \<open>Accounts are created without names, get them on allocation, and may be renamed; publication
  claims catalog lines. The order is arbitrary.\<close>

inductive identity_step :: "unicode_text \<Rightarrow> identity_db \<Rightarrow> identity_db \<Rightarrow> bool" for u where
  Join: "ia_id a \<notin> ia_id ` set (accounts db) \<Longrightarrow> ia_handle_normalized a = None \<Longrightarrow>
    ia_display_name_normalized a = None \<Longrightarrow> identity_step u db (db\<lparr>accounts := accounts db @ [a]\<rparr>)"
| Allocate: "a \<in> set (accounts db) \<Longrightarrow>
    identity_step u db (snd (allocate_account_identity u a handle display db))"
| Rename: "identity_step u db (snd (set_account_identity u i handle display db))"
| Claim: "identity_step u db (snd (ensure_catalog_identity u i owner name en ru expected db))"
| Catalog: "identity_step u db (db\<lparr>catalog := rows\<rparr>)"

lemma unique_by_snoc: "unique_by key rows \<Longrightarrow> key a = None \<Longrightarrow> unique_by key (rows @ [a])"
  unfolding unique_by_def by (metis Un_iff empty_iff empty_set list.simps(15) insert_iff set_append)

lemma step_keeps_ok:
  assumes "ascii_stable u" and "identity_step u db db'" and "identity_ok u db"
  shows "identity_ok u db'"
  using assms(2,3)
proof (induction rule: identity_step.induct)
  case (Join a db)
  then show ?case using unique_by_snoc [of ia_handle_normalized _ a] unique_by_snoc [of ia_display_name_normalized _ a]
    by (simp add: accounts_ok_def account_ok_def)
next
  case (Allocate a db handle display)
  then show ?case by (simp add: allocate_ok [OF assms(1)])
next
  case (Rename db i handle display)
  then show ?case by (simp add: rename_ok [OF assms(1)])
next
  case (Claim db i owner name en ru expected)
  then show ?case by (simp add: claim_ok)
qed simp

definition identity_reachable :: "unicode_text \<Rightarrow> identity_db \<Rightarrow> bool" where
  "identity_reachable u db \<longleftrightarrow>
     (identity_step u)\<^sup>*\<^sup>* \<lparr>accounts = [], catalog = [], identities = [], locales = []\<rparr> db"

lemma reachable_identity_ok: "ascii_stable u \<Longrightarrow> identity_reachable u db \<Longrightarrow> identity_ok u db"
proof -
  assume u: "ascii_stable u" and "identity_reachable u db"
  then have "(identity_step u)\<^sup>*\<^sup>* \<lparr>accounts = [], catalog = [], identities = [], locales = []\<rparr> db"
    by (simp add: identity_reachable_def)
  then show ?thesis
  proof (induction rule: rtranclp_induct)
    case base
    show ?case by (simp add: accounts_ok_def lines_ok_def unique_by_def)
  next
    case (step y z)
    show ?case by (rule step_keeps_ok [OF u step(2,3)])
  qed
qed

text \<open>The inventory of collisions counts the names under each key.\<close>

lemma named_rows_distinct:
  assumes "distinct (map ia_id rows)" and "unique_by key rows"
  shows "distinct (map fst [(h, ia_id a). a \<leftarrow> rows, h \<leftarrow> (case key a of Some (c # cs) \<Rightarrow> [c # cs] | _ \<Rightarrow> [])])"
  using assms
proof (induction rows)
  case (Cons a rows)
  let ?named = "\<lambda>rows. [(h, ia_id a). a \<leftarrow> rows, h \<leftarrow> (case key a of Some (c # cs) \<Rightarrow> [c # cs] | _ \<Rightarrow> [])]"
  have "unique_by key rows" using Cons.prems(2) unfolding unique_by_def by (meson list.set_intros(2))
  with Cons have IH: "distinct (map fst (?named rows))" by simp
  have new: "h \<notin> fst ` set (?named rows)" if "key a = Some h" for h
  proof
    assume "h \<in> fst ` set (?named rows)"
    then obtain b where b: "b \<in> set rows" "h \<in> set (case key b of Some (c # cs) \<Rightarrow> [c # cs] | _ \<Rightarrow> [])" by force
    then have "key b = Some h" by (cases "key b") (auto split: list.splits)
    have "ia_id b = ia_id a" using Cons.prems(2) b(1) that \<open>key b = Some h\<close> unfolding unique_by_def
      by (metis list.set_intros option.distinct(1))
    moreover have "ia_id a \<notin> ia_id ` set rows" using Cons.prems(1) by simp
    ultimately show False using b(1) by (metis image_eqI)
  qed
  show ?case
  proof (cases "key a")
    case (Some h)
    with IH new [OF Some] show ?thesis by (cases h) simp_all
  qed (use IH in simp)
qed simp

lemma ids_under_once: "distinct (map fst xs) \<Longrightarrow> length (ids_under xs k) \<le> 1"
proof (induction xs)
  case (Cons x xs)
  show ?case
  proof (cases "fst x = k")
    case True
    with Cons.prems have "k \<notin> fst ` set xs" by simp
    then have "filter (\<lambda>r. fst r = k) xs = []" unfolding filter_empty_conv by (metis image_eqI)
    with True show ?thesis by (simp add: ids_under_def)
  qed (use Cons in \<open>simp add: ids_under_def\<close>)
qed (simp add: ids_under_def)

lemma no_conflict_listed:
  assumes "accounts_ok u (accounts db)" and "c \<in> set (collect_identity_conflicts db)"
  shows "ic_kind c = ''mixed_owner''"
proof -
  let ?handles = "[(h, ia_id a). a \<leftarrow> accounts db, h \<leftarrow> (case ia_handle_normalized a of Some (c # cs) \<Rightarrow> [c # cs] | _ \<Rightarrow> [])]"
  let ?displays = "[(h, ia_id a). a \<leftarrow> accounts db, h \<leftarrow> (case ia_display_name_normalized a of Some (c # cs) \<Rightarrow> [c # cs] | _ \<Rightarrow> [])]"
  have "length (ids_under ?handles k) \<le> 1" "length (ids_under ?displays k) \<le> 1" for k
    using assms(1) by (intro ids_under_once named_rows_distinct; simp add: accounts_ok_def)+
  then have few: "\<not> 1 < length (ids_under ?handles k)" "\<not> 1 < length (ids_under ?displays k)" for k
    by (simp_all add: linorder_not_less)
  from assms(2) show ?thesis
    unfolding collect_identity_conflicts_def Let_def using few by auto
qed

text \<open>C22. Public names are unique. However accounts join, are named, renamed and claim catalog lines:
  two accounts never share a normalized handle or display name, two lines never share a canonical name
  and two localized names of a language never coincide; every handle is closed, the Official handle
  belongs to the Official account, and the inventory of collisions lists no handle and no display name.\<close>

theorem public_names_stay_unique:
  assumes "ascii_stable u" and "identity_reachable u db"
  shows "(\<forall>a \<in> set (accounts db). \<forall>b \<in> set (accounts db). ia_id a \<noteq> ia_id b \<longrightarrow>
      (ia_handle_normalized a = None \<or> ia_handle_normalized a \<noteq> ia_handle_normalized b)
      \<and> (ia_display_name_normalized a = None \<or> ia_display_name_normalized a \<noteq> ia_display_name_normalized b))
    \<and> (\<forall>a \<in> set (accounts db). \<forall>h. ia_handle_normalized a = Some h \<longrightarrow>
        closed_handle h \<and> (h = ''ai-stp-official'' \<longrightarrow> ia_id a = OFFICIAL_ACCOUNT_ID))
    \<and> distinct (map ci_stable_id (identities db)) \<and> distinct (map ci_canonical_name_normalized (identities db))
    \<and> distinct (map (\<lambda>l. (cl_locale l, cl_display_name_normalized l)) (locales db))
    \<and> (\<forall>c \<in> set (collect_identity_conflicts db). ic_kind c = ''mixed_owner'')"
proof -
  note ok = reachable_identity_ok [OF assms]
  have "\<forall>a \<in> set (accounts db). \<forall>b \<in> set (accounts db). ia_id a \<noteq> ia_id b \<longrightarrow>
      (ia_handle_normalized a = None \<or> ia_handle_normalized a \<noteq> ia_handle_normalized b)
      \<and> (ia_display_name_normalized a = None \<or> ia_display_name_normalized a \<noteq> ia_display_name_normalized b)"
    using ok unfolding accounts_ok_def unique_by_def by blast
  moreover have "\<forall>a \<in> set (accounts db). \<forall>h. ia_handle_normalized a = Some h \<longrightarrow>
      closed_handle h \<and> (h = ''ai-stp-official'' \<longrightarrow> ia_id a = OFFICIAL_ACCOUNT_ID)"
    using ok unfolding accounts_ok_def account_ok_def OFFICIAL_HANDLE_def by blast
  ultimately show ?thesis using ok no_conflict_listed by (auto simp: lines_ok_def)
qed

definition ascii_text :: unicode_text where
  "ascii_text = \<lparr>un_nfkc = id, un_has_bom = (\<lambda>_. False), un_conflict_text = id\<rparr>"

definition sample_account :: "string \<Rightarrow> account" where
  "sample_account i = \<lparr>ia_id = i, ia_show_profile_publicly = True, ia_allow_publisher_listing = False,
     ia_handle = None, ia_handle_normalized = None, ia_display_name = None, ia_display_name_normalized = None\<rparr>"

definition sample_names :: identity_db where
  "sample_names = snd (allocate_account_identity ascii_text (sample_account ''account_01X'') None None
     \<lparr>accounts = [sample_account ''account_01X''], catalog = [], identities = [], locales = []\<rparr>)"

lemma sample_names_reached: "identity_reachable ascii_text sample_names"
proof -
  let ?db = "\<lparr>accounts = [sample_account ''account_01X''], catalog = [], identities = [], locales = []\<rparr>"
  have "identity_step ascii_text \<lparr>accounts = [], catalog = [], identities = [], locales = []\<rparr> ?db"
    using identity_step.Join [of "sample_account ''account_01X''"
        "\<lparr>accounts = [], catalog = [], identities = [], locales = []\<rparr>"] by (simp add: sample_account_def)
  moreover have "identity_step ascii_text ?db sample_names"
    unfolding sample_names_def by (rule identity_step.Allocate) simp
  ultimately show ?thesis by (simp add: identity_reachable_def)
qed

theorem public_names_stay_unique_witness:
  "map ia_handle_normalized (accounts sample_names) = [Some ''user-01x'']
     \<and> filter (\<lambda>c. ic_kind c \<noteq> ''mixed_owner'') (collect_identity_conflicts sample_names) = []"
proof -
  have "map ia_handle_normalized (accounts sample_names) = [Some ''user-01x'']" by code_simp
  with public_names_stay_unique [OF _ sample_names_reached] show ?thesis
    by (simp add: ascii_text_def ascii_stable_def filter_empty_conv)
qed

section \<open>Who may claim a line\<close>

text \<open>The names of a claim are checked before the line is.\<close>

definition names_accepted :: "unicode_text \<Rightarrow> string \<Rightarrow> string \<Rightarrow> string \<Rightarrow> bool" where
  "names_accepted u name en ru \<longleftrightarrow> \<not> isl (canonical_slug u name) \<and> \<not> isl (submitted_display_name u en)
     \<and> \<not> isl (submitted_display_name u ru)"

text \<open>C23. A catalog line is never taken over. A claim that fails changes nothing; one that succeeds
  answers with a stored line of that object, owned by the claiming account, when no component row of
  the object has another owner; lines are only ever added. With acceptable names, a row or a line of
  another account is refused as foreign, an outdated ownership revision as stale, and a new line whose
  canonical name is taken violates the table's constraint, which nobody translates.\<close>

theorem catalog_lines_are_never_taken_over:
  assumes "ensure_catalog_identity u i owner name en ru expected db = (out, db')"
  shows "(\<forall>e. out = Inl e \<longrightarrow> db' = db)
    \<and> (\<forall>line. out = Inr line \<longrightarrow> line \<in> set (identities db') \<and> ci_stable_id line = i \<and> ci_owner_account_id line = owner
         \<and> (\<forall>r \<in> set (catalog db). cv_object_kind r = ''component'' \<and> cv_stable_id r = i \<longrightarrow> cv_owner_account_id r = owner))
    \<and> (\<exists>new. identities db' = identities db @ new)
    \<and> (\<not> names_accepted u name en ru \<longrightarrow> (\<exists>m. out = Inl (IdentityError ''AI_STP_VALIDATION_ERROR'' m)))
    \<and> (names_accepted u name en ru \<longrightarrow>
         ((\<exists>r \<in> set (catalog db). cv_object_kind r = ''component'' \<and> cv_stable_id r = i \<and> cv_owner_account_id r \<noteq> owner)
            \<longrightarrow> out = Inl (IdentityError ''AI_STP_FOREIGN_LINE_OWNERSHIP'' ''the catalog line is owned by another account''))
         \<and> (\<forall>line. find (\<lambda>r. ci_stable_id r = i) (identities db) = Some line
               \<and> assert_catalog_rows_owner i owner ''component'' db = None \<longrightarrow>
              out = (if ci_owner_account_id line \<noteq> owner
                     then Inl (IdentityError ''AI_STP_FOREIGN_LINE_OWNERSHIP'' ''the catalog line is owned by another account'')
                     else if expected \<noteq> None \<and> expected \<noteq> Some (ci_ownership_revision_id line)
                     then Inl (IdentityError ''AI_STP_STALE_OWNERSHIP_REVISION''
                       ''the expected catalog-line ownership revision is no longer current'')
                     else Inr line))
         \<and> (find (\<lambda>r. ci_stable_id r = i) (identities db) = None \<and> assert_catalog_rows_owner i owner ''component'' db = None
              \<and> (\<exists>r \<in> set (identities db). canonical_slug u name = Inr (ci_canonical_name_normalized r))
              \<longrightarrow> out = Inl (ConstraintViolation ''uq_catalog_identity_canonical'')))"
proof -
  have owner: "\<forall>r \<in> set (catalog db). cv_object_kind r = ''component'' \<and> cv_stable_id r = i \<longrightarrow> cv_owner_account_id r = owner"
    if "assert_catalog_rows_owner i owner ''component'' db = None"
    using that by (auto simp: assert_catalog_rows_owner_def list_ex_iff split: if_splits)
  from assms have "(\<forall>e. out = Inl e \<longrightarrow> db' = db) \<and> (\<exists>new. identities db' = identities db @ new)
      \<and> (\<forall>line. out = Inr line \<longrightarrow> line \<in> set (identities db') \<and> ci_stable_id line = i \<and> ci_owner_account_id line = owner
         \<and> (\<forall>r \<in> set (catalog db). cv_object_kind r = ''component'' \<and> cv_stable_id r = i \<longrightarrow> cv_owner_account_id r = owner))"
  proof (cases rule: claim_cases)
    case (present line)
    then show ?thesis using owner by (auto simp: assert_line_owner_def split: if_splits)
  next
    case (claimed line ek rk e r)
    then show ?thesis using owner by auto
  qed simp
  moreover have "\<exists>m. out = Inl (IdentityError ''AI_STP_VALIDATION_ERROR'' m)" if "\<not> names_accepted u name en ru"
    using that assms by (auto simp: names_accepted_def ensure_catalog_identity_def and_then_def isl_def split: sum.splits)
  moreover have main: "(case assert_catalog_rows_owner i owner ''component'' db of
       Some e \<Rightarrow> (Inl e, db)
     | None \<Rightarrow> (case find (\<lambda>r. ci_stable_id r = i) (identities db) of
          None \<Rightarrow> insert_catalog_identity u i owner (projr (canonical_slug u name)) (projr (submitted_display_name u en))
            (projr (submitted_display_name u ru)) db
        | Some line \<Rightarrow> (case assert_line_owner line owner expected of Some e \<Rightarrow> (Inl e, db) | None \<Rightarrow> (Inr line, db)))) = (out, db')"
    if "names_accepted u name en ru"
    using that assms by (auto simp: names_accepted_def ensure_catalog_identity_def and_then_def isl_def cong: option.case_cong split: sum.splits)
  moreover have "out = Inl (IdentityError ''AI_STP_FOREIGN_LINE_OWNERSHIP'' ''the catalog line is owned by another account'')"
    if "names_accepted u name en ru"
      "\<exists>r \<in> set (catalog db). cv_object_kind r = ''component'' \<and> cv_stable_id r = i \<and> cv_owner_account_id r \<noteq> owner"
  proof -
    from that(2) have "assert_catalog_rows_owner i owner ''component'' db
        = Some (IdentityError ''AI_STP_FOREIGN_LINE_OWNERSHIP'' ''the catalog line is owned by another account'')"
      by (auto simp: assert_catalog_rows_owner_def list_ex_iff)
    with main [OF that(1)] show ?thesis by simp
  qed
  moreover have "out = (if ci_owner_account_id line \<noteq> owner
       then Inl (IdentityError ''AI_STP_FOREIGN_LINE_OWNERSHIP'' ''the catalog line is owned by another account'')
       else if expected \<noteq> None \<and> expected \<noteq> Some (ci_ownership_revision_id line)
       then Inl (IdentityError ''AI_STP_STALE_OWNERSHIP_REVISION''
         ''the expected catalog-line ownership revision is no longer current'')
       else Inr line)"
    if "names_accepted u name en ru" "find (\<lambda>r. ci_stable_id r = i) (identities db) = Some line"
      "assert_catalog_rows_owner i owner ''component'' db = None" for line
    using main [OF that(1)] that(2,3) by (auto simp: assert_line_owner_def)
  moreover have "out = Inl (ConstraintViolation ''uq_catalog_identity_canonical'')"
    if "names_accepted u name en ru" "find (\<lambda>r. ci_stable_id r = i) (identities db) = None"
      "assert_catalog_rows_owner i owner ''component'' db = None"
      "r \<in> set (identities db)" "canonical_slug u name = Inr (ci_canonical_name_normalized r)" for r
  proof -
    have "list_ex (\<lambda>q. ci_canonical_name_normalized q = ci_canonical_name_normalized r) (identities db)"
      using that(4) by (auto simp: list_ex_iff)
    with main [OF that(1)] that(2,3,5) show ?thesis by (simp add: insert_catalog_identity_def)
  qed
  ultimately show ?thesis by blast
qed

text \<open>The line of one account, claimed by another.\<close>

theorem catalog_lines_are_never_taken_over_witness:
  "fst (ensure_catalog_identity ascii_text ''c1'' ''bob'' ''Tool'' ''Tool'' ''Tool'' None
      \<lparr>accounts = [], catalog = [], identities = [\<lparr>ci_stable_id = ''c1'', ci_owner_account_id = ''ann'',
         ci_canonical_name = ''tool'', ci_canonical_name_normalized = ''tool'', ci_ownership_revision_id = []\<rparr>], locales = []\<rparr>)
     = Inl (IdentityError ''AI_STP_FOREIGN_LINE_OWNERSHIP'' ''the catalog line is owned by another account'')"
  (is "fst (?claim) = _")
proof -
  have "names_accepted ascii_text ''Tool'' ''Tool'' ''Tool''" by code_simp
  with catalog_lines_are_never_taken_over [OF prod.collapse [symmetric, of ?claim]]
  show ?thesis by (simp add: assert_catalog_rows_owner_def)
qed

end
