(* ===== verification/PublicationChecks.thy ===== *)
theory PublicationChecks
  imports JobQueue SafetyReport DeviceFlow Identity
begin

text \<open>
  The checks of a publication (\<open>apps/platform/src/ai_stp_platform/publication_logic.py\<close>): which
  fields a passport must have, the platform's own checks, the attestations it accepts, the outcome
  of a snapshot, the trust lane (\<open>embedded_validation.py\<close>), and the tables all publication
  transactions work on. The pydantic passport and attestation models, the revision id, the digest
  and the Ed25519 verification are arguments (the record \<open>services\<close>).
\<close>

section \<open>Tables\<close>

record publication_plan =
  pl_id :: string
  pl_source_binding_id :: "string option"
  pl_gitlab_source_binding_id :: "string option"
  pl_actor_account_id :: string
  pl_device_id :: string
  pl_object_kind :: string
  pl_stable_id :: string
  pl_version :: string
  pl_content_digest :: string
  pl_artifact_inventory :: "string list"
  pl_visibility :: string
  pl_policy_version :: string
  pl_plan_hash :: string
  pl_state :: string
  pl_passport :: dict
  pl_attestations :: "dict list"
  pl_effects :: "string list"
  pl_component_verified :: bool
  pl_idempotency_key :: string
  pl_confirm_key :: "string option"
  pl_expected_ownership :: "string option"
  pl_expires_at :: time

record validation_snapshot =
  vs_id :: string
  vs_plan_id :: string
  vs_content_digest :: string
  vs_policy_version :: string
  vs_state :: string
  vs_component_verified :: bool

record evidence_binding =
  ev_snapshot_id :: string
  ev_check_id :: string
  ev_result :: string
  ev_source :: string
  ev_mandatory :: bool
  ev_family :: "string option"
  ev_tool_name :: "string option"
  ev_tool_version :: "string option"
  ev_duration_ms :: "int option"
  ev_severity_max :: "string option"
  ev_reason :: "string option"
  ev_finding_summary :: "finding_summary option"
  ev_expires_at :: "time option"

record object_location =
  ol_catalog_metadata_id :: int
  ol_purpose :: string
  ol_bucket :: string
  ol_owner_account_id :: string
  ol_object_key :: string
  ol_digest :: string
  ol_content_id :: string
  ol_size_bytes :: int

record official_attempt =
  oa_plan_id :: "string option"
  oa_state :: string
  oa_result :: string
  oa_error_code :: "string option"
  oa_error_class :: "string option"
  oa_completed_at :: "time option"

record publication_audit =
  pa_actor_account_id :: string
  pa_actor_type :: string
  pa_action :: string
  pa_target_id :: string
  pa_reason :: "string option"
  pa_outcome :: string
  pa_payload :: dict

record pub_db = identity_db +
  plans :: "publication_plan list"
  next_catalog_id :: int
  snapshots :: "validation_snapshot list"
  evidence :: "evidence_binding list"
  locations :: "object_location list"
  verified_authors :: "(string \<times> bool) list"
  pub_devices :: "device list"
  attempts_ledger :: "official_attempt list"
  pub_audit :: "publication_audit list"
  pub_queue :: queue_db

section \<open>Passport models and other code the executor calls\<close>

record passport_model =
  pm_kind :: string
  pm_stable_id :: string
  pm_version :: string
  pm_owner_id :: string
  pm_has_source :: bool
  pm_artifact_digest :: string
  pm_artifact_size :: int
  pm_revision_id :: string
  pm_document :: dict

record author_attestation =
  at_check_id :: string
  at_result :: string
  at_object_digest :: string
  at_policy_version :: string
  at_account_id :: string
  at_device_id :: string
  at_stable_id :: string
  at_subject_version :: string
  at_passport_digest :: string
  at_tool_versions :: "(string \<times> string) list"

text \<open>
  \<open>sv_model_validate\<close> is \<open>ComponentVersionPassport\<close>/\<open>SetupVersionPassport.model_validate\<close> (an error
  is the list of locations), \<open>sv_bound\<close> and \<open>sv_bound_public\<close> the GitHub and GitLab bindings of a
  plan (an error is the refusal's text, a value says whether the plan is bound).
\<close>

record services =
  sv_model_validate :: "string \<Rightarrow> dict \<Rightarrow> string list + passport_model"
  sv_verify_revision :: "passport_model \<Rightarrow> bool"
  sv_passport_digest :: "passport_model \<Rightarrow> string"
  sv_parse_attestation :: "dict \<Rightarrow> author_attestation option"
  sv_signed :: "string \<Rightarrow> author_attestation \<Rightarrow> bool"
  sv_bound :: "publication_plan \<Rightarrow> string + bool"
  sv_bound_public :: "publication_plan \<Rightarrow> string + bool"
  sv_unicode :: unicode_text
  sv_float_text :: "rat \<Rightarrow> string"

section \<open>Completeness of a passport\<close>

fun is_blank :: "json \<Rightarrow> bool" where
  "is_blank JNull = True"
| "is_blank (JStr s) = (s = [])"
| "is_blank (JList xs) = (xs = [])"
| "is_blank (JDict d) = (d = [])"
| "is_blank _ = False"

definition missing_source_fields :: "json \<Rightarrow> string list" where
  "missing_source_fields source_raw =
     (case source_raw of
        JDict source \<Rightarrow> [''source.'' @ key. key \<leftarrow> [''repository'', ''commit'', ''path''],
                            \<not> has_key source key \<or> \<not> truthy (dict_get source key)]
      | _ \<Rightarrow> [''source''])"

definition validate_passport_completeness :: "dict \<Rightarrow> bool \<Rightarrow> string list" where
  "validate_passport_completeness passport source_bound =
     (let component = dict_get passport ''kind'' \<noteq> JStr ''setup'' \<and> \<not> source_bound;
          required = [''name'', ''version'', ''license'', ''tags'', ''artifact'']
                       @ (if component then [''source''] else [])
      in filter (\<lambda>key. \<not> has_key passport key \<or> is_blank (dict_get passport key)) required
         @ (if component then missing_source_fields (dict_get passport ''source'') else [])
         @ (case dict_get passport ''license'' of
              JDict lic \<Rightarrow> if \<not> has_key lic ''spdx_id'' \<or> \<not> truthy (dict_get lic ''spdx_id'')
                           then [''license.spdx_id''] else []
            | _ \<Rightarrow> [''license''])
         @ (case dict_get passport ''tags'' of JList (_ # _) \<Rightarrow> [] | _ \<Rightarrow> [''tags'']))"

definition validate_publication_passport ::
  "services \<Rightarrow> dict \<Rightarrow> string \<Rightarrow> string \<Rightarrow> string \<Rightarrow> string \<Rightarrow> string option \<Rightarrow> string \<Rightarrow> bool
     \<Rightarrow> passport_model option \<times> string list" where
  "validate_publication_passport sv passport object_kind stable_id version content_digest owner
     visibility source_bound =
     (case sv_model_validate sv (if object_kind = ''component'' then ''component'' else ''setup'') passport of
        Inl locs \<Rightarrow> (None, sort (remdups locs))
      | Inr model \<Rightarrow>
          (let invalid =
             (if pm_kind model \<noteq> object_kind then [''kind''] else [])
             @ (if pm_stable_id model \<noteq> stable_id then [''stable_id''] else [])
             @ (if pm_version model \<noteq> version then [''version''] else [])
             @ (if visibility \<notin> {''public'', ''private''} then [''expected_visibility''] else [])
             @ (case owner of None \<Rightarrow> [] | Some acc \<Rightarrow> if pm_owner_id model \<noteq> acc then [''owner_id''] else [])
             @ (if object_kind = ''component'' \<and> \<not> pm_has_source model \<and> \<not> source_bound then [''source''] else [])
             @ (if pm_artifact_digest model \<noteq> content_digest then [''artifact.digest''] else [])
             @ (if \<not> sv_verify_revision sv model then [''revision_id''] else [])
           in (if invalid = [] then Some model else None, sort (remdups invalid))))"

section \<open>The platform's checks and the attestations\<close>

definition blank_binding :: binding_row where
  "blank_binding = \<lparr>br_check_id = None, br_result = None, br_mandatory = None, br_source = None,
     br_family = None, br_tool_name = None, br_tool_version = None, br_duration_ms = None,
     br_severity_max = None, br_reason = JNull, br_detail = JNull, br_finding_summary = None\<rparr>"

definition binding :: "string \<Rightarrow> string \<Rightarrow> string \<Rightarrow> binding_row" where
  "binding cid result source = blank_binding\<lparr>br_check_id := Some cid,
     br_result := Some result, br_source := Some source, br_mandatory := Some True\<rparr>"

definition verdict_of :: "bool \<Rightarrow> string" where
  "verdict_of ok = (if ok then ''passed'' else ''failed'')"

definition digest_ok :: "dict \<Rightarrow> string \<Rightarrow> bool" where
  "digest_ok passport content_digest =
     (let art_digest = (case dict_get passport ''artifact'' of JDict a \<Rightarrow> dict_get a ''digest'' | _ \<Rightarrow> JNull)
      in art_digest = JStr content_digest \<and> content_digest \<noteq> [])"

definition license_ok :: "dict \<Rightarrow> bool" where
  "license_ok passport = (case dict_get passport ''license'' of
     JDict lic \<Rightarrow> truthy (dict_get lic ''spdx_id'') | _ \<Rightarrow> False)"

definition tags_ok :: "dict \<Rightarrow> bool" where
  "tags_ok passport = (case dict_get passport ''tags'' of JList ts \<Rightarrow> length ts > 0 | _ \<Rightarrow> False)"

definition source_ok :: "dict \<Rightarrow> bool \<Rightarrow> bool" where
  "source_ok passport source_bound = (case dict_get passport ''source'' of
     JDict source \<Rightarrow> list_all (\<lambda>key. truthy (dict_get source key)) [''repository'', ''commit'', ''path'']
   | _ \<Rightarrow> dict_get passport ''kind'' = JStr ''setup'' \<or> source_bound)"

definition run_platform_checks :: "dict \<Rightarrow> string \<Rightarrow> bool \<Rightarrow> binding_row list" where
  "run_platform_checks passport content_digest source_bound =
     [binding ''structure'' (verdict_of (validate_passport_completeness passport source_bound = []))
        ''platform_structure_verified'',
      binding ''digest'' (verdict_of (digest_ok passport content_digest)) ''platform_digest_verified'',
      binding ''license'' (verdict_of (license_ok passport)) ''platform_structure_verified'',
      binding ''tags'' (verdict_of (tags_ok passport)) ''platform_structure_verified'',
      binding ''source_repo'' (verdict_of (source_ok passport source_bound)) ''platform_structure_verified'']"

definition CREDENTIAL_CHECK :: string where "CREDENTIAL_CHECK = ''credentials''"

record attestation_context =
  ac_content_digest :: string
  ac_policy_version :: string
  ac_account_id :: string
  ac_device_id :: string
  ac_stable_id :: string
  ac_version :: string
  ac_passport_digest :: string
  ac_public_key :: string
  ac_device_revoked :: bool

definition attestation_accepted :: "services \<Rightarrow> attestation_context \<Rightarrow> author_attestation \<Rightarrow> bool" where
  "attestation_accepted sv ctx r \<longleftrightarrow>
     \<not> (at_check_id r \<noteq> CREDENTIAL_CHECK \<or> at_result r \<noteq> ''passed'')
     \<and> \<not> (at_object_digest r \<noteq> ac_content_digest ctx \<or> at_policy_version r \<noteq> ac_policy_version ctx
          \<or> at_account_id r \<noteq> ac_account_id ctx \<or> at_device_id r \<noteq> ac_device_id ctx
          \<or> at_stable_id r \<noteq> ac_stable_id ctx \<or> at_subject_version r \<noteq> ac_version ctx
          \<or> at_passport_digest r \<noteq> ac_passport_digest ctx)
     \<and> \<not> list_ex (\<lambda>key. list_ex (\<lambda>w. has_word w (lower key)) [''secret'', ''token'', ''password''])
          (map fst (at_tool_versions r))
     \<and> sv_signed sv (ac_public_key ctx) r"

fun bind_attestation_items :: "services \<Rightarrow> attestation_context \<Rightarrow> dict list \<Rightarrow> binding_row list" where
  "bind_attestation_items sv ctx [] = []"
| "bind_attestation_items sv ctx (item # items) =
     (case sv_parse_attestation sv item of
        None \<Rightarrow> bind_attestation_items sv ctx items
      | Some r \<Rightarrow>
          if attestation_accepted sv ctx r
          then binding CREDENTIAL_CHECK ''passed'' ''author_attested'' # bind_attestation_items sv ctx items
          else bind_attestation_items sv ctx items)"

definition bind_author_attestations :: "services \<Rightarrow> dict list \<Rightarrow> attestation_context \<Rightarrow> binding_row list" where
  "bind_author_attestations sv attestations ctx =
     (if ac_device_revoked ctx \<or> ac_public_key ctx = [] then [] else bind_attestation_items sv ctx attestations)"

section \<open>The outcome of a snapshot and the trust lane\<close>

definition snapshot_outcome :: "binding_row list \<Rightarrow> string \<times> bool" where
  "snapshot_outcome bindings =
     (let required = filter (\<lambda>b. br_mandatory b = Some True) bindings;
          results = map br_verdict required
      in if required = [] then (''failed'', False)
         else if list_ex (\<lambda>r. r \<in> {''failed'', ''degraded'', ''not_run'', ''expired''}) results then (''failed'', False)
         else if list_ex (\<lambda>r. r = ''warning'') results then (''warning'', False)
         else if list_all (\<lambda>r. r = ''passed'') results then (''passed'', True)
         else (''failed'', False))"

definition setup_trust_lane :: "bool \<Rightarrow> bool \<Rightarrow> bool \<Rightarrow> string" where
  "setup_trust_lane has_embedded author_verified component_verified =
     (if has_embedded then ''experimental''
      else if author_verified \<and> component_verified then ''authoritative'' else ''experimental'')"

end
