(* ===== verification/Publication.thy ===== *)
theory Publication
  imports PublicationChecks
begin

text \<open>
  The publication executor (\<open>apps/platform/src/ai_stp_platform/publication_logic.py\<close>): validation of a
  plan, its publication as a catalog version, the refusals, the settlement of a dead-lettered job
  and the re-evaluation of eligibility, with the worker's handlers around them. A transaction
  returns its answer and the tables; an exception rolls the tables back (\<open>atomic\<close>). The artifact
  fetch and safety suite, the target assessments, the setup pins, minted ids and the clock are
  arguments.
\<close>

section \<open>Transactions\<close>

datatype pub_error =
    PubValueError string
  | PubKeyError string
  | PubConstraint string
  | PubIdentity identity_failure
  | PubQueue queue_error
  | PubPermanent string
  | PubTransient string

definition and_next :: "('e + 'a) \<times> 's \<Rightarrow> ('a \<Rightarrow> 's \<Rightarrow> ('e + 'b) \<times> 's) \<Rightarrow> ('e + 'b) \<times> 's" where
  "and_next m f = (case m of (Inl e, s) \<Rightarrow> (Inl e, s) | (Inr a, s) \<Rightarrow> f a s)"

definition atomic :: "'s \<Rightarrow> ('e + 'a) \<times> 's \<Rightarrow> ('e + 'a) \<times> 's" where
  "atomic s m = (case m of (Inl e, _) \<Rightarrow> (Inl e, s) | (Inr a, s') \<Rightarrow> (Inr a, s'))"

definition plan_row :: "string \<Rightarrow> pub_db \<Rightarrow> publication_plan option" where
  "plan_row i db = find (\<lambda>p. pl_id p = i) (plans db)"

definition set_plan :: "string \<Rightarrow> (publication_plan \<Rightarrow> publication_plan) \<Rightarrow> pub_db \<Rightarrow> pub_db" where
  "set_plan i f db = db\<lparr>plans := update_where (\<lambda>p. pl_id p = i) f (plans db)\<rparr>"

definition snapshot_of :: "string \<Rightarrow> pub_db \<Rightarrow> validation_snapshot option" where
  "snapshot_of i db = find (\<lambda>s. vs_plan_id s = i) (snapshots db)"

definition evidence_of :: "string \<Rightarrow> pub_db \<Rightarrow> evidence_binding list" where
  "evidence_of sid db = filter (\<lambda>b. ev_snapshot_id b = sid) (evidence db)"

definition add_snapshot :: "validation_snapshot \<Rightarrow> pub_db \<Rightarrow> (pub_error + unit) \<times> pub_db" where
  "add_snapshot s db =
     (if list_ex (\<lambda>r. vs_plan_id r = vs_plan_id s) (snapshots db)
      then (Inl (PubConstraint ''uq_validation_snapshot_plan''), db)
      else if vs_plan_id s \<notin> pl_id ` set (plans db)
      then (Inl (PubConstraint ''validation_snapshot_plan_id_fkey''), db)
      else (Inr (), db\<lparr>snapshots := snapshots db @ [s]\<rparr>))"

definition add_evidence :: "evidence_binding list \<Rightarrow> pub_db \<Rightarrow> (pub_error + unit) \<times> pub_db" where
  "add_evidence rows db =
     (if \<not> distinct (map ev_check_id rows)
      then (Inl (PubConstraint ''uq_evidence_binding_snapshot_check''), db)
      else (Inr (), db\<lparr>evidence := evidence db @ rows\<rparr>))"

definition push_job :: "enqueue_args \<Rightarrow> time \<Rightarrow> time \<Rightarrow> pub_db \<Rightarrow> (pub_error + job) \<times> pub_db" where
  "push_job a now dbnow db =
     (case enqueue a now dbnow (pub_queue db) of
        (Inl e, q) \<Rightarrow> (Inl (PubQueue e), db\<lparr>pub_queue := q\<rparr>)
      | (Inr j, q) \<Rightarrow> (Inr j, db\<lparr>pub_queue := q\<rparr>))"

definition DEFAULT_MAX_ATTEMPTS :: int where "DEFAULT_MAX_ATTEMPTS = 5"

definition global_job :: "JobType \<Rightarrow> dict \<Rightarrow> string \<Rightarrow> enqueue_args" where
  "global_job jt payload key =
     \<lparr>e_job_type = jt, e_payload = payload, e_key = key, e_priority = 0,
      e_max_attempts = DEFAULT_MAX_ATTEMPTS, e_run_after = None, e_org = None, e_revision = None,
      e_principal_type = None, e_principal_id = None, e_permission = None,
      e_scope_kind = ''organization'', e_scope_id = None\<rparr>"

definition settle_attempts :: "string \<Rightarrow> string \<Rightarrow> time \<Rightarrow> pub_db \<Rightarrow> pub_db" where
  "settle_attempts i error_code now db =
     db\<lparr>attempts_ledger := update_where (\<lambda>a. oa_plan_id a = Some i)
       (\<lambda>a. a\<lparr>oa_state := ''failed_permanent'', oa_result := ''failed'',
              oa_error_code := Some error_code, oa_error_class := Some ''permanent'',
              oa_completed_at := Some now\<rparr>) (attempts_ledger db)\<rparr>"

definition refusal_audit :: "publication_plan \<Rightarrow> string \<Rightarrow> string \<Rightarrow> publication_audit" where
  "refusal_audit plan action reason =
     \<lparr>pa_actor_account_id = pl_actor_account_id plan, pa_actor_type = ''system'', pa_action = action,
      pa_target_id = pl_id plan, pa_reason = Some reason, pa_outcome = ''failed'',
      pa_payload = [(''stable_id'', JStr (pl_stable_id plan)), (''version'', JStr (pl_version plan))]\<rparr>"

section \<open>Refusals\<close>

definition EVIDENCE_TTL :: time where "EVIDENCE_TTL = seconds (90 * 86400)"
definition PLAN_TTL :: time where "PLAN_TTL = seconds (24 * 3600)"

definition SETTLED_STATES :: "string list" where
  "SETTLED_STATES = [''failed'', ''cancelled'', ''stale'']"

definition refusal_snapshot :: "string \<Rightarrow> publication_plan \<Rightarrow> validation_snapshot" where
  "refusal_snapshot sid plan =
     \<lparr>vs_id = sid, vs_plan_id = pl_id plan, vs_content_digest = pl_content_digest plan,
      vs_policy_version = pl_policy_version plan, vs_state = ''failed'', vs_component_verified = False\<rparr>"

definition refusal_evidence :: "string \<Rightarrow> string \<Rightarrow> time \<Rightarrow> evidence_binding" where
  "refusal_evidence sid reason now =
     \<lparr>ev_snapshot_id = sid, ev_check_id = ''plan_gate'', ev_result = ''failed'',
      ev_source = ''publication_executor'', ev_mandatory = True, ev_family = Some ''gate'',
      ev_tool_name = None, ev_tool_version = None, ev_duration_ms = None, ev_severity_max = None,
      ev_reason = Some (take 200 reason), ev_finding_summary = None, ev_expires_at = Some (now + EVIDENCE_TTL)\<rparr>"

definition record_refusal_snapshot ::
  "string \<Rightarrow> time \<Rightarrow> publication_plan \<Rightarrow> string \<Rightarrow> pub_db \<Rightarrow> (pub_error + validation_snapshot) \<times> pub_db" where
  "record_refusal_snapshot sid now plan reason db =
     and_next (and_next (add_snapshot (refusal_snapshot sid plan) db)
                 (\<lambda>_. add_evidence [refusal_evidence sid reason now])) (\<lambda>_ db1.
       (Inr (refusal_snapshot sid plan),
        settle_attempts (pl_id plan) ''failed_validation'' now
          ((set_plan (pl_id plan) (\<lambda>p. p\<lparr>pl_state := ''failed''\<rparr>) db1)
            \<lparr>pub_audit := pub_audit db1 @ [refusal_audit plan ''publication.validate_refused'' reason]\<rparr>)))"

definition refuse_publish :: "time \<Rightarrow> publication_plan \<Rightarrow> string \<Rightarrow> pub_db \<Rightarrow> pub_db" where
  "refuse_publish now plan reason db =
     settle_attempts (pl_id plan) ''publish_refused'' now
       ((set_plan (pl_id plan) (\<lambda>p. p\<lparr>pl_state := ''failed''\<rparr>) db)
         \<lparr>pub_audit := pub_audit db @ [refusal_audit plan ''publication.publish_refused'' reason]\<rparr>)"

definition settle_dead_lettered_plan :: "string \<Rightarrow> time \<Rightarrow> job \<Rightarrow> pub_db \<Rightarrow> (pub_error + unit) \<times> pub_db" where
  "settle_dead_lettered_plan sid now j db =
     (case dict_get (job_payload j) ''plan_id'' of
        JStr i \<Rightarrow>
          (case plan_row i db of
             None \<Rightarrow> (Inr (), db)
           | Some plan \<Rightarrow>
               if pl_state plan \<in> set (''published'' # SETTLED_STATES) then (Inr (), db)
               else
                 let reason = job_type j @ '' job '' @ int_str (job_id j) @ '' dead-lettered'' in
                 if job_type j = job_type_str PUBLISH then (Inr (), refuse_publish now plan reason db)
                 else if job_type j = job_type_str VALIDATE
                 then and_next (record_refusal_snapshot sid now plan reason db) (\<lambda>_ db1. (Inr (), db1))
                 else (Inr (), db))
      | _ \<Rightarrow> (Inr (), db))"

section \<open>Validation\<close>

definition bound_passport_digest :: "services \<Rightarrow> publication_plan \<Rightarrow> string" where
  "bound_passport_digest sv plan =
     (case sv_model_validate sv (if pl_object_kind plan = ''setup'' then ''setup'' else ''component'')
             (pl_passport plan) of
        Inl _ \<Rightarrow> [] | Inr model \<Rightarrow> sv_passport_digest sv model)"

definition plan_attestation_context :: "services \<Rightarrow> publication_plan \<Rightarrow> pub_db \<Rightarrow> attestation_context" where
  "plan_attestation_context sv plan db =
     (let dev = find (\<lambda>d. dv_id d = pl_device_id plan) (pub_devices db) in
      \<lparr>ac_content_digest = pl_content_digest plan, ac_policy_version = pl_policy_version plan,
       ac_account_id = pl_actor_account_id plan, ac_device_id = pl_device_id plan,
       ac_stable_id = pl_stable_id plan, ac_version = pl_version plan,
       ac_passport_digest = bound_passport_digest sv plan,
       ac_public_key = (case dev of None \<Rightarrow> [] | Some d \<Rightarrow> dv_public_key d),
       ac_device_revoked = (case dev of None \<Rightarrow> True | Some d \<Rightarrow> dv_state d \<noteq> ''active'')\<rparr>)"

definition credential_bindings :: "services \<Rightarrow> publication_plan \<Rightarrow> pub_db \<Rightarrow> binding_row list" where
  "credential_bindings sv plan db =
     (let att = bind_author_attestations sv (pl_attestations plan) (plan_attestation_context sv plan db) in
      if truthy (dict_get (pl_passport plan) ''requires_credentials'')
      then if att \<noteq> [] then att else [binding CREDENTIAL_CHECK ''not_run'' ''author_attested'']
      else [])"

text \<open>The transaction before the scanners: an answer, or the plan and its first bindings.\<close>

datatype validate_gate =
    Answered "pub_error + validation_snapshot"
  | Proceed publication_plan "binding_row list"

definition answered :: "(pub_error + validation_snapshot) \<times> pub_db \<Rightarrow> validate_gate \<times> pub_db" where
  "answered m = (Answered (fst m), snd m)"

definition begin_validate :: "services \<Rightarrow> string \<Rightarrow> time \<Rightarrow> string \<Rightarrow> pub_db \<Rightarrow> validate_gate \<times> pub_db" where
  "begin_validate sv sid now plan_id db =
     (case plan_row plan_id db of
        None \<Rightarrow> (Answered (Inl (PubValueError (''unknown plan '' @ plan_id))), db)
      | Some plan \<Rightarrow>
          (case snapshot_of plan_id db of
             Some s \<Rightarrow> (Answered (Inr s), db)
           | None \<Rightarrow>
               if pl_state plan \<in> set SETTLED_STATES
               then answered (atomic db (record_refusal_snapshot sid now plan
                      (''plan is '' @ pl_state plan @ '' before validation ran'') db))
               else (case sv_bound sv plan of
                       Inl msg \<Rightarrow> answered (atomic db (record_refusal_snapshot sid now plan
                                   (''bound source refused validation: '' @ msg) db))
                     | Inr bound \<Rightarrow>
                         (Proceed plan
                            (run_platform_checks (pl_passport plan) (pl_content_digest plan) bound
                               @ credential_bindings sv plan db), db))))"

definition finding_summary_json :: "finding_summary \<Rightarrow> json" where
  "finding_summary_json s = JDict
     [(''count'', JInt (int (fs_count s))), (''severity_max'', JStr (fs_severity_max s)),
      (''rule_ids'', JList (map JStr (fs_rule_ids s))), (''paths'', JList (map JStr (fs_paths s))),
      (''truncated'', JBool (fs_truncated s))]"

definition check_entry_json :: "check_entry \<Rightarrow> json" where
  "check_entry_json c = JDict
     [(''check_id'', JStr (ce_check_id c)), (''result'', JStr (ce_result c)),
      (''mandatory'', JBool (ce_mandatory c)), (''source'', JStr (ce_source c)),
      (''family'', JStr (ce_family c)), (''reason'', opt_str (ce_reason c)),
      (''finding_summary'', case ce_finding_summary c of None \<Rightarrow> JNull | Some s \<Rightarrow> finding_summary_json s)]"

definition summary_dict :: "checks_summary \<Rightarrow> json option \<Rightarrow> dict" where
  "summary_dict s components =
     [(''schema_version'', JInt 1), (''status'', JStr (sum_status s)),
      (''checks_passed_percent'', case sum_percent s of None \<Rightarrow> JNull | Some p \<Rightarrow> JInt p),
      (''coverage_complete'', JBool (sum_coverage_complete s)), (''passed'', JInt (int (sum_passed s))),
      (''failed'', JInt (int (sum_failed s))), (''warning'', JInt (int (sum_warning s))),
      (''not_run'', JInt (int (sum_not_run s))), (''total_countable'', JInt (int (sum_total_countable s))),
      (''checks'', JList (map check_entry_json (sum_checks s)))]
     @ (case components of None \<Rightarrow> [] | Some pins \<Rightarrow> [(''components'', pins)])"

definition nonempty_text :: "string option \<Rightarrow> string option" where
  "nonempty_text t = (case t of Some (c # cs) \<Rightarrow> Some (c # cs) | _ \<Rightarrow> None)"

definition evidence_row :: "services \<Rightarrow> string \<Rightarrow> time \<Rightarrow> binding_row \<Rightarrow> pub_error + evidence_binding" where
  "evidence_row sv sid expires b =
     (case (br_check_id b, br_result b, br_source b) of
        (Some cid, Some result, Some source) \<Rightarrow> Inr
          \<lparr>ev_snapshot_id = sid, ev_check_id = cid, ev_result = result, ev_source = source,
           ev_mandatory = br_required b, ev_family = nonempty_text (br_family b),
           ev_tool_name = nonempty_text (br_tool_name b), ev_tool_version = nonempty_text (br_tool_version b),
           ev_duration_ms = br_duration_ms b, ev_severity_max = nonempty_text (br_severity_max b),
           ev_reason = (if truthy (br_reason b) then Some (take 200 (py_str (sv_float_text sv) (br_reason b)))
                        else None),
           ev_finding_summary = br_finding_summary b, ev_expires_at = Some expires\<rparr>
      | (None, _, _) \<Rightarrow> Inl (PubKeyError ''check_id'')
      | (_, None, _) \<Rightarrow> Inl (PubKeyError ''result'')
      | _ \<Rightarrow> Inl (PubKeyError ''source''))"

fun evidence_rows :: "services \<Rightarrow> string \<Rightarrow> time \<Rightarrow> binding_row list \<Rightarrow> pub_error + evidence_binding list" where
  "evidence_rows sv sid expires [] = Inr []"
| "evidence_rows sv sid expires (b # bs) =
     and_then (evidence_row sv sid expires b) (\<lambda>e.
       and_then (evidence_rows sv sid expires bs) (\<lambda>es. Inr (e # es)))"

text \<open>
  The transaction after the scanners. \<open>scanned\<close> is what the artifact fetch, the safety suite, the
  embedded members and the exact adaptations append, \<open>assess\<close> the conservative component badge,
  \<open>pins\<close> the context of a setup's pins.
\<close>

definition finish_validate :: "services \<Rightarrow> string \<Rightarrow> time \<Rightarrow> time \<Rightarrow> (checks_summary \<Rightarrow> bool) \<Rightarrow> json option
    \<Rightarrow> binding_row list \<Rightarrow> publication_plan \<Rightarrow> pub_db \<Rightarrow> (pub_error + validation_snapshot) \<times> pub_db" where
  "finish_validate sv sid now dbnow assess pins bindings plan db =
     (let (state, passed) = snapshot_outcome bindings;
          summary = build_checks_summary bindings;
          verified = (if pl_object_kind plan = ''component'' \<and> bound_passport_digest sv plan \<noteq> []
                      then assess summary else passed);
          s = \<lparr>vs_id = sid, vs_plan_id = pl_id plan, vs_content_digest = pl_content_digest plan,
               vs_policy_version = pl_policy_version plan, vs_state = state, vs_component_verified = verified\<rparr>
      in atomic db (and_next (add_snapshot s db) (\<lambda>_ db0.
           case evidence_rows sv sid (now + EVIDENCE_TTL) bindings of
             Inl e \<Rightarrow> (Inl e, db0)
           | Inr rows \<Rightarrow> and_next (add_evidence rows db0) (\<lambda>_ db1.
               if state \<in> {''passed'', ''warning''}
               then and_next (push_job (global_job PUBLISH
                        [(''plan_id'', JStr (pl_id plan)), (''checks_summary'', JDict (summary_dict summary pins))]
                        (''publish:'' @ pl_id plan)) now dbnow
                      (set_plan (pl_id plan) (\<lambda>p. p\<lparr>pl_state := ''publish_planned'',
                         pl_component_verified := verified\<rparr>) db1)) (\<lambda>_ db2. (Inr s, db2))
               else (Inr s, settle_attempts (pl_id plan) ''failed_validation'' now
                      (set_plan (pl_id plan) (\<lambda>p. p\<lparr>pl_state := ''failed''\<rparr>) db1))))))"

definition execute_validate :: "services \<Rightarrow> string \<Rightarrow> time \<Rightarrow> time \<Rightarrow> (checks_summary \<Rightarrow> bool) \<Rightarrow> json option
    \<Rightarrow> binding_row list \<Rightarrow> (pub_db \<Rightarrow> pub_db) \<Rightarrow> string \<Rightarrow> pub_db \<Rightarrow> (pub_error + validation_snapshot) \<times> pub_db" where
  "execute_validate sv sid now dbnow assess pins scanned between plan_id db =
     (case begin_validate sv sid now plan_id db of
        (Answered r, db1) \<Rightarrow> (r, db1)
      | (Proceed plan bindings, db1) \<Rightarrow>
          finish_validate sv sid now dbnow assess pins (bindings @ scanned) plan (between db1))"

section \<open>Publication\<close>

record store_reader =
  os_bucket :: string
  os_key :: "string \<Rightarrow> string option \<Rightarrow> string"
  os_read :: "string \<Rightarrow> int \<Rightarrow> string option \<Rightarrow> string + string option"

text \<open>What else the executor asks: canonical JSON, the pins of a setup, the embedded-members marker of
  its bytes, and the badges a refresh recomputes.\<close>

record publish_services =
  ps_canonize :: "dict \<Rightarrow> string"
  ps_setup_pins :: "publication_plan \<Rightarrow> json"
  ps_has_embedded :: "string \<Rightarrow> bool"
  ps_reassess :: "pub_db \<Rightarrow> catalog_metadata \<Rightarrow> bool option"
  ps_seo_template :: string

text \<open>The plan's visibility; plans older than the column carry it in the passport.\<close>

definition plan_visibility :: "publication_plan \<Rightarrow> string" where
  "plan_visibility plan =
     (if pl_visibility plan = ''private'' \<and> dict_get (pl_passport plan) ''visibility'' = JStr ''public''
      then ''public'' else pl_visibility plan)"

text \<open>The stored bytes: the owner's key, then for a public plan the key from before owner scoping.
  An error is an integrity failure.\<close>

definition read_artifact :: "store_reader \<Rightarrow> publication_plan \<Rightarrow> int \<Rightarrow> string + (string \<times> string option)" where
  "read_artifact store plan sz =
     (let owner = Some (pl_actor_account_id plan); digest = pl_content_digest plan in
      and_then (os_read store digest sz owner) (\<lambda>found.
        case found of
          Some bytes \<Rightarrow> Inr (os_key store digest owner, Some bytes)
        | None \<Rightarrow>
            if plan_visibility plan = ''public''
            then and_then (os_read store digest sz None) (\<lambda>legacy. Inr (os_key store digest None, legacy))
            else Inr (os_key store digest owner, None)))"

definition version_row :: "publication_plan \<Rightarrow> catalog_metadata \<Rightarrow> bool" where
  "version_row plan r \<longleftrightarrow> cv_object_kind r = pl_object_kind plan \<and> cv_stable_id r = pl_stable_id plan
     \<and> cv_version r = Some (pl_version plan)"

definition existing_refusal :: "publication_plan \<Rightarrow> string \<Rightarrow> catalog_metadata \<Rightarrow> string option" where
  "existing_refusal plan digest r =
     (if cv_owner_account_id r \<noteq> pl_actor_account_id plan
      then Some ''the catalog version is owned by another account''
      else if nonempty_text (cv_passport_digest r) \<noteq> None \<and> cv_passport_digest r \<noteq> Some digest
      then Some ''version already published with different digest''
      else if cv_lifecycle_state r = ''draft'' \<and> cv_published_at r \<noteq> None
      then Some ''published catalog version cannot be rematerialized as a draft'' else None)"

definition incomplete_version :: "publish_services \<Rightarrow> string \<Rightarrow> dict \<Rightarrow> catalog_metadata \<Rightarrow> bool" where
  "incomplete_version ps digest document r \<longleftrightarrow> cv_passport_digest r \<noteq> Some digest
     \<or> ps_canonize ps (cv_passport_document r) \<noteq> ps_canonize ps document \<or> cv_published_at r = None"

definition SEO_LOCALES :: "string list" where "SEO_LOCALES = [''ru'', ''en'']"

definition FORBIDDEN_PAYLOAD_KEYS :: "string list" where
  "FORBIDDEN_PAYLOAD_KEYS = [''credential'', ''prompt'', ''artifact'', ''finding'', ''password'', ''token'']"

definition job_payload_is_safe :: "dict \<Rightarrow> bool" where
  "job_payload_is_safe payload = (\<not> list_ex (\<lambda>k. lower k \<in> set FORBIDDEN_PAYLOAD_KEYS) (map fst payload))"

fun enqueue_seo_locales :: "string list \<Rightarrow> string \<Rightarrow> string \<Rightarrow> string \<Rightarrow> string \<Rightarrow> time \<Rightarrow> time \<Rightarrow> pub_db
    \<Rightarrow> (pub_error + unit) \<times> pub_db" where
  "enqueue_seo_locales [] kind subject digest version now dbnow db = (Inr (), db)"
| "enqueue_seo_locales (l # ls) kind subject digest version now dbnow db =
     (let payload = [(''subject_kind'', JStr kind), (''subject_id'', JStr subject), (''locale'', JStr l),
                     (''source_digest'', JStr digest), (''template_version'', JStr version)]
      in if \<not> job_payload_is_safe payload then (Inl (PubValueError ''seo_build payload is unsafe''), db)
         else and_next (push_job (global_job SEO_BUILD payload
                (join '':'' [''seo-build'', kind, subject, l, digest, version])) now dbnow db)
              (\<lambda>_. enqueue_seo_locales ls kind subject digest version now dbnow))"

definition enqueue_seo_build :: "string \<Rightarrow> string \<Rightarrow> string \<Rightarrow> string \<Rightarrow> time \<Rightarrow> time \<Rightarrow> pub_db
    \<Rightarrow> (pub_error + unit) \<times> pub_db" where
  "enqueue_seo_build version kind subject digest now dbnow db =
     (if digest = [] then (Inl (PubValueError ''seo_build requires source_digest''), db)
      else enqueue_seo_locales SEO_LOCALES kind subject digest version now dbnow db)"

text \<open>The badge refresh of a component (\<open>apply_component_verified\<close>, and the one the search
  projection makes): \<open>ps_reassess\<close> says which rows it recomputes, and the new badge.\<close>

definition refresh_badges :: "publish_services \<Rightarrow> string \<Rightarrow> pub_db \<Rightarrow> pub_db" where
  "refresh_badges ps object_kind db =
     (if object_kind \<noteq> ''component'' then db
      else db\<lparr>catalog := map (\<lambda>r. case ps_reassess ps db r of
                None \<Rightarrow> r | Some b \<Rightarrow> r\<lparr>cv_component_verified := b\<rparr>) (catalog db)\<rparr>)"

definition badge_of :: "int \<Rightarrow> pub_db \<Rightarrow> bool" where
  "badge_of i db = (case find (\<lambda>r. cv_id r = i) (catalog db) of
     None \<Rightarrow> False | Some r \<Rightarrow> cv_component_verified r)"

text \<open>The replay of a plan whose version is already in the catalog.\<close>

definition replay_publish :: "publish_services \<Rightarrow> time \<Rightarrow> time \<Rightarrow> publication_plan \<Rightarrow> string \<Rightarrow> catalog_metadata
    \<Rightarrow> pub_db \<Rightarrow> (pub_error + catalog_metadata option) \<times> pub_db" where
  "replay_publish ps now dbnow plan digest existing db =
     (let db1 = refresh_badges ps (pl_object_kind plan) db;
          db2 = set_plan (pl_id plan) (\<lambda>p. p\<lparr>pl_state := ''published'',
                  pl_component_verified := badge_of (cv_id existing) db1\<rparr>) db1
      in and_next (enqueue_seo_build (ps_seo_template ps) (pl_object_kind plan) (pl_stable_id plan) digest now dbnow db2)
           (\<lambda>_ db3. (Inr (find (\<lambda>r. cv_id r = cv_id existing) (catalog db3)), db3)))"

text \<open>The catalog row a plan writes, on top of a draft row or as a new one.\<close>

definition catalog_name :: "services \<Rightarrow> publication_plan \<Rightarrow> string option" where
  "catalog_name sv plan = (case dict_get (pl_passport plan) ''name'' of
     JNull \<Rightarrow> None | v \<Rightarrow> Some (py_str (sv_float_text sv) v))"

definition stamp_metadata :: "services \<Rightarrow> publication_plan \<Rightarrow> passport_model \<Rightarrow> string \<Rightarrow> time \<Rightarrow> string \<Rightarrow> bool \<Rightarrow> bool
    \<Rightarrow> dict \<Rightarrow> catalog_metadata \<Rightarrow> catalog_metadata" where
  "stamp_metadata sv plan passport digest now lane author verified summary r =
     r\<lparr>cv_current_revision_id := pm_revision_id passport, cv_visibility := plan_visibility plan,
       cv_lifecycle_state := ''active'', cv_name := catalog_name sv plan,
       cv_published_at := Some now, cv_trust_lane := Some lane, cv_author_verified := author,
       cv_component_verified := verified, cv_passport_digest := Some digest,
       cv_passport_document := pm_document passport, cv_checks_summary := summary\<rparr>"

definition new_metadata :: "int \<Rightarrow> publication_plan \<Rightarrow> catalog_metadata" where
  "new_metadata i plan =
     \<lparr>cv_id = i, cv_owner_account_id = pl_actor_account_id plan, cv_object_kind = pl_object_kind plan,
      cv_stable_id = pl_stable_id plan, cv_version = Some (pl_version plan), cv_current_revision_id = [],
      cv_visibility = ''private'', cv_lifecycle_state = ''draft'', cv_name = None, cv_published_at = None,
      cv_trust_lane = None, cv_author_verified = False, cv_component_verified = False,
      cv_passport_digest = None, cv_passport_document = [], cv_checks_summary = []\<rparr>"

definition put_metadata :: "catalog_metadata option \<Rightarrow> publication_plan \<Rightarrow> (catalog_metadata \<Rightarrow> catalog_metadata)
    \<Rightarrow> pub_db \<Rightarrow> (pub_error + int) \<times> pub_db" where
  "put_metadata existing plan stamp db =
     (case existing of
        Some r \<Rightarrow> (Inr (cv_id r),
          db\<lparr>catalog := update_where (\<lambda>q. cv_id q = cv_id r) stamp (catalog db)\<rparr>)
      | None \<Rightarrow>
          if list_ex (\<lambda>q. cv_stable_id q = pl_stable_id plan \<and> cv_version q = Some (pl_version plan)) (catalog db)
          then (Inl (PubConstraint ''uq_catalog_metadata_stable_id_version''), db)
          else (Inr (next_catalog_id db),
            db\<lparr>catalog := catalog db @ [stamp (new_metadata (next_catalog_id db) plan)],
               next_catalog_id := next_catalog_id db + 1\<rparr>))"

definition put_location :: "int \<Rightarrow> publication_plan \<Rightarrow> store_reader \<Rightarrow> string \<Rightarrow> int \<Rightarrow> pub_db
    \<Rightarrow> (pub_error + unit) \<times> pub_db" where
  "put_location i plan store key sz db =
     (if list_ex (\<lambda>l. ol_catalog_metadata_id l = i \<and> ol_purpose l = ''artifact'') (locations db)
      then (Inl (PubConstraint ''uq_object_location_metadata_purpose''), db)
      else (Inr (), db\<lparr>locations := locations db @
        [\<lparr>ol_catalog_metadata_id = i, ol_purpose = ''artifact'', ol_bucket = os_bucket store,
          ol_owner_account_id = pl_actor_account_id plan, ol_object_key = key,
          ol_digest = pl_content_digest plan, ol_content_id = pl_content_digest plan,
          ol_size_bytes = sz\<rparr>]\<rparr>))"

definition publish_attempts :: "string \<Rightarrow> time \<Rightarrow> pub_db \<Rightarrow> pub_db" where
  "publish_attempts i now db =
     db\<lparr>attempts_ledger := update_where (\<lambda>a. oa_plan_id a = Some i)
       (\<lambda>a. a\<lparr>oa_state := ''published'', oa_result := ''publication_started'', oa_completed_at := Some now\<rparr>)
       (attempts_ledger db)\<rparr>"

definition enqueue_metrics :: "passport_model \<Rightarrow> time \<Rightarrow> time \<Rightarrow> pub_db \<Rightarrow> (pub_error + unit) \<times> pub_db" where
  "enqueue_metrics passport now dbnow db =
     (case dict_get (pm_document passport) ''source'' of
        JDict source \<Rightarrow>
          (case dict_get source ''repository'' of
             JStr repository \<Rightarrow>
               and_next (push_job (global_job REPOSITORY_METRICS [(''repository'', JStr repository)]
                  (''repository-metrics:'' @ repository)) now dbnow db) (\<lambda>_ db1. (Inr (), db1))
           | _ \<Rightarrow> (Inr (), db))
      | _ \<Rightarrow> (Inr (), db))"

definition evidence_summary :: "evidence_binding list \<Rightarrow> checks_summary" where
  "evidence_summary rows = build_checks_summary (map (\<lambda>b. blank_binding\<lparr>
     br_check_id := Some (ev_check_id b), br_result := Some (ev_result b),
     br_mandatory := Some (ev_mandatory b), br_source := Some (ev_source b),
     br_family := Some (case ev_family b of None \<Rightarrow> [] | Some f \<Rightarrow> f),
     br_reason := opt_str (ev_reason b), br_finding_summary := ev_finding_summary b\<rparr>) rows)"

definition ensure_line :: "services \<Rightarrow> publication_plan \<Rightarrow> string \<Rightarrow> pub_db \<Rightarrow> identity_failure option \<times> pub_db" where
  "ensure_line sv plan display db =
     (if pl_object_kind plan \<noteq> ''component'' then (None, db)
      else case ensure_catalog_identity (sv_unicode sv) (pl_stable_id plan) (pl_actor_account_id plan)
                  display display display (pl_expected_ownership plan) db of
             (Inl e, _) \<Rightarrow> (Some e, db) | (Inr _, db1) \<Rightarrow> (None, db1))"

text \<open>Materialising a version: identity, catalog row, plan, badges, attempts, location, jobs.\<close>

definition materialize :: "services \<Rightarrow> publish_services \<Rightarrow> store_reader \<Rightarrow> time \<Rightarrow> time \<Rightarrow> publication_plan
    \<Rightarrow> passport_model \<Rightarrow> string \<Rightarrow> string \<Rightarrow> string \<Rightarrow> validation_snapshot \<Rightarrow> catalog_metadata option \<Rightarrow> pub_db
    \<Rightarrow> (pub_error + catalog_metadata option) \<times> pub_db" where
  "materialize sv ps store now dbnow plan passport digest key bytes snapshot existing db =
     (let component = (pl_object_kind plan = ''component'');
          setup = (pl_object_kind plan = ''setup'');
          summary = summary_dict (evidence_summary (evidence_of (vs_id snapshot) db))
            (if setup then Some (ps_setup_pins ps plan) else None);
          author = (case map_of (verified_authors db) (pl_actor_account_id plan) of
                      None \<Rightarrow> False | Some v \<Rightarrow> v);
          verified = vs_component_verified snapshot;
          lane = setup_trust_lane (setup \<and> ps_has_embedded ps bytes) author verified;
          display = (case catalog_name sv plan of None \<Rightarrow> pl_stable_id plan | Some n \<Rightarrow> n)
      in case ensure_line sv plan display db of
           (Some (IdentityError code message), _) \<Rightarrow> (Inr None, refuse_publish now plan message db)
         | (Some e, _) \<Rightarrow> (Inl (PubIdentity e), db)
         | (None, db1) \<Rightarrow>
             and_next (put_metadata existing plan (stamp_metadata sv plan passport digest now lane author
               verified summary) db1) (\<lambda>i db2.
             let db3 = refresh_badges ps (pl_object_kind plan) db2;
                 db4 = set_plan (pl_id plan) (\<lambda>p. p\<lparr>pl_state := ''published'',
                         pl_component_verified := badge_of i db3\<rparr>) db3;
                 db5 = (if component then publish_attempts (pl_id plan) now db4 else db4)
             in and_next (put_location i plan store key (pm_artifact_size passport) db5) (\<lambda>_ db6.
                and_next (enqueue_metrics passport now dbnow db6) (\<lambda>_ db7.
                and_next (enqueue_seo_build (ps_seo_template ps) (pl_object_kind plan) (pl_stable_id plan)
                            digest now dbnow db7) (\<lambda>_ db8.
                (Inr (find (\<lambda>r. cv_id r = i) (catalog db8)), db8))))))"

text \<open>
  \<open>execute_publish\<close>. A refusal is an answer (\<^term>\<open>Inr None\<close>) and settles the plan; an exception
  (an unknown plan, no store, a constraint) rolls back.
\<close>

definition execute_publish :: "services \<Rightarrow> publish_services \<Rightarrow> store_reader option \<Rightarrow> time \<Rightarrow> time \<Rightarrow> string
    \<Rightarrow> pub_db \<Rightarrow> (pub_error + catalog_metadata option) \<times> pub_db" where
  "execute_publish sv ps store now dbnow plan_id db = atomic db
     (case plan_row plan_id db of
        None \<Rightarrow> (Inl (PubValueError (''unknown plan '' @ plan_id)), db)
      | Some plan \<Rightarrow>
          let refuse = (\<lambda>reason. (Inr None, refuse_publish now plan reason db)) in
          if pl_state plan \<in> set SETTLED_STATES then (Inr None, db)
          else if pl_expires_at plan \<le> now then refuse ''publication plan expired before publish''
          else
            (case (if plan_visibility plan = ''public'' then sv_bound_public sv plan else sv_bound sv plan) of
               Inl msg \<Rightarrow> refuse (''bound source refused publish: '' @ msg)
             | Inr bound \<Rightarrow>
                 (case validate_publication_passport sv (pl_passport plan) (pl_object_kind plan)
                         (pl_stable_id plan) (pl_version plan) (pl_content_digest plan)
                         (Some (pl_actor_account_id plan)) (plan_visibility plan) bound of
                    (None, invalid) \<Rightarrow>
                      refuse (''publish passport failed integrity validation: '' @ join '', '' invalid)
                  | (Some passport, _) \<Rightarrow>
                      (case assert_publication_owner (pl_stable_id plan) (pl_actor_account_id plan)
                              (pl_expected_ownership plan) (pl_object_kind plan) db of
                         Some (IdentityError code message) \<Rightarrow> refuse message
                       | Some e \<Rightarrow> (Inl (PubIdentity e), db)
                       | None \<Rightarrow>
                           (case store of
                              None \<Rightarrow> (Inl (PubValueError ''publish requires an available artifact object store''), db)
                            | Some st \<Rightarrow>
                                (case read_artifact st plan (pm_artifact_size passport) of
                                   Inl msg \<Rightarrow> refuse (''stored artifact failed integrity check: '' @ msg)
                                 | Inr (key, None) \<Rightarrow> refuse ''publish requires durable verified artifact bytes''
                                 | Inr (key, Some bytes) \<Rightarrow>
                                     let digest = sv_passport_digest sv passport;
                                         existing = find (version_row plan) (catalog db);
                                         refusal = (case existing of None \<Rightarrow> None
                                                    | Some r \<Rightarrow> existing_refusal plan digest r)
                                     in (case refusal of
                                           Some reason \<Rightarrow> refuse reason
                                         | None \<Rightarrow>
                                             if (case existing of None \<Rightarrow> False | Some r \<Rightarrow> cv_lifecycle_state r \<noteq> ''draft'')
                                             then if incomplete_version ps digest (pm_document passport) (the existing)
                                                  then refuse ''published catalog version has incomplete immutable metadata''
                                                  else replay_publish ps now dbnow plan digest (the existing) db
                                             else
                                               (case snapshot_of (pl_id plan) db of
                                                  None \<Rightarrow> refuse ''publish requires successful validation snapshot''
                                                | Some s \<Rightarrow>
                                                    if vs_state s \<notin> {''passed'', ''warning''}
                                                    then refuse ''publish requires successful validation snapshot''
                                                    else materialize sv ps st now dbnow plan passport digest key
                                                           bytes s existing db))))))))"

section \<open>Re-evaluation\<close>

definition execute_reevaluate_eligibility :: "publish_services \<Rightarrow> string \<Rightarrow> string \<Rightarrow> string \<Rightarrow> time \<Rightarrow> pub_db
    \<Rightarrow> catalog_metadata option \<times> pub_db" where
  "execute_reevaluate_eligibility ps object_kind stable_id version now db =
     (let here = (\<lambda>r. cv_object_kind r = object_kind \<and> cv_stable_id r = stable_id \<and> cv_version r = Some version) in
      case find here (catalog db) of
        None \<Rightarrow> (None, db)
      | Some row \<Rightarrow>
          (case find (\<lambda>p. pl_stable_id p = stable_id \<and> pl_version p = version
                  \<and> pl_object_kind p = object_kind \<and> pl_state p = ''published'') (plans db) of
             None \<Rightarrow> (Some row, db)
           | Some plan \<Rightarrow>
               (case snapshot_of (pl_id plan) db of
                  None \<Rightarrow> (Some row, db)
                | Some s \<Rightarrow>
                    let bindings = evidence_of (vs_id s) db;
                        expired = list_ex (\<lambda>b. ev_mandatory b
                          \<and> (case ev_expires_at b of None \<Rightarrow> False | Some t \<Rightarrow> t \<le> now)) bindings
                    in if expired \<or> list_ex (\<lambda>b. ev_mandatory b \<and> ev_result b \<noteq> ''passed'') bindings
                       then let drop = (\<lambda>r. r\<lparr>cv_component_verified := False,
                                  cv_trust_lane := (if cv_trust_lane r = Some ''authoritative''
                                                    then Some ''experimental'' else cv_trust_lane r)\<rparr>);
                                db1 = set_plan (pl_id plan) (\<lambda>p. p\<lparr>pl_component_verified := False\<rparr>)
                                        (db\<lparr>catalog := update_where (\<lambda>r. cv_id r = cv_id row) drop (catalog db)\<rparr>);
                                db2 = refresh_badges ps object_kind db1
                            in (find here (catalog db2), db2)
                       else (Some row, db))))"

section \<open>The worker's handlers\<close>

definition handle_validate :: "(string \<Rightarrow> pub_db \<Rightarrow> (pub_error + validation_snapshot) \<times> pub_db) \<Rightarrow> dict \<Rightarrow> pub_db
    \<Rightarrow> (pub_error + unit) \<times> pub_db" where
  "handle_validate run payload db =
     (case dict_get payload ''plan_id'' of
        JStr (c # cs) \<Rightarrow> and_next (run (c # cs) db) (\<lambda>_ db1. (Inr (), db1))
      | _ \<Rightarrow> (Inl (PubPermanent ''validate requires plan_id''), db))"

definition handle_publish :: "(string \<Rightarrow> pub_db \<Rightarrow> (pub_error + catalog_metadata option) \<times> pub_db) \<Rightarrow> dict \<Rightarrow> pub_db
    \<Rightarrow> (pub_error + unit) \<times> pub_db" where
  "handle_publish run payload db =
     (case dict_get payload ''plan_id'' of
        JStr (c # cs) \<Rightarrow> and_next (run (c # cs) db) (\<lambda>_ db1. (Inr (), db1))
      | _ \<Rightarrow> (Inl (PubPermanent ''publish requires plan_id''), db))"

definition handle_reevaluate :: "publish_services \<Rightarrow> dict \<Rightarrow> time \<Rightarrow> pub_db \<Rightarrow> (pub_error + unit) \<times> pub_db" where
  "handle_reevaluate ps payload now db =
     (case (dict_get payload ''object_kind'', dict_get payload ''stable_id'', dict_get payload ''version'') of
        (JStr (a # as), JStr (b # bs), JStr (c # cs)) \<Rightarrow>
          (Inr (), snd (execute_reevaluate_eligibility ps (a # as) (b # bs) (c # cs) now db))
      | _ \<Rightarrow> (Inl (PubPermanent ''reevaluate_eligibility requires object_kind, stable_id, version''), db))"

end
