(* ===== verification/PublicationApi.thy ===== *)
theory PublicationApi
  imports Publication
begin

text \<open>
  The publication endpoints (\<open>apps/api/src/ai_stp_api/slices/publish/service.py\<close>): creating,
  reading, confirming a plan and binding its artifacts. \<open>request\<close> is the request's transaction
  (\<open>deps.py\<close>): a raised error rolls everything back. The GitHub and GitLab authorisation, the plan
  hash, the publisher profile and the object store are arguments.
\<close>

record auth_context =
  cx_account_id :: string
  cx_device_id :: "string option"

datatype endpoint_error =
    Api api_error
  | SourceError string
  | Uncaught identity_failure
  | QueueFailed pub_error
  | StaleData

definition api :: "error_category \<Rightarrow> string \<Rightarrow> endpoint_error" where
  "api c message = Api (ApiError c message None)"

text \<open>\<open>get_db\<close>: commit, or roll back and re-raise.\<close>

definition request :: "(pub_db \<Rightarrow> (endpoint_error + 'a) \<times> pub_db) \<Rightarrow> pub_db \<Rightarrow> (endpoint_error + 'a) \<times> pub_db" where
  "request endpoint db = atomic db (endpoint db)"

definition CATEGORY_CODE :: "(error_category \<times> string) list" where
  "CATEGORY_CODE =
     [(VALIDATION, ''AI_STP_VALIDATION_ERROR''), (NOT_FOUND, ''AI_STP_NOT_FOUND''),
      (AUTH_REQUIRED, ''AI_STP_AUTH_REQUIRED''), (PERMISSION, ''AI_STP_PERMISSION_DENIED''),
      (CONFLICT, ''AI_STP_CONFLICT''), (RATE_LIMITED, ''AI_STP_RATE_LIMITED''),
      (DEPENDENCY, ''AI_STP_DEPENDENCY_UNAVAILABLE''), (INTERNAL, ''AI_STP_INTERNAL''),
      (CATALOG_INTEGRITY, ''AI_STP_CATALOG_INTEGRITY''),
      (AUTHORIZATION_PENDING, ''AI_STP_AUTHORIZATION_PENDING''),
      (AUTHORIZATION_EXPIRED, ''AI_STP_AUTHORIZATION_EXPIRED''),
      (AUTHORIZATION_DECLINED, ''AI_STP_AUTHORIZATION_DECLINED''),
      (PRECONDITION, ''AI_STP_PRECONDITION_FAILED''), (DEVICE_REVOKED, ''AI_STP_DEVICE_REVOKED''),
      (SEO_FACTS_INVALID, ''AI_STP_SEO_FACTS_INVALID''), (SEO_OUTPUT_INVALID, ''AI_STP_SEO_OUTPUT_INVALID''),
      (SEO_ENRICHMENT_UNAVAILABLE, ''AI_STP_SEO_ENRICHMENT_UNAVAILABLE''),
      (SEO_SOURCE_STALE, ''AI_STP_SEO_SOURCE_STALE''), (SEO_RENDER_FAILED, ''AI_STP_SEO_RENDER_FAILED''),
      (CONTENT_INVALID, ''AI_STP_CONTENT_INVALID''),
      (CONTENT_SOURCE_CONFLICT, ''AI_STP_CONTENT_SOURCE_CONFLICT''), (CONTENT_STALE, ''AI_STP_CONTENT_STALE''),
      (CONTENT_IMPORT_FORBIDDEN, ''AI_STP_CONTENT_IMPORT_FORBIDDEN''),
      (HANDLE_CONFLICT, ''AI_STP_HANDLE_CONFLICT''),
      (ACCOUNT_DISPLAY_NAME_CONFLICT, ''AI_STP_ACCOUNT_DISPLAY_NAME_CONFLICT''),
      (CANONICAL_NAME_CONFLICT, ''AI_STP_CANONICAL_NAME_CONFLICT''),
      (LOCALIZED_NAME_CONFLICT, ''AI_STP_LOCALIZED_NAME_CONFLICT''),
      (FOREIGN_LINE_OWNERSHIP, ''AI_STP_FOREIGN_LINE_OWNERSHIP''),
      (STALE_OWNERSHIP_REVISION, ''AI_STP_STALE_OWNERSHIP_REVISION''),
      (MIGRATION_CONFLICT, ''AI_STP_MIGRATION_CONFLICT''), (MANIFEST_MISMATCH, ''AI_STP_MANIFEST_MISMATCH''),
      (SYNC_DELIVERY, ''AI_STP_SYNC_DELIVERY'')]"

definition identity_category :: "string \<Rightarrow> error_category" where
  "identity_category code =
     (case find (\<lambda>(c, k). k = code) CATEGORY_CODE of None \<Rightarrow> CONFLICT | Some (c, _) \<Rightarrow> c)"

fun identity_error :: "identity_failure \<Rightarrow> endpoint_error" where
  "identity_error (IdentityError code message) = api (identity_category code) message"
| "identity_error (FlushIdentityError code message) = api (identity_category code) message"
| "identity_error e = Uncaught e"

definition require_active_device :: "auth_context \<Rightarrow> string \<Rightarrow> pub_db \<Rightarrow> endpoint_error + device" where
  "require_active_device ctx device_id db =
     (if cx_device_id ctx \<noteq> Some device_id then Inl (api VALIDATION ''device_id must match session device'')
      else case find (\<lambda>d. dv_id d = device_id) (pub_devices db) of
             None \<Rightarrow> Inl (api NOT_FOUND ''device not found'')
           | Some d \<Rightarrow>
               if dv_account_id d \<noteq> cx_account_id ctx then Inl (api NOT_FOUND ''device not found'')
               else if dv_state d \<noteq> ''active'' then Inl (api DEVICE_REVOKED ''device is revoked'')
               else Inr d)"

definition user_audit :: "auth_context \<Rightarrow> string \<Rightarrow> publication_plan \<Rightarrow> dict \<Rightarrow> publication_audit" where
  "user_audit ctx action plan payload =
     \<lparr>pa_actor_account_id = cx_account_id ctx, pa_actor_type = ''user'', pa_action = action,
      pa_target_id = pl_id plan, pa_reason = None, pa_outcome = ''succeeded'', pa_payload = payload\<rparr>"

definition log_audit :: "publication_audit \<Rightarrow> pub_db \<Rightarrow> pub_db" where
  "log_audit a db = db\<lparr>pub_audit := pub_audit db @ [a]\<rparr>"

section \<open>Reading\<close>

definition evidence_for_plan :: "string \<Rightarrow> pub_db \<Rightarrow> evidence_binding list" where
  "evidence_for_plan i db = (case snapshot_of i db of None \<Rightarrow> [] | Some s \<Rightarrow> evidence_of (vs_id s) db)"

definition owned_plan :: "auth_context \<Rightarrow> string \<Rightarrow> pub_db \<Rightarrow> endpoint_error + publication_plan" where
  "owned_plan ctx i db =
     (case plan_row i db of
        None \<Rightarrow> Inl (api NOT_FOUND ''plan not found'')
      | Some plan \<Rightarrow>
          if pl_actor_account_id plan \<noteq> cx_account_id ctx then Inl (api NOT_FOUND ''plan not found'')
          else Inr plan)"

definition read_plan :: "auth_context \<Rightarrow> string \<Rightarrow> pub_db
    \<Rightarrow> (endpoint_error + publication_plan \<times> evidence_binding list) \<times> pub_db" where
  "read_plan ctx i db = (and_then (owned_plan ctx i db) (\<lambda>plan. Inr (plan, evidence_for_plan i db)), db)"

section \<open>Creating\<close>

record plan_request =
  rq_object_kind :: string
  rq_stable_id :: string
  rq_version :: string
  rq_content_digest :: string
  rq_artifact_inventory :: "string list"
  rq_visibility :: "string option"
  rq_source_binding_id :: "string option"
  rq_gitlab_source_binding_id :: "string option"
  rq_policy_version :: string
  rq_passport :: dict
  rq_attestations :: "dict list"
  rq_idempotency_key :: string
  rq_device_id :: string

text \<open>The visibility asked for: the field, or the passport's when the field was not sent (its default
  is private).\<close>

definition requested_visibility :: "plan_request \<Rightarrow> string" where
  "requested_visibility body =
     (case rq_visibility body of
        Some v \<Rightarrow> v
      | None \<Rightarrow>
          (case dict_get (rq_passport body) ''visibility'' of
             JStr v \<Rightarrow> if v \<in> {''public'', ''private''} then v else ''private''
           | _ \<Rightarrow> ''private''))"

definition may_publish_publicly :: "string option \<Rightarrow> string \<Rightarrow> pub_db \<Rightarrow> bool" where
  "may_publish_publicly profile_name account_id db =
     (case find (\<lambda>a. ia_id a = account_id) (accounts db) of
        None \<Rightarrow> False
      | Some a \<Rightarrow> ia_show_profile_publicly a \<and> ia_allow_publisher_listing a
          \<and> (case profile_name of None \<Rightarrow> False | Some n \<Rightarrow> strip n \<noteq> []))"

definition same_plan_request :: "plan_request \<Rightarrow> string \<Rightarrow> publication_plan \<Rightarrow> bool" where
  "same_plan_request body visibility p \<longleftrightarrow> pl_device_id p = rq_device_id body
     \<and> pl_object_kind p = rq_object_kind body \<and> pl_stable_id p = rq_stable_id body
     \<and> pl_version p = rq_version body \<and> pl_content_digest p = rq_content_digest body
     \<and> pl_visibility p = visibility \<and> pl_source_binding_id p = rq_source_binding_id body
     \<and> pl_gitlab_source_binding_id p = rq_gitlab_source_binding_id body
     \<and> pl_artifact_inventory p = rq_artifact_inventory body
     \<and> py_eq_list (map JDict (pl_attestations p)) (map JDict (rq_attestations body))
     \<and> py_eq (dict_get (pl_passport p) ''revision_id'') (dict_get (rq_passport body) ''revision_id'')"

text \<open>The refusals about a version that is already in the catalog.\<close>

definition occupied_refusal :: "string \<Rightarrow> string \<Rightarrow> catalog_metadata \<Rightarrow> endpoint_error option" where
  "occupied_refusal account digest r =
     (if cv_owner_account_id r \<noteq> account
      then Some (api PERMISSION ''the catalog version is owned by another account'')
      else if nonempty_text (cv_passport_digest r) \<noteq> None \<and> cv_passport_digest r \<noteq> Some digest
      then Some (api CONFLICT ''version already published with different digest'')
      else if cv_lifecycle_state r = ''draft'' \<and> cv_published_at r \<noteq> None
      then Some (api CONFLICT ''published catalog version cannot be rematerialized as a draft'') else None)"

definition new_plan :: "string \<Rightarrow> auth_context \<Rightarrow> plan_request \<Rightarrow> string \<Rightarrow> dict \<Rightarrow> string option \<Rightarrow> time
    \<Rightarrow> publication_plan" where
  "new_plan pid ctx body visibility passport expected now =
     \<lparr>pl_id = pid, pl_source_binding_id = rq_source_binding_id body,
      pl_gitlab_source_binding_id = rq_gitlab_source_binding_id body,
      pl_actor_account_id = cx_account_id ctx, pl_device_id = rq_device_id body,
      pl_object_kind = rq_object_kind body, pl_stable_id = rq_stable_id body, pl_version = rq_version body,
      pl_content_digest = rq_content_digest body, pl_artifact_inventory = rq_artifact_inventory body,
      pl_visibility = visibility, pl_policy_version = POLICY_VERSION, pl_plan_hash = [],
      pl_state = ''ready'', pl_passport = passport, pl_attestations = rq_attestations body,
      pl_effects = [''validate'', ''publish_catalog_version''], pl_component_verified = False,
      pl_idempotency_key = rq_idempotency_key body, pl_confirm_key = None,
      pl_expected_ownership = expected, pl_expires_at = now + PLAN_TTL\<rparr>"

definition claim_line :: "services \<Rightarrow> auth_context \<Rightarrow> plan_request \<Rightarrow> dict \<Rightarrow> pub_db
    \<Rightarrow> (endpoint_error + string option) \<times> pub_db" where
  "claim_line sv ctx body passport db =
     (if rq_object_kind body = ''setup''
      then (case assert_publication_owner (rq_stable_id body) (cx_account_id ctx) None ''setup'' db of
              Some e \<Rightarrow> (Inl (identity_error e), db) | None \<Rightarrow> (Inr None, db))
      else
        let display = py_str (sv_float_text sv)
              (or_else (dict_get passport ''name'') (JStr (rq_stable_id body)))
        in case ensure_catalog_identity (sv_unicode sv) (rq_stable_id body) (cx_account_id ctx)
                  display display display None db of
             (Inl e, _) \<Rightarrow> (Inl (identity_error e), db)
           | (Inr line, db1) \<Rightarrow> (Inr (Some (ci_ownership_revision_id line)), db1))"

definition insert_plan :: "(publication_plan \<Rightarrow> string) \<Rightarrow> auth_context \<Rightarrow> publication_plan \<Rightarrow> pub_db
    \<Rightarrow> (endpoint_error + publication_plan) \<times> pub_db" where
  "insert_plan plan_hash ctx plan0 db =
     (let plan = plan0\<lparr>pl_plan_hash := plan_hash plan0\<rparr> in
      if list_ex (\<lambda>p. pl_source_binding_id plan \<noteq> None \<and> pl_source_binding_id p = pl_source_binding_id plan
           \<or> pl_gitlab_source_binding_id plan \<noteq> None
             \<and> pl_gitlab_source_binding_id p = pl_gitlab_source_binding_id plan
           \<or> pl_id p = pl_id plan) (plans db)
      then (Inl (Api IntegrityError), db)
      else (Inr plan, log_audit (user_audit ctx ''publication.plan_created'' plan
              [(''stable_id'', JStr (pl_stable_id plan)), (''version'', JStr (pl_version plan))])
              (db\<lparr>plans := plans db @ [plan]\<rparr>)))"

text \<open>\<open>source\<close> is the bound source the request names, once authorised: its recorded passport digest.\<close>

definition create_fresh_plan :: "services \<Rightarrow> (publication_plan \<Rightarrow> string) \<Rightarrow> string option option \<Rightarrow> string \<Rightarrow> time
    \<Rightarrow> auth_context \<Rightarrow> plan_request \<Rightarrow> string \<Rightarrow> pub_db \<Rightarrow> (endpoint_error + publication_plan) \<times> pub_db" where
  "create_fresh_plan sv plan_hash source pid now ctx body visibility db =
     (case validate_publication_passport sv (rq_passport body) (rq_object_kind body) (rq_stable_id body)
             (rq_version body) (rq_content_digest body) (Some (cx_account_id ctx)) visibility (source \<noteq> None) of
        (None, invalid) \<Rightarrow>
          (Inl (Api (ApiError VALIDATION ''passport invalid for publication'' (Some (join '','' invalid)))), db)
      | (Some model, _) \<Rightarrow>
          let digest = sv_passport_digest sv model;
              occupied = find (\<lambda>r. cv_object_kind r = rq_object_kind body \<and> cv_stable_id r = rq_stable_id body
                                \<and> cv_version r = Some (rq_version body)) (catalog db)
          in (case (case occupied of None \<Rightarrow> None | Some r \<Rightarrow> occupied_refusal (cx_account_id ctx) digest r) of
                Some e \<Rightarrow> (Inl e, db)
              | None \<Rightarrow>
                  if (case source of Some (Some d) \<Rightarrow> d \<noteq> digest | _ \<Rightarrow> False)
                  then (Inl (SourceError ''source_binding_mismatch''), db)
                  else and_next (claim_line sv ctx body (pm_document model) db) (\<lambda>expected.
                    insert_plan plan_hash ctx
                      (new_plan pid ctx body visibility (pm_document model) expected now))))"

definition create_plan :: "services \<Rightarrow> (publication_plan \<Rightarrow> string) \<Rightarrow> string option
    \<Rightarrow> (endpoint_error + string option option) \<Rightarrow> string \<Rightarrow> time \<Rightarrow> auth_context \<Rightarrow> plan_request \<Rightarrow> pub_db
    \<Rightarrow> (endpoint_error + publication_plan) \<times> pub_db" where
  "create_plan sv plan_hash profile_name source pid now ctx body db =
     (case require_active_device ctx (rq_device_id body) db of
        Inl e \<Rightarrow> (Inl e, db)
      | Inr _ \<Rightarrow>
          let visibility = requested_visibility body in
          if rq_object_kind body = ''setup'' \<and> rq_artifact_inventory body \<noteq> []
          then (Inl (api VALIDATION ''setup artifact inventory must be empty''), db)
          else if rq_policy_version body \<noteq> POLICY_VERSION
          then (Inl (Api (ApiError VALIDATION ''policy_version does not name the policy this deployment enforces''
                            (Some POLICY_VERSION))), db)
          else if visibility = ''public'' \<and> \<not> may_publish_publicly profile_name (cx_account_id ctx) db
          then (Inl (Api (ApiError VALIDATION
                 ''publish a non-empty public publisher profile before publishing catalog objects''
                 (Some ''publisher_profile''))), db)
          else
            (case source of
               Inl e \<Rightarrow> (Inl e, db)
             | Inr bound \<Rightarrow>
                 (case find (\<lambda>p. pl_actor_account_id p = cx_account_id ctx
                          \<and> pl_idempotency_key p = rq_idempotency_key body) (plans db) of
                    Some existing \<Rightarrow>
                      if same_plan_request body visibility existing then (Inr existing, db)
                      else (Inl (api CONFLICT ''idempotency key belongs to another request''), db)
                  | None \<Rightarrow> create_fresh_plan sv plan_hash bound pid now ctx body visibility db)))"

section \<open>Confirming, and binding artifacts\<close>

definition passport_artifact_size :: "dict \<Rightarrow> int option" where
  "passport_artifact_size passport =
     (case dict_get passport ''artifact'' of
        JDict art \<Rightarrow> (case dict_get art ''size_bytes'' of
            JInt n \<Rightarrow> Some n | JBool b \<Rightarrow> Some (if b then 1 else 0) | _ \<Rightarrow> None)
      | _ \<Rightarrow> None)"

text \<open>\<open>projections\<close> are the projection artifacts the stored component passport declares, or
  \<^const>\<open>None\<close> when it does not validate.\<close>

definition projection_artifact_sizes :: "(dict \<Rightarrow> (string \<times> int) list option) \<Rightarrow> publication_plan
    \<Rightarrow> endpoint_error + (string \<times> int) list" where
  "projection_artifact_sizes projections plan =
     (if pl_object_kind plan \<noteq> ''component'' then Inr []
      else case projections (pl_passport plan) of
             None \<Rightarrow> Inl (api VALIDATION ''component passport is invalid'')
           | Some ps \<Rightarrow> Inr (fold (\<lambda>(d, n). dict_set d n) ps []))"

definition required_artifact_sizes :: "(dict \<Rightarrow> (string \<times> int) list option) \<Rightarrow> publication_plan
    \<Rightarrow> endpoint_error + (string \<times> int) list" where
  "required_artifact_sizes projections plan =
     (case passport_artifact_size (pl_passport plan) of
        None \<Rightarrow> Inl (api VALIDATION ''passport does not declare artifact size'')
      | Some n \<Rightarrow> and_then (projection_artifact_sizes projections plan) (\<lambda>ps.
          Inr (fold (\<lambda>(d, k). dict_set d k) ps [(pl_content_digest plan, n)])))"

definition missing_artifact :: "(string \<Rightarrow> int \<Rightarrow> string \<Rightarrow> bool) \<Rightarrow> publication_plan \<Rightarrow> (string \<times> int) list
    \<Rightarrow> endpoint_error option" where
  "missing_artifact durable plan required =
     (case find (\<lambda>(d, n). \<not> durable d n (pl_actor_account_id plan)) required of
        None \<Rightarrow> None
      | Some (d, n) \<Rightarrow> Some (Api (ApiError VALIDATION
          (if d = pl_content_digest plan then ''publication artifact bytes are not bound''
           else ''publication projection artifact bytes are not bound'') (Some d))))"

definition mark_stale :: "publication_plan \<Rightarrow> pub_db \<Rightarrow> (endpoint_error + 'a) \<times> pub_db" where
  "mark_stale plan db = (Inl (api VALIDATION ''plan expired''),
     set_plan (pl_id plan) (\<lambda>p. p\<lparr>pl_state := ''stale''\<rparr>) db)"

definition confirm_ready :: "string \<Rightarrow> time \<Rightarrow> time \<Rightarrow> auth_context \<Rightarrow> publication_plan \<Rightarrow> pub_db
    \<Rightarrow> (endpoint_error + publication_plan) \<times> pub_db" where
  "confirm_ready key now dbnow ctx plan db =
     (let confirmed = plan\<lparr>pl_state := ''validating'', pl_confirm_key := Some key\<rparr> in
      case push_job (global_job VALIDATE [(''plan_id'', JStr (pl_id plan))] (''validate:'' @ pl_id plan)) now dbnow
             (set_plan (pl_id plan) (\<lambda>p. p\<lparr>pl_state := ''validating'', pl_confirm_key := Some key\<rparr>) db) of
        (Inl e, db1) \<Rightarrow> (Inl (QueueFailed e), db1)
      | (Inr _, db1) \<Rightarrow> (Inr confirmed, log_audit (user_audit ctx ''publication.plan_confirmed'' confirmed
          [(''state'', JStr ''validating'')]) db1))"

text \<open>
  A confirmation reads the plan without a lock, checks it, asks the object store and GitHub or GitLab,
  and only then writes, by primary key. Other transactions commit in between, so what it reads and
  what it writes are two definitions: \<open>confirm_read\<close> goes up to the last authorisation and says, from
  the tables it saw, how the confirmation will end; \<open>confirm_write\<close> ends it over the tables of that
  later moment. The UPDATE of a plan that has been deleted meanwhile matches no row (StaleDataError).
\<close>

datatype confirm_gate =
    Told endpoint_error
  | Unchanged publication_plan
  | Rekey publication_plan
  | Expired publication_plan
  | Go publication_plan

definition confirm_read :: "(dict \<Rightarrow> (string \<times> int) list option) \<Rightarrow> (string \<Rightarrow> int \<Rightarrow> string \<Rightarrow> bool)
    \<Rightarrow> (publication_plan \<Rightarrow> endpoint_error option) \<Rightarrow> string \<Rightarrow> string \<Rightarrow> time \<Rightarrow> auth_context \<Rightarrow> string
    \<Rightarrow> pub_db \<Rightarrow> confirm_gate" where
  "confirm_read projections durable unauthorised hash key now ctx i db =
     (case and_then (owned_plan ctx i db) (\<lambda>plan.
             and_then (require_active_device ctx (pl_device_id plan) db) (\<lambda>_. Inr plan)) of
        Inl e \<Rightarrow> Told e
      | Inr plan \<Rightarrow>
          if hash \<noteq> pl_plan_hash plan then Told (api VALIDATION ''plan_hash mismatch'')
          else if pl_confirm_key plan = Some key then Unchanged plan
          else if pl_state plan \<in> {''validating'', ''publish_planned'', ''published''} then Rekey plan
          else if pl_state plan \<in> set SETTLED_STATES then Told (api CONFLICT (''plan is '' @ pl_state plan))
          else if pl_expires_at plan \<le> now then Expired plan
          else
            (case required_artifact_sizes projections plan of
               Inl e \<Rightarrow> Told e
             | Inr required \<Rightarrow>
                 (case missing_artifact durable plan required of
                    Some e \<Rightarrow> Told e
                  | None \<Rightarrow> (case unauthorised plan of Some e \<Rightarrow> Told e | None \<Rightarrow> Go plan))))"

definition confirm_write :: "string \<Rightarrow> time \<Rightarrow> time \<Rightarrow> auth_context \<Rightarrow> confirm_gate \<Rightarrow> pub_db
    \<Rightarrow> (endpoint_error + publication_plan) \<times> pub_db" where
  "confirm_write key now dbnow ctx gate db =
     (let gone = (\<lambda>plan. plan_row (pl_id plan) db = None) in
      case gate of
        Told e \<Rightarrow> (Inl e, db)
      | Unchanged plan \<Rightarrow> (Inr plan, db)
      | Rekey plan \<Rightarrow>
          if gone plan then (Inl StaleData, db)
          else (Inr (plan\<lparr>pl_confirm_key := Some key\<rparr>),
                set_plan (pl_id plan) (\<lambda>p. p\<lparr>pl_confirm_key := Some key\<rparr>) db)
      | Expired plan \<Rightarrow> if gone plan then (Inl StaleData, db) else mark_stale plan db
      | Go plan \<Rightarrow> if gone plan then (Inl StaleData, db) else confirm_ready key now dbnow ctx plan db)"

text \<open>A confirmation that nothing overtakes.\<close>

definition confirm_plan :: "(dict \<Rightarrow> (string \<times> int) list option) \<Rightarrow> (string \<Rightarrow> int \<Rightarrow> string \<Rightarrow> bool)
    \<Rightarrow> (publication_plan \<Rightarrow> endpoint_error option) \<Rightarrow> string \<Rightarrow> string \<Rightarrow> time \<Rightarrow> time \<Rightarrow> auth_context \<Rightarrow> string
    \<Rightarrow> pub_db \<Rightarrow> (endpoint_error + publication_plan) \<times> pub_db" where
  "confirm_plan projections durable unauthorised hash key now dbnow ctx i db =
     confirm_write key now dbnow ctx (confirm_read projections durable unauthorised hash key now ctx i db) db"

text \<open>What the store says of the uploaded bytes.\<close>

datatype bind_outcome = Bound | BadBytes string | BadIntegrity | Occupied

definition bind_exact_artifact :: "(string \<Rightarrow> int \<Rightarrow> string \<Rightarrow> bind_outcome) \<Rightarrow> string \<Rightarrow> time \<Rightarrow> auth_context
    \<Rightarrow> publication_plan \<Rightarrow> string \<Rightarrow> int \<Rightarrow> pub_db \<Rightarrow> (endpoint_error + publication_plan) \<times> pub_db" where
  "bind_exact_artifact bind action now ctx plan digest n db =
     (case require_active_device ctx (pl_device_id plan) db of
        Inl e \<Rightarrow> (Inl e, db)
      | Inr _ \<Rightarrow>
          if pl_state plan \<notin> {''draft'', ''ready''} then (Inl (api CONFLICT (''plan is '' @ pl_state plan)), db)
          else if pl_expires_at plan \<le> now then mark_stale plan db
          else
            (case bind digest n (pl_actor_account_id plan) of
               BadBytes message \<Rightarrow> (Inl (api VALIDATION message), db)
             | BadIntegrity \<Rightarrow> (Inl (api VALIDATION ''artifact digest or size does not match the plan''), db)
             | Occupied \<Rightarrow> (Inl (api CONFLICT ''different bytes already occupy this digest''), db)
             | Bound \<Rightarrow> (Inr plan, log_audit (user_audit ctx action plan
                 [(''digest'', JStr digest), (''size_bytes'', JInt n)]) db)))"

definition bind_artifact :: "(string \<Rightarrow> int \<Rightarrow> string \<Rightarrow> bind_outcome) \<Rightarrow> time \<Rightarrow> auth_context \<Rightarrow> string \<Rightarrow> pub_db
    \<Rightarrow> (endpoint_error + publication_plan) \<times> pub_db" where
  "bind_artifact bind now ctx i db =
     (case owned_plan ctx i db of
        Inl e \<Rightarrow> (Inl e, db)
      | Inr plan \<Rightarrow>
          (case passport_artifact_size (pl_passport plan) of
             None \<Rightarrow> (Inl (api VALIDATION ''passport does not declare artifact size''), db)
           | Some n \<Rightarrow> bind_exact_artifact bind ''publication.artifact_bound'' now ctx plan (pl_content_digest plan) n db))"

definition bind_projection_artifact :: "(dict \<Rightarrow> (string \<times> int) list option) \<Rightarrow> (string \<Rightarrow> int \<Rightarrow> string \<Rightarrow> bind_outcome)
    \<Rightarrow> time \<Rightarrow> auth_context \<Rightarrow> string \<Rightarrow> string \<Rightarrow> pub_db \<Rightarrow> (endpoint_error + publication_plan) \<times> pub_db" where
  "bind_projection_artifact projections bind now ctx i digest db =
     (case and_then (owned_plan ctx i db) (\<lambda>plan.
             and_then (projection_artifact_sizes projections plan) (\<lambda>ps. Inr (plan, ps))) of
        Inl e \<Rightarrow> (Inl e, db)
      | Inr (plan, ps) \<Rightarrow>
          (case map_of ps digest of
             None \<Rightarrow> (Inl (Api (ApiError VALIDATION
                 ''projection artifact is not declared by the publication plan'' (Some digest))), db)
           | Some n \<Rightarrow> bind_exact_artifact bind ''publication.projection_artifact_bound'' now ctx plan digest n db))"

end
