(* ===== verification/PublicationProps.thy ===== *)
theory PublicationProps
  imports PublicationApi
begin

text \<open>
  What every transaction of the publication tables keeps: the ids of plans and of versions stay
  distinct and version ids below their sequence; a plan keeps its content; a published version keeps
  everything but its badge and lane.
\<close>

section \<open>Plans and versions\<close>

text \<open>A plan's content: everything but its state, its badge and the key of its confirmation.\<close>

definition plan_core :: "publication_plan \<Rightarrow> publication_plan" where
  "plan_core p = p\<lparr>pl_state := [], pl_component_verified := False, pl_confirm_key := None\<rparr>"

definition core_inv :: "publication_plan list \<Rightarrow> catalog_metadata list \<Rightarrow> int \<Rightarrow> bool" where
  "core_inv pls cs n \<longleftrightarrow> distinct (map pl_id pls) \<and> distinct (map cv_id cs) \<and> (\<forall>r \<in> set cs. cv_id r < n)"

abbreviation pub_inv :: "pub_db \<Rightarrow> bool" where
  "pub_inv db \<equiv> core_inv (plans db) (catalog db) (next_catalog_id db)"

text \<open>What a step may do to a published version, and to the plans.\<close>

definition release_core :: "catalog_metadata \<Rightarrow> catalog_metadata" where
  "release_core r = r\<lparr>cv_component_verified := False, cv_trust_lane := None\<rparr>"

definition same_release :: "catalog_metadata \<Rightarrow> catalog_metadata \<Rightarrow> bool" where
  "same_release r r' \<longleftrightarrow>
     release_core r' = release_core r
     \<and> (cv_trust_lane r' = cv_trust_lane r
        \<or> cv_trust_lane r = Some ''authoritative'' \<and> cv_trust_lane r' = Some ''experimental'')"

definition keeps_published :: "catalog_metadata list \<Rightarrow> catalog_metadata list \<Rightarrow> bool" where
  "keeps_published cs cs' \<longleftrightarrow>
     (\<forall>r \<in> set cs. cv_published_at r \<noteq> None \<longrightarrow> (\<exists>r' \<in> set cs'. same_release r r'))"

definition plans_kept :: "publication_plan list \<Rightarrow> publication_plan list \<Rightarrow> bool" where
  "plans_kept pls pls' \<longleftrightarrow> (\<forall>p \<in> set pls. \<exists>p' \<in> set pls'. plan_core p' = plan_core p)"

lemma same_release_refl [simp]: "same_release r r"
  by (simp add: same_release_def)

lemma same_release_trans: "same_release r s \<Longrightarrow> same_release s t \<Longrightarrow> same_release r t"
  unfolding same_release_def by auto

lemma release_core_sel:
  "cv_id (release_core r) = cv_id r" "cv_owner_account_id (release_core r) = cv_owner_account_id r"
  "cv_object_kind (release_core r) = cv_object_kind r" "cv_stable_id (release_core r) = cv_stable_id r"
  "cv_version (release_core r) = cv_version r" "cv_published_at (release_core r) = cv_published_at r"
  "cv_passport_digest (release_core r) = cv_passport_digest r"
  by (simp_all add: release_core_def)

lemma release_core_fields:
  "release_core r' = release_core r \<Longrightarrow> cv_id r' = cv_id r \<and> cv_owner_account_id r' = cv_owner_account_id r
     \<and> cv_object_kind r' = cv_object_kind r \<and> cv_stable_id r' = cv_stable_id r \<and> cv_version r' = cv_version r
     \<and> cv_published_at r' = cv_published_at r \<and> cv_passport_digest r' = cv_passport_digest r"
  using release_core_sel [of r] release_core_sel [of r'] by simp

lemma same_release_published: "same_release r r' \<Longrightarrow> cv_published_at r' = cv_published_at r"
  using release_core_fields [of r' r] by (simp add: same_release_def)

lemma keeps_published_refl [simp]: "keeps_published cs cs"
  by (auto simp: keeps_published_def intro: same_release_refl)

lemma keeps_update:
  assumes "\<And>r. same_release r (f r)"
  shows "keeps_published cs (update_where P f cs)"
proof -
  have "\<exists>r' \<in> set (update_where P f cs). same_release r r'" if "r \<in> set cs" for r
  proof (intro bexI)
    show "(if P r then f r else r) \<in> set (update_where P f cs)" using that by (auto simp: set_update_where)
  qed (simp add: assms)
  then show ?thesis by (simp add: keeps_published_def)
qed

lemma keeps_published_trans: "keeps_published a b \<Longrightarrow> keeps_published b c \<Longrightarrow> keeps_published a c"
  unfolding keeps_published_def by (metis same_release_published same_release_trans)

lemma plans_kept_refl [simp]: "plans_kept pls pls"
  by (auto simp: plans_kept_def)

lemma plans_kept_trans: "plans_kept a b \<Longrightarrow> plans_kept b c \<Longrightarrow> plans_kept a c"
  unfolding plans_kept_def by metis

lemma plan_core_sel:
  "pl_id (plan_core p) = pl_id p" "pl_object_kind (plan_core p) = pl_object_kind p"
  "pl_stable_id (plan_core p) = pl_stable_id p" "pl_version (plan_core p) = pl_version p"
  "pl_actor_account_id (plan_core p) = pl_actor_account_id p" "pl_passport (plan_core p) = pl_passport p"
  "pl_content_digest (plan_core p) = pl_content_digest p"
  by (simp_all add: plan_core_def)

lemma plan_core_fields:
  "plan_core p' = plan_core p \<Longrightarrow> pl_id p' = pl_id p \<and> pl_object_kind p' = pl_object_kind p
     \<and> pl_stable_id p' = pl_stable_id p \<and> pl_version p' = pl_version p
     \<and> pl_actor_account_id p' = pl_actor_account_id p \<and> pl_passport p' = pl_passport p
     \<and> pl_content_digest p' = pl_content_digest p"
  using plan_core_sel [of p] plan_core_sel [of p'] by simp

section \<open>How the invariant moves\<close>

lemma core_inv_ids: "core_inv pls cs n \<Longrightarrow> distinct (map pl_id pls) \<and> distinct (map cv_id cs)
    \<and> (\<forall>r \<in> set cs. cv_id r < n)"
  by (simp add: core_inv_def)

lemma plan_row_mem: "plan_row i db = Some p \<Longrightarrow> p \<in> set (plans db) \<and> pl_id p = i"
  unfolding plan_row_def by (drule find_mem) simp

text \<open>The step contract: what every transaction of the component promises.\<close>

definition advances :: "pub_db \<Rightarrow> pub_db \<Rightarrow> bool" where
  "advances db db' \<longleftrightarrow> (pub_inv db \<longrightarrow>
     pub_inv db' \<and> keeps_published (catalog db) (catalog db') \<and> plans_kept (plans db) (plans db')
     \<and> next_catalog_id db \<le> next_catalog_id db'
     \<and> (\<forall>r' \<in> set (catalog db'). cv_id r' < next_catalog_id db \<longrightarrow> cv_id r' \<in> cv_id ` set (catalog db)))"

lemma advances_refl [simp]: "advances db db"
  by (simp add: advances_def)

lemma advances_trans: "advances a b \<Longrightarrow> advances b c \<Longrightarrow> advances a c"
  unfolding advances_def
  using keeps_published_trans [of "catalog a" "catalog b" "catalog c"]
    plans_kept_trans [of "plans a" "plans b" "plans c"] by fastforce

text \<open>A change of the other tables.\<close>

definition same_core :: "pub_db \<Rightarrow> pub_db \<Rightarrow> bool" where
  "same_core db db' \<longleftrightarrow> plans db' = plans db \<and> catalog db' = catalog db
     \<and> next_catalog_id db' = next_catalog_id db"

lemma same_core_advances: "same_core db db' \<Longrightarrow> advances db db'"
  by (simp add: advances_def same_core_def)

lemma same_core_right: "same_core b c \<Longrightarrow> advances a b \<Longrightarrow> advances a c"
  by (simp add: advances_def same_core_def)

lemma core_of_settle [simp]:
  "plans (settle_attempts i c t db) = plans db" "catalog (settle_attempts i c t db) = catalog db"
  "next_catalog_id (settle_attempts i c t db) = next_catalog_id db"
  by (simp_all add: settle_attempts_def)

lemma core_of_set_plan [simp]:
  "plans (set_plan i f db) = update_where (\<lambda>p. pl_id p = i) f (plans db)"
  "snapshots (set_plan i f db) = snapshots db" "catalog (set_plan i f db) = catalog db"
  "next_catalog_id (set_plan i f db) = next_catalog_id db" "pub_queue (set_plan i f db) = pub_queue db"
  by (simp_all add: set_plan_def)

text \<open>A plan's state, badge and confirmation key can be written in any way.\<close>

lemma set_plan_advances:
  assumes core: "\<And>p. plan_core (f p) = plan_core p"
  shows "advances db (set_plan i f db)"
proof -
  have ids: "map pl_id (update_where (\<lambda>p. pl_id p = i) f (plans db)) = map pl_id (plans db)"
    by (rule map_update_where) (use plan_core_fields [OF core] in simp)
  have kept: "plans_kept (plans db) (update_where (\<lambda>p. pl_id p = i) f (plans db))"
    unfolding plans_kept_def
  proof
    fix p assume "p \<in> set (plans db)"
    then show "\<exists>p' \<in> set (update_where (\<lambda>p. pl_id p = i) f (plans db)). plan_core p' = plan_core p"
      by (intro bexI [of _ "if pl_id p = i then f p else p"]) (auto simp: set_update_where core)
  qed
  with ids show ?thesis by (simp add: advances_def core_inv_def)
qed

lemma plan_core_state [simp]:
  "plan_core (p\<lparr>pl_state := s\<rparr>) = plan_core p"
  "plan_core (p\<lparr>pl_component_verified := b\<rparr>) = plan_core p"
  "plan_core (p\<lparr>pl_confirm_key := k\<rparr>) = plan_core p"
  by (simp_all add: plan_core_def)

lemma set_plan_then: "same_core (set_plan i f db) db' \<Longrightarrow> (\<And>p. plan_core (f p) = plan_core p) \<Longrightarrow>
    advances db db'"
  by (rule same_core_right [OF _ set_plan_advances])

section \<open>Jobs and refusals\<close>

lemma push_job_core: "push_job a now dbnow db = (r, db') \<Longrightarrow> same_core db db'"
  by (auto simp: push_job_def same_core_def split: sum.splits prod.splits)

lemma refuse_advances: "advances db (refuse_publish now plan reason db)"
  unfolding refuse_publish_def
  by (rule set_plan_then [where i = "pl_id plan" and f = "\<lambda>p. p\<lparr>pl_state := ''failed''\<rparr>"])
    (simp_all add: same_core_def)

lemma advances_atomic:
  assumes "\<And>r db'. m = (Inr r, db') \<Longrightarrow> advances db db'"
  shows "advances db (snd (atomic db m))"
  using assms by (cases m) (auto simp: atomic_def split: sum.split)

section \<open>Validation\<close>

lemma add_snapshot_core: "add_snapshot s db = (Inr u, db') \<Longrightarrow> same_core db db'"
  by (auto simp: add_snapshot_def same_core_def split: if_splits)

lemma add_evidence_core: "add_evidence rows db = (Inr u, db') \<Longrightarrow> same_core db db'"
  by (auto simp: add_evidence_def same_core_def split: if_splits)

lemma and_next_Inr:
  "and_next m f = (Inr b, s') \<longleftrightarrow> (\<exists>a s. m = (Inr a, s) \<and> f a s = (Inr b, s'))"
  by (auto simp: and_next_def split: prod.splits sum.splits)

lemma and_next_advances:
  assumes "and_next m f = (Inr b, db')" and "\<And>a s. m = (Inr a, s) \<Longrightarrow> advances db s"
    and "\<And>a s. m = (Inr a, s) \<Longrightarrow> f a s = (Inr b, db') \<Longrightarrow> advances s db'"
  shows "advances db db'"
  using assms advances_trans by (auto simp: and_next_Inr)

lemma record_refusal_advances:
  assumes "record_refusal_snapshot sid now plan reason db = (Inr r, db')"
  shows "advances db db'"
proof -
  from assms obtain u1 db1 rows u2 db2 where "add_snapshot (refusal_snapshot sid plan) db = (Inr u1, db1)"
    and "add_evidence rows db1 = (Inr u2, db2)"
    and last: "same_core (set_plan (pl_id plan) (\<lambda>p. p\<lparr>pl_state := ''failed''\<rparr>) db2) db'"
    by (auto simp: record_refusal_snapshot_def and_next_Inr same_core_def)
  then have "advances db db2"
    using advances_trans [OF same_core_advances [OF add_snapshot_core] same_core_advances [OF add_evidence_core]]
    by blast
  moreover have "advances db2 db'" using last by (rule set_plan_then) simp
  ultimately show ?thesis by (rule advances_trans)
qed

lemma refusal_snapshot_advances:
  "advances db (snd (atomic db (record_refusal_snapshot sid now plan reason db)))"
  by (rule advances_atomic) (rule record_refusal_advances)

lemma begin_validate_advances: "advances db (snd (begin_validate sv' sid now i db))"
  using refusal_snapshot_advances
  by (auto simp: begin_validate_def answered_def split: option.split sum.split)

lemma plan_verdict_advances:
  assumes "(if good then and_next (push_job a now dbnow (set_plan i (\<lambda>p. p\<lparr>pl_state := ''publish_planned'',
        pl_component_verified := b\<rparr>) db)) (\<lambda>_ db2. (Inr s, db2))
      else (Inr s, settle_attempts i c now (set_plan i (\<lambda>p. p\<lparr>pl_state := ''failed''\<rparr>) db))) = (Inr r, db')"
  shows "advances db db'"
proof (cases good)
  case True
  with assms have "same_core (set_plan i (\<lambda>p. p\<lparr>pl_state := ''publish_planned'', pl_component_verified := b\<rparr>) db) db'"
    by (auto simp: and_next_Inr dest: push_job_core)
  then show ?thesis by (rule set_plan_then) (simp add: plan_core_def)
next
  case False
  with assms have "same_core (set_plan i (\<lambda>p. p\<lparr>pl_state := ''failed''\<rparr>) db) db'" by (auto simp: same_core_def)
  then show ?thesis by (rule set_plan_then) simp
qed

lemma finish_validate_advances:
  "advances db (snd (finish_validate sv' sid now dbnow assess pins bindings plan db))"
proof -
  obtain state passed where outcome: "snapshot_outcome bindings = (state, passed)" by fastforce
  show ?thesis unfolding finish_validate_def outcome Let_def prod.case
  proof (rule advances_atomic, erule and_next_advances, goal_cases)
    case (1 r db' u db0)
    then show ?case using add_snapshot_core same_core_advances by blast
  next
    case (2 r db' u db0)
    show ?case
    proof (cases "evidence_rows sv' sid (now + EVIDENCE_TTL) bindings")
      case (Inl e)
      with 2(2) show ?thesis by simp
    next
      case (Inr rows)
      note rest = 2(2) [unfolded Inr sum.case]
      show ?thesis
        by (rule and_next_advances [OF rest])
          (erule same_core_advances [OF add_evidence_core], erule plan_verdict_advances)
    qed
  qed
qed

lemma settle_advances: "advances db (snd (atomic db (settle_dead_lettered_plan sid now j db)))"
  by (rule advances_atomic)
    (auto simp: settle_dead_lettered_plan_def and_next_Inr Let_def refuse_advances record_refusal_advances
      split: json.splits option.splits if_splits)

section \<open>Publication\<close>

text \<open>A change of catalog rows in place, and a new row.\<close>

lemma rows_advance:
  assumes "plans db' = plans db" and "next_catalog_id db' = next_catalog_id db"
    and ids: "map cv_id (catalog db') = map cv_id (catalog db)"
    and "pub_inv db \<Longrightarrow> keeps_published (catalog db) (catalog db')"
  shows "advances db db'"
proof -
  have "cv_id ` set (catalog db') = cv_id ` set (catalog db)" using ids by (metis list.set_map)
  then have "\<forall>r' \<in> set (catalog db'). cv_id r' \<in> cv_id ` set (catalog db)" by blast
  with assms show ?thesis by (fastforce simp: advances_def core_inv_def)
qed

lemma new_row_advances:
  assumes "plans db' = plans db" and "catalog db' = catalog db @ [r]"
    and "next_catalog_id db' = next_catalog_id db + 1" and "cv_id r = next_catalog_id db"
  shows "advances db db'"
  using assms by (fastforce simp: advances_def core_inv_def keeps_published_def intro: same_release_refl)

definition refreshed_row :: "publish_services \<Rightarrow> string \<Rightarrow> pub_db \<Rightarrow> catalog_metadata \<Rightarrow> catalog_metadata" where
  "refreshed_row ps k db r = (if k \<noteq> ''component'' then r else
     case ps_reassess ps db r of None \<Rightarrow> r | Some b \<Rightarrow> r\<lparr>cv_component_verified := b\<rparr>)"

lemma refreshed: "catalog (refresh_badges ps k db) = map (refreshed_row ps k db) (catalog db)"
proof (cases "k = ''component''")
  case True
  then have "refreshed_row ps k db = (\<lambda>r. case ps_reassess ps db r of None \<Rightarrow> r
      | Some b \<Rightarrow> r\<lparr>cv_component_verified := b\<rparr>)" by (intro ext) (simp add: refreshed_row_def)
  with True show ?thesis by (simp add: refresh_badges_def)
next
  case False
  then have "refreshed_row ps k db = id" by (intro ext) (simp add: refreshed_row_def)
  with False show ?thesis by (simp add: refresh_badges_def)
qed

lemma refresh_row: "same_release r (refreshed_row ps k db r)"
  by (simp add: same_release_def release_core_def refreshed_row_def split: option.split)

lemma catalog_update_advances:
  assumes "\<And>r. same_release r (f r)" and "\<And>r. cv_id (f r) = cv_id r"
  shows "advances db (db\<lparr>catalog := update_where P f (catalog db)\<rparr>)"
proof (rule rows_advance)
  show "map cv_id (catalog (db\<lparr>catalog := update_where P f (catalog db)\<rparr>)) = map cv_id (catalog db)"
    using map_update_where [of cv_id f P "catalog db"] assms(2) by simp
qed (simp_all add: keeps_update [OF assms(1)])

lemma refresh_row_id: "cv_id (refreshed_row ps k db r) = cv_id r"
  by (simp add: refreshed_row_def split: option.split)

lemma refresh_keeps: "keeps_published (catalog db) (catalog (refresh_badges ps k db))"
  unfolding keeps_published_def refreshed set_map using refresh_row by blast

lemma refresh_other [simp]:
  "plans (refresh_badges ps k db) = plans db" "snapshots (refresh_badges ps k db) = snapshots db"
  "pub_queue (refresh_badges ps k db) = pub_queue db" "next_catalog_id (refresh_badges ps k db) = next_catalog_id db"
  by (simp_all add: refresh_badges_def)

lemma refresh_ids: "map cv_id (catalog (refresh_badges ps k db)) = map cv_id (catalog db)"
  by (simp add: refreshed refresh_row_id comp_def)

lemma refresh_advances: "advances db (refresh_badges ps k db)"
  by (rule rows_advance) (simp_all add: refresh_ids refresh_keeps)

lemma enqueue_seo_locales_core:
  "enqueue_seo_locales ls k s d v now dbnow db = (Inr u, db') \<Longrightarrow> same_core db db'"
proof (induction ls arbitrary: db)
  case (Cons l ls)
  then obtain j db1 where push: "push_job (global_job SEO_BUILD
       [(''subject_kind'', JStr k), (''subject_id'', JStr s), (''locale'', JStr l),
        (''source_digest'', JStr d), (''template_version'', JStr v)]
       (join '':'' [''seo-build'', k, s, l, d, v])) now dbnow db = (Inr j, db1)"
    and "enqueue_seo_locales ls k s d v now dbnow db1 = (Inr u, db')"
    by (auto simp: Let_def and_next_Inr split: if_splits)
  with Cons.IH push_job_core [OF push] show ?case by (fastforce simp: same_core_def)
qed (simp add: same_core_def)

lemma enqueue_seo_core: "enqueue_seo_build v k s d now dbnow db = (Inr u, db') \<Longrightarrow> same_core db db'"
  by (auto simp: enqueue_seo_build_def split: if_splits intro: enqueue_seo_locales_core)

lemma enqueue_metrics_core: "enqueue_metrics m now dbnow db = (Inr u, db') \<Longrightarrow> same_core db db'"
  by (auto simp: enqueue_metrics_def and_next_Inr same_core_def dest!: push_job_core split: json.splits)

text \<open>What the validated passport of a plan says.\<close>

lemma validated_model:
  assumes "validate_publication_passport sv d k sid v c acc vis b = (Some m, xs)"
  shows "sv_model_validate sv (if k = ''component'' then ''component'' else ''setup'') d = Inr m
    \<and> pm_kind m = k \<and> pm_stable_id m = sid \<and> pm_version m = v \<and> pm_artifact_digest m = c
    \<and> (\<forall>a. acc = Some a \<longrightarrow> pm_owner_id m = a) \<and> sv_verify_revision sv m"
  using assms by (auto simp: validate_publication_passport_def Let_def split: sum.splits if_splits option.splits)

lemma replay_advances:
  assumes "replay_publish ps now dbnow plan digest r db = (Inr x, db')"
  shows "advances db db'"
proof -
  let ?db1 = "refresh_badges ps (pl_object_kind plan) db"
  let ?f = "\<lambda>p. p\<lparr>pl_state := ''published'', pl_component_verified := badge_of (cv_id r) ?db1\<rparr>"
  from assms obtain u where "enqueue_seo_build (ps_seo_template ps) (pl_object_kind plan) (pl_stable_id plan)
      digest now dbnow (set_plan (pl_id plan) ?f ?db1) = (Inr u, db')"
    by (auto simp: replay_publish_def Let_def and_next_Inr)
  from enqueue_seo_core [OF this] have "advances ?db1 db'" by (rule set_plan_then) (simp add: plan_core_def)
  then show ?thesis by (rule advances_trans [OF refresh_advances])
qed

lemma put_metadata_advances:
  assumes put: "put_metadata existing plan (stamp_metadata sv plan m (sv_passport_digest sv m) now lane a v summary) db
      = (Inr i, db')"
    and "\<And>r. existing = Some r \<Longrightarrow> r \<in> set (catalog db) \<and> version_row plan r
           \<and> cv_owner_account_id r = pl_actor_account_id plan \<and> cv_published_at r = None"
  shows "advances db db'"
proof -
  let ?stamp = "stamp_metadata sv plan m (sv_passport_digest sv m) now lane a v summary"
  have sid: "cv_id (?stamp q) = cv_id q" for q by (simp add: stamp_metadata_def)
  show ?thesis
  proof (cases existing)
    case None
    let ?row = "?stamp (new_metadata (next_catalog_id db) plan)"
    from put None have db': "db' = db\<lparr>catalog := catalog db @ [?row], next_catalog_id := next_catalog_id db + 1\<rparr>"
      by (auto simp: put_metadata_def split: if_splits)
    show ?thesis
      by (rule new_row_advances [where r = ?row]) (simp_all add: db' stamp_metadata_def new_metadata_def)
  next
    case (Some r)
    note r = assms(2) [OF Some]
    from put Some have db': "db' = db\<lparr>catalog := update_where (\<lambda>q. cv_id q = cv_id r) ?stamp (catalog db)\<rparr>"
      by (auto simp: put_metadata_def)
    have ids: "map cv_id (update_where (\<lambda>q. cv_id q = cv_id r) ?stamp (catalog db)) = map cv_id (catalog db)"
      by (rule map_update_where) (rule sid)
    show ?thesis
    proof (rule rows_advance)
      assume inv: "pub_inv db"
      have "q \<in> set (catalog db')" if "q \<in> set (catalog db)" "cv_published_at q \<noteq> None" for q
      proof -
        have "cv_id q \<noteq> cv_id r" using same_key [of cv_id "catalog db" q r] core_inv_ids [OF inv] r that by auto
        then show ?thesis using that(1) by (auto simp: db' set_update_where)
      qed
      then show "keeps_published (catalog db) (catalog db')"
        unfolding keeps_published_def using same_release_refl by blast
    qed (simp_all add: db' ids)
  qed
qed

lemma ensure_line_core: "ensure_line sv plan display db = (None, db1) \<Longrightarrow> same_core db db1"
  by (auto simp: ensure_line_def ensure_catalog_identity_def insert_catalog_identity_def same_core_def Let_def
      split: if_splits sum.splits prod.splits option.splits)

lemma materialize_advances:
  assumes "materialize sv ps store now dbnow plan m (sv_passport_digest sv m) key bytes s existing db = (Inr x, db')"
    and existing: "\<And>r. existing = Some r \<Longrightarrow> r \<in> set (catalog db) \<and> version_row plan r
           \<and> cv_owner_account_id r = pl_actor_account_id plan \<and> cv_published_at r = None"
  shows "advances db db'"
proof -
  let ?display = "case catalog_name sv plan of None \<Rightarrow> pl_stable_id plan | Some n \<Rightarrow> n"
  obtain lane a v summary where put_args: "materialize sv ps store now dbnow plan m (sv_passport_digest sv m) key bytes s existing db
    = (case ensure_line sv plan ?display db of
         (Some (IdentityError code message), _) \<Rightarrow> (Inr None, refuse_publish now plan message db)
       | (Some e, _) \<Rightarrow> (Inl (PubIdentity e), db)
       | (None, db1) \<Rightarrow>
           and_next (put_metadata existing plan (stamp_metadata sv plan m (sv_passport_digest sv m) now lane a v
             summary) db1) (\<lambda>i db2.
           let db3 = refresh_badges ps (pl_object_kind plan) db2;
               db4 = set_plan (pl_id plan) (\<lambda>p. p\<lparr>pl_state := ''published'',
                       pl_component_verified := badge_of i db3\<rparr>) db3;
               db5 = (if pl_object_kind plan = ''component'' then publish_attempts (pl_id plan) now db4 else db4)
           in and_next (put_location i plan store key (pm_artifact_size m) db5) (\<lambda>_ db6.
              and_next (enqueue_metrics m now dbnow db6) (\<lambda>_ db7.
              and_next (enqueue_seo_build (ps_seo_template ps) (pl_object_kind plan) (pl_stable_id plan)
                          (sv_passport_digest sv m) now dbnow db7) (\<lambda>_ db8.
              (Inr (find (\<lambda>r. cv_id r = i) (catalog db8)), db8))))))"
    unfolding materialize_def Let_def by blast
  show ?thesis
  proof (cases "fst (ensure_line sv plan ?display db)")
    case (Some e)
    then obtain q where "ensure_line sv plan ?display db = (Some e, q)" by (cases "ensure_line sv plan ?display db") auto
    with assms(1) put_args show ?thesis
      by (cases e) (auto intro: refuse_advances)
  next
    case None
    then obtain db1 where line: "ensure_line sv plan ?display db = (None, db1)"
      by (cases "ensure_line sv plan ?display db") auto
    note core = ensure_line_core [OF line]
    from assms(1) put_args line obtain i db2 where
      put: "put_metadata existing plan (stamp_metadata sv plan m (sv_passport_digest sv m) now lane a v summary) db1
        = (Inr i, db2)"
      and rest: "(let db3 = refresh_badges ps (pl_object_kind plan) db2;
               db4 = set_plan (pl_id plan) (\<lambda>p. p\<lparr>pl_state := ''published'',
                       pl_component_verified := badge_of i db3\<rparr>) db3;
               db5 = (if pl_object_kind plan = ''component'' then publish_attempts (pl_id plan) now db4 else db4)
           in and_next (put_location i plan store key (pm_artifact_size m) db5) (\<lambda>_ db6.
              and_next (enqueue_metrics m now dbnow db6) (\<lambda>_ db7.
              and_next (enqueue_seo_build (ps_seo_template ps) (pl_object_kind plan) (pl_stable_id plan)
                          (sv_passport_digest sv m) now dbnow db7) (\<lambda>_ db8.
              (Inr (find (\<lambda>r. cv_id r = i) (catalog db8)), db8))))) = (Inr x, db')"
      by (auto simp: and_next_Inr)
    have put_ok: "advances db1 db2"
      by (rule put_metadata_advances [OF put]) (use existing core in \<open>auto simp: same_core_def\<close>)
    let ?db3 = "refresh_badges ps (pl_object_kind plan) db2"
    let ?db4 = "set_plan (pl_id plan) (\<lambda>p. p\<lparr>pl_state := ''published'',
        pl_component_verified := badge_of i ?db3\<rparr>) ?db3"
    let ?db5 = "if pl_object_kind plan = ''component'' then publish_attempts (pl_id plan) now ?db4 else ?db4"
    from rest obtain u6 db6 u7 db7 u8 db8 where
      loc: "put_location i plan store key (pm_artifact_size m) ?db5 = (Inr u6, db6)"
      and met: "enqueue_metrics m now dbnow db6 = (Inr u7, db7)"
      and seo: "enqueue_seo_build (ps_seo_template ps) (pl_object_kind plan) (pl_stable_id plan)
          (sv_passport_digest sv m) now dbnow db7 = (Inr u8, db')"
      by (auto simp: Let_def and_next_Inr)
    have "same_core ?db4 db6"
      using loc by (auto simp: put_location_def same_core_def publish_attempts_def split: if_splits)
    then have "same_core ?db4 db'"
      using enqueue_metrics_core [OF met] enqueue_seo_core [OF seo] by (simp add: same_core_def)
    then have "advances ?db3 db'" by (rule set_plan_then) (simp add: plan_core_def)
    then show ?thesis
      using same_core_advances [OF core] put_ok refresh_advances [of db2 ps "pl_object_kind plan"]
        advances_trans by meson
  qed
qed

lemma execute_publish_advances: "advances db (snd (execute_publish sv ps store now dbnow i db))"
  unfolding execute_publish_def
proof (rule advances_atomic, goal_cases)
  case (1 r db')
  then obtain plan where plan: "plan_row i db = Some plan" by (auto split: option.splits)
  have fresh: "advances db db'"
    if "materialize sv ps st now dbnow plan m (sv_passport_digest sv m) key bytes s (find (version_row plan) (catalog db)) db
          = (Inr r, db')"
      and "\<And>q. find (version_row plan) (catalog db) = Some q \<Longrightarrow>
        existing_refusal plan (sv_passport_digest sv m) q = None \<and> cv_lifecycle_state q = ''draft''"
    for st m key bytes s
  proof (rule materialize_advances [OF that(1)])
    fix q assume q: "find (version_row plan) (catalog db) = Some q"
    from that(2) [OF q] find_mem [OF q]
    show "q \<in> set (catalog db) \<and> version_row plan q \<and> cv_owner_account_id q = pl_actor_account_id plan
        \<and> cv_published_at q = None"
      by (auto simp: existing_refusal_def split: if_splits)
  qed
  from 1 plan show ?case
    using fresh
    by (auto simp: Let_def split: if_splits sum.splits prod.splits option.splits identity_failure.splits
        intro: refuse_advances replay_advances)
qed

section \<open>The endpoints and the re-evaluation\<close>

lemma insert_plan_advances:
  assumes "insert_plan plan_hash ctx plan0 db = (Inr p, db')"
  shows "advances db db'"
proof -
  from assms have "pl_id p \<notin> pl_id ` set (plans db)" and same: "same_core (db\<lparr>plans := plans db @ [p]\<rparr>) db'"
    by (auto simp: insert_plan_def Let_def list_ex_iff log_audit_def same_core_def split: if_splits)
  then have "advances db (db\<lparr>plans := plans db @ [p]\<rparr>)"
    by (auto simp: advances_def core_inv_def plans_kept_def)
  then show ?thesis by (rule same_core_right [OF same])
qed

lemma claim_line_core: "claim_line sv ctx body d db = (Inr x, db1) \<Longrightarrow> same_core db db1"
  by (auto simp: claim_line_def ensure_catalog_identity_def insert_catalog_identity_def same_core_def Let_def
      split: if_splits sum.splits prod.splits option.splits)

lemma claim_then_insert:
  assumes "and_next (claim_line sv' ctx body d db)
      (\<lambda>expected. insert_plan h ctx (new_plan pid ctx body vis d expected now)) = (Inr r, db')"
  shows "advances db db'"
proof -
  from assms obtain x db1 where "claim_line sv' ctx body d db = (Inr x, db1)"
    and ins: "insert_plan h ctx (new_plan pid ctx body vis d x now) db1 = (Inr r, db')"
    by (auto simp: and_next_Inr)
  then have "advances db db1" using claim_line_core same_core_advances by blast
  moreover have "advances db1 db'" by (rule insert_plan_advances [OF ins])
  ultimately show ?thesis by (rule advances_trans)
qed

lemma create_plan_advances: "advances db (snd (request (create_plan sv' h profile source pid now ctx body) db))"
  unfolding request_def
proof (rule advances_atomic)
  fix r db' assume "create_plan sv' h profile source pid now ctx body db = (Inr r, db')"
  then have "db' = db \<or> (\<exists>vis bound. create_fresh_plan sv' h bound pid now ctx body vis db = (Inr r, db'))"
    by (auto simp: create_plan_def Let_def split: if_splits sum.splits option.splits)
  then show "advances db db'"
  proof
    assume "\<exists>vis bound. create_fresh_plan sv' h bound pid now ctx body vis db = (Inr r, db')"
    then obtain vis bound where c: "create_fresh_plan sv' h bound pid now ctx body vis db = (Inr r, db')" by blast
    obtain mo xs where v: "validate_publication_passport sv' (rq_passport body) (rq_object_kind body)
        (rq_stable_id body) (rq_version body) (rq_content_digest body) (Some (cx_account_id ctx)) vis
        (bound \<noteq> None) = (mo, xs)" by fastforce
    with c obtain m where m: "mo = Some m" by (cases mo) (auto simp: create_fresh_plan_def)
    let ?refusal = "case find (\<lambda>r. cv_object_kind r = rq_object_kind body \<and> cv_stable_id r = rq_stable_id body
        \<and> cv_version r = Some (rq_version body)) (catalog db) of None \<Rightarrow> None
      | Some r \<Rightarrow> occupied_refusal (cx_account_id ctx) (sv_passport_digest sv' m) r"
    from c v m have "(case ?refusal of Some e \<Rightarrow> (Inl e, db)
        | None \<Rightarrow> if case bound of Some (Some d) \<Rightarrow> d \<noteq> sv_passport_digest sv' m | _ \<Rightarrow> False
                  then (Inl (SourceError ''source_binding_mismatch''), db)
                  else and_next (claim_line sv' ctx body (pm_document m) db) (\<lambda>expected.
                    insert_plan h ctx (new_plan pid ctx body vis (pm_document m) expected now))) = (Inr r, db')"
      by (simp add: create_fresh_plan_def Let_def)
    then have "and_next (claim_line sv' ctx body (pm_document m) db) (\<lambda>expected.
        insert_plan h ctx (new_plan pid ctx body vis (pm_document m) expected now)) = (Inr r, db')"
      by (cases ?refusal) (simp_all split: if_splits)
    then show ?thesis by (rule claim_then_insert)
  qed simp
qed

text \<open>A confirmation, whatever it read and whenever it writes.\<close>

lemma confirm_ready_advances:
  assumes "confirm_ready key now dbnow ctx plan db = (Inr r, db')"
  shows "advances db db'"
proof -
  from assms obtain j db1 where push: "push_job (global_job VALIDATE [(''plan_id'', JStr (pl_id plan))]
      (''validate:'' @ pl_id plan)) now dbnow
      (set_plan (pl_id plan) (\<lambda>p. p\<lparr>pl_state := ''validating'', pl_confirm_key := Some key\<rparr>) db) = (Inr j, db1)"
    and "same_core db1 db'"
    by (auto simp: confirm_ready_def Let_def same_core_def log_audit_def split: prod.splits sum.splits)
  with push_job_core [OF push] have "same_core (set_plan (pl_id plan)
      (\<lambda>p. p\<lparr>pl_state := ''validating'', pl_confirm_key := Some key\<rparr>) db) db'"
    by (simp add: same_core_def)
  then show ?thesis by (rule set_plan_then) (simp add: plan_core_def)
qed

lemma confirm_write_advances: "advances db (snd (request (confirm_write key now dbnow ctx gate) db))"
  unfolding request_def
  by (rule advances_atomic)
    (auto simp: confirm_write_def mark_stale_def confirm_ready_advances intro: set_plan_advances
      split: confirm_gate.splits if_splits)

lemma confirm_plan_advances:
  "advances db (snd (request (confirm_plan projections durable unauthorised h key now dbnow ctx i) db))"
  using confirm_write_advances by (simp add: request_def confirm_plan_def)

lemma bind_exact_core: "bind_exact_artifact bind action now ctx plan d n db = (Inr r, db') \<Longrightarrow> same_core db db'"
  by (auto simp: bind_exact_artifact_def mark_stale_def log_audit_def same_core_def
      split: sum.splits if_splits bind_outcome.splits)

lemma bind_artifact_advances: "advances db (snd (request (bind_artifact bind now ctx i) db))"
  unfolding request_def
  by (rule advances_atomic, rule same_core_advances)
    (auto simp: bind_artifact_def dest: bind_exact_core split: sum.splits option.splits)

lemma bind_projection_advances:
  "advances db (snd (request (bind_projection_artifact projections bind now ctx i d) db))"
  unfolding request_def
  by (rule advances_atomic, rule same_core_advances)
    (auto simp: bind_projection_artifact_def dest: bind_exact_core split: sum.splits option.splits prod.splits)

lemma reevaluate_advances: "advances db (snd (execute_reevaluate_eligibility ps k sid v now db))"
proof -
  let ?drop = "\<lambda>r. r\<lparr>cv_component_verified := False, cv_trust_lane :=
    (if cv_trust_lane r = Some ''authoritative'' then Some ''experimental'' else cv_trust_lane r)\<rparr>"
  have drop: "advances db (refresh_badges ps k (set_plan i (\<lambda>p. p\<lparr>pl_component_verified := False\<rparr>)
      (db\<lparr>catalog := update_where (\<lambda>r. cv_id r = j) ?drop (catalog db)\<rparr>)))" for i j
  proof -
    have "advances db (db\<lparr>catalog := update_where (\<lambda>r. cv_id r = j) ?drop (catalog db)\<rparr>)"
      by (rule catalog_update_advances) (simp_all add: same_release_def release_core_def)
    moreover have "advances d (set_plan i (\<lambda>p. p\<lparr>pl_component_verified := False\<rparr>) d)" for d
      by (rule set_plan_advances) simp
    ultimately show ?thesis by (rule advances_trans [OF _ advances_trans [OF _ refresh_advances]])
  qed
  show ?thesis
    by (auto simp: execute_reevaluate_eligibility_def Let_def drop split: option.split)
qed

end
