(* ===== verification/PublicationTheorems.thy ===== *)
theory PublicationTheorems
  imports PublicationProps
begin

text \<open>
  Runs of the publication tables: the component's own transactions keep one contract, other code
  writes the same tables within bounds of its own, and the properties of whole runs follow.
\<close>

section \<open>The contract of a transaction\<close>

text \<open>
  A transaction of the component keeps the invariant, the published versions and the content of
  plans. What follows for a single version or plan is proved once; every endpoint and handler is an
  instance.
\<close>

locale publication_transaction =
  fixes run :: "pub_db \<Rightarrow> pub_db"
  assumes contract: "advances db (run db)"
begin

lemma keeps_invariant: "pub_inv db \<Longrightarrow> pub_inv (run db)"
  using contract [of db] by (simp add: advances_def)

lemma release_survives:
  assumes "pub_inv db" "r \<in> set (catalog db)" "cv_published_at r \<noteq> None"
  shows "\<exists>r' \<in> set (catalog (run db)). same_release r r'"
  using contract [of db] assms by (auto simp: advances_def keeps_published_def)

lemma plan_survives:
  assumes "pub_inv db" "p \<in> set (plans db)"
  shows "\<exists>p' \<in> set (plans (run db)). plan_core p' = plan_core p"
  using contract [of db] assms by (auto simp: advances_def plans_kept_def)

end

text \<open>A job's handler runs on the payload of a row of the queue, inside one transaction.\<close>

definition worker_publish :: "services \<Rightarrow> publish_services \<Rightarrow> store_reader option \<Rightarrow> time \<Rightarrow> time \<Rightarrow> job \<Rightarrow> pub_db \<Rightarrow> pub_db" where
  "worker_publish sv ps store now dbnow j db =
     (if j \<in> set (jobs (pub_queue db)) \<and> job_type j = ''publish''
      then snd (atomic db (handle_publish (execute_publish sv ps store now dbnow) (job_payload j) db)) else db)"

definition worker_dead_letter :: "string \<Rightarrow> time \<Rightarrow> job \<Rightarrow> pub_db \<Rightarrow> pub_db" where
  "worker_dead_letter sid now j db =
     (if j \<in> set (jobs (pub_queue db)) then snd (atomic db (settle_dead_lettered_plan sid now j db)) else db)"

definition worker_reevaluate :: "publish_services \<Rightarrow> time \<Rightarrow> job \<Rightarrow> pub_db \<Rightarrow> pub_db" where
  "worker_reevaluate ps now j db = snd (atomic db (handle_reevaluate ps (job_payload j) now db))"

lemma worker_publish_advances: "advances db (worker_publish sv ps store now dbnow j db)"
proof -
  have "advances db db'"
    if "handle_publish (execute_publish sv ps store now dbnow) (job_payload j) db = (Inr u, db')" for u db'
  proof -
    from that obtain i x where "execute_publish sv ps store now dbnow i db = (Inr x, db')"
      by (auto simp: handle_publish_def and_next_Inr split: json.splits list.splits)
    with execute_publish_advances [of db sv ps store now dbnow i] show ?thesis by simp
  qed
  then show ?thesis by (auto simp: worker_publish_def intro: advances_atomic)
qed

lemma worker_dead_letter_advances: "advances db (worker_dead_letter sid now j db)"
  by (simp add: worker_dead_letter_def settle_advances)

lemma worker_reevaluate_advances: "advances db (worker_reevaluate ps now j db)"
  unfolding worker_reevaluate_def
  by (rule advances_atomic)
    (use reevaluate_advances in \<open>auto simp: handle_reevaluate_def split: json.splits list.splits\<close>)

interpretation created: publication_transaction
    "\<lambda>db. snd (request (create_plan sv h profile source pid now ctx body) db)"
  for sv h profile source pid now ctx body
  by unfold_locales (rule create_plan_advances)

interpretation confirmed: publication_transaction "\<lambda>db. snd (request (confirm_write key now dbnow ctx gate) db)"
  for key now dbnow ctx gate
  by unfold_locales (rule confirm_write_advances)

interpretation bound: publication_transaction "\<lambda>db. snd (request (bind_artifact bind now ctx i) db)"
  for bind now ctx i
  by unfold_locales (rule bind_artifact_advances)

interpretation bound_projection: publication_transaction
    "\<lambda>db. snd (request (bind_projection_artifact projections bind now ctx i d) db)"
  for projections bind now ctx i d
  by unfold_locales (rule bind_projection_advances)

interpretation begun: publication_transaction "\<lambda>db. snd (begin_validate sv sid now i db)"
  for sv sid now i
  by unfold_locales (rule begin_validate_advances)

interpretation finished: publication_transaction
    "\<lambda>db. snd (finish_validate sv sid now dbnow assess pins bindings plan db)"
  for sv sid now dbnow assess pins bindings plan
  by unfold_locales (rule finish_validate_advances)

interpretation published: publication_transaction "worker_publish sv ps store now dbnow j"
  for sv ps store now dbnow j
  by unfold_locales (rule worker_publish_advances)

interpretation dead_lettered: publication_transaction "worker_dead_letter sid now j"
  for sid now j
  by unfold_locales (rule worker_dead_letter_advances)

interpretation reevaluated: publication_transaction "worker_reevaluate ps now j"
  for ps now j
  by unfold_locales (rule worker_reevaluate_advances)

section \<open>Runs\<close>

text \<open>
  The component's own transactions: the endpoints and the worker's executors. A confirmation writes
  over tables that may be later than the tables \<open>old\<close> it read; a validation is the two transactions
  around the scanners.
\<close>

inductive pub_transaction :: "pub_db \<Rightarrow> pub_db \<Rightarrow> bool" where
  Create: "pub_transaction db (snd (request (create_plan sv h profile source pid now ctx body) db))"
| Confirm: "pub_transaction db (snd (request (confirm_write key now dbnow ctx
    (confirm_read projections durable unauthorised h key earlier ctx i old)) db))"
| Bind: "pub_transaction db (snd (request (bind_artifact bind now ctx i) db))"
| Bind_projection: "pub_transaction db (snd (request (bind_projection_artifact projections bind now ctx i d) db))"
| Begin: "pub_transaction db (snd (begin_validate sv sid now i db))"
| Finish: "pub_transaction db (snd (finish_validate sv sid now dbnow assess pins bindings plan db))"
| Publish: "pub_transaction db (worker_publish sv ps store now dbnow j db)"
| Dead_letter: "pub_transaction db (worker_dead_letter sid now j db)"
| Reevaluate: "pub_transaction db (worker_reevaluate ps now j db)"

text \<open>
  What other code does to these tables. \<open>curated r r'\<close>: the fields of a published version it writes:
  the owner (\<open>catalog_transfer.py\<close>), the visibility (\<open>visibility/service.py\<close>), the lifecycle state
  (\<open>owner/service.py\<close>, \<open>reports/service.py\<close>), the author's and the component's badge and the trust lane
  (\<open>catalog_transfer.py\<close>, \<open>catalog_assessments.py\<close>).
\<close>

definition curated :: "catalog_metadata \<Rightarrow> catalog_metadata \<Rightarrow> bool" where
  "curated r r' \<longleftrightarrow>
     r'\<lparr>cv_owner_account_id := cv_owner_account_id r, cv_visibility := cv_visibility r,
        cv_lifecycle_state := cv_lifecycle_state r, cv_trust_lane := cv_trust_lane r,
        cv_author_verified := cv_author_verified r, cv_component_verified := cv_component_verified r\<rparr> = r"

text \<open>
  It edits drafts at will, deletes rows (\<open>owner/service.py\<close>: drafts, by an unlocked check, together
  with their plans), and adds rows (\<open>catalog.py\<close>, \<open>catalog_seed.py\<close>) whose ids come from the sequence,
  and plans (\<open>official_upstream/sync.py\<close>). A plan it leaves keeps its content; its state, badge and
  confirmation key may be anything, which also covers an executor of this component that has lost
  its lease and writes a verdict over a plan that has moved on. The other tables and the queue are
  arbitrary. That ids stay distinct is the tables' primary keys.
\<close>

definition other_writer :: "pub_db \<Rightarrow> pub_db \<Rightarrow> bool" where
  "other_writer db db' \<longleftrightarrow> next_catalog_id db \<le> next_catalog_id db'
     \<and> distinct (map cv_id (catalog db')) \<and> distinct (map pl_id (plans db'))
     \<and> (\<forall>r' \<in> set (catalog db'). cv_id r' < next_catalog_id db'
          \<and> (cv_id r' < next_catalog_id db \<longrightarrow> cv_id r' \<in> cv_id ` set (catalog db)))
     \<and> (\<forall>r \<in> set (catalog db). \<forall>r' \<in> set (catalog db').
          cv_id r' = cv_id r \<and> cv_published_at r \<noteq> None \<longrightarrow> curated r r')
     \<and> (\<forall>p \<in> set (plans db). \<forall>p' \<in> set (plans db'). pl_id p' = pl_id p \<longrightarrow> plan_core p' = plan_core p)"

inductive pub_step :: "pub_db \<Rightarrow> pub_db \<Rightarrow> bool" where
  Own: "pub_transaction db db' \<Longrightarrow> pub_step db db'"
| Other: "other_writer db db' \<Longrightarrow> pub_step db db'"

definition empty_pub :: "pub_db \<Rightarrow> bool" where
  "empty_pub db \<longleftrightarrow> plans db = [] \<and> snapshots db = [] \<and> catalog db = [] \<and> jobs (pub_queue db) = []"

definition pub_reachable :: "pub_db \<Rightarrow> bool" where
  "pub_reachable db \<longleftrightarrow> (\<exists>db0. empty_pub db0 \<and> pub_step\<^sup>*\<^sup>* db0 db)"

lemma transaction_advances: "pub_transaction db db' \<Longrightarrow> advances db db'"
  by (induction rule: pub_transaction.induct)
    (rule created.contract confirmed.contract bound.contract bound_projection.contract begun.contract
      finished.contract published.contract dead_lettered.contract reevaluated.contract)+

lemma step_pub_inv: "pub_step db db' \<Longrightarrow> pub_inv db \<Longrightarrow> pub_inv db'"
  by (induction rule: pub_step.induct)
    (use transaction_advances in \<open>auto simp: advances_def other_writer_def core_inv_def\<close>)

lemma run_pub_inv: "pub_step\<^sup>*\<^sup>* db db' \<Longrightarrow> pub_inv db \<Longrightarrow> pub_inv db'"
  by (induction rule: rtranclp_induct) (auto intro: step_pub_inv)

lemma reachable_pub_inv: "pub_reachable db \<Longrightarrow> pub_inv db"
  unfolding pub_reachable_def using run_pub_inv by (fastforce simp: empty_pub_def core_inv_def)

lemma same_release_curated: "same_release r r' \<Longrightarrow> curated r r'"
  by (cases r; cases r') (simp add: same_release_def release_core_def curated_def)

lemma same_release_badge: "same_release r r' \<Longrightarrow>
    r'\<lparr>cv_component_verified := cv_component_verified r, cv_trust_lane := cv_trust_lane r\<rparr> = r"
  by (cases r; cases r') (simp add: same_release_def release_core_def)

lemma curated_refl: "curated r r"
  by (simp add: curated_def)

lemma curated_trans: "curated r s \<Longrightarrow> curated s t \<Longrightarrow> curated r t"
  by (cases r; cases s; cases t) (simp add: curated_def)

lemma curated_fields: "curated r r' \<Longrightarrow> cv_published_at r' = cv_published_at r \<and> cv_id r' = cv_id r
    \<and> cv_stable_id r' = cv_stable_id r"
  by (cases r; cases r') (simp add: curated_def)

lemma same_core_content: "plan_core p' = plan_core p \<longleftrightarrow>
    p'\<lparr>pl_state := pl_state p, pl_component_verified := pl_component_verified p, pl_confirm_key := pl_confirm_key p\<rparr> = p"
  by (cases p; cases p') (auto simp: plan_core_def)

lemma owned_plan_mem: "owned_plan ctx i db = Inr plan \<Longrightarrow> plan \<in> set (plans db) \<and> pl_id plan = i
    \<and> pl_actor_account_id plan = cx_account_id ctx"
  using plan_row_mem by (auto simp: owned_plan_def split: option.splits if_splits)

lemma go_read:
  assumes "confirm_read projections durable unauthorised h key now ctx i db = Go q"
  shows "q \<in> set (plans db) \<and> pl_id q = i \<and> h = pl_plan_hash q \<and> cx_account_id ctx = pl_actor_account_id q
    \<and> now < pl_expires_at q"
proof -
  from assms obtain plan where own: "owned_plan ctx i db = Inr plan"
    by (auto simp: confirm_read_def and_then_def split: sum.splits)
  with assms have "q = plan \<and> h = pl_plan_hash q \<and> now < pl_expires_at q"
    by (auto simp: confirm_read_def and_then_def split: sum.splits if_splits option.splits)
  with owned_plan_mem [OF own] show ?thesis by auto
qed

text \<open>One step: an id below the sequence is not handed out again, and a published row that is still
  there has been curated at most.\<close>

lemma step_rows:
  assumes "pub_step db db'" and inv: "pub_inv db" and r': "r' \<in> set (catalog db')"
  shows "next_catalog_id db \<le> next_catalog_id db'
    \<and> (cv_id r' < next_catalog_id db \<longrightarrow> cv_id r' \<in> cv_id ` set (catalog db))
    \<and> (\<forall>r \<in> set (catalog db). cv_id r' = cv_id r \<and> cv_published_at r \<noteq> None \<longrightarrow> curated r r')"
  using assms(1)
proof cases
  case Own
  then have adv: "advances db db'" by (rule transaction_advances)
  have "curated r r'" if r: "r \<in> set (catalog db)" "cv_id r' = cv_id r" "cv_published_at r \<noteq> None" for r
  proof -
    obtain s where s: "s \<in> set (catalog db')" "same_release r s"
      using adv inv r unfolding advances_def keeps_published_def by blast
    then have "cv_id s = cv_id r'" using release_core_fields [of s r] r(2) by (simp add: same_release_def)
    moreover have "distinct (map cv_id (catalog db'))" using adv inv by (simp add: advances_def core_inv_def)
    ultimately have "s = r'" using same_key [of cv_id "catalog db'" s r'] s(1) r' by blast
    with s(2) show ?thesis by (simp add: same_release_curated)
  qed
  with adv inv r' show ?thesis by (simp add: advances_def)
next
  case Other
  with r' show ?thesis by (simp add: other_writer_def)
qed

lemma run_rows:
  assumes "pub_step\<^sup>*\<^sup>* db db'" and inv: "pub_inv db" and r: "r \<in> set (catalog db)" "cv_published_at r \<noteq> None"
  shows "next_catalog_id db \<le> next_catalog_id db'
    \<and> (\<forall>r' \<in> set (catalog db'). cv_id r' = cv_id r \<longrightarrow> curated r r')"
  using assms(1)
proof (induction rule: rtranclp_induct)
  case base
  have "r' = r" if "r' \<in> set (catalog db)" "cv_id r' = cv_id r" for r'
    using same_key [of cv_id "catalog db" r' r] core_inv_ids [OF inv] r that by blast
  then show ?case using curated_refl by auto
next
  case (step y z)
  have invy: "pub_inv y" by (rule run_pub_inv [OF step.hyps(1) inv])
  have below: "cv_id r < next_catalog_id y" using core_inv_ids [OF inv] r step.IH by force
  have "curated r r'" if r': "r' \<in> set (catalog z)" "cv_id r' = cv_id r" for r'
  proof -
    note one = step_rows [OF step.hyps(2) invy r'(1)]
    with below r'(2) obtain s where s: "s \<in> set (catalog y)" "cv_id s = cv_id r" by force
    with step.IH have rs: "curated r s" by blast
    then have "cv_published_at s \<noteq> None" using curated_fields r(2) by simp
    with one s r'(2) have "curated s r'" by simp
    with rs show ?thesis by (rule curated_trans)
  qed
  moreover have "next_catalog_id y \<le> next_catalog_id z"
    using step.hyps(2) transaction_advances invy by cases (auto simp: advances_def other_writer_def)
  ultimately show ?case using step.IH by auto
qed

text \<open>A plan that is still there has its content.\<close>

lemma step_content:
  assumes "pub_step db db'" and inv: "pub_inv db" and p: "p \<in> set (plans db)" and p': "p' \<in> set (plans db')"
    and "pl_id p' = pl_id p"
  shows "plan_core p' = plan_core p"
  using assms(1)
proof cases
  case Own
  then have adv: "advances db db'" by (rule transaction_advances)
  with inv p obtain q where q: "q \<in> set (plans db')" "plan_core q = plan_core p"
    unfolding advances_def plans_kept_def by blast
  moreover have "distinct (map pl_id (plans db'))" using adv inv by (simp add: advances_def core_inv_def)
  ultimately have "q = p'"
    using same_key [of pl_id "plans db'" q p'] plan_core_fields [of q p] p' assms(5) by simp
  with q show ?thesis by simp
next
  case Other
  with p p' assms(5) show ?thesis by (simp add: other_writer_def)
qed

lemma run_content:
  assumes "(\<lambda>a b. pub_step a b \<and> pl_id p \<in> pl_id ` set (plans b))\<^sup>*\<^sup>* db db'" and inv: "pub_inv db"
    and p: "p \<in> set (plans db)"
  shows "pub_inv db' \<and> (\<exists>p' \<in> set (plans db'). plan_core p' = plan_core p)"
  using assms(1)
proof (induction rule: rtranclp_induct)
  case base
  then show ?case using inv p by blast
next
  case (step y z)
  then obtain q where q: "pub_inv y" "q \<in> set (plans y)" "plan_core q = plan_core p" by blast
  from step.hyps(2) obtain p' where p': "p' \<in> set (plans z)" "pl_id p' = pl_id p" and s: "pub_step y z" by auto
  have "plan_core p' = plan_core q"
    by (rule step_content [OF s q(1,2) p'(1)]) (use p'(2) plan_core_fields [OF q(3)] in simp)
  with q p' step_pub_inv [OF s] show ?case by auto
qed

section \<open>A run\<close>

text \<open>A setup goes from the request to the catalog: created, confirmed, validated, published.\<close>

definition sample_passport :: dict where
  "sample_passport =
     [(''name'', JStr ''tool''), (''artifact'', JDict [(''digest'', JStr ''d1''), (''size_bytes'', JInt 3)])]"

definition sample_model :: passport_model where
  "sample_model = \<lparr>pm_kind = ''setup'', pm_stable_id = ''s1'', pm_version = ''1.0'', pm_owner_id = ''ann'',
     pm_has_source = True, pm_artifact_digest = ''d1'', pm_artifact_size = 3, pm_revision_id = ''rev'',
     pm_document = sample_passport\<rparr>"

definition sample_services :: services where
  "sample_services = \<lparr>sv_model_validate = (\<lambda>_ _. Inr sample_model), sv_verify_revision = (\<lambda>_. True),
     sv_passport_digest = (\<lambda>_. ''pd''), sv_parse_attestation = (\<lambda>_. None), sv_signed = (\<lambda>_ _. False),
     sv_bound = (\<lambda>_. Inr False), sv_bound_public = (\<lambda>_. Inr False),
     sv_unicode = \<lparr>un_nfkc = id, un_has_bom = (\<lambda>_. False), un_conflict_text = id\<rparr>,
     sv_float_text = (\<lambda>_. [])\<rparr>"

definition sample_publish_services :: publish_services where
  "sample_publish_services = \<lparr>ps_canonize = (\<lambda>_. []), ps_setup_pins = (\<lambda>_. JNull),
     ps_has_embedded = (\<lambda>_. False), ps_reassess = (\<lambda>_ _. None), ps_seo_template = ''v4''\<rparr>"

definition sample_store :: store_reader where
  "sample_store = \<lparr>os_bucket = ''b'', os_key = (\<lambda>d _. d), os_read = (\<lambda>_ _ _. Inr (Some ''abc''))\<rparr>"

definition sample_pub0 :: pub_db where
  "sample_pub0 = \<lparr>accounts = [], catalog = [], identities = [], locales = [], plans = [], next_catalog_id = 1,
     snapshots = [], evidence = [], locations = [], verified_authors = [(''ann'', True)],
     pub_devices = [\<lparr>dv_id = ''dev'', dv_account_id = ''ann'', dv_public_key = ''k'', dv_device_type = ''cli'',
       dv_display_name = None, dv_approximate_location = None, dv_user_agent = None, dv_state = ''active'',
       dv_last_seen_at = None\<rparr>],
     attempts_ledger = [], pub_audit = [], pub_queue = \<lparr>jobs = [], next_job_id = 1, tenant_scope = []\<rparr>\<rparr>"

definition sample_request :: plan_request where
  "sample_request = \<lparr>rq_object_kind = ''setup'', rq_stable_id = ''s1'', rq_version = ''1.0'',
     rq_content_digest = ''d1'', rq_artifact_inventory = [], rq_visibility = Some ''private'',
     rq_source_binding_id = None, rq_gitlab_source_binding_id = None, rq_policy_version = ''safety-3'',
     rq_passport = sample_passport, rq_attestations = [], rq_idempotency_key = ''k1'', rq_device_id = ''dev''\<rparr>"

definition sample_context :: auth_context where
  "sample_context = \<lparr>cx_account_id = ''ann'', cx_device_id = Some ''dev''\<rparr>"

definition sample_pub1 :: pub_db where
  "sample_pub1 = snd (request (create_plan sample_services (\<lambda>_. ''h'') None (Inr None) ''p1'' 0
     sample_context sample_request) sample_pub0)"

definition sample_pub2 :: pub_db where
  "sample_pub2 = snd (request (confirm_plan (\<lambda>_. Some []) (\<lambda>_ _ _. True) (\<lambda>_. None) ''h'' ''k2'' 1 1
     sample_context ''p1'') sample_pub1)"

definition sample_bindings :: "binding_row list" where
  "sample_bindings = [binding ''digest'' (verdict_of (digest_ok sample_passport ''d1'')) ''platform_digest_verified'']"

definition sample_pub3 :: pub_db where
  "sample_pub3 = snd (finish_validate sample_services ''v1'' 2 2 (\<lambda>_. True) None sample_bindings
     (hd (plans sample_pub2)) sample_pub2)"

text \<open>The tables after the validation.\<close>

lemma sample3: "sample_pub3 =
     \<lparr>accounts = [], catalog = [], identities = [], locales = [], plans = [\<lparr>pl_id = ''p1'',
      pl_source_binding_id = None, pl_gitlab_source_binding_id = None, pl_actor_account_id = ''ann'',
      pl_device_id = ''dev'', pl_object_kind = ''setup'', pl_stable_id = ''s1'', pl_version = ''1.0'',
      pl_content_digest = ''d1'', pl_artifact_inventory = [], pl_visibility = ''private'',
      pl_policy_version = ''safety-3'', pl_plan_hash = ''h'', pl_state = ''publish_planned'', pl_passport
      = [(''name'', JStr ''tool''), (''artifact'', JDict [(''digest'', JStr ''d1''), (''size_bytes'',
      JInt 3)])], pl_attestations = [], pl_effects = [''validate'', ''publish_catalog_version''],
      pl_component_verified = True, pl_idempotency_key = ''k1'', pl_confirm_key = Some ''k2'',
      pl_expected_ownership = None, pl_expires_at = 86400000000\<rparr>], next_catalog_id = 1, snapshots
      = [\<lparr>vs_id = ''v1'', vs_plan_id = ''p1'', vs_content_digest = ''d1'', vs_policy_version =
      ''safety-3'', vs_state = ''passed'', vs_component_verified = True\<rparr>], evidence =
      [\<lparr>ev_snapshot_id = ''v1'', ev_check_id = ''digest'', ev_result = ''passed'', ev_source =
      ''platform_digest_verified'', ev_mandatory = True, ev_family = None, ev_tool_name = None,
      ev_tool_version = None, ev_duration_ms = None, ev_severity_max = None, ev_reason = None,
      ev_finding_summary = None, ev_expires_at = Some 7776000000002\<rparr>], locations = [],
      verified_authors = [(''ann'', True)], pub_devices = [\<lparr>dv_id = ''dev'', dv_account_id =
      ''ann'', dv_public_key = ''k'', dv_device_type = ''cli'', dv_display_name = None,
      dv_approximate_location = None, dv_user_agent = None, dv_state = ''active'', dv_last_seen_at =
      None\<rparr>], attempts_ledger = [], pub_audit = [\<lparr>pa_actor_account_id = ''ann'',
      pa_actor_type = ''user'', pa_action = ''publication.plan_created'', pa_target_id = ''p1'',
      pa_reason = None, pa_outcome = ''succeeded'', pa_payload = [(''stable_id'', JStr ''s1''),
      (''version'', JStr ''1.0'')]\<rparr>, \<lparr>pa_actor_account_id = ''ann'', pa_actor_type =
      ''user'', pa_action = ''publication.plan_confirmed'', pa_target_id = ''p1'', pa_reason = None,
      pa_outcome = ''succeeded'', pa_payload = [(''state'', JStr ''validating'')]\<rparr>], pub_queue =
      \<lparr>jobs = [\<lparr>job_id = 1, job_type = ''validate'', job_payload = [(''plan_id'', JStr
      ''p1'')], job_state = QUEUED, attempts = 0, max_attempts = 5, run_after = 1, idempotency_key =
      ''validate:p1'', priority = 0, locked_by = None, locked_at = None, last_error = None, created_at =
      1, updated_at = 1, organization_id = None\<rparr>, \<lparr>job_id = 2, job_type = ''publish'',
      job_payload = [(''plan_id'', JStr ''p1''), (''checks_summary'', JDict [(''schema_version'', JInt
      1), (''status'', JStr ''available''), (''checks_passed_percent'', JInt 100),
      (''coverage_complete'', JBool True), (''passed'', JInt 1), (''failed'', JInt 0), (''warning'', JInt
      0), (''not_run'', JInt 0), (''total_countable'', JInt 1), (''checks'', JList [JDict [(''check_id'',
      JStr ''digest''), (''result'', JStr ''passed''), (''mandatory'', JBool True), (''source'', JStr
      ''platform_digest_verified''), (''family'', JStr []), (''reason'', JNull), (''finding_summary'',
      JNull)]])])], job_state = QUEUED, attempts = 0, max_attempts = 5, run_after = 2, idempotency_key =
      ''publish:p1'', priority = 0, locked_by = None, locked_at = None, last_error = None, created_at =
      2, updated_at = 2, organization_id = None\<rparr>], next_job_id = 3, tenant_scope =
      []\<rparr>\<rparr>"
  by code_simp

definition sample_publish_job :: job where
  "sample_publish_job = last (jobs (pub_queue sample_pub3))"

definition sample_pub4 :: pub_db where
  "sample_pub4 = worker_publish sample_services sample_publish_services (Some sample_store) 3 3
     sample_publish_job sample_pub3"

lemma seo_payload_safe: "job_payload_is_safe [(''subject_kind'', a), (''subject_id'', b), (''locale'', c),
    (''source_digest'', d), (''template_version'', e)]"
  unfolding job_payload_is_safe_def list.map fst_conv by code_simp

lemmas publish_steps = worker_publish_def handle_publish_def execute_publish_def
  atomic_def and_next_def plan_row_def SETTLED_STATES_def plan_visibility_def validate_publication_passport_def
  assert_publication_owner_def assert_catalog_rows_owner_def read_artifact_def snapshot_of_def evidence_of_def
  materialize_def ensure_line_def put_metadata_def stamp_metadata_def new_metadata_def refresh_badges_def
  set_plan_def update_where_def badge_of_def put_location_def enqueue_metrics_def enqueue_seo_build_def
  SEO_LOCALES_def seo_payload_safe push_job_def enqueue_def enqueue_payload_def global_job_def same_slot_def
  dict_get_def has_key_def TENANT_ENVELOPE_KEY_def setup_trust_lane_def catalog_name_def

lemma sample4: "map (\<lambda>p. (pl_id p, pl_state p)) (plans sample_pub4) = [(''p1'', ''published'')]
    \<and> map (\<lambda>r. (cv_trust_lane r, cv_published_at r)) (catalog sample_pub4) = [(Some ''authoritative'', Some 3)]
    \<and> (\<exists>r. fst (execute_publish sample_services sample_publish_services (Some sample_store) 3 3 ''p1'' sample_pub3)
           = Inr (Some r))"
proof -
  obtain p s ev au sm j dv where s3: "sample_pub3 = \<lparr>accounts = [], catalog = [], identities = [], locales = [],
      plans = [p], next_catalog_id = 1, snapshots = [s], evidence = ev, locations = [],
      verified_authors = [(''ann'', True)], pub_devices = dv, attempts_ledger = [],
      pub_audit = au, pub_queue = \<lparr>jobs = [j, sample_publish_job], next_job_id = 3, tenant_scope = []\<rparr>\<rparr>"
    and p: "pl_id p = ''p1''" "pl_state p = ''publish_planned''" "pl_object_kind p = ''setup''" "pl_stable_id p = ''s1''"
      "pl_version p = ''1.0''" "pl_content_digest p = ''d1''" "pl_actor_account_id p = ''ann''"
      "pl_visibility p = ''private''" "pl_passport p = sample_passport" "pl_expires_at p = 86400000000"
    and s: "vs_plan_id s = ''p1''" "vs_state s = ''passed''" "vs_component_verified s"
    and j: "idempotency_key j = ''validate:p1''" "idempotency_key sample_publish_job = ''publish:p1''"
      "job_type sample_publish_job = ''publish''"
      "job_payload sample_publish_job = [(''plan_id'', JStr ''p1''), (''checks_summary'', sm)]"
    unfolding sample_publish_job_def sample3 sample_passport_def by simp
  show ?thesis
    by (simp add: sample_pub4_def s3 p s j publish_steps sample_services_def sample_publish_services_def
        sample_store_def sample_model_def sample_passport_def Let_def new_job_def)
qed

lemma sample_runs: "pub_step\<^sup>*\<^sup>* sample_pub0 sample_pub3" "pub_step sample_pub3 sample_pub4"
proof -
  have "pub_step sample_pub0 sample_pub1" unfolding sample_pub1_def by (intro pub_step.Own pub_transaction.Create)
  moreover have "pub_step sample_pub1 sample_pub2"
  proof -
    have "sample_pub2 = snd (request (confirm_write ''k2'' 1 1 sample_context (confirm_read (\<lambda>_. Some [])
        (\<lambda>_ _ _. True) (\<lambda>_. None) ''h'' ''k2'' 1 sample_context ''p1'' sample_pub1)) sample_pub1)"
      by (simp add: sample_pub2_def request_def confirm_plan_def)
    then show ?thesis by (metis pub_step.Own pub_transaction.Confirm)
  qed
  moreover have "pub_step sample_pub2 sample_pub3"
    unfolding sample_pub3_def by (intro pub_step.Own pub_transaction.Finish)
  ultimately show "pub_step\<^sup>*\<^sup>* sample_pub0 sample_pub3" by auto
  show "pub_step sample_pub3 sample_pub4"
    unfolding sample_pub4_def by (intro pub_step.Own pub_transaction.Publish)
qed

lemma sample_reached: "pub_reachable sample_pub3" "pub_reachable sample_pub4"
proof -
  have "empty_pub sample_pub0" by (simp add: empty_pub_def sample_pub0_def)
  then show "pub_reachable sample_pub3" "pub_reachable sample_pub4"
    using sample_runs by (auto simp: pub_reachable_def intro: rtranclp.rtrancl_into_rtrancl)
qed

section \<open>Properties\<close>

text \<open>C13. The content of a publication plan is frozen. As long as its row is not deleted, whatever
  transactions of this component and of other code run, with confirmations and executors writing
  late over a plan that has moved on, a plan keeps everything but its state, its badge and the key of
  its confirmation; and a confirmation that goes through at any later time was sent by the plan's own
  account with the hash recorded when the plan was created, while the plan was not expired, so what
  is confirmed is what was planned.\<close>

theorem plan_content_is_frozen:
  assumes "pub_reachable db" and "p \<in> set (plans db)"
    and "(\<lambda>a b. pub_step a b \<and> pl_id p \<in> pl_id ` set (plans b))\<^sup>*\<^sup>* db db'"
  shows "(\<exists>p' \<in> set (plans db'). p'\<lparr>pl_state := pl_state p, pl_component_verified := pl_component_verified p,
        pl_confirm_key := pl_confirm_key p\<rparr> = p)
    \<and> (confirm_read projections durable unauthorised h key now ctx (pl_id p) db' = Go q \<longrightarrow>
        q\<lparr>pl_state := pl_state p, pl_component_verified := pl_component_verified p,
          pl_confirm_key := pl_confirm_key p\<rparr> = p
        \<and> h = pl_plan_hash p \<and> cx_account_id ctx = pl_actor_account_id p \<and> now < pl_expires_at p)"
proof (intro conjI impI)
  from run_content [OF assms(3) reachable_pub_inv [OF assms(1)] assms(2)]
  obtain p' where inv: "pub_inv db'" and p': "p' \<in> set (plans db')" "plan_core p' = plan_core p" by blast
  then show "\<exists>p' \<in> set (plans db'). p'\<lparr>pl_state := pl_state p, pl_component_verified := pl_component_verified p,
        pl_confirm_key := pl_confirm_key p\<rparr> = p"
    using same_core_content by blast
  assume go: "confirm_read projections durable unauthorised h key now ctx (pl_id p) db' = Go q"
  from go_read [OF go] have q: "q \<in> set (plans db')" "pl_id q = pl_id p" by auto
  then have "q = p'"
    using same_key [of pl_id "plans db'" q p'] core_inv_ids [OF inv] p' plan_core_fields [OF p'(2)] by simp
  with p'(2) have same: "q\<lparr>pl_state := pl_state p, pl_component_verified := pl_component_verified p,
          pl_confirm_key := pl_confirm_key p\<rparr> = p" using same_core_content by blast
  then show "q\<lparr>pl_state := pl_state p, pl_component_verified := pl_component_verified p,
          pl_confirm_key := pl_confirm_key p\<rparr> = p" .
  from arg_cong [OF same, of pl_plan_hash] arg_cong [OF same, of pl_actor_account_id]
    arg_cong [OF same, of pl_expires_at] go_read [OF go]
  show "h = pl_plan_hash p" and "cx_account_id ctx = pl_actor_account_id p" and "now < pl_expires_at p" by auto
qed

theorem plan_content_is_frozen_witness:
  "\<exists>p' \<in> set (plans sample_pub4). pl_plan_hash p' = ''h'' \<and> pl_passport p' = sample_passport"
proof -
  obtain p where p: "plans sample_pub3 = [p]" "pl_id p = ''p1''" "pl_plan_hash p = ''h''" "pl_passport p = sample_passport"
    unfolding sample3 sample_passport_def by simp
  obtain p4 where p4: "plans sample_pub4 = [p4]" "pl_id p4 = ''p1''" using sample4 by auto
  with p sample_runs(2) have "(\<lambda>a b. pub_step a b \<and> pl_id p \<in> pl_id ` set (plans b))\<^sup>*\<^sup>* sample_pub3 sample_pub4"
    by (intro r_into_rtranclp) simp
  with plan_content_is_frozen [OF sample_reached(1), of p sample_pub4] p(1)
  have eq: "p4\<lparr>pl_state := pl_state p, pl_component_verified := pl_component_verified p,
      pl_confirm_key := pl_confirm_key p\<rparr> = p" using p4 by auto
  from arg_cong [OF eq, of pl_plan_hash] arg_cong [OF eq, of pl_passport] p p4 show ?thesis by simp
qed

text \<open>Its state is not protected. The sample plan is read by a second confirmation before the first one
  is written; the second writes after the validation has passed, and the plan that was about to be
  published is back to validating, without a new validation job.\<close>

lemma late_confirmation_rewinds:
  "pub_transaction sample_pub3 (snd (request (confirm_write ''k3'' 3 3 sample_context (confirm_read (\<lambda>_. Some [])
       (\<lambda>_ _ _. True) (\<lambda>_. None) ''h'' ''k3'' 1 sample_context ''p1'' sample_pub1)) sample_pub3))
   \<and> map pl_state (plans sample_pub3) = [''publish_planned'']
   \<and> map pl_state (plans (snd (request (confirm_write ''k3'' 3 3 sample_context (confirm_read (\<lambda>_. Some [])
       (\<lambda>_ _ _. True) (\<lambda>_. None) ''h'' ''k3'' 1 sample_context ''p1'' sample_pub1)) sample_pub3)))
       = [''validating'']
   \<and> jobs (pub_queue (snd (request (confirm_write ''k3'' 3 3 sample_context (confirm_read (\<lambda>_. Some [])
       (\<lambda>_ _ _. True) (\<lambda>_. None) ''h'' ''k3'' 1 sample_context ''p1'' sample_pub1)) sample_pub3)))
       = jobs (pub_queue sample_pub3)"
  by (intro conjI, rule pub_transaction.Confirm) code_simp+

section \<open>Published versions\<close>


text \<open>The published sample is taken private and blocked by other code, and then re-evaluated.\<close>

definition sample_pub5 :: pub_db where
  "sample_pub5 = sample_pub4\<lparr>catalog := map (\<lambda>r. r\<lparr>cv_visibility := ''private'', cv_lifecycle_state := ''blocked''\<rparr>)
     (catalog sample_pub4)\<rparr>"


end
