(* ===== verification/PublicationOutcomes.thy ===== *)
theory PublicationOutcomes
  imports PublicationTheorems
begin

text \<open>
  What an answer of the publication executor means: the checks behind a published version, what a
  refusal leaves behind, and the attestation a credential-using object needs.
\<close>

section \<open>The catalog through the publication\<close>

lemma set_plan_catalog [simp]: "catalog (set_plan i f db) = catalog db" "locations (set_plan i f db) = locations db"
  by (simp_all add: set_plan_def)

lemma push_job_catalog: "push_job e now dbnow db = (r, db') \<Longrightarrow> catalog db' = catalog db"
  by (auto simp: push_job_def split: prod.splits sum.splits)

lemma enqueue_seo_catalog: "enqueue_seo_build v k s d now dbnow db = (Inr u, db') \<Longrightarrow> catalog db' = catalog db"
proof -
  have "enqueue_seo_locales ls k s d v now dbnow db = (Inr u, db') \<Longrightarrow> catalog db' = catalog db" for ls db
    by (induction ls arbitrary: db) (auto simp: Let_def and_next_Inr dest!: push_job_catalog split: if_splits)
  then show "enqueue_seo_build v k s d now dbnow db = (Inr u, db') \<Longrightarrow> catalog db' = catalog db"
    by (auto simp: enqueue_seo_build_def split: if_splits)
qed

lemma enqueue_metrics_catalog: "enqueue_metrics m now dbnow db = (Inr u, db') \<Longrightarrow> catalog db' = catalog db"
  by (auto simp: enqueue_metrics_def and_next_Inr dest!: push_job_catalog split: json.splits)

lemma put_location_catalog: "put_location i plan st k sz db = (Inr u, db') \<Longrightarrow> catalog db' = catalog db"
  by (auto simp: put_location_def split: if_splits)

lemma ensure_line_catalog: "ensure_line sv plan display db = (None, db1) \<Longrightarrow> catalog db1 = catalog db
    \<and> next_catalog_id db1 = next_catalog_id db"
  by (drule ensure_line_core) (simp add: same_core_def)

lemma find_by_id:
  "distinct (map cv_id cs) \<Longrightarrow> r \<in> set cs \<Longrightarrow> find (\<lambda>q. cv_id q = cv_id r) cs = Some r"
  by (induction cs) (auto simp: image_iff)

lemma find_refreshed:
  "find (\<lambda>r. cv_id r = i) (catalog (refresh_badges ps k db))
     = map_option (refreshed_row ps k db) (find (\<lambda>r. cv_id r = i) (catalog db))"
proof -
  have "find (\<lambda>r. cv_id r = i) (map (refreshed_row ps k db) cs)
      = map_option (refreshed_row ps k db) (find (\<lambda>r. cv_id r = i) cs)" for cs
    by (induction cs) (simp_all add: refresh_row_id)
  then show ?thesis by (simp add: refreshed)
qed

lemma put_metadata_find:
  assumes put: "put_metadata existing plan stamp db = (Inr i, db')" and stamp: "\<And>r. cv_id (stamp r) = cv_id r"
    and ids: "distinct (map cv_id (catalog db))" "\<forall>r \<in> set (catalog db). cv_id r < next_catalog_id db"
    and old: "\<And>r. existing = Some r \<Longrightarrow> r \<in> set (catalog db)"
  shows "find (\<lambda>r. cv_id r = i) (catalog db')
    = Some (stamp (case existing of None \<Rightarrow> new_metadata i plan | Some r \<Rightarrow> r))"
proof (cases existing)
  case None
  with put have db': "catalog db' = catalog db @ [stamp (new_metadata i plan)]" and i: "i = next_catalog_id db"
    by (auto simp: put_metadata_def split: if_splits)
  moreover have "find (\<lambda>r. cv_id r = i) (catalog db) = None" using ids(2) i by (auto simp: find_None_iff)
  ultimately show ?thesis using None by (simp add: find_append stamp new_metadata_def)
next
  case (Some r)
  with put have db': "catalog db' = update_where (\<lambda>q. cv_id q = i) stamp (catalog db)" and i: "i = cv_id r"
    by (auto simp: put_metadata_def)
  have "map cv_id (catalog db') = map cv_id (catalog db)" unfolding db' by (rule map_update_where) (rule stamp)
  moreover have "stamp r \<in> set (catalog db')" using old [OF Some] i by (auto simp: db' set_update_where)
  ultimately have "find (\<lambda>q. cv_id q = cv_id (stamp r)) (catalog db') = Some (stamp r)"
    using ids(1) by (intro find_by_id) simp_all
  then show ?thesis using Some by (simp add: stamp i)
qed

lemma materialize_answer:
  assumes run: "materialize sv ps st now dbnow plan m digest key bytes s existing db = (Inr x, db')"
    and ids: "distinct (map cv_id (catalog db))" "\<forall>r \<in> set (catalog db). cv_id r < next_catalog_id db"
    and old: "\<And>r. existing = Some r \<Longrightarrow> r \<in> set (catalog db)"
  obtains (refused) message where "x = None" "db' = refuse_publish now plan message db"
  | (row) i summary dbm r where "x = Some r" "r \<in> set (catalog db')"
      "r = refreshed_row ps (pl_object_kind plan) dbm (stamp_metadata sv plan m digest now
        (setup_trust_lane (pl_object_kind plan = ''setup'' \<and> ps_has_embedded ps bytes)
          (map_of (verified_authors db) (pl_actor_account_id plan) = Some True) (vs_component_verified s))
        (map_of (verified_authors db) (pl_actor_account_id plan) = Some True) (vs_component_verified s) summary
        (case existing of None \<Rightarrow> new_metadata i plan | Some q \<Rightarrow> q))"
proof -
  let ?author = "map_of (verified_authors db) (pl_actor_account_id plan) = Some True"
  have author: "(case map_of (verified_authors db) (pl_actor_account_id plan) of None \<Rightarrow> False | Some v \<Rightarrow> v) = ?author"
    by (simp split: option.split)
  let ?display = "case catalog_name sv plan of None \<Rightarrow> pl_stable_id plan | Some n \<Rightarrow> n"
  let ?summary = "summary_dict (evidence_summary (evidence_of (vs_id s) db))
      (if pl_object_kind plan = ''setup'' then Some (ps_setup_pins ps plan) else None)"
  let ?stamp = "stamp_metadata sv plan m digest now
      (setup_trust_lane (pl_object_kind plan = ''setup'' \<and> ps_has_embedded ps bytes) ?author (vs_component_verified s))
      ?author (vs_component_verified s) ?summary"
  let ?shown = "\<lambda>i db2. set_plan (pl_id plan) (\<lambda>p. p\<lparr>pl_state := ''published'',
      pl_component_verified := badge_of i (refresh_badges ps (pl_object_kind plan) db2)\<rparr>)
      (refresh_badges ps (pl_object_kind plan) db2)"
  let ?db5 = "\<lambda>i db2. if pl_object_kind plan = ''component'' then publish_attempts (pl_id plan) now (?shown i db2)
      else ?shown i db2"
  show thesis
  proof (cases "fst (ensure_line sv plan ?display db)")
    case (Some e)
    with run refused show thesis unfolding materialize_def Let_def
      by (cases "ensure_line sv plan ?display db") (auto split: identity_failure.splits)
  next
    case None
    then obtain db1 where line: "ensure_line sv plan ?display db = (None, db1)"
      by (cases "ensure_line sv plan ?display db") auto
  from run obtain i db2 u db6 u7 db7 u8 where
    put: "put_metadata existing plan ?stamp db1 = (Inr i, db2)"
    and loc: "put_location i plan st key (pm_artifact_size m) (?db5 i db2) = (Inr u, db6)"
    and met: "enqueue_metrics m now dbnow db6 = (Inr u7, db7)"
    and seo: "enqueue_seo_build (ps_seo_template ps) (pl_object_kind plan) (pl_stable_id plan) digest now dbnow db7
        = (Inr u8, db')"
    and x: "x = find (\<lambda>r. cv_id r = i) (catalog db')"
    unfolding materialize_def Let_def author line by (auto simp: and_next_Inr)
  have db5: "catalog (?db5 i db2) = catalog (refresh_badges ps (pl_object_kind plan) db2)"
    by (simp add: publish_attempts_def)
  have same: "catalog db' = catalog (refresh_badges ps (pl_object_kind plan) db2)"
    using put_location_catalog [OF loc] enqueue_metrics_catalog [OF met] enqueue_seo_catalog [OF seo] db5 by simp
  have db1: "catalog db1 = catalog db" "next_catalog_id db1 = next_catalog_id db"
    using ensure_line_catalog [OF line] by blast+
  have "find (\<lambda>r. cv_id r = i) (catalog db2)
      = Some (?stamp (case existing of None \<Rightarrow> new_metadata i plan | Some q \<Rightarrow> q))"
    by (rule put_metadata_find [OF put]) (use ids old db1 in \<open>auto simp: stamp_metadata_def\<close>)
  with x same have r: "x = Some (refreshed_row ps (pl_object_kind plan) db2
      (?stamp (case existing of None \<Rightarrow> new_metadata i plan | Some q \<Rightarrow> q)))"
    by (simp add: find_refreshed)
  with x show thesis using find_mem [of _ "catalog db'"] by (intro row [OF r _ refl]) auto
  qed
qed

lemma replay_row:
  assumes run: "replay_publish ps now dbnow plan digest q db = (Inr x, db')"
    and "distinct (map cv_id (catalog db))" "q \<in> set (catalog db)"
  shows "x = Some (refreshed_row ps (pl_object_kind plan) db q) \<and> refreshed_row ps (pl_object_kind plan) db q \<in> set (catalog db')"
proof -
  from run obtain u db2 where seo: "enqueue_seo_build (ps_seo_template ps) (pl_object_kind plan) (pl_stable_id plan)
      digest now dbnow db2 = (Inr u, db')"
    and "catalog db2 = catalog (refresh_badges ps (pl_object_kind plan) db)"
    and x: "x = find (\<lambda>r. cv_id r = cv_id q) (catalog db')"
    by (auto simp: replay_publish_def Let_def and_next_Inr)
  then have "catalog db' = catalog (refresh_badges ps (pl_object_kind plan) db)"
    using enqueue_seo_catalog [OF seo] by simp
  with x find_by_id [OF assms(2,3)] assms(3) show ?thesis by (simp add: find_refreshed) (simp add: refreshed)
qed

section \<open>What the executor checked\<close>

definition validated_for :: "services \<Rightarrow> publication_plan \<Rightarrow> passport_model \<Rightarrow> bool" where
  "validated_for sv plan m \<longleftrightarrow>
     sv_model_validate sv (if pl_object_kind plan = ''component'' then ''component'' else ''setup'') (pl_passport plan) = Inr m
     \<and> pm_kind m = pl_object_kind plan \<and> pm_stable_id m = pl_stable_id plan \<and> pm_version m = pl_version plan
     \<and> pm_owner_id m = pl_actor_account_id plan \<and> pm_artifact_digest m = pl_content_digest plan
     \<and> sv_verify_revision sv m"

text \<open>The three answers of a publication that does not raise.\<close>

lemma publish_cases:
  assumes run: "execute_publish sv ps store now dbnow i db = (Inr x, db')"
  obtains (settled) plan where "plan_row i db = Some plan" "pl_state plan \<in> set SETTLED_STATES" "x = None" "db' = db"
  | (refused) plan reason where "plan_row i db = Some plan" "pl_state plan \<notin> set SETTLED_STATES" "x = None"
      "db' = refuse_publish now plan reason db"
  | (replayed) plan m st key bytes q where "plan_row i db = Some plan" "pl_state plan \<notin> set SETTLED_STATES"
      "now < pl_expires_at plan" "validated_for sv plan m" "store = Some st"
      "read_artifact st plan (pm_artifact_size m) = Inr (key, Some bytes)"
      "find (version_row plan) (catalog db) = Some q" "existing_refusal plan (sv_passport_digest sv m) q = None"
      "\<not> incomplete_version ps (sv_passport_digest sv m) (pm_document m) q"
      "replay_publish ps now dbnow plan (sv_passport_digest sv m) q db = (Inr x, db')"
  | (fresh) plan m st key bytes s where "plan_row i db = Some plan" "pl_state plan \<notin> set SETTLED_STATES"
      "now < pl_expires_at plan" "validated_for sv plan m" "store = Some st"
      "read_artifact st plan (pm_artifact_size m) = Inr (key, Some bytes)"
      "\<And>q. find (version_row plan) (catalog db) = Some q \<Longrightarrow>
         existing_refusal plan (sv_passport_digest sv m) q = None \<and> cv_lifecycle_state q = ''draft''"
      "snapshot_of (pl_id plan) db = Some s" "vs_state s \<in> {''passed'', ''warning''}"
      "materialize sv ps st now dbnow plan m (sv_passport_digest sv m) key bytes s
         (find (version_row plan) (catalog db)) db = (Inr x, db')"
proof -
  from run obtain plan where plan: "plan_row i db = Some plan"
    by (auto simp: execute_publish_def atomic_def split: option.splits)
  have valid: "validated_for sv plan m"
    if "validate_publication_passport sv (pl_passport plan) (pl_object_kind plan) (pl_stable_id plan)
        (pl_version plan) (pl_content_digest plan) (Some (pl_actor_account_id plan)) vis b = (Some m, xs)" for m vis b xs
    using validated_model [OF that] by (simp add: validated_for_def)
  from run plan show ?thesis
    by (auto simp: execute_publish_def atomic_def Let_def split: if_splits sum.splits prod.splits option.splits
        identity_failure.splits intro: settled refused dest!: valid intro: replayed fresh)
qed

text \<open>C2. Nothing is published without its proofs. When the executor answers with a catalog row for a
  plan of a reachable state, the plan was neither settled nor expired; its passport was a valid model
  of the plan's kind, object, version and account, with a verified revision and the plan's content
  digest; the artifact bytes were read from the store; and the row in the catalog is the plan's version,
  owned by its account and carrying the passport's digest. Either that version was published before
  (and only its badge may have moved), or the plan has a passed or warning snapshot, and the row is in
  the authoritative lane only when the author and the component are verified and a setup embeds no
  members.\<close>

theorem publication_needs_every_proof:
  assumes "pub_reachable db" and "execute_publish sv ps store now dbnow i db = (Inr (Some r), db')"
  shows "\<exists>plan m st key bytes. plan_row i db = Some plan
     \<and> pl_state plan \<notin> {''failed'', ''cancelled'', ''stale''} \<and> now < pl_expires_at plan
     \<and> validated_for sv plan m \<and> store = Some st
     \<and> read_artifact st plan (pm_artifact_size m) = Inr (key, Some bytes)
     \<and> r \<in> set (catalog db') \<and> version_row plan r \<and> cv_owner_account_id r = pl_actor_account_id plan
     \<and> cv_passport_digest r = Some (sv_passport_digest sv m) \<and> cv_published_at r \<noteq> None
     \<and> ((\<exists>q \<in> set (catalog db). cv_published_at q \<noteq> None \<and> same_release q r)
        \<or> (\<exists>s. snapshot_of (pl_id plan) db = Some s \<and> vs_state s \<in> {''passed'', ''warning''}
             \<and> (cv_trust_lane r = Some ''authoritative'' \<longrightarrow>
                  map_of (verified_authors db) (pl_actor_account_id plan) = Some True
                  \<and> vs_component_verified s \<and> \<not> (pl_object_kind plan = ''setup'' \<and> ps_has_embedded ps bytes))))"
proof -
  have ids: "distinct (map cv_id (catalog db))" "\<forall>r \<in> set (catalog db). cv_id r < next_catalog_id db"
    using core_inv_ids [OF reachable_pub_inv [OF assms(1)]] by blast+
  from assms(2) show ?thesis
  proof (cases rule: publish_cases)
    case (replayed plan m st key bytes q)
    have q: "q \<in> set (catalog db)" "version_row plan q" using find_mem [OF replayed(7)] by blast+
    from replay_row [OF replayed(10) ids(1) q(1)] have r: "r \<in> set (catalog db')" "same_release q r"
      using refresh_row by auto
    have old: "cv_owner_account_id q = pl_actor_account_id plan \<and> cv_passport_digest q = Some (sv_passport_digest sv m)
        \<and> cv_published_at q \<noteq> None"
      using replayed(8,9) by (auto simp: existing_refusal_def incomplete_version_def split: if_splits)
    then have "version_row plan r \<and> cv_owner_account_id r = pl_actor_account_id plan
        \<and> cv_passport_digest r = Some (sv_passport_digest sv m) \<and> cv_published_at r \<noteq> None \<and> cv_published_at q \<noteq> None"
      using release_core_fields [of r q] r(2) q(2) by (auto simp: same_release_def version_row_def)
    moreover from this q(1) r(2) have "\<exists>q \<in> set (catalog db). cv_published_at q \<noteq> None \<and> same_release q r" by blast
    ultimately show ?thesis using replayed(2)
      by (intro exI [of _ plan] exI [of _ m] exI [of _ st] exI [of _ key] exI [of _ bytes] conjI disjI1)
        (simp_all add: SETTLED_STATES_def replayed(1,3-6) r(1))
  next
    case (fresh plan m st key bytes s)
    let ?q = "\<lambda>i. case find (version_row plan) (catalog db) of None \<Rightarrow> new_metadata i plan | Some q \<Rightarrow> q"
    let ?author = "map_of (verified_authors db) (pl_actor_account_id plan) = Some True"
    let ?lane = "setup_trust_lane (pl_object_kind plan = ''setup'' \<and> ps_has_embedded ps bytes) ?author (vs_component_verified s)"
    have old: "q \<in> set (catalog db)" if "find (version_row plan) (catalog db) = Some q" for q
      using find_mem [OF that] by blast
    obtain i' summary dbm where
      r: "r = refreshed_row ps (pl_object_kind plan) dbm (stamp_metadata sv plan m
        (sv_passport_digest sv m) now ?lane ?author (vs_component_verified s) summary (?q i'))"
      and mem: "r \<in> set (catalog db')"
      by (cases rule: materialize_answer [OF fresh(10) ids old]) simp_all
    have "version_row plan (?q i') \<and> cv_owner_account_id (?q i') = pl_actor_account_id plan"
      using fresh(7) by (auto simp: new_metadata_def version_row_def existing_refusal_def
          dest: find_mem split: option.split if_splits)
    then have "version_row plan r \<and> cv_owner_account_id r = pl_actor_account_id plan
        \<and> cv_passport_digest r = Some (sv_passport_digest sv m) \<and> cv_published_at r = Some now
        \<and> cv_trust_lane r = Some ?lane"
      unfolding r by (simp add: refreshed_row_def stamp_metadata_def version_row_def split: option.split)
    then show ?thesis using fresh(2,9)
      by (intro exI [of _ plan] exI [of _ m] exI [of _ st] exI [of _ key] exI [of _ bytes] conjI disjI2 exI [of _ s])
        (simp_all add: SETTLED_STATES_def fresh(1,3-6,8) mem setup_trust_lane_def)
  qed simp_all
qed

theorem publication_needs_every_proof_witness:
  "\<exists>p st bytes. pl_id p = ''p1'' \<and> Some st = Some sample_store
     \<and> (\<exists>key. read_artifact st p 3 = Inr (key, Some bytes)) \<and> 3 < pl_expires_at p"
proof -
  obtain r db' where "execute_publish sample_services sample_publish_services (Some sample_store) 3 3 ''p1'' sample_pub3
      = (Inr (Some r), db')" using sample4 by (metis prod.collapse)
  from publication_needs_every_proof [OF sample_reached(1) this] obtain p m st key bytes where
    p: "plan_row ''p1'' sample_pub3 = Some p" "3 < pl_expires_at p" "validated_for sample_services p m"
      "sample_store = st" "read_artifact st p (pm_artifact_size m) = Inr (key, Some bytes)" by force
  then have "pm_artifact_size m = 3" by (auto simp: validated_for_def sample_services_def sample_model_def)
  with p plan_row_mem [OF p(1)] show ?thesis by auto
qed

section \<open>What a refusal leaves behind\<close>

text \<open>The plan after a refusal, and everything a refusal may not touch.\<close>

definition plan_settled :: "publication_plan \<Rightarrow> string \<Rightarrow> pub_db \<Rightarrow> pub_db \<Rightarrow> bool" where
  "plan_settled plan reason db db' \<longleftrightarrow>
     (\<forall>p \<in> set (plans db'). pl_id p = pl_id plan \<longrightarrow> pl_state p = ''failed'')
     \<and> pub_audit db' = pub_audit db @ [refusal_audit plan ''publication.publish_refused'' reason]
     \<and> (\<forall>a \<in> set (attempts_ledger db'). oa_plan_id a = Some (pl_id plan) \<longrightarrow>
          oa_state a = ''failed_permanent'' \<and> oa_error_code a = Some ''publish_refused'')"

definition same_public :: "pub_db \<Rightarrow> pub_db \<Rightarrow> bool" where
  "same_public db db' \<longleftrightarrow> catalog db' = catalog db \<and> identities db' = identities db \<and> locales db' = locales db
     \<and> locations db' = locations db \<and> snapshots db' = snapshots db \<and> evidence db' = evidence db
     \<and> pub_queue db' = pub_queue db \<and> next_catalog_id db' = next_catalog_id db"

lemma refuse_settles:
  "plan_settled plan reason db (refuse_publish now plan reason db) \<and> same_public db (refuse_publish now plan reason db)"
  by (auto simp: plan_settled_def same_public_def refuse_publish_def settle_attempts_def set_plan_def set_update_where)

text \<open>C15. The answers of a publication that is not carried out. An exception (an unknown plan, no
  object store, a broken constraint) changes nothing. A refusal changes nothing either when the plan
  was settled before; otherwise it settles the plan as failed, with the reason in the audit log and on
  the official attempts, and leaves the catalog, the identities, the locations, the snapshots and the
  queue as they were. An unknown plan always raises, and an expired one is always refused.\<close>

theorem refused_publications_change_no_catalog:
  assumes "pub_reachable db" and "execute_publish sv ps store now dbnow i db = (out, db')"
  shows "(\<forall>e. out = Inl e \<longrightarrow> db' = db)
    \<and> (out = Inr None \<longrightarrow> same_public db db' \<and>
         (\<exists>plan. plan_row i db = Some plan \<and>
           (if pl_state plan \<in> {''failed'', ''cancelled'', ''stale''} then db' = db
            else \<exists>reason. plan_settled plan reason db db')))
    \<and> (plan_row i db = None \<longrightarrow> out = Inl (PubValueError (''unknown plan '' @ i)))
    \<and> (\<forall>plan. plan_row i db = Some plan \<and> pl_expires_at plan \<le> now \<longrightarrow> out = Inr None)"
proof (intro conjI)
  show "\<forall>e. out = Inl e \<longrightarrow> db' = db"
    using assms(2) by (auto simp: execute_publish_def atomic_def split: prod.splits sum.splits)
  show "plan_row i db = None \<longrightarrow> out = Inl (PubValueError (''unknown plan '' @ i))"
    using assms(2) by (auto simp: execute_publish_def atomic_def)
  show "\<forall>plan. plan_row i db = Some plan \<and> pl_expires_at plan \<le> now \<longrightarrow> out = Inr None"
  proof (intro allI impI)
    fix plan assume "plan_row i db = Some plan \<and> pl_expires_at plan \<le> now"
    then have "fst (execute_publish sv ps store now dbnow i db) = Inr None"
      by (simp add: execute_publish_def atomic_def Let_def)
    with assms(2) show "out = Inr None" by simp
  qed
  have ids: "distinct (map cv_id (catalog db))" "\<forall>r \<in> set (catalog db). cv_id r < next_catalog_id db"
    using core_inv_ids [OF reachable_pub_inv [OF assms(1)]] by blast+
  show "out = Inr None \<longrightarrow> same_public db db' \<and> (\<exists>plan. plan_row i db = Some plan \<and>
      (if pl_state plan \<in> {''failed'', ''cancelled'', ''stale''} then db' = db
       else \<exists>reason. plan_settled plan reason db db'))"
  proof
    assume "out = Inr None"
    with assms(2) have "execute_publish sv ps store now dbnow i db = (Inr None, db')" by simp
    then show "same_public db db' \<and> (\<exists>plan. plan_row i db = Some plan \<and>
      (if pl_state plan \<in> {''failed'', ''cancelled'', ''stale''} then db' = db
       else \<exists>reason. plan_settled plan reason db db'))"
    proof (cases rule: publish_cases)
      case (settled plan)
      then show ?thesis by (auto simp: same_public_def SETTLED_STATES_def)
    next
      case (refused plan reason)
      then show ?thesis using refuse_settles [of plan reason db now] by (auto simp: SETTLED_STATES_def)
    next
      case (replayed plan m st key bytes q)
      then show ?thesis using replay_row [OF replayed(10) ids(1)] find_mem [OF replayed(7)] by simp
    next
      case (fresh plan m st key bytes s)
      have old: "q \<in> set (catalog db)" if "find (version_row plan) (catalog db) = Some q" for q
        using find_mem [OF that] by blast
      obtain message where "db' = refuse_publish now plan message db"
        by (cases rule: materialize_answer [OF fresh(10) ids old]) simp_all
      then show ?thesis using fresh(1,2) refuse_settles [of plan message db now] by (auto simp: SETTLED_STATES_def)
    qed
  qed
qed

theorem refused_publications_change_no_catalog_witness:
  "\<exists>out db'. execute_publish sample_services sample_publish_services None 86400000000 0 ''p1'' sample_pub3 = (out, db')
     \<and> out = Inr None \<and> same_public sample_pub3 db'"
proof -
  obtain out db' where run: "execute_publish sample_services sample_publish_services None 86400000000 0 ''p1'' sample_pub3
      = (out, db')" by (cases "execute_publish sample_services sample_publish_services None 86400000000 0 ''p1'' sample_pub3")
  have "\<exists>p. plan_row ''p1'' sample_pub3 = Some p \<and> pl_expires_at p \<le> 86400000000"
    by (simp add: plan_row_def sample3)
  with refused_publications_change_no_catalog [OF sample_reached(1) run] run show ?thesis by auto
qed

section \<open>Credentials need a signature\<close>

lemma snapshot_outcome_good:
  assumes "snapshot_outcome bs = (st, v)" and "st \<in> {''passed'', ''warning''}"
    and "b \<in> set bs" and "br_mandatory b = Some True"
  shows "br_verdict b \<notin> {''failed'', ''degraded'', ''not_run'', ''expired''}"
  using assms by (auto simp: snapshot_outcome_def Let_def list_ex_iff split: if_splits)

lemma finish_state:
  assumes "finish_validate sv sid now dbnow assess pins bs plan db = (Inr s, db')"
  shows "vs_state s = fst (snapshot_outcome bs)"
  using assms unfolding finish_validate_def atomic_def Let_def and_next_def
  by (cases "snapshot_outcome bs") (auto split: sum.splits prod.splits if_splits)

lemma bound_attestation:
  "bind_attestation_items sv ctx items \<noteq> [] \<Longrightarrow>
     \<exists>item \<in> set items. \<exists>r. sv_parse_attestation sv item = Some r \<and> attestation_accepted sv ctx r"
  by (induction items) (auto split: option.splits if_splits)

text \<open>C14. An object that requires credentials passes validation only with its author's word. When a
  validation succeeds for a plan whose passport sets \<open>requires_credentials\<close>, one of the plan's
  attestations claims that the credential check passed for exactly this content digest, policy version,
  account, device, object, version and passport, names no secret, token or password, and carries a
  signature by the key of the plan's device, which is active.\<close>

theorem credentials_need_a_signed_attestation:
  assumes "execute_validate sv sid now dbnow assess pins scanned between i db = (Inr s, db')"
    and "plan_row i db = Some plan" and "snapshot_of i db = None"
    and "truthy (dict_get (pl_passport plan) ''requires_credentials'')"
    and "vs_state s \<in> {''passed'', ''warning''}"
  shows "\<exists>item \<in> set (pl_attestations plan). \<exists>r. \<exists>d \<in> set (pub_devices db).
     sv_parse_attestation sv item = Some r
     \<and> dv_id d = pl_device_id plan \<and> dv_state d = ''active'' \<and> sv_signed sv (dv_public_key d) r
     \<and> at_check_id r = ''credentials'' \<and> at_result r = ''passed''
     \<and> at_object_digest r = pl_content_digest plan \<and> at_policy_version r = pl_policy_version plan
     \<and> at_account_id r = pl_actor_account_id plan \<and> at_device_id r = pl_device_id plan
     \<and> at_stable_id r = pl_stable_id plan \<and> at_subject_version r = pl_version plan
     \<and> at_passport_digest r = bound_passport_digest sv plan
     \<and> (\<forall>key \<in> fst ` set (at_tool_versions r). \<not> has_word ''token'' (lower key))"
proof -
  let ?ctx = "plan_attestation_context sv plan db"
  let ?att = "bind_author_attestations sv (pl_attestations plan) ?ctx"
  have refusal: "vs_state t = ''failed''" if "atomic db (record_refusal_snapshot sid now plan reason db) = (Inr t, db1)" for t reason db1
    using that by (auto simp: record_refusal_snapshot_def atomic_def and_next_def refusal_snapshot_def
        split: prod.splits sum.splits)
  obtain bound where run: "finish_validate sv sid now dbnow assess pins ((run_platform_checks (pl_passport plan)
      (pl_content_digest plan) bound @ credential_bindings sv plan db) @ scanned) plan (between db) = (Inr s, db')"
    using assms(1-3,5) by (auto simp: execute_validate_def begin_validate_def answered_def dest: refusal
        split: if_splits sum.splits prod.splits validate_gate.splits)
  obtain st v where out: "snapshot_outcome ((run_platform_checks (pl_passport plan)
      (pl_content_digest plan) bound @ credential_bindings sv plan db) @ scanned) = (st, v)" by fastforce
  with finish_state [OF run] have "vs_state s = st" by simp
  have "?att \<noteq> []"
  proof
    assume "?att = []"
    then have "binding CREDENTIAL_CHECK ''not_run'' ''author_attested'' \<in> set (credential_bindings sv plan db)"
      using assms(4) by (simp add: credential_bindings_def)
    with snapshot_outcome_good [OF out, of "binding CREDENTIAL_CHECK ''not_run'' ''author_attested''"]
      \<open>vs_state s = st\<close> assms(5) show False by (simp add: binding_def blank_binding_def br_verdict_def str_opt_def)
  qed
  then have items: "bind_attestation_items sv ?ctx (pl_attestations plan) \<noteq> []"
    and active: "\<not> ac_device_revoked ?ctx"
    by (auto simp: bind_author_attestations_def split: if_splits)
  from bound_attestation [OF items] obtain item r where item: "item \<in> set (pl_attestations plan)"
    "sv_parse_attestation sv item = Some r" "attestation_accepted sv ?ctx r" by blast
  from active obtain d where d: "find (\<lambda>d. dv_id d = pl_device_id plan) (pub_devices db) = Some d" "dv_state d = ''active''"
    by (auto simp: plan_attestation_context_def Let_def split: option.splits)
  with item find_mem [OF d(1)] show ?thesis
    by (intro bexI [of _ item] exI [of _ r] bexI [of _ d])
      (auto simp: attestation_accepted_def plan_attestation_context_def Let_def CREDENTIAL_CHECK_def list_ex_iff)
qed

text \<open>Publishing the sample with a signed attestation.\<close>

definition sample_attestation :: author_attestation where
  "sample_attestation = \<lparr>at_check_id = ''credentials'', at_result = ''passed'', at_object_digest = ''d1'',
     at_policy_version = ''safety-3'', at_account_id = ''ann'', at_device_id = ''dev'', at_stable_id = ''s1'',
     at_subject_version = ''1.0'', at_passport_digest = ''pd'', at_tool_versions = []\<rparr>"

definition credential_services :: services where
  "credential_services = sample_services\<lparr>sv_parse_attestation := (\<lambda>_. Some sample_attestation),
     sv_signed := (\<lambda>k _. k = ''k'')\<rparr>"

definition credential_passport :: dict where
  "credential_passport = [(''kind'', JStr ''setup''), (''name'', JStr ''tool''), (''version'', JStr ''1.0''),
     (''license'', JDict [(''spdx_id'', JStr ''MIT'')]), (''tags'', JList [JStr ''t'']),
     (''artifact'', JDict [(''digest'', JStr ''d1'')]), (''requires_credentials'', JBool True)]"

definition credential_pub :: pub_db where
  "credential_pub = sample_pub2\<lparr>plans := map (\<lambda>p. p\<lparr>pl_passport := credential_passport,
     pl_attestations := [[]]\<rparr>) (plans sample_pub2)\<rparr>"

lemma credential_run: "case execute_validate credential_services ''v1'' 2 2 (\<lambda>_. True) None [] id ''p1'' credential_pub of
    (Inr s, _) \<Rightarrow> vs_state s = ''passed'' | _ \<Rightarrow> False"
  by code_simp

lemma credential_plan: "case plan_row ''p1'' credential_pub of
    Some p \<Rightarrow> pl_passport p = credential_passport \<and> snapshot_of ''p1'' credential_pub = None | None \<Rightarrow> False"
  by code_simp

theorem credentials_need_a_signed_attestation_witness:
  "\<exists>d \<in> set (pub_devices credential_pub). dv_state d = ''active'' \<and> dv_public_key d = ''k''"
proof -
  from credential_run obtain s db' where run: "execute_validate credential_services ''v1'' 2 2 (\<lambda>_. True) None [] id ''p1''
      credential_pub = (Inr s, db')" and ok: "vs_state s = ''passed''"
    by (auto split: prod.splits sum.splits)
  from credential_plan obtain p where p: "plan_row ''p1'' credential_pub = Some p"
    "pl_passport p = credential_passport" "snapshot_of ''p1'' credential_pub = None"
    by (auto split: option.splits)
  have "truthy (dict_get (pl_passport p) ''requires_credentials'')"
    unfolding p(2) credential_passport_def by (simp add: dict_get_def)
  from credentials_need_a_signed_attestation [OF run p(1,3) this] ok
  show ?thesis by (auto simp: credential_services_def)
qed

end
