(* ===== verification/Canonical.thy ===== *)
theory Canonical
  imports Versioning
begin

text \<open>
  The foundation primitives (\<open>packages/foundation/src/ai_stp_foundation/\<close>): typed stable ids
  (\<open>ids.py\<close>), canonical JSON and its digests (\<open>canonical.py\<close>, \<open>digests.py\<close>), revision ids
  (\<open>revisions.py\<close>) and timestamps (\<open>timestamps.py\<close>). Text is Latin-1 and bytes are characters. Unicode
  NFC, the byte-order-mark test, the third-party RFC 8785 printer and the SHA-256 hex digest are
  arguments (\<open>canonical_text\<close>). A JSON number is finite, and a \<^const>\<open>JDict\<close> has distinct keys, as a
  Python dict.
\<close>

section \<open>Stable identifiers\<close>

definition ID_PREFIXES :: "string list" where
  "ID_PREFIXES =
     [''account'', ''acceptance'', ''area'', ''backup'', ''complaint'', ''component'', ''category'',
      ''developer'', ''dashboard_view'', ''device'', ''family'', ''grant'', ''invite'', ''job_title'',
      ''mail'', ''operation'', ''organization'', ''outbox'', ''plan'', ''prevision'', ''project'',
      ''remote_project'', ''provider_project'', ''project_link'', ''link_plan'', ''unlink_plan'',
      ''report'', ''relation'', ''proposal'', ''request'', ''scan'', ''service_principal'', ''snapshot'',
      ''setup'', ''sync_plan'', ''task'', ''technology'', ''sub'', ''variant'']"

text \<open>\<open>_ULID_BODY\<close>: \<open>[0-7][0-9A-HJKMNP-TV-Z]{25}\<close>.\<close>

definition ULID_HEAD :: string where "ULID_HEAD = ''01234567''"
definition ULID_ALPHABET :: string where "ULID_ALPHABET = ''0123456789ABCDEFGHJKMNPQRSTVWXYZ''"

definition is_ulid :: "string \<Rightarrow> bool" where
  "is_ulid s = (case s of [] \<Rightarrow> False
     | c # cs \<Rightarrow> c \<in> set ULID_HEAD \<and> length cs = 25 \<and> list_all (\<lambda>d. d \<in> set ULID_ALPHABET) cs)"

text \<open>\<open>s.rpartition(c)\<close>: None when the separator does not occur.\<close>

definition rpartition :: "char \<Rightarrow> string \<Rightarrow> (string \<times> string) option" where
  "rpartition c s =
     (let suffix = rev (takeWhile (\<lambda>d. d \<noteq> c) (rev s))
      in if c \<notin> set s then None else Some (take (length s - length suffix - 1) s, suffix))"

definition parse_id :: "string \<Rightarrow> string + string \<times> string" where
  "parse_id value =
     (case rpartition (CHR ''_'') value of
        None \<Rightarrow> Inl (''stable id has no prefix separator: '' @ repr_str value)
      | Some (pre, suffix) \<Rightarrow>
          if pre \<notin> set ID_PREFIXES then Inl (''unknown id prefix: '' @ repr_str pre)
          else if \<not> is_ulid suffix then Inl (''stable id suffix is not a canonical ULID: '' @ repr_str value)
          else Inr (pre, suffix))"

definition is_valid_id :: "string \<Rightarrow> string option \<Rightarrow> bool" where
  "is_valid_id value want =
     (case parse_id value of Inl _ \<Rightarrow> False
      | Inr (pre, _) \<Rightarrow> (case want of None \<Rightarrow> True | Some w \<Rightarrow> pre = w))"

text \<open>Minting; the random ULID is an argument.\<close>

definition new_id :: "string \<Rightarrow> string \<Rightarrow> string + string" where
  "new_id ulid pre =
     (if pre \<notin> set ID_PREFIXES then Inl (''unknown id prefix: '' @ repr_str pre)
      else Inr (pre @ ''_'' @ ulid))"

section \<open>Canonical JSON and digests\<close>

record canonical_text =
  ct_nfc :: "string \<Rightarrow> string"
  ct_has_bom :: "string \<Rightarrow> bool"
  ct_rfc8785 :: "json \<Rightarrow> string + string"
  ct_sha256 :: "string \<Rightarrow> string"

definition normalized_string :: "canonical_text \<Rightarrow> string \<Rightarrow> string + string" where
  "normalized_string ct s =
     (if ct_has_bom ct s then Inl ''byte-order mark inside a string is rejected'' else Inr (ct_nfc ct s))"

fun normalized :: "canonical_text \<Rightarrow> json \<Rightarrow> string + json"
  and normalized_list :: "canonical_text \<Rightarrow> json list \<Rightarrow> string + json list"
  and normalized_dict :: "canonical_text \<Rightarrow> dict \<Rightarrow> dict \<Rightarrow> string + dict" where
  "normalized ct (JStr s) = and_then (normalized_string ct s) (\<lambda>t. Inr (JStr t))"
| "normalized ct (JList xs) = and_then (normalized_list ct xs) (\<lambda>ys. Inr (JList ys))"
| "normalized ct (JDict d) = and_then (normalized_dict ct [] d) (\<lambda>e. Inr (JDict e))"
| "normalized ct v = Inr v"
| "normalized_list ct [] = Inr []"
| "normalized_list ct (x # xs) =
     and_then (normalized ct x) (\<lambda>y. and_then (normalized_list ct xs) (\<lambda>ys. Inr (y # ys)))"
| "normalized_dict ct acc [] = Inr acc"
| "normalized_dict ct acc ((k, v) # d) =
     and_then (normalized_string ct k) (\<lambda>k'.
       if has_key acc k'
       then Inl (''object keys collide after NFC normalization: '' @ repr_str k')
       else and_then (normalized ct v) (\<lambda>v'. normalized_dict ct (acc @ [(k', v')]) d))"

definition canonize :: "canonical_text \<Rightarrow> json \<Rightarrow> string + string" where
  "canonize ct v = and_then (normalized ct v) (ct_rfc8785 ct)"

definition DIGEST_DOMAINS :: "string list" where
  "DIGEST_DOMAINS =
     [''ai-stp:artifact:v1'', ''ai-stp:article-active:v1'', ''ai-stp:article-revision:v1'',
      ''ai-stp:article-snapshot:v1'', ''ai-stp:component-adaptation:v1'', ''ai-stp:component-logical:v1'',
      ''ai-stp:target-assessment-key:v1'', ''ai-stp:attestation:v1'', ''ai-stp:bundle:v1'',
      ''ai-stp:native-discovery:v1'', ''ai-stp:path-inventory:v1'', ''ai-stp:cli-registry:v1'',
      ''ai-stp:component-source-binding:v1'', ''ai-stp:github-request:v1'', ''ai-stp:gitlab-request:v1'',
      ''ai-stp:passport:v1'', ''ai-stp:plan:v1'', ''ai-stp:multi-root-transaction:v1'',
      ''ai-stp:official-manifest:v1'', ''ai-stp:publication-set:v1'', ''ai-stp:provider-plan:v3'',
      ''ai-stp:provider-projection:v3'', ''ai-stp:project-configuration:v1'', ''ai-stp:project-index:v1'',
      ''ai-stp:project-toolchain:v1'', ''ai-stp:revision:v1'', ''ai-stp:schema-body:v1'',
      ''ai-stp:standard-inventory:v1'', ''ai-stp:scaffold-plan:v1'', ''ai-stp:setup-scaffold-plan:v1'',
      ''ai-stp:setup-export:v1'', ''ai-stp:skill-package:v1'', ''ai-stp:selection-snapshot:v1'',
      ''ai-stp:portability-claim:v1'', ''ai-stp:setup-eval-plan:v1'', ''ai-stp:setup-eval-result:v1'',
      ''ai-stp:setup-harness-invariant:v1'', ''ai-stp:component-eval-plan:v1'',
      ''ai-stp:component-eval-result:v1'', ''ai-stp:store-port-plan:v1'', ''ai-stp:seo-snapshot:v1'',
      ''ai-stp:seo-profile:v1'', ''ai-stp:article-body:v1'', ''ai-stp:runtime-usage-export:v1'',
      ''ai-stp:installation-operation:v1'', ''ai-stp:corporate-inventory-location:v1'',
      ''ai-stp:installation-inventory:v1'', ''ai-stp:mapping-apply:v1'', ''ai-stp:profile-publish:v1'']"

definition digest_bytes :: "canonical_text \<Rightarrow> string \<Rightarrow> string \<Rightarrow> string + string" where
  "digest_bytes ct domain payload =
     (if domain \<notin> set DIGEST_DOMAINS then Inl (''unknown digest domain: '' @ repr_str domain)
      else Inr (''sha256:'' @ ct_sha256 ct (domain @ [char_of (0 :: nat)] @ payload)))"

definition digest_canonical :: "canonical_text \<Rightarrow> string \<Rightarrow> json \<Rightarrow> string + string" where
  "digest_canonical ct domain v = and_then (canonize ct v) (digest_bytes ct domain)"

text \<open>\<open>s.removeprefix(p)\<close>, and 64 lowercase hex digits after a prefix.\<close>

definition remove_prefix :: "string \<Rightarrow> string \<Rightarrow> string" where
  "remove_prefix p s = (if starts_with p s then drop (length p) s else s)"

definition prefixed_hex :: "string \<Rightarrow> string \<Rightarrow> bool" where
  "prefixed_hex p s \<longleftrightarrow> starts_with p s \<and> length s = length p + 64
     \<and> list_all (\<lambda>c. c \<in> set ''0123456789abcdef'') (drop (length p) s)"

definition is_digest :: "string \<Rightarrow> bool" where
  "is_digest s = prefixed_hex ''sha256:'' s"

section \<open>Revision ids\<close>

definition REVISION_DOMAIN :: string where "REVISION_DOMAIN = ''ai-stp:revision:v1''"

definition revision_id :: "canonical_text \<Rightarrow> json \<Rightarrow> string + string" where
  "revision_id ct payload =
     and_then (digest_canonical ct REVISION_DOMAIN payload) (\<lambda>d. Inr (''revision_'' @ remove_prefix ''sha256:'' d))"

definition is_valid_revision_id :: "string \<Rightarrow> bool" where
  "is_valid_revision_id s = prefixed_hex ''revision_'' s"

section \<open>Timestamps\<close>

text \<open>\<open>datetime\<close> in UTC. A \<open>TimestampError\<close> is \<^const>\<open>None\<close>.\<close>

record datetime =
  dt_year :: nat
  dt_month :: nat
  dt_day :: nat
  dt_hour :: nat
  dt_minute :: nat
  dt_second :: nat
  dt_microsecond :: nat

text \<open>\<open>TIMESTAMP_PATTERN\<close>, a \<open>d\<close> standing for a digit.\<close>

definition TIMESTAMP_TEMPLATE :: string where "TIMESTAMP_TEMPLATE = ''dddd-dd-ddTdd:dd:dd.dddZ''"

definition matches_template :: "string \<Rightarrow> string \<Rightarrow> bool" where
  "matches_template template s = list_all2 (\<lambda>t c. if t = CHR ''d'' then is_digit c else c = t) template s"

definition is_leap :: "nat \<Rightarrow> bool" where
  "is_leap y \<longleftrightarrow> y mod 4 = 0 \<and> (y mod 100 \<noteq> 0 \<or> y mod 400 = 0)"

definition days_in_month :: "nat \<Rightarrow> nat \<Rightarrow> nat" where
  "days_in_month y m =
     (if m = 2 then (if is_leap y then 29 else 28) else if m \<in> set [4, 6, 9, 11] then 30 else 31)"

definition real_moment :: "datetime \<Rightarrow> bool" where
  "real_moment m \<longleftrightarrow> 1 \<le> dt_year m \<and> dt_year m \<le> 9999 \<and> 1 \<le> dt_month m \<and> dt_month m \<le> 12
     \<and> 1 \<le> dt_day m \<and> dt_day m \<le> days_in_month (dt_year m) (dt_month m)
     \<and> dt_hour m < 24 \<and> dt_minute m < 60 \<and> dt_second m < 60"

definition parse_timestamp :: "string \<Rightarrow> datetime option" where
  "parse_timestamp s =
     (let field = (\<lambda>start width. read_number (take width (drop start s)));
          m = \<lparr>dt_year = field 0 4, dt_month = field 5 2, dt_day = field 8 2, dt_hour = field 11 2,
               dt_minute = field 14 2, dt_second = field 17 2, dt_microsecond = 1000 * field 20 3\<rparr>
      in if matches_template TIMESTAMP_TEMPLATE s \<and> real_moment m then Some m else None)"

text \<open>A number in \<open>w\<close> digits, zero-padded.\<close>

fun pad_digits :: "nat \<Rightarrow> nat \<Rightarrow> string" where
  "pad_digits 0 n = []"
| "pad_digits (Suc w) n = pad_digits w (n div 10) @ [digit_char (n mod 10)]"

definition format_timestamp :: "datetime \<Rightarrow> string" where
  "format_timestamp m =
     pad_digits 4 (dt_year m) @ ''-'' @ pad_digits 2 (dt_month m) @ ''-'' @ pad_digits 2 (dt_day m) @ ''T''
     @ pad_digits 2 (dt_hour m) @ '':'' @ pad_digits 2 (dt_minute m) @ '':'' @ pad_digits 2 (dt_second m)
     @ ''.'' @ pad_digits 3 (dt_microsecond m div 1000) @ ''Z''"

definition is_valid_timestamp :: "string \<Rightarrow> bool" where
  "is_valid_timestamp s = (parse_timestamp s \<noteq> None)"

section \<open>Facts\<close>

lemma pad_read: "list_all is_digit s \<Longrightarrow> pad_digits (length s) (read_number s) = s"
proof (induction s rule: rev_induct)
  case (snoc c s)
  then have "digit_char (digit_value c) = c" and "digit_value c < 10"
    using digit_value_char [of c] by auto
  with snoc show ?case by (simp add: read_number_snoc)
qed simp

lemma pad_width: "length s = w \<Longrightarrow> list_all is_digit s \<Longrightarrow> pad_digits w (read_number s) = s"
  using pad_read by blast

lemma mult_div_thousand: "1000 * n div 1000 = (n :: nat)"
  by simp

lemma list24: "length s = 24 \<Longrightarrow> s = [s ! 0, s ! 1, s ! 2, s ! 3, s ! 4, s ! 5, s ! 6, s ! 7, s ! 8, s ! 9, s ! 10, s ! 11,
    s ! 12, s ! 13, s ! 14, s ! 15, s ! 16, s ! 17, s ! 18, s ! 19, s ! 20, s ! 21, s ! 22, s ! 23]"
proof -
  assume "length s = 24"
  then have "s = map (nth s) [0..<24]" by (metis map_nth)
  also have "[0..<24] = [0, 1, 2, 3, 4, 5, 6, 7, 8, 9, 10, 11, 12, 13, 14, 15, 16, 17, 18, 19, 20, 21, 22, 23]"
    by code_simp
  finally show ?thesis by simp
qed

text \<open>A canonical moment is printed as it was read.\<close>

lemma format_parse:
  assumes "parse_timestamp s = Some m"
  shows "format_timestamp m = s"
proof -
  from assms have t: "matches_template TIMESTAMP_TEMPLATE s"
    by (simp add: parse_timestamp_def Let_def split: if_splits)
  then have len: "length s = 24"
    by (auto simp: matches_template_def TIMESTAMP_TEMPLATE_def dest: list_all2_lengthD)
  obtain a b c d e f g h i j k l n p q r t u v w x y z z'
    where s: "s = [a,b,c,d,e,f,g,h,i,j,k,l,n,p,q,r,t,u,v,w,x,y,z,z']"
    by (rule that, rule list24 [OF len])
  from t have digits: "list_all is_digit [a,b,c,d]" "list_all is_digit [f,g]" "list_all is_digit [i,j]"
    "list_all is_digit [l,n]" "list_all is_digit [q,r]" "list_all is_digit [u,v]" "list_all is_digit [x,y,z]"
    and seps: "e = CHR ''-''" "h = CHR ''-''" "k = CHR ''T''" "p = CHR '':''" "t = CHR '':''" "w = CHR ''.''" "z' = CHR ''Z''"
    by (simp_all add: matches_template_def TIMESTAMP_TEMPLATE_def s)
  have fields: "pad_digits 4 (read_number [a,b,c,d]) = [a,b,c,d]" "pad_digits 2 (read_number [f,g]) = [f,g]"
    "pad_digits 2 (read_number [i,j]) = [i,j]" "pad_digits 2 (read_number [l,n]) = [l,n]"
    "pad_digits 2 (read_number [q,r]) = [q,r]" "pad_digits 2 (read_number [u,v]) = [u,v]"
    "pad_digits 3 (read_number [x,y,z]) = [x,y,z]"
    by (rule pad_width; (simp; fail)?; rule digits)+
  from assms have "dt_year m = read_number [a,b,c,d] \<and> dt_month m = read_number [f,g]
      \<and> dt_day m = read_number [i,j] \<and> dt_hour m = read_number [l,n] \<and> dt_minute m = read_number [q,r]
      \<and> dt_second m = read_number [u,v] \<and> dt_microsecond m = 1000 * read_number [x,y,z]"
    unfolding parse_timestamp_def Let_def s by (simp split: if_split_asm) (drule sym, simp)
  then show ?thesis
    by (simp only: format_timestamp_def fields seps s append.simps nonzero_mult_div_cancel_left
        numeral_eq_iff simp_thms mult_div_thousand)
qed

lemma starts_with_append [simp]: "starts_with p (p @ s)"
  by (induction p) auto

lemma remove_prefix_append [simp]: "remove_prefix p (p @ s) = s"
  by (simp add: remove_prefix_def)

text \<open>An id is cut at its last separator, so a prefix may hold one.\<close>

lemma rpartition_append: "c \<notin> set s \<Longrightarrow> rpartition c (p @ c # s) = Some (p, s)"
proof -
  assume "c \<notin> set s"
  then have "takeWhile (\<lambda>d. d \<noteq> c) (rev s @ c # rev p) = rev s"
    by (subst takeWhile_append2) auto
  then show ?thesis by (simp add: rpartition_def)
qed

lemma rpartition_some:
  assumes "rpartition c s = Some (p, u)"
  shows "s = p @ c # u \<and> c \<notin> set u"
proof -
  from assms have "c \<in> set (rev s)" and u: "u = rev (takeWhile (\<lambda>d. d \<noteq> c) (rev s))"
    and p: "p = take (length s - length u - 1) s"
    by (auto simp: rpartition_def Let_def split: if_splits)
  then obtain x y where xy: "rev s = x @ c # y" "c \<notin> set x" by (meson split_list_first)
  have "takeWhile (\<lambda>d. d \<noteq> c) (rev s) = x" using xy(2) by (subst xy(1), subst takeWhile_append2) auto
  with u have "u = rev x" by simp
  moreover from xy(1) have "s = rev y @ c # rev x"
    by (metis append.assoc append_Cons append_Nil rev.simps(2) rev_append rev_rev_ident)
  ultimately show ?thesis using p xy(2) by simp
qed

lemma parse_id_some: "parse_id v = Inr (p, u) \<Longrightarrow> v = p @ ''_'' @ u \<and> p \<in> set ID_PREFIXES \<and> is_ulid u"
  by (auto simp: parse_id_def dest!: rpartition_some split: option.splits if_splits prod.splits)

lemma ulid_no_separator: "is_ulid s \<Longrightarrow> CHR ''_'' \<notin> set s"
proof -
  assume u: "is_ulid s"
  then obtain c cs where s: "s = c # cs" by (cases s) (auto simp: is_ulid_def)
  have "CHR ''_'' \<notin> set ULID_HEAD" and "CHR ''_'' \<notin> set ULID_ALPHABET"
    by (simp_all add: ULID_HEAD_def ULID_ALPHABET_def)
  with u s show ?thesis by (auto simp: is_ulid_def list_all_iff)
qed

lemma parse_new_id: "pre \<in> set ID_PREFIXES \<Longrightarrow> is_ulid u \<Longrightarrow> parse_id (pre @ ''_'' @ u) = Inr (pre, u)"
  by (simp add: parse_id_def rpartition_append ulid_no_separator)

lemma valid_new_id: "pre \<in> set ID_PREFIXES \<Longrightarrow> is_ulid u \<Longrightarrow> is_valid_id (pre @ ''_'' @ u) (Some pre)"
  using parse_new_id [of pre u] by (simp add: is_valid_id_def)

end
