(* ===== verification/SyncPolicy.thy ===== *)
theory SyncPolicy
  imports Canonical
begin

text \<open>
  What a private sync event may carry (\<open>apps/api/src/ai_stp_api/slices/sync/validation.py\<close>, with
  \<open>sync_payload.py\<close> and \<open>sync_versions.py\<close> of \<open>packages/contracts\<close>): entity kinds and ids, parents,
  the payload policy, released versions and the content-addressed revision id. The pydantic models
  of a passport envelope and of the closed payload shapes are arguments (\<open>sync_models\<close>). Text is
  Latin-1; JSON holds no bytes and no keys but text.
\<close>

section \<open>The payload policy\<close>

definition FORBIDDEN_PAYLOAD_KINDS :: "string list" where
  "FORBIDDEN_PAYLOAD_KINDS = [''DevicePassport'', ''ProjectIndex'', ''ProjectPassport'', ''device'', ''project'']"

definition FORBIDDEN_KEY_FRAGMENTS :: "string list" where
  "FORBIDDEN_KEY_FRAGMENTS =
     [''absolute_path'', ''api_key'', ''artifact_bytes'', ''authorization'', ''backup'', ''cookie'',
      ''device_passport'', ''env'', ''environment'', ''file_path'', ''home_path'', ''password'',
      ''private_key'', ''project_index'', ''project_passport'', ''secret'', ''session'', ''token'']"

definition REQUIRED_ENV_KEY :: string where "REQUIRED_ENV_KEY = ''required_env''"
definition REQUIRED_ENV_FIELDS :: "string list" where "REQUIRED_ENV_FIELDS = [''name'', ''purpose'']"
definition MAX_REQUIRED_ENV_ENTRIES :: nat where "MAX_REQUIRED_ENV_ENTRIES = 128"
definition REQUIRES_AUTHORIZATION_KEY :: string where "REQUIRES_AUTHORIZATION_KEY = ''requires_authorization''"

definition REQUIRES_AUTHORIZATION_VALUES :: "string list" where
  "REQUIRES_AUTHORIZATION_VALUES = [''external_service'', ''none'', ''user_account'']"

text \<open>\<open>ABSOLUTE_PATH_PATTERN\<close>: a drive letter with a colon and a slash of either kind, a slash, or two backslashes.\<close>

definition backslash :: char where "backslash = char_of (92 :: nat)"

definition is_ascii_letter :: "char \<Rightarrow> bool" where
  "is_ascii_letter c = (let n = of_char c :: nat in 65 \<le> n \<and> n \<le> 90 \<or> 97 \<le> n \<and> n \<le> 122)"

fun absolute_path :: "string \<Rightarrow> bool" where
  "absolute_path [] = False"
| "absolute_path (c # cs) =
     (c = CHR ''/''
      \<or> c = backslash \<and> (case cs of d # _ \<Rightarrow> d = backslash | [] \<Rightarrow> False)
      \<or> is_ascii_letter c \<and> (case cs of d # e # _ \<Rightarrow> d = CHR '':'' \<and> (e = backslash \<or> e = CHR ''/'') | _ \<Rightarrow> False))"

text \<open>A rejection is its reason and its path, \<open>/\<close> for the root.\<close>

type_synonym rejection = "string \<times> string"

definition reject :: "string \<Rightarrow> string \<Rightarrow> rejection + unit" where
  "reject reason path = Inl (reason, if path = [] then ''/'' else path)"

definition indexed :: "string \<Rightarrow> nat \<Rightarrow> string" where
  "indexed path i = path @ ''['' @ nat_str i @ '']''"

fun check_env_entries :: "nat \<Rightarrow> string \<Rightarrow> json list \<Rightarrow> rejection + unit" where
  "check_env_entries i path [] = Inr ()"
| "check_env_entries i path (entry # entries) =
     (case entry of
        JDict named \<Rightarrow>
          if set (map fst named) \<noteq> set REQUIRED_ENV_FIELDS
          then reject ''required_env may contain only name and purpose'' (indexed path i)
          else if \<not> list_all (\<lambda>name. is_str (dict_get named name)) REQUIRED_ENV_FIELDS
          then reject ''required_env values must be text'' (indexed path i)
          else check_env_entries (Suc i) path entries
      | _ \<Rightarrow> reject ''required_env may contain only name and purpose'' (indexed path i))"

definition check_required_env :: "json \<Rightarrow> string \<Rightarrow> rejection + unit" where
  "check_required_env v path =
     (case v of
        JList entries \<Rightarrow>
          if length entries > MAX_REQUIRED_ENV_ENTRIES
          then reject ''required_env must be a bounded list of name and purpose records'' path
          else check_env_entries 0 path entries
      | _ \<Rightarrow> reject ''required_env must be a bounded list of name and purpose records'' path)"

definition check_requires_authorization :: "json \<Rightarrow> string \<Rightarrow> rejection + unit" where
  "check_requires_authorization v path =
     (case v of
        JStr s \<Rightarrow> if s \<in> set REQUIRES_AUTHORIZATION_VALUES then Inr ()
                 else reject ''requires_authorization must be one of the declared classes'' path
      | _ \<Rightarrow> reject ''requires_authorization must be one of the declared classes'' path)"

definition DECLARED_SAFE :: "(string \<times> (json \<Rightarrow> string \<Rightarrow> rejection + unit)) list" where
  "DECLARED_SAFE =
     [(REQUIRED_ENV_KEY, check_required_env), (REQUIRES_AUTHORIZATION_KEY, check_requires_authorization)]"

fun check_sync_payload :: "json \<Rightarrow> string \<Rightarrow> rejection + unit"
  and check_payload_items :: "nat \<Rightarrow> json list \<Rightarrow> string \<Rightarrow> rejection + unit"
  and check_payload_fields :: "dict \<Rightarrow> string \<Rightarrow> rejection + unit" where
  "check_sync_payload (JDict d) path = check_payload_fields d path"
| "check_sync_payload (JList xs) path = check_payload_items 0 xs path"
| "check_sync_payload (JStr s) path =
     (if absolute_path s then reject ''sync payload contains an absolute path'' path else Inr ())"
| "check_sync_payload v path = Inr ()"
| "check_payload_items i [] path = Inr ()"
| "check_payload_items i (x # xs) path =
     and_then (check_sync_payload x (indexed path i)) (\<lambda>_. check_payload_items (Suc i) xs path)"
| "check_payload_fields [] path = Inr ()"
| "check_payload_fields ((key, item) # d) path =
     (let at_path = (if path = [] then key else path @ ''.'' @ key)
      in case map_of DECLARED_SAFE (lower key) of
           Some declared \<Rightarrow> and_then (declared item at_path) (\<lambda>_. check_payload_fields d path)
         | None \<Rightarrow>
             if list_ex (\<lambda>fragment. has_word fragment (lower key)) FORBIDDEN_KEY_FRAGMENTS
             then reject ''sync payload contains a forbidden field'' at_path
             else and_then (check_sync_payload item at_path) (\<lambda>_. check_payload_fields d path))"

text \<open>\<open>_scan_kinds\<close>: None, or the kind the payload declares itself to be.\<close>

fun scan_kinds :: "json \<Rightarrow> string option"
  and scan_kind_items :: "json list \<Rightarrow> string option"
  and scan_kind_fields :: "dict \<Rightarrow> string option" where
  "scan_kinds (JDict d) = scan_kind_fields d"
| "scan_kinds (JList xs) = scan_kind_items xs"
| "scan_kinds v = None"
| "scan_kind_items [] = None"
| "scan_kind_items (x # xs) = (case scan_kinds x of Some k \<Rightarrow> Some k | None \<Rightarrow> scan_kind_items xs)"
| "scan_kind_fields [] = None"
| "scan_kind_fields ((key, item) # d) =
     (if lower key = ''kind'' \<and> list_ex (\<lambda>k. item = JStr k) FORBIDDEN_PAYLOAD_KINDS
      then (case item of JStr k \<Rightarrow> Some k | _ \<Rightarrow> None)
      else (case scan_kinds item of Some k \<Rightarrow> Some k | None \<Rightarrow> scan_kind_fields d))"

text \<open>A \<open>SyncValidationError\<close>, or the \<open>CanonicalizationError\<close> of a document that has no canonical bytes.\<close>

datatype sync_invalid = Invalid string | NotCanonical string

definition scan_forbidden :: "dict \<Rightarrow> sync_invalid + unit" where
  "scan_forbidden payload =
     (case scan_kinds (JDict payload) of
        Some k \<Rightarrow> Inl (Invalid (''forbidden payload kind: '' @ k))
      | None \<Rightarrow>
          (case check_sync_payload (JDict payload) [] of
             Inl (reason, path) \<Rightarrow> Inl (Invalid (reason @ '' at '' @ path))
           | Inr _ \<Rightarrow> Inr ()))"

section \<open>Entities and parents\<close>

definition ALLOWED_ENTITY_KINDS :: "string list" where
  "ALLOWED_ENTITY_KINDS =
     [''developer_passport'', ''device_summary'', ''component_private'', ''setup_private'', ''unverified_consent'']"

definition ENTITY_PREFIX :: "(string \<times> string) list" where
  "ENTITY_PREFIX =
     [(''developer_passport'', ''developer''), (''device_summary'', ''device''),
      (''component_private'', ''component''), (''setup_private'', ''setup''), (''unverified_consent'', ''account'')]"

definition invalid :: "string \<Rightarrow> sync_invalid + unit" where
  "invalid message = Inl (Invalid message)"

definition validate_entity_identity :: "string \<Rightarrow> string \<Rightarrow> string \<Rightarrow> sync_invalid + unit" where
  "validate_entity_identity kind i device =
     (if kind \<notin> set ALLOWED_ENTITY_KINDS then invalid (''entity_kind not allowed: '' @ kind)
      else case map_of ENTITY_PREFIX kind of
        None \<Rightarrow> invalid (''entity_kind not allowed: '' @ kind)
      | Some pre \<Rightarrow>
          if kind = ''unverified_consent'' then
            (if is_valid_id i (Some ''account'') \<or> starts_with ''consent_'' i then Inr ()
             else invalid ''unverified_consent entity_id is invalid'')
          else if \<not> is_valid_id i (Some pre) then invalid (''entity_id must be a valid '' @ pre @ '' id'')
          else if kind = ''device_summary'' \<and> i \<noteq> device
          then invalid ''device_summary entity_id must match the session device''
          else Inr ())"

definition validate_parents :: "string list \<Rightarrow> string \<Rightarrow> sync_invalid + unit" where
  "validate_parents parents op =
     (if \<not> distinct parents then invalid ''parent_revision_ids must be unique''
      else if \<not> list_all is_valid_revision_id parents
      then invalid ''parent_revision_ids contain an invalid revision id''
      else if op = ''tombstone'' \<and> parents = [] then invalid ''tombstone requires at least one parent''
      else if length parents > 2 then invalid ''at most two parents are supported''
      else Inr ())"

text \<open>Only a first revision, or a fast-forward from the current head.\<close>

definition can_accept_head_transition :: "string option \<Rightarrow> string option \<Rightarrow> string list \<Rightarrow> bool" where
  "can_accept_head_transition current expected parents \<longleftrightarrow>
     current = None \<and> parents = [] \<and> expected = None
     \<or> (case current of None \<Rightarrow> False | Some h \<Rightarrow> expected = Some h \<and> h \<in> set parents)"

section \<open>Released versions\<close>

text \<open>
  The pydantic models: a passport envelope as the JSON dump of what it validates (None: refused),
  the closed device summary, and the two consent payloads.
\<close>

record sync_models =
  sm_envelope :: "dict \<Rightarrow> dict option"
  sm_device_summary :: "dict \<Rightarrow> bool"
  sm_consent_upsert :: "dict \<Rightarrow> bool"
  sm_consent_tombstone :: "dict \<Rightarrow> bool"

definition MAX_VERSIONS :: nat where "MAX_VERSIONS = 128"

record version_binding =
  vb_stable_id :: string
  vb_version :: string
  vb_major :: int
  vb_minor :: int
  vb_passport_digest :: string
  vb_revision_id :: string
  vb_created_at :: string

definition text_field :: "dict \<Rightarrow> string \<Rightarrow> string" where
  "text_field d k = (case dict_get d k of JStr s \<Rightarrow> s | _ \<Rightarrow> [])"

definition parse_binding :: "dict \<Rightarrow> string \<Rightarrow> sync_invalid + version_binding" where
  "parse_binding raw sid =
     (let number = text_field raw ''version''; digest = text_field raw ''passport_digest'';
          revision = text_field raw ''revision_id''; created = text_field raw ''created_at''
      in if list_ex (\<lambda>k. text_field raw k = []) [''version'', ''passport_digest'', ''revision_id'', ''created_at'']
         then Inl (Invalid ''a pulled released version is incomplete'')
         else if \<not> is_valid_timestamp created
         then Inl (Invalid ''a pulled released version has an invalid timestamp'')
         else
           (case parse_version number of
              None \<Rightarrow> Inl (Invalid ''a pulled released version has an invalid number'')
            | Some (major, minor) \<Rightarrow>
                if \<not> is_digest digest \<or> \<not> is_valid_revision_id revision
                then Inl (Invalid ''a pulled released version has an invalid identity'')
                else Inr \<lparr>vb_stable_id = sid, vb_version = number, vb_major = major, vb_minor = minor,
                       vb_passport_digest = digest, vb_revision_id = revision, vb_created_at = created\<rparr>))"

text \<open>A canonicalization error of the payload.\<close>

definition canonical :: "string + 'a \<Rightarrow> sync_invalid + 'a" where
  "canonical r = (case r of Inl e \<Rightarrow> Inl (NotCanonical e) | Inr x \<Rightarrow> Inr x)"

definition derive_revision_id :: "canonical_text \<Rightarrow> dict \<Rightarrow> string + string" where
  "derive_revision_id ct body = revision_id ct (JDict (filter (\<lambda>(k, v). k \<noteq> ''revision_id'') body))"

text \<open>
  The disjuncts of the condition, in order: the two canonical forms differ, the envelope's revision
  id is not the one derived from its content, or a field is not the binding's.
\<close>

definition snapshot_mismatch :: "canonical_text \<Rightarrow> dict \<Rightarrow> dict \<Rightarrow> version_binding \<Rightarrow> string \<Rightarrow> string + bool" where
  "snapshot_mismatch ct raw body item kind =
     and_then (canonize ct (JDict raw)) (\<lambda>a.
     and_then (canonize ct (JDict body)) (\<lambda>b.
       if a \<noteq> b then Inr True
       else and_then (derive_revision_id ct body) (\<lambda>r.
         if dict_get body ''revision_id'' \<noteq> JStr r
            \<or> dict_get body ''revision_id'' \<noteq> JStr (vb_revision_id item)
            \<or> dict_get body ''stable_id'' \<noteq> JStr (vb_stable_id item)
            \<or> dict_get body ''kind'' \<noteq> JStr kind
            \<or> truthy (dict_get body ''parent_revision_ids'')
            \<or> has_key body ''version'' \<and> dict_get body ''version'' \<noteq> JStr (vb_version item)
         then Inr True
         else and_then (digest_canonical ct ''ai-stp:passport:v1'' (JDict body)) (\<lambda>d.
           Inr (d \<noteq> vb_passport_digest item)))))"

definition verify_snapshot :: "canonical_text \<Rightarrow> sync_models \<Rightarrow> json \<Rightarrow> version_binding \<Rightarrow> string \<Rightarrow> sync_invalid + unit" where
  "verify_snapshot ct sm raw item kind =
     (case raw of
        JDict d \<Rightarrow>
          (case sm_envelope sm d of
             None \<Rightarrow> invalid ''a pulled version snapshot is not a passport envelope''
           | Some body \<Rightarrow>
               and_then (canonical (snapshot_mismatch ct d body item kind)) (\<lambda>bad.
                 if bad then invalid ''a pulled version snapshot does not match its exact version identity''
                 else Inr ()))
      | _ \<Rightarrow> invalid ''a pulled version snapshot is not an object'')"

fun validate_versions :: "canonical_text \<Rightarrow> sync_models \<Rightarrow> json list \<Rightarrow> string \<Rightarrow> string \<Rightarrow> sync_invalid + unit" where
  "validate_versions ct sm [] sid kind = Inr ()"
| "validate_versions ct sm (raw # rows) sid kind =
     (case raw of
        JDict row \<Rightarrow>
          and_then (parse_binding row sid) (\<lambda>item.
          and_then (if has_key row ''snapshot'' then verify_snapshot ct sm (dict_get row ''snapshot'') item kind
                    else Inr ()) (\<lambda>_. validate_versions ct sm rows sid kind))
      | _ \<Rightarrow> invalid ''a pulled released version is not an object'')"

definition validate_payload :: "canonical_text \<Rightarrow> sync_models \<Rightarrow> dict \<Rightarrow> string \<Rightarrow> string \<Rightarrow> sync_invalid + unit" where
  "validate_payload ct sm payload sid kind =
     (case (if has_key payload ''sync_released_versions'' then dict_get payload ''sync_released_versions''
            else JList []) of
        JList rows \<Rightarrow>
          if length rows > MAX_VERSIONS then invalid ''pulled released versions must be a bounded list''
          else if rows \<noteq> [] \<and> kind \<notin> set [''component'', ''setup'']
          then invalid ''released versions belong only to component or setup events''
          else validate_versions ct sm rows sid kind
      | _ \<Rightarrow> invalid ''pulled released versions must be a bounded list'')"

section \<open>Events\<close>

record sync_event =
  se_event_id :: string
  se_entity_id :: string
  se_entity_kind :: string
  se_revision_id :: string
  se_parents :: "string list"
  se_device_id :: string
  se_actor_id :: string
  se_operation :: string
  se_content_digest :: string
  se_created_at :: string
  se_idempotency_key :: string
  se_expected_head :: "string option"
  se_payload :: dict

text \<open>\<open>event.model_dump(mode="json")\<close>, and the fingerprint of it.\<close>

definition text_or_null :: "string option \<Rightarrow> json" where
  "text_or_null t = (case t of None \<Rightarrow> JNull | Some s \<Rightarrow> JStr s)"

definition event_dump :: "sync_event \<Rightarrow> dict" where
  "event_dump e =
     [(''schema_version'', JInt 1), (''event_id'', JStr (se_event_id e)), (''entity_id'', JStr (se_entity_id e)),
      (''entity_kind'', JStr (se_entity_kind e)), (''revision_id'', JStr (se_revision_id e)),
      (''parent_revision_ids'', JList (map JStr (se_parents e))), (''device_id'', JStr (se_device_id e)),
      (''actor_id'', JStr (se_actor_id e)), (''operation'', JStr (se_operation e)),
      (''content_digest'', JStr (se_content_digest e)), (''created_at'', JStr (se_created_at e)),
      (''idempotency_key'', JStr (se_idempotency_key e)),
      (''expected_head_revision_id'', text_or_null (se_expected_head e)), (''payload'', JDict (se_payload e))]"

definition request_fingerprint :: "canonical_text \<Rightarrow> dict \<Rightarrow> string + string" where
  "request_fingerprint ct payload =
     and_then (digest_canonical ct ''ai-stp:revision:v1'' (JDict payload)) (\<lambda>d. Inr (remove_prefix ''sha256:'' d))"

definition seal_revision_document :: "sync_event \<Rightarrow> dict" where
  "seal_revision_document e =
     [(''schema_version'', JInt 1), (''entity_id'', JStr (se_entity_id e)), (''entity_kind'', JStr (se_entity_kind e)),
      (''parent_revision_ids'', JList (map JStr (se_parents e))), (''operation'', JStr (se_operation e)),
      (''payload'', JDict (se_payload e)), (''device_id'', JStr (se_device_id e)),
      (''actor_id'', JStr (se_actor_id e)), (''created_at'', JStr (se_created_at e))]"

definition expected_revision_id :: "canonical_text \<Rightarrow> dict \<Rightarrow> string + string" where
  "expected_revision_id ct document = revision_id ct (JDict document)"

definition expected_content_digest :: "canonical_text \<Rightarrow> dict \<Rightarrow> string + string" where
  "expected_content_digest ct payload = digest_canonical ct ''ai-stp:revision:v1'' (JDict payload)"

definition payload_kind :: "string \<Rightarrow> string" where
  "payload_kind kind =
     (if kind = ''component_private'' then ''component'' else if kind = ''setup_private'' then ''setup'' else kind)"

definition validate_closed_shape :: "sync_models \<Rightarrow> sync_event \<Rightarrow> sync_invalid + unit" where
  "validate_closed_shape sm e =
     (let shaped =
        (if se_entity_kind e = ''device_summary'' \<and> se_operation e = ''upsert'' then sm_device_summary sm (se_payload e)
         else if se_entity_kind e = ''unverified_consent'' then
           (if se_operation e = ''tombstone'' then sm_consent_tombstone sm (se_payload e)
            else sm_consent_upsert sm (se_payload e))
         else True)
      in if shaped then Inr () else invalid (se_entity_kind e @ '' payload is not the declared closed shape''))"

definition validate_event_document :: "canonical_text \<Rightarrow> sync_models \<Rightarrow> sync_event \<Rightarrow> sync_invalid + dict" where
  "validate_event_document ct sm e =
     and_then (validate_entity_identity (se_entity_kind e) (se_entity_id e) (se_device_id e)) (\<lambda>_.
     and_then (validate_parents (se_parents e) (se_operation e)) (\<lambda>_.
     and_then (if is_valid_revision_id (se_revision_id e) then Inr () else invalid ''revision_id form is invalid'') (\<lambda>_.
     and_then (if is_valid_id (se_device_id e) (Some ''device'') then Inr () else invalid ''device_id is invalid'') (\<lambda>_.
     and_then (if is_valid_id (se_actor_id e) (Some ''account'') then Inr () else invalid ''actor_id is invalid'') (\<lambda>_.
     and_then (scan_forbidden (se_payload e)) (\<lambda>_.
     and_then (validate_payload ct sm (se_payload e) (se_entity_id e) (payload_kind (se_entity_kind e))) (\<lambda>_.
     and_then (validate_closed_shape sm e) (\<lambda>_.
       let document = seal_revision_document e in
       and_then (canonical (expected_revision_id ct document)) (\<lambda>sealed.
         if sealed \<noteq> se_revision_id e then Inl (Invalid ''revision_id does not match canonical content'')
         else and_then (canonical (expected_content_digest ct (se_payload e))) (\<lambda>digest.
           if digest \<noteq> se_content_digest e then Inl (Invalid ''content_digest does not match payload'')
           else Inr document))))))))))"

end
