(* ===== verification/SyncCursor.thy ===== *)
theory SyncCursor
  imports Canonical
begin

text \<open>
  The signed cursor of the sync stream (\<open>apps/api/src/ai_stp_api/slices/sync/cursor.py\<close>), with
  Python's URL-safe base64 and the \<open>json.dumps\<close> of the cursor body. HMAC-SHA256 and \<open>json.loads\<close> on
  bytes are arguments (\<open>cursor_env\<close>). Bytes are characters; a \<open>SyncCursorError\<close> is its message.
\<close>

record cursor_env =
  ce_hmac :: "string \<Rightarrow> string \<Rightarrow> string"
  ce_loads :: "string \<Rightarrow> json option"
  ce_secret :: string

section \<open>URL-safe base64 without padding\<close>

definition B64_ALPHABET :: string where
  "B64_ALPHABET = ''ABCDEFGHIJKLMNOPQRSTUVWXYZabcdefghijklmnopqrstuvwxyz0123456789-_''"

definition b64_char :: "nat \<Rightarrow> char" where
  "b64_char n = B64_ALPHABET ! n"

definition byte_of :: "char \<Rightarrow> nat" where
  "byte_of c = of_char c"

definition b64_value :: "char \<Rightarrow> nat" where
  "b64_value c = length (takeWhile (\<lambda>d. d \<noteq> c) B64_ALPHABET)"

fun b64_encode :: "string \<Rightarrow> string" where
  "b64_encode [] = []"
| "b64_encode [a] = [b64_char (byte_of a div 4), b64_char (byte_of a mod 4 * 16)]"
| "b64_encode [a, b] =
     [b64_char (byte_of a div 4), b64_char (byte_of a mod 4 * 16 + byte_of b div 16),
      b64_char (byte_of b mod 16 * 4)]"
| "b64_encode (a # b # c # s) =
     b64_char (byte_of a div 4) # b64_char (byte_of a mod 4 * 16 + byte_of b div 16)
     # b64_char (byte_of b mod 16 * 4 + byte_of c div 64) # b64_char (byte_of c mod 64) # b64_encode s"

text \<open>Decoding text of the alphabet, completed with its padding; one left-over character is an error.\<close>

fun b64_decode :: "string \<Rightarrow> string option" where
  "b64_decode [] = Some []"
| "b64_decode [a] = None"
| "b64_decode [a, b] = Some [char_of (b64_value a * 4 + b64_value b div 16)]"
| "b64_decode [a, b, c] =
     Some [char_of (b64_value a * 4 + b64_value b div 16), char_of (b64_value b mod 16 * 16 + b64_value c div 4)]"
| "b64_decode (a # b # c # d # s) =
     (case b64_decode s of None \<Rightarrow> None
      | Some t \<Rightarrow> Some (char_of (b64_value a * 4 + b64_value b div 16)
                    # char_of (b64_value b mod 16 * 16 + b64_value c div 4)
                    # char_of (b64_value c mod 4 * 64 + b64_value d) # t))"

section \<open>The cursor body\<close>

definition json_escape :: "char \<Rightarrow> string" where
  "json_escape c = (let n = of_char c :: nat in
     if n = 34 \<or> n = 92 then [char_of (92 :: nat), c]
     else if n = 10 then [char_of (92 :: nat), CHR ''n'']
     else if n = 13 then [char_of (92 :: nat), CHR ''r'']
     else if n = 9 then [char_of (92 :: nat), CHR ''t'']
     else if n = 8 then [char_of (92 :: nat), CHR ''b'']
     else if n = 12 then [char_of (92 :: nat), CHR ''f'']
     else if n < 32 \<or> 126 < n
     then char_of (92 :: nat) # ''u00'' @ [hex_digit (n div 16), hex_digit (n mod 16)]
     else [c])"

definition json_quote :: "string \<Rightarrow> string" where
  "json_quote s = char_of (34 :: nat) # concat (map json_escape s) @ [char_of (34 :: nat)]"

definition cursor_dump :: "string \<Rightarrow> int \<Rightarrow> string" where
  "cursor_dump account sequence =
     ''{'' @ json_quote ''a'' @ '':'' @ json_quote account @ '','' @ json_quote ''s'' @ '':'' @ int_str sequence
     @ '','' @ json_quote ''v'' @ '':1}''"

definition cursor_body :: "string \<Rightarrow> int \<Rightarrow> dict" where
  "cursor_body account sequence = [(''a'', JStr account), (''s'', JInt sequence), (''v'', JInt 1)]"

section \<open>Signing and reading\<close>

definition DOMAIN :: string where "DOMAIN = ''ai-stp:sync-cursor:v1''"

definition utf8_char :: "char \<Rightarrow> string" where
  "utf8_char c = (let n = of_char c :: nat in
     if n < 128 then [c] else [char_of (192 + n div 64), char_of (128 + n mod 64)])"

definition signing_key :: "cursor_env \<Rightarrow> string" where
  "signing_key env = ce_hmac env (concat (map utf8_char (ce_secret env))) DOMAIN"

text \<open>\<open>CURSOR_PATTERN\<close>: 1 to 512 characters of the base64 alphabet.\<close>

definition CURSOR_PATTERN :: "string \<Rightarrow> bool" where
  "CURSOR_PATTERN s \<longleftrightarrow> 1 \<le> length s \<and> length s \<le> 512 \<and> list_all (\<lambda>c. c \<in> set B64_ALPHABET) s"

definition encode_sync_cursor :: "cursor_env \<Rightarrow> string \<Rightarrow> int \<Rightarrow> string + string" where
  "encode_sync_cursor env account sequence =
     (if sequence < 0 then Inl ''cursor sequence is invalid''
      else
        let payload = b64_encode (cursor_dump account sequence);
            sig = b64_encode (ce_hmac env (signing_key env) payload);
            cursor = payload @ sig
        in if length sig \<noteq> 43 then Inl ''cursor signature encoding failed''
           else if length cursor > 512 \<or> \<not> CURSOR_PATTERN cursor then Inl ''encoded cursor exceeds wire bounds''
           else Inr cursor)"

definition read_cursor_body :: "dict \<Rightarrow> string \<Rightarrow> string + int" where
  "read_cursor_body body account =
     (if \<not> py_eq (dict_get body ''v'') (JInt 1) then Inl ''cursor version is unsupported''
      else if dict_get body ''a'' \<noteq> JStr account then Inl ''cursor account binding mismatch''
      else case dict_get body ''s'' of
             JInt sequence \<Rightarrow> if sequence < 0 then Inl ''cursor sequence is invalid'' else Inr sequence
           | _ \<Rightarrow> Inl ''cursor sequence is invalid'')"

definition decode_sync_cursor :: "cursor_env \<Rightarrow> string \<Rightarrow> string \<Rightarrow> string + int" where
  "decode_sync_cursor env cursor account =
     (if \<not> CURSOR_PATTERN cursor \<or> length cursor \<le> 43 then Inl ''cursor shape is invalid''
      else
        let payload = take (length cursor - 43) cursor; sig = drop (length cursor - 43) cursor;
            expected = ce_hmac env (signing_key env) payload
        in case b64_decode sig of
             None \<Rightarrow> Inl ''cursor signature is invalid''
           | Some given \<Rightarrow>
               if expected \<noteq> given then Inl ''cursor signature is invalid''
               else case b64_decode payload of
                      None \<Rightarrow> Inl ''cursor payload is invalid''
                    | Some raw \<Rightarrow>
                        (case ce_loads env raw of
                           Some (JDict body) \<Rightarrow> read_cursor_body body account
                         | _ \<Rightarrow> Inl ''cursor payload is invalid''))"

definition sync_page_cursor :: "cursor_env \<Rightarrow> string \<Rightarrow> int option \<Rightarrow> string option \<Rightarrow> string + string option" where
  "sync_page_cursor env account last_delivered incoming =
     (case last_delivered of
        Some sequence \<Rightarrow> and_then (encode_sync_cursor env account sequence) (\<lambda>c. Inr (Some c))
      | None \<Rightarrow> Inr incoming)"

section \<open>Facts\<close>

lemma b64_value_char: "n < 64 \<Longrightarrow> b64_value (b64_char n) = n"
proof -
  have "\<forall>n \<in> set [0..<64]. b64_value (b64_char n) = n" by code_simp
  then show "n < 64 \<Longrightarrow> b64_value (b64_char n) = n" by (simp del: upt_rec_numeral)
qed

lemma b64_char_alphabet: "n < 64 \<Longrightarrow> b64_char n \<in> set B64_ALPHABET"
  by (simp add: b64_char_def B64_ALPHABET_def del: nth_Cons_numeral set_simps)

lemma byte_bound: "byte_of c < 256"
  by (simp add: byte_of_def)

lemma char_of_byte: "char_of (byte_of c) = c"
  by (simp add: byte_of_def)

text \<open>The four sextets of three bytes, and their bytes back.\<close>

lemma sextets:
  assumes "a < 256" and "b < 256" and "c < (256 :: nat)"
  shows "a div 4 < 64" "a mod 4 * 16 + b div 16 < 64" "b mod 16 * 4 + c div 64 < 64" "c mod 64 < 64"
    "a mod 4 * 16 < 64" "b mod 16 * 4 < 64"
proof -
  have "a div 4 < 64" "b div 16 < 16" "c div 64 < 4" using assms by linarith+
  moreover have "a mod 4 < 4" "b mod 16 < 16" "c mod 64 < 64" by simp_all
  ultimately show "a div 4 < 64" "a mod 4 * 16 + b div 16 < 64" "b mod 16 * 4 + c div 64 < 64" "c mod 64 < 64"
    "a mod 4 * 16 < 64" "b mod 16 * 4 < 64"
    by linarith+
qed

lemma bytes_of_sextets:
  assumes "a < 256" and "b < 256" and "c < (256 :: nat)"
  shows "a div 4 * 4 + (a mod 4 * 16 + b div 16) div 16 = a"
    "(a mod 4 * 16 + b div 16) mod 16 * 16 + (b mod 16 * 4 + c div 64) div 4 = b"
    "(b mod 16 * 4 + c div 64) mod 4 * 64 + c mod 64 = c"
    "a div 4 * 4 + (a mod 4 * 16) div 16 = a"
    "(a mod 4 * 16 + b div 16) mod 16 * 16 + (b mod 16 * 4) div 4 = b"
proof -
  have bounds: "b div 16 < 16" "c div 64 < 4" using assms by linarith+
  have "(a mod 4 * 16 + b div 16) div 16 = a mod 4" "(a mod 4 * 16 + b div 16) mod 16 = b div 16"
    "(b mod 16 * 4 + c div 64) div 4 = b mod 16" "(b mod 16 * 4 + c div 64) mod 4 = c div 64"
    using bounds by (simp_all add: mult.commute)
  then show "a div 4 * 4 + (a mod 4 * 16 + b div 16) div 16 = a"
    "(a mod 4 * 16 + b div 16) mod 16 * 16 + (b mod 16 * 4 + c div 64) div 4 = b"
    "(b mod 16 * 4 + c div 64) mod 4 * 64 + c mod 64 = c"
    "a div 4 * 4 + (a mod 4 * 16) div 16 = a"
    "(a mod 4 * 16 + b div 16) mod 16 * 16 + (b mod 16 * 4) div 4 = b"
    by simp_all
qed

lemma b64_round: "b64_decode (b64_encode s) = Some s"
proof (induction s rule: b64_encode.induct)
  case (2 a)
  show ?case
    using byte_bound [of a] by (simp add: b64_value_char sextets bytes_of_sextets(4) char_of_byte)
next
  case (3 a b)
  show ?case
    using byte_bound [of a] byte_bound [of b]
    by (simp add: b64_value_char sextets bytes_of_sextets(1,5) char_of_byte)
next
  case (4 a b c s)
  then show ?case
    using byte_bound [of a] byte_bound [of b] byte_bound [of c]
    by (simp add: b64_value_char sextets bytes_of_sextets(1,2,3) char_of_byte)
qed simp

lemma b64_alphabet: "list_all (\<lambda>c. c \<in> set B64_ALPHABET) (b64_encode s)"
proof (induction s rule: b64_encode.induct)
  case (2 a)
  show ?case using byte_bound [of a] by (simp add: b64_char_alphabet sextets)
next
  case (3 a b)
  show ?case using byte_bound [of a] byte_bound [of b] by (simp add: b64_char_alphabet sextets)
next
  case (4 a b c s)
  then show ?case using byte_bound [of a] byte_bound [of b] byte_bound [of c]
    by (simp add: b64_char_alphabet sextets)
qed simp

text \<open>What a signed cursor is, and that its own server reads it back.\<close>

lemma encode_cursor_form:
  assumes "encode_sync_cursor env account sequence = Inr cursor"
  shows "0 \<le> sequence"
    "cursor = b64_encode (cursor_dump account sequence)
       @ b64_encode (ce_hmac env (signing_key env) (b64_encode (cursor_dump account sequence)))"
    "length (b64_encode (ce_hmac env (signing_key env) (b64_encode (cursor_dump account sequence)))) = 43"
    "CURSOR_PATTERN cursor"
  using assms by (auto simp: encode_sync_cursor_def Let_def split: if_splits)

lemma dump_not_empty: "b64_encode (cursor_dump account sequence) \<noteq> []"
proof -
  have "cursor_dump account sequence \<noteq> []" by (simp add: cursor_dump_def)
  then show ?thesis by (cases "cursor_dump account sequence" rule: b64_encode.cases) auto
qed

lemma decode_encode:
  assumes "encode_sync_cursor env account sequence = Inr cursor"
    and "ce_loads env (cursor_dump account sequence) = Some (JDict (cursor_body account sequence))"
  shows "decode_sync_cursor env cursor reader
    = (if reader = account then Inr sequence else Inl ''cursor account binding mismatch'')"
proof -
  note form = encode_cursor_form [OF assms(1)]
  let ?payload = "b64_encode (cursor_dump account sequence)"
  have long: "43 < length cursor" using form(2,3) dump_not_empty [of account sequence] by simp
  have parts: "take (length cursor - 43) cursor = ?payload"
    "drop (length cursor - 43) cursor = b64_encode (ce_hmac env (signing_key env) ?payload)"
    using form(2,3) by simp_all
  show ?thesis
    unfolding decode_sync_cursor_def Let_def parts
    using form(1,4) long
    by (simp add: b64_round assms(2) read_cursor_body_def cursor_body_def dict_get_def)
qed

text \<open>A cursor is only read when its signature is the server's and its body names the account.\<close>

lemma decode_signed:
  assumes "decode_sync_cursor env cursor account = Inr sequence"
  obtains payload sig body raw where "cursor = payload @ sig"
    and "b64_decode sig = Some (ce_hmac env (signing_key env) payload)"
    and "b64_decode payload = Some raw" and "ce_loads env raw = Some (JDict body)"
    and "dict_get body ''a'' = JStr account" and "dict_get body ''s'' = JInt sequence" and "0 \<le> sequence"
proof -
  let ?payload = "take (length cursor - 43) cursor" and ?sig = "drop (length cursor - 43) cursor"
  from assms obtain raw body where r: "b64_decode ?sig = Some (ce_hmac env (signing_key env) ?payload)"
    "b64_decode ?payload = Some raw" "ce_loads env raw = Some (JDict body)"
    "read_cursor_body body account = Inr sequence"
    by (auto simp: decode_sync_cursor_def Let_def split: if_splits option.splits json.splits)
  from r(4) have "dict_get body ''a'' = JStr account" "dict_get body ''s'' = JInt sequence" "0 \<le> sequence"
    by (auto simp: read_cursor_body_def split: if_splits json.splits)
  with r(1-3) show thesis
    by (intro that [of ?payload ?sig raw body]) simp_all
qed

end
