(* ===== verification/AuditTrail.thy ===== *)
theory AuditTrail
  imports CorporateAuth
begin

text \<open>
  Audit rows and their redaction (\<open>apps/api/src/ai_stp_api/audit.py\<close>): \<open>redact_payload\<close> drops every
  field whose name contains a sensitive word, at any depth, and \<open>emit_audit\<close> adds one row with the
  actor's role bindings of the moment. Text is Latin-1; the row's id and time are the database's.
\<close>

definition REDACT_KEYS :: "string list" where
  "REDACT_KEYS =
     [''token'', ''session'', ''session_token'', ''session_id'', ''raw_token'', ''nonce'', ''code'',
      ''code_verifier'', ''access_token'', ''refresh_token'', ''id_token'', ''client_secret'',
      ''authorization'', ''cookie'', ''csrf'', ''csrf_token'', ''signature'', ''private_key'', ''cursor'',
      ''raw_cursor'', ''payload'', ''document'', ''revision_document'', ''secret'', ''password'', ''env'',
      ''environment'', ''accept_token'', ''invitation_token'', ''email_body'', ''diagnostics'',
      ''attestation_signature'']"

definition sensitive :: "string \<Rightarrow> bool" where
  "sensitive key \<longleftrightarrow>
     lower key \<in> set REDACT_KEYS \<or> list_ex (\<lambda>part. has_word part (lower key)) REDACT_KEYS"

fun redact_value :: "json \<Rightarrow> json"
  and redact_items :: "json list \<Rightarrow> json list"
  and redact_payload :: "dict \<Rightarrow> dict" where
  "redact_value (JDict d) = JDict (redact_payload d)"
| "redact_value (JList xs) = JList (redact_items xs)"
| "redact_value v = v"
| "redact_items [] = []"
| "redact_items (x # xs) = redact_value x # redact_items xs"
| "redact_payload [] = []"
| "redact_payload ((key, v) # d) =
     (if sensitive key then redact_payload d else (key, redact_value v) # redact_payload d)"

record audit_row =
  ad_actor_account_id :: "string option"
  ad_actor_type :: string
  ad_actor_id :: "string option"
  ad_effective_role_bindings :: "(string \<times> string \<times> string) list"
  ad_organization_id :: "string option"
  ad_action :: string
  ad_target_table :: string
  ad_target_id :: string
  ad_reason :: "string option"
  ad_outcome :: string
  ad_request_id :: "string option"
  ad_payload :: dict

text \<open>The keyword arguments of \<open>emit_audit\<close>.\<close>

record audit_args =
  aa_actor_account_id :: "string option"
  aa_organization_id :: "string option"
  aa_action :: string
  aa_target_table :: string
  aa_target_id :: string
  aa_reason :: "string option"
  aa_outcome :: string
  aa_request_id :: "string option"
  aa_payload :: dict
  aa_actor_type :: "string option"
  aa_actor_id :: "string option"

text \<open>\<open>x or y\<close> on optional text.\<close>

definition text_or :: "string option \<Rightarrow> 'a \<Rightarrow> (string \<Rightarrow> 'a) \<Rightarrow> 'a" where
  "text_or t otherwise f = (case t of None \<Rightarrow> otherwise | Some s \<Rightarrow> if s = [] then otherwise else f s)"

definition effective_role_bindings :: "corporate_role_binding list \<Rightarrow> string \<Rightarrow> string \<Rightarrow> string
    \<Rightarrow> (string \<times> string \<times> string) list" where
  "effective_role_bindings bindings organization actor_type actor =
     map (\<lambda>b. (rb_role b, rb_scope_kind b, rb_scope_id b))
       (filter (\<lambda>b. rb_organization_id b = organization \<and> rb_principal_type b = actor_type
          \<and> (if actor_type = ''user'' then rb_account_id b = Some actor else rb_service_principal_id b = Some actor)
          \<and> rb_state b = ''active'') bindings)"

definition emit_audit :: "corporate_role_binding list \<Rightarrow> audit_args \<Rightarrow> audit_row list \<Rightarrow> audit_row list" where
  "emit_audit bindings args rows =
     (let actor_type = text_or (aa_actor_type args)
            (if aa_actor_account_id args \<noteq> None then ''user'' else ''system'') id;
          actor = text_or (aa_actor_id args) (aa_actor_account_id args) Some;
          held = (case (aa_organization_id args, actor) of
                    (Some organization, Some a) \<Rightarrow> effective_role_bindings bindings organization actor_type a
                  | _ \<Rightarrow> [])
      in rows @ [\<lparr>ad_actor_account_id = aa_actor_account_id args, ad_actor_type = actor_type, ad_actor_id = actor,
                  ad_effective_role_bindings = held, ad_organization_id = aa_organization_id args,
                  ad_action = aa_action args, ad_target_table = aa_target_table args,
                  ad_target_id = aa_target_id args, ad_reason = aa_reason args, ad_outcome = aa_outcome args,
                  ad_request_id = aa_request_id args, ad_payload = redact_payload (aa_payload args)\<rparr>])"

section \<open>Facts\<close>

text \<open>The field names of a value, at every depth.\<close>

fun names_in :: "json \<Rightarrow> string set"
  and names_in_items :: "json list \<Rightarrow> string set"
  and names_in_fields :: "dict \<Rightarrow> string set" where
  "names_in (JDict d) = names_in_fields d"
| "names_in (JList xs) = names_in_items xs"
| "names_in v = {}"
| "names_in_items [] = {}"
| "names_in_items (x # xs) = names_in x \<union> names_in_items xs"
| "names_in_fields [] = {}"
| "names_in_fields ((key, v) # d) = insert key (names_in v) \<union> names_in_fields d"

lemma redacted_names:
  "names_in (redact_value v) \<subseteq> {key. \<not> sensitive key}"
  "names_in_items (redact_items xs) \<subseteq> {key. \<not> sensitive key}"
  "names_in_fields (redact_payload d) \<subseteq> {key. \<not> sensitive key}"
  by (induction v and xs and d rule: redact_value_redact_items_redact_payload.induct) auto

lemma redact_harmless:
  "names_in v \<inter> {key. sensitive key} = {} \<Longrightarrow> redact_value v = v"
  "names_in_items xs \<inter> {key. sensitive key} = {} \<Longrightarrow> redact_items xs = xs"
  "names_in_fields d \<inter> {key. sensitive key} = {} \<Longrightarrow> redact_payload d = d"
  by (induction v and xs and d rule: redact_value_redact_items_redact_payload.induct) auto

lemma emit_audit_appends: "\<exists>row. emit_audit bindings args rows = rows @ [row] \<and> names_in_fields (ad_payload row) \<subseteq> {key. \<not> sensitive key}"
  by (simp add: emit_audit_def Let_def redacted_names)

end
