(* ===== verification/Sync.thy ===== *)
theory Sync
  imports SyncPolicy SyncCursor AuditTrail DeviceFlow
begin

text \<open>
  The account-scoped revision ledger (\<open>apps/api/src/ai_stp_api/slices/sync/service.py\<close>): pushing
  events with durable receipts, compare-and-set on an entity's head, conflicts kept for a later
  merge, the outbox and its pages. \<open>apply_one\<close> is one transaction: it holds the account's row lock
  and ends in a commit, or in an exception that rolls it back; a push is the sequence of its
  events' transactions. Digests, pydantic models and the cursor's signature are arguments
  (\<open>sync_env\<close>). Log lines are not modelled.
\<close>

section \<open>Tables\<close>

record sync_context =
  sx_account_id :: string
  sx_device_id :: "string option"

record sync_env =
  sv_text :: canonical_text
  sv_models :: sync_models
  sv_cursor :: cursor_env

record sync_revision =
  sr_account_id :: string
  sr_revision_id :: string
  sr_entity_id :: string
  sr_entity_kind :: string
  sr_parents :: "string list"
  sr_operation :: string
  sr_content_digest :: string
  sr_payload :: dict
  sr_device_id :: string
  sr_actor_id :: string
  sr_event_id :: string
  sr_schema_version :: int
  sr_created_at :: datetime

record sync_head =
  eh_account_id :: string
  eh_entity_id :: string
  eh_revision_id :: string
  eh_updated_at :: time

record conflict_info =
  cf_server_head :: string
  cf_client_head :: string
  cf_common_ancestor :: "string option"
  cf_affected_fields :: "string list"

record event_receipt =
  er_event_id :: string
  er_state :: string
  er_revision_id :: "string option"
  er_server_head :: "string option"
  er_cursor :: "string option"
  er_conflict :: "conflict_info option"
  er_error_code :: "string option"
  er_conflicting_entity :: "string option"

record receipt_row =
  rr_account_id :: string
  rr_idempotency_key :: string
  rr_request_fingerprint :: string
  rr_event_id :: string
  rr_device_id :: string
  rr_state :: string
  rr_revision_id :: "string option"
  rr_server_head :: "string option"
  rr_response_body :: event_receipt

record outbox_row =
  ob_account_id :: string
  ob_sequence :: int
  ob_event_id :: string
  ob_entity_id :: string
  ob_entity_kind :: string
  ob_revision_id :: string
  ob_parents :: "string list"
  ob_device_id :: string
  ob_actor_id :: string
  ob_operation :: string
  ob_content_digest :: string
  ob_payload :: dict
  ob_created_at :: datetime

record sync_db =
  sy_accounts :: "string list"
  sy_devices :: "device list"
  sy_revisions :: "sync_revision list"
  sy_heads :: "sync_head list"
  sy_receipts :: "receipt_row list"
  sy_outbox :: "outbox_row list"
  sy_audit :: "audit_row list"

text \<open>An \<open>ApiError\<close> or a database error, or an exception nothing handles.\<close>

datatype sync_failure = Refused api_error | Uncaught string

definition refuse :: "error_category \<Rightarrow> string \<Rightarrow> sync_failure" where
  "refuse c message = Refused (ApiError c message None)"

text \<open>The rows of one account, in the order they were added.\<close>

definition revisions_of :: "string \<Rightarrow> sync_db \<Rightarrow> sync_revision list" where
  "revisions_of a db = filter (\<lambda>r. sr_account_id r = a) (sy_revisions db)"

definition heads_of :: "string \<Rightarrow> sync_db \<Rightarrow> sync_head list" where
  "heads_of a db = filter (\<lambda>h. eh_account_id h = a) (sy_heads db)"

definition receipts_of :: "string \<Rightarrow> sync_db \<Rightarrow> receipt_row list" where
  "receipts_of a db = filter (\<lambda>r. rr_account_id r = a) (sy_receipts db)"

definition outbox_of :: "string \<Rightarrow> sync_db \<Rightarrow> outbox_row list" where
  "outbox_of a db = filter (\<lambda>r. ob_account_id r = a) (sy_outbox db)"

text \<open>INSERTs, each with its table's primary key and unique constraints.\<close>

definition add_revision :: "sync_revision \<Rightarrow> sync_db \<Rightarrow> api_error + sync_db" where
  "add_revision r db =
     (if sr_revision_id r \<in> sr_revision_id ` set (revisions_of (sr_account_id r) db) then Inl IntegrityError
      else Inr (db\<lparr>sy_revisions := sy_revisions db @ [r]\<rparr>))"

definition add_head :: "sync_head \<Rightarrow> sync_db \<Rightarrow> api_error + sync_db" where
  "add_head h db =
     (if eh_entity_id h \<in> eh_entity_id ` set (heads_of (eh_account_id h) db) then Inl IntegrityError
      else Inr (db\<lparr>sy_heads := sy_heads db @ [h]\<rparr>))"

definition add_receipt :: "receipt_row \<Rightarrow> sync_db \<Rightarrow> api_error + sync_db" where
  "add_receipt r db =
     (if rr_idempotency_key r \<in> rr_idempotency_key ` set (receipts_of (rr_account_id r) db) then Inl IntegrityError
      else Inr (db\<lparr>sy_receipts := sy_receipts db @ [r]\<rparr>))"

definition add_outbox :: "outbox_row \<Rightarrow> sync_db \<Rightarrow> api_error + sync_db" where
  "add_outbox r db =
     (if ob_sequence r \<in> ob_sequence ` set (outbox_of (ob_account_id r) db)
         \<or> ob_event_id r \<in> ob_event_id ` set (outbox_of (ob_account_id r) db) then Inl IntegrityError
      else Inr (db\<lparr>sy_outbox := sy_outbox db @ [r]\<rparr>))"

section \<open>Reading the ledger\<close>

definition require_active_device :: "sync_context \<Rightarrow> sync_db \<Rightarrow> sync_failure + string" where
  "require_active_device ctx db =
     (case sx_device_id ctx of
        None \<Rightarrow> Inl (refuse AUTH_REQUIRED ''device-bound session required'')
      | Some i \<Rightarrow>
          (case find (\<lambda>d. dv_id d = i) (sy_devices db) of
             None \<Rightarrow> Inl (refuse AUTH_REQUIRED ''device-bound session required'')
           | Some d \<Rightarrow>
               if dv_account_id d \<noteq> sx_account_id ctx then Inl (refuse AUTH_REQUIRED ''device-bound session required'')
               else if dv_state d \<noteq> ''active'' then Inl (refuse DEVICE_REVOKED ''device is revoked'')
               else Inr (dv_id d)))"

definition load_receipt :: "string \<Rightarrow> string \<Rightarrow> sync_db \<Rightarrow> py_error + receipt_row option" where
  "load_receipt a key db = scalar_one_or_none (filter (\<lambda>r. rr_idempotency_key r = key) (receipts_of a db))"

definition lock_head :: "string \<Rightarrow> string \<Rightarrow> sync_db \<Rightarrow> py_error + sync_head option" where
  "lock_head a entity db = scalar_one_or_none (filter (\<lambda>h. eh_entity_id h = entity) (heads_of a db))"

definition lock_account :: "string \<Rightarrow> sync_db \<Rightarrow> sync_failure + unit" where
  "lock_account a db =
     (if a \<in> set (sy_accounts db) then Inr ()
      else Inl (refuse AUTH_REQUIRED ''account is no longer available''))"

definition get_revision :: "string \<Rightarrow> string \<Rightarrow> sync_db \<Rightarrow> sync_revision option" where
  "get_revision a i db = find (\<lambda>r. sr_revision_id r = i) (revisions_of a db)"

definition revision_parents :: "string \<Rightarrow> sync_db \<Rightarrow> string \<Rightarrow> string list" where
  "revision_parents a db i = (case get_revision a i db of None \<Rightarrow> [] | Some r \<Rightarrow> sr_parents r)"

text \<open>
  \<open>_find_common_ancestor\<close>. One half of a round walks the parents of a frontier: a parent the other
  side has seen is the answer, a new one joins this side's next frontier.
\<close>

fun scan_parents :: "string set \<Rightarrow> string set \<Rightarrow> string list \<Rightarrow> string list \<Rightarrow> string + string set \<times> string list" where
  "scan_parents other seen next [] = Inr (seen, next)"
| "scan_parents other seen next (p # ps) =
     (if p \<in> other then Inl p
      else if p \<notin> seen then scan_parents other (insert p seen) (next @ [p]) ps
      else scan_parents other seen next ps)"

fun ancestor_rounds :: "nat \<Rightarrow> (string \<Rightarrow> string list) \<Rightarrow> string set \<Rightarrow> string list \<Rightarrow> string set \<Rightarrow> string list
    \<Rightarrow> string option" where
  "ancestor_rounds 0 parents lseen left rseen right = None"
| "ancestor_rounds (Suc n) parents lseen left rseen right =
     (if left = [] \<and> right = [] then None
      else case scan_parents rseen lseen [] (concat (map parents left)) of
             Inl p \<Rightarrow> Some p
           | Inr (lseen', left') \<Rightarrow>
               (case scan_parents lseen' rseen [] (concat (map parents right)) of
                  Inl p \<Rightarrow> Some p
                | Inr (rseen', right') \<Rightarrow> ancestor_rounds n parents lseen' left' rseen' right'))"

definition find_common_ancestor :: "string \<Rightarrow> string \<Rightarrow> string \<Rightarrow> sync_db \<Rightarrow> string option" where
  "find_common_ancestor a left right db =
     (if left = right then Some left
      else ancestor_rounds 64 (revision_parents a db) {left} [left] {right} [right])"

definition affected_fields :: "sync_event \<Rightarrow> string list" where
  "affected_fields e = take 64 (sort (map fst (se_payload e)))"

text \<open>
  \<open>_undelivered_ancestors\<close>: the loop, with the top of the stack first, the revisions read so far
  and the result.
\<close>

definition MAX_UNDELIVERED_ANCESTORS :: nat where "MAX_UNDELIVERED_ANCESTORS = 64"

function ancestor_walk :: "sync_revision list \<Rightarrow> string set \<Rightarrow> (string \<times> bool) list \<Rightarrow> string set
    \<Rightarrow> (string \<times> sync_revision) list \<Rightarrow> sync_revision list \<Rightarrow> (string \<times> bool) list \<times> sync_revision list" where
  "ancestor_walk ledger delivered stack seen held ordered =
     (case stack of
        [] \<Rightarrow> ([], ordered)
      | (i, expanded) # rest \<Rightarrow>
          if length ordered \<ge> MAX_UNDELIVERED_ANCESTORS then (stack, ordered)
          else if expanded then
            ancestor_walk ledger delivered rest seen held
              (case map_of held i of None \<Rightarrow> ordered | Some r \<Rightarrow> ordered @ [r])
          else if i \<in> seen \<or> i \<in> delivered then ancestor_walk ledger delivered rest seen held ordered
          else
            (case find (\<lambda>r. sr_revision_id r = i) ledger of
               None \<Rightarrow> ancestor_walk ledger delivered rest (insert i seen) held ordered
             | Some r \<Rightarrow>
                 ancestor_walk ledger delivered
                   (rev (map (\<lambda>p. (p, False))
                      (filter (\<lambda>p. p \<notin> delivered \<and> p \<notin> insert i seen) (sr_parents r)))
                    @ (i, True) # rest)
                   (insert i seen) (dict_set i r held) ordered))"
  by pat_completeness auto

definition unseen :: "sync_revision list \<Rightarrow> string set \<Rightarrow> nat" where
  "unseen ledger seen = card (sr_revision_id ` set ledger - seen)"

lemma unseen_insert: "unseen ledger (insert i seen) \<le> unseen ledger seen"
  unfolding unseen_def by (rule card_mono) auto

lemma unseen_found:
  assumes "find (\<lambda>r. sr_revision_id r = i) ledger = Some r" and "i \<notin> seen"
  shows "unseen ledger (insert i seen) < unseen ledger seen"
proof -
  have "i \<in> sr_revision_id ` set ledger" using find_mem [OF assms(1)] by auto
  with assms(2) show ?thesis
    unfolding unseen_def by (intro psubset_card_mono) auto
qed

termination ancestor_walk
  by (relation "measures [\<lambda>(ledger, delivered, stack, seen, held, ordered). unseen ledger seen,
      \<lambda>(ledger, delivered, stack, seen, held, ordered). length stack]")
    (use unseen_insert unseen_found in \<open>auto simp: le_less\<close>)

declare ancestor_walk.simps [simp del]

definition undelivered_ancestors :: "string \<Rightarrow> string list \<Rightarrow> sync_db \<Rightarrow> sync_revision list option" where
  "undelivered_ancestors a parents db =
     (let delivered = ob_revision_id ` set (outbox_of a db);
          stack = rev (map (\<lambda>p. (p, False)) (filter (\<lambda>p. p \<notin> delivered) parents));
          (rest, ordered) = ancestor_walk (revisions_of a db) delivered stack {} [] []
      in if rest \<noteq> [] then None else Some ordered)"

definition next_sequence :: "string \<Rightarrow> sync_db \<Rightarrow> int" where
  "next_sequence a db = foldl max 0 (map ob_sequence (outbox_of a db)) + 1"

definition revision_from_event :: "string \<Rightarrow> sync_event \<Rightarrow> string list \<Rightarrow> datetime \<Rightarrow> sync_revision" where
  "revision_from_event a e parents created =
     \<lparr>sr_account_id = a, sr_revision_id = se_revision_id e, sr_entity_id = se_entity_id e,
      sr_entity_kind = se_entity_kind e, sr_parents = parents, sr_operation = se_operation e,
      sr_content_digest = se_content_digest e, sr_payload = se_payload e, sr_device_id = se_device_id e,
      sr_actor_id = se_actor_id e, sr_event_id = se_event_id e, sr_schema_version = 1, sr_created_at = created\<rparr>"

definition SINGLETON_ENTITY_KINDS :: "string list" where "SINGLETON_ENTITY_KINDS = [''developer_passport'']"

definition singleton_identity :: "string \<Rightarrow> string \<Rightarrow> sync_db \<Rightarrow> string option" where
  "singleton_identity a kind db =
     (if kind \<notin> set SINGLETON_ENTITY_KINDS then None
      else
        let live = [eh_entity_id h. h \<leftarrow> heads_of a db, r \<leftarrow> revisions_of a db,
                      sr_revision_id r = eh_revision_id h \<and> sr_entity_kind r = kind
                      \<and> sr_operation r \<noteq> ''tombstone'']
        in (case sort live of [] \<Rightarrow> None | i # _ \<Rightarrow> Some i))"

section \<open>Receipts\<close>

definition rejected :: "sync_event \<Rightarrow> string \<Rightarrow> string option \<Rightarrow> string option \<Rightarrow> event_receipt" where
  "rejected e code head conflicting =
     \<lparr>er_event_id = se_event_id e, er_state = ''rejected'', er_revision_id = None, er_server_head = head,
      er_cursor = None, er_conflict = None, er_error_code = Some code, er_conflicting_entity = conflicting\<rparr>"

definition conflicted :: "sync_event \<Rightarrow> string option \<Rightarrow> conflict_info \<Rightarrow> event_receipt" where
  "conflicted e head info =
     \<lparr>er_event_id = se_event_id e, er_state = ''conflict'', er_revision_id = Some (se_revision_id e),
      er_server_head = head, er_cursor = None, er_conflict = Some info, er_error_code = None,
      er_conflicting_entity = None\<rparr>"

definition superseded :: "sync_event \<Rightarrow> string option \<Rightarrow> event_receipt" where
  "superseded e head =
     \<lparr>er_event_id = se_event_id e, er_state = ''superseded'', er_revision_id = Some (se_revision_id e),
      er_server_head = head, er_cursor = None, er_conflict = None, er_error_code = None,
      er_conflicting_entity = None\<rparr>"

definition accepted :: "sync_event \<Rightarrow> string \<Rightarrow> event_receipt" where
  "accepted e cursor =
     \<lparr>er_event_id = se_event_id e, er_state = ''accepted'', er_revision_id = Some (se_revision_id e),
      er_server_head = Some (se_revision_id e), er_cursor = Some cursor, er_conflict = None,
      er_error_code = None, er_conflicting_entity = None\<rparr>"

definition store_receipt :: "string \<Rightarrow> sync_event \<Rightarrow> string \<Rightarrow> event_receipt \<Rightarrow> sync_db \<Rightarrow> api_error + sync_db" where
  "store_receipt a e fingerprint receipt db =
     add_receipt \<lparr>rr_account_id = a, rr_idempotency_key = se_idempotency_key e,
       rr_request_fingerprint = fingerprint, rr_event_id = se_event_id e, rr_device_id = se_device_id e,
       rr_state = er_state receipt, rr_revision_id = er_revision_id receipt,
       rr_server_head = er_server_head receipt, rr_response_body = receipt\<rparr> db"

definition log_event :: "string \<Rightarrow> string \<Rightarrow> string \<Rightarrow> string \<Rightarrow> dict \<Rightarrow> sync_db \<Rightarrow> sync_db" where
  "log_event a action table target payload db =
     db\<lparr>sy_audit := emit_audit []
          \<lparr>aa_actor_account_id = Some a, aa_organization_id = None, aa_action = action,
           aa_target_table = table, aa_target_id = target, aa_reason = None, aa_outcome = ''succeeded'',
           aa_request_id = None, aa_payload = payload, aa_actor_type = None, aa_actor_id = None\<rparr> (sy_audit db)\<rparr>"

text \<open>The end of every branch: the receipt, its audit row, the commit.\<close>

type_synonym event_result = "(sync_failure + event_receipt) \<times> sync_db"

definition settle :: "string \<Rightarrow> sync_event \<Rightarrow> string \<Rightarrow> event_receipt \<Rightarrow> string \<Rightarrow> string \<Rightarrow> string \<Rightarrow> dict
    \<Rightarrow> sync_db \<Rightarrow> event_result" where
  "settle a e fingerprint receipt action table target payload db =
     (case store_receipt a e fingerprint receipt db of
        Inl err \<Rightarrow> (Inl (Refused err), db)
      | Inr db' \<Rightarrow> (Inr receipt, log_event a action table target payload db'))"

definition entity_facts :: "string \<Rightarrow> sync_event \<Rightarrow> dict" where
  "entity_facts state e =
     [(''state'', JStr state), (''entity_id'', JStr (se_entity_id e)), (''entity_kind'', JStr (se_entity_kind e))]"

definition settle_rejected :: "string \<Rightarrow> sync_event \<Rightarrow> string \<Rightarrow> event_receipt \<Rightarrow> dict \<Rightarrow> sync_db \<Rightarrow> event_result" where
  "settle_rejected a e fingerprint receipt payload db =
     settle a e fingerprint receipt ''sync.event_rejected'' ''sync_event_receipt'' (se_event_id e) payload db"

definition settle_conflict :: "string \<Rightarrow> sync_event \<Rightarrow> string \<Rightarrow> string option \<Rightarrow> conflict_info \<Rightarrow> sync_db \<Rightarrow> event_result" where
  "settle_conflict a e fingerprint head info db =
     settle a e fingerprint (conflicted e head info) ''sync.event_conflict'' ''sync_revision'' (se_revision_id e)
       (entity_facts ''conflict'' e @ [(''server_head_revision_id'', text_or_null head)]) db"

text \<open>A rejection for a validation reason of the ledger; its audit payload has no entity kind.\<close>

definition reject_for :: "string \<Rightarrow> sync_event \<Rightarrow> string \<Rightarrow> string option \<Rightarrow> dict \<Rightarrow> sync_db \<Rightarrow> event_result" where
  "reject_for a e fingerprint head why db =
     settle_rejected a e fingerprint (rejected e ''AI_STP_VALIDATION_ERROR'' head None)
       ([(''state'', JStr ''rejected''), (''entity_id'', JStr (se_entity_id e))] @ why) db"

section \<open>Applying one event\<close>

text \<open>\<open>x or y\<close>: an absent or empty id gives way.\<close>

definition id_or :: "string option \<Rightarrow> string \<Rightarrow> string" where
  "id_or t otherwise = text_or t otherwise id"

text \<open>The revision is in the ledger already.\<close>

definition known_revision :: "string \<Rightarrow> sync_event \<Rightarrow> string \<Rightarrow> string option \<Rightarrow> sync_db \<Rightarrow> event_result" where
  "known_revision a e fingerprint head db =
     (let delivered = se_revision_id e \<in> ob_revision_id ` set (outbox_of a db) in
      if \<not> delivered \<and> head \<noteq> Some (se_revision_id e) then
        settle_conflict a e fingerprint head
          \<lparr>cf_server_head = id_or head (se_revision_id e),
           cf_client_head = id_or (se_expected_head e) (se_revision_id e),
           cf_common_ancestor = None, cf_affected_fields = affected_fields e\<rparr> db
      else
        settle a e fingerprint (superseded e head) ''sync.event_superseded'' ''sync_revision'' (se_revision_id e)
          (entity_facts ''superseded'' e) db)"

text \<open>The first parent the ledger cannot take: unknown, or a revision of another entity.\<close>

fun bad_parent :: "string \<Rightarrow> sync_event \<Rightarrow> string list \<Rightarrow> sync_db \<Rightarrow> dict option" where
  "bad_parent a e [] db = None"
| "bad_parent a e (p # ps) db =
     (case get_revision a p db of
        None \<Rightarrow> Some [(''reason'', JStr ''unknown_parent'')]
      | Some r \<Rightarrow>
          if sr_entity_id r \<noteq> se_entity_id e \<or> sr_entity_kind r \<noteq> se_entity_kind e
          then Some [(''reason'', JStr ''cross_entity_parent''), (''parent_revision_id'', JStr p)]
          else bad_parent a e ps db)"

text \<open>A refused compare-and-set: the revision is kept, undelivered, for a later merge.\<close>

definition keep_conflict :: "string \<Rightarrow> sync_event \<Rightarrow> string \<Rightarrow> string option \<Rightarrow> sync_db \<Rightarrow> event_result" where
  "keep_conflict a e fingerprint current db =
     (let client = id_or (se_expected_head e)
            (case se_parents e of p # _ \<Rightarrow> p | [] \<Rightarrow> se_revision_id e);
          ancestor = (case (current, se_expected_head e) of
                        (Some h, Some x) \<Rightarrow> find_common_ancestor a h x db | _ \<Rightarrow> None);
          info = (case current of
                    None \<Rightarrow> \<lparr>cf_server_head = id_or (se_expected_head e) (se_revision_id e), cf_client_head = client,
                             cf_common_ancestor = None, cf_affected_fields = affected_fields e\<rparr>
                  | Some h \<Rightarrow> \<lparr>cf_server_head = h, cf_client_head = client,
                              cf_common_ancestor = ancestor, cf_affected_fields = affected_fields e\<rparr>)
      in case parse_timestamp (se_created_at e) of
           None \<Rightarrow> (Inl (Uncaught ''TimestampError''), db)
         | Some created \<Rightarrow>
             (case add_revision (revision_from_event a e (se_parents e) created) db of
                Inl err \<Rightarrow> (Inl (Refused err), db)
              | Inr db' \<Rightarrow> settle_conflict a e fingerprint current info db'))"

definition outbox_row_of :: "string \<Rightarrow> int \<Rightarrow> sync_revision \<Rightarrow> outbox_row" where
  "outbox_row_of a sequence r =
     \<lparr>ob_account_id = a, ob_sequence = sequence, ob_event_id = sr_event_id r, ob_entity_id = sr_entity_id r,
      ob_entity_kind = sr_entity_kind r, ob_revision_id = sr_revision_id r, ob_parents = sr_parents r,
      ob_device_id = sr_device_id r, ob_actor_id = sr_actor_id r, ob_operation = sr_operation r,
      ob_content_digest = sr_content_digest r, ob_payload = sr_payload r, ob_created_at = sr_created_at r\<rparr>"

fun enqueue_ancestors :: "string \<Rightarrow> sync_revision list \<Rightarrow> sync_db \<Rightarrow> api_error + sync_db" where
  "enqueue_ancestors a [] db = Inr db"
| "enqueue_ancestors a (r # rs) db =
     and_then (add_outbox (outbox_row_of a (next_sequence a db) r) db) (enqueue_ancestors a rs)"

definition move_head :: "string \<Rightarrow> sync_event \<Rightarrow> string option \<Rightarrow> time \<Rightarrow> sync_db \<Rightarrow> api_error + sync_db" where
  "move_head a e current now db =
     (case current of
        None \<Rightarrow> add_head \<lparr>eh_account_id = a, eh_entity_id = se_entity_id e, eh_revision_id = se_revision_id e,
                         eh_updated_at = now\<rparr> db
      | Some _ \<Rightarrow> Inr (db\<lparr>sy_heads := update_where (\<lambda>h. eh_account_id h = a \<and> eh_entity_id h = se_entity_id e)
                     (\<lambda>h. h\<lparr>eh_revision_id := se_revision_id e, eh_updated_at := now\<rparr>) (sy_heads db)\<rparr>))"

text \<open>The writes of an accepted event, up to its receipt.\<close>

definition accept_writes :: "string \<Rightarrow> sync_event \<Rightarrow> string option \<Rightarrow> sync_revision list \<Rightarrow> datetime \<Rightarrow> time
    \<Rightarrow> sync_db \<Rightarrow> api_error + sync_db \<times> int" where
  "accept_writes a e current undelivered created now db =
     and_then (enqueue_ancestors a undelivered db) (\<lambda>db1.
       let sequence = next_sequence a db1; r = revision_from_event a e (se_parents e) created in
       and_then (add_revision r db1) (\<lambda>db2.
       and_then (move_head a e current now db2) (\<lambda>db3.
       and_then (add_outbox (outbox_row_of a sequence r) db3) (\<lambda>db4.
         Inr (db4, sequence)))))"

definition accept :: "sync_env \<Rightarrow> string \<Rightarrow> sync_event \<Rightarrow> string \<Rightarrow> string option \<Rightarrow> sync_revision list \<Rightarrow> datetime
    \<Rightarrow> time \<Rightarrow> sync_db \<Rightarrow> event_result" where
  "accept env a e fingerprint current undelivered created now db =
     (case accept_writes a e current undelivered created now db of
        Inl err \<Rightarrow> (Inl (Refused err), db)
      | Inr (db', sequence) \<Rightarrow>
          (case encode_sync_cursor (sv_cursor env) a sequence of
             Inl message \<Rightarrow> (Inl (Uncaught message), db)
           | Inr cursor \<Rightarrow>
               settle a e fingerprint (accepted e cursor) ''sync.event_accepted'' ''sync_revision'' (se_revision_id e)
                 (entity_facts ''accepted'' e
                  @ [(''operation'', JStr (se_operation e)), (''sequence'', JInt sequence)]) db'))"

text \<open>A transition the head allows: deliver what was kept back, then the event.\<close>

definition deliver :: "sync_env \<Rightarrow> string \<Rightarrow> sync_event \<Rightarrow> string \<Rightarrow> string option \<Rightarrow> time \<Rightarrow> sync_db \<Rightarrow> event_result" where
  "deliver env a e fingerprint current now db =
     (case parse_timestamp (se_created_at e) of
        None \<Rightarrow> (Inl (Uncaught ''TimestampError''), db)
      | Some created \<Rightarrow>
          (case undelivered_ancestors a (se_parents e) db of
             None \<Rightarrow>
               (case add_revision (revision_from_event a e (se_parents e) created) db of
                  Inl err \<Rightarrow> (Inl (Refused err), db)
                | Inr db' \<Rightarrow> reject_for a e fingerprint current [(''reason'', JStr ''ancestor_backlog'')] db')
           | Some undelivered \<Rightarrow>
               let emitted = map sr_event_id undelivered in
               if \<not> distinct emitted \<or> se_event_id e \<in> set emitted
               then reject_for a e fingerprint current [(''reason'', JStr ''event_id_collision'')] db
               else if list_ex (\<lambda>r. ob_event_id r \<in> set (se_event_id e # emitted)) (outbox_of a db)
               then reject_for a e fingerprint current [(''reason'', JStr ''event_id_collision'')] db
               else accept env a e fingerprint current undelivered created now db))"

text \<open>The account's other live entity of a kind that admits one.\<close>

definition second_identity :: "string \<Rightarrow> sync_event \<Rightarrow> sync_db \<Rightarrow> string option" where
  "second_identity a e db =
     (case singleton_identity a (se_entity_kind e) db of
        Some held \<Rightarrow> if held \<noteq> se_entity_id e then Some held else None
      | None \<Rightarrow> None)"

definition new_revision :: "sync_env \<Rightarrow> string \<Rightarrow> sync_event \<Rightarrow> string \<Rightarrow> string option \<Rightarrow> time \<Rightarrow> sync_db \<Rightarrow> event_result" where
  "new_revision env a e fingerprint current now db =
     (case second_identity a e db of
        Some held \<Rightarrow>
          settle_rejected a e fingerprint (rejected e ''AI_STP_CONFLICT'' current (Some held))
            (entity_facts ''rejected'' e
             @ [(''reason'', JStr ''second_singleton_identity''), (''held_entity_id'', JStr held)]) db
      | None \<Rightarrow>
          (case bad_parent a e (se_parents e) db of
             Some why \<Rightarrow> reject_for a e fingerprint current why db
           | None \<Rightarrow>
               if \<not> can_accept_head_transition current (se_expected_head e) (se_parents e)
               then keep_conflict a e fingerprint current db
               else deliver env a e fingerprint current now db))"

definition apply_valid :: "sync_env \<Rightarrow> string \<Rightarrow> sync_event \<Rightarrow> string \<Rightarrow> time \<Rightarrow> sync_db \<Rightarrow> event_result" where
  "apply_valid env a e fingerprint now db =
     (case lock_head a (se_entity_id e) db of
        Inl err \<Rightarrow> (Inl (Refused (SqlError err)), db)
      | Inr row \<Rightarrow>
          let current = map_option eh_revision_id row in
          (case get_revision a (se_revision_id e) db of
             Some _ \<Rightarrow> known_revision a e fingerprint current db
           | None \<Rightarrow> new_revision env a e fingerprint current now db))"

definition apply_first :: "sync_env \<Rightarrow> string \<Rightarrow> sync_event \<Rightarrow> string \<Rightarrow> time \<Rightarrow> sync_db \<Rightarrow> event_result" where
  "apply_first env a e fingerprint now db =
     (case load_receipt a (se_idempotency_key e) db of
        Inl err \<Rightarrow> (Inl (Refused (SqlError err)), db)
      | Inr (Some existing) \<Rightarrow>
          if rr_request_fingerprint existing \<noteq> fingerprint
          then (Inl (refuse CONFLICT ''idempotency key reused with a different event''), db)
          else (Inr (rr_response_body existing), db)
      | Inr None \<Rightarrow>
          (case validate_event_document (sv_text env) (sv_models env) e of
             Inl (NotCanonical message) \<Rightarrow> (Inl (Uncaught message), db)
           | Inl (Invalid reason) \<Rightarrow>
               settle_rejected a e fingerprint (rejected e ''AI_STP_VALIDATION_ERROR'' None None)
                 (entity_facts ''rejected'' e @ [(''reason'', JStr reason)]) db
           | Inr _ \<Rightarrow> apply_valid env a e fingerprint now db))"

definition apply_one :: "sync_env \<Rightarrow> sync_context \<Rightarrow> string \<Rightarrow> sync_event \<Rightarrow> time \<Rightarrow> sync_db \<Rightarrow> event_result" where
  "apply_one env ctx device e now db =
     (case request_fingerprint (sv_text env) (event_dump e) of
        Inl message \<Rightarrow> (Inl (Uncaught message), db)
      | Inr fingerprint \<Rightarrow>
          if se_device_id e \<noteq> device
          then (Inl (refuse VALIDATION ''event device_id must match session device''), db)
          else if se_actor_id e \<noteq> sx_account_id ctx
          then (Inl (refuse VALIDATION ''event actor_id must match account''), db)
          else case lock_account (sx_account_id ctx) db of
                 Inl f \<Rightarrow> (Inl f, db)
               | Inr _ \<Rightarrow> apply_first env (sx_account_id ctx) e fingerprint now db)"

section \<open>Pushing and pulling\<close>

text \<open>The clock is read once per event; a failure keeps the events committed before it.\<close>

fun push_loop :: "sync_env \<Rightarrow> sync_context \<Rightarrow> string \<Rightarrow> (sync_event \<times> time) list \<Rightarrow> sync_db
    \<Rightarrow> (sync_failure + event_receipt list) \<times> sync_db" where
  "push_loop env ctx device [] db = (Inr [], db)"
| "push_loop env ctx device ((e, now) # es) db =
     (case apply_one env ctx device e now db of
        (Inl f, db') \<Rightarrow> (Inl f, db')
      | (Inr receipt, db') \<Rightarrow>
          (case push_loop env ctx device es db' of
             (Inl f, db'') \<Rightarrow> (Inl f, db'')
           | (Inr receipts, db'') \<Rightarrow> (Inr (receipt # receipts), db'')))"

definition push_events :: "sync_env \<Rightarrow> sync_context \<Rightarrow> (sync_event \<times> time) list \<Rightarrow> sync_db
    \<Rightarrow> (sync_failure + event_receipt list) \<times> sync_db" where
  "push_events env ctx events db =
     (case require_active_device ctx db of
        Inl f \<Rightarrow> (Inl f, db)
      | Inr device \<Rightarrow> push_loop env ctx device events db)"

record stream_event =
  te_event_id :: string
  te_entity_id :: string
  te_entity_kind :: string
  te_revision_id :: string
  te_parents :: "string list"
  te_device_id :: string
  te_actor_id :: string
  te_operation :: string
  te_content_digest :: string
  te_created_at :: string
  te_payload :: dict
  te_sequence :: int

record pull_response =
  pu_items :: "stream_event list"
  pu_next_cursor :: "string option"
  pu_page_size :: int

definition PAGE_SIZE_MAX :: int where "PAGE_SIZE_MAX = 100"

definition stream_event_of :: "outbox_row \<Rightarrow> stream_event" where
  "stream_event_of row =
     \<lparr>te_event_id = ob_event_id row, te_entity_id = ob_entity_id row, te_entity_kind = ob_entity_kind row,
      te_revision_id = ob_revision_id row, te_parents = ob_parents row, te_device_id = ob_device_id row,
      te_actor_id = ob_actor_id row, te_operation = ob_operation row, te_content_digest = ob_content_digest row,
      te_created_at = format_timestamp (ob_created_at row), te_payload = ob_payload row,
      te_sequence = ob_sequence row\<rparr>"

definition pull_events :: "sync_env \<Rightarrow> sync_context \<Rightarrow> string option \<Rightarrow> int \<Rightarrow> sync_db
    \<Rightarrow> sync_failure + pull_response" where
  "pull_events env ctx cursor page_size db =
     and_then (require_active_device ctx db) (\<lambda>_.
       let size = min (max page_size 1) PAGE_SIZE_MAX in
       and_then
         (case cursor of
            None \<Rightarrow> Inr 0
          | Some c \<Rightarrow>
              (case decode_sync_cursor (sv_cursor env) c (sx_account_id ctx) of
                 Inl _ \<Rightarrow> Inl (refuse VALIDATION ''invalid sync cursor'')
               | Inr position \<Rightarrow> Inr position))
         (\<lambda>after.
            let page = order_limit ob_sequence (nat size)
                  (filter (\<lambda>r. after < ob_sequence r) (outbox_of (sx_account_id ctx) db));
                last_delivered = (if page = [] then None else Some (ob_sequence (last page)))
            in case sync_page_cursor (sv_cursor env) (sx_account_id ctx) last_delivered cursor of
                 Inl message \<Rightarrow> Inl (Uncaught message)
               | Inr next \<Rightarrow>
                   Inr \<lparr>pu_items = map stream_event_of page, pu_next_cursor = next, pu_page_size = size\<rparr>))"

end
