(* ===== verification/SyncProps.thy ===== *)
theory SyncProps
  imports Sync
begin

text \<open>
  Lemmas about the ledger: what the ancestor walk returns, the invariant of one account's rows, the
  possible effects of one event on them, and that every event preserves the invariant.
\<close>

section \<open>Causal order\<close>

text \<open>Every dependency of an entry is the key of an earlier one.\<close>

definition causal :: "('r \<Rightarrow> string) \<Rightarrow> ('r \<Rightarrow> string list) \<Rightarrow> 'r list \<Rightarrow> bool" where
  "causal key deps xs \<longleftrightarrow> (\<forall>i < length xs. set (deps (xs ! i)) \<subseteq> key ` set (take i xs))"

lemma causal_Nil [simp]: "causal key deps []"
  by (simp add: causal_def)

lemma causal_snoc: "causal key deps (xs @ [x]) \<longleftrightarrow> causal key deps xs \<and> set (deps x) \<subseteq> key ` set xs"
  by (auto simp: causal_def nth_append less_Suc_eq)

lemma causal_deps: "causal key deps xs \<Longrightarrow> x \<in> set xs \<Longrightarrow> set (deps x) \<subseteq> key ` set xs"
proof -
  assume c: "causal key deps xs" and "x \<in> set xs"
  then obtain i where "i < length xs" and "x = xs ! i" by (auto simp: in_set_conv_nth)
  with c have "set (deps x) \<subseteq> key ` set (take i xs)" by (simp add: causal_def)
  then show ?thesis using set_take_subset [of i xs] by blast
qed

lemma causal_map: "(\<And>x. key' (f x) = key x) \<Longrightarrow> (\<And>x. deps' (f x) = deps x)
    \<Longrightarrow> causal key' deps' (map f xs) = causal key deps xs"
  by (induction xs rule: rev_induct) (auto simp: causal_snoc image_image)

text \<open>The place of a key in a list.\<close>

definition place :: "('r \<Rightarrow> string) \<Rightarrow> 'r list \<Rightarrow> string \<Rightarrow> nat" where
  "place key xs k = length (takeWhile (\<lambda>x. key x \<noteq> k) xs)"

lemma place_append: "k \<in> key ` set xs \<Longrightarrow> place key (xs @ ys) k = place key xs k"
  by (auto simp: place_def takeWhile_append1)

lemma place_less: "k \<in> key ` set xs \<Longrightarrow> place key xs k < length xs"
proof (induction xs)
  case (Cons x xs)
  then show ?case by (cases "key x = k") (auto simp: place_def)
qed simp

lemma place_snoc: "k \<notin> key ` set xs \<Longrightarrow> key x = k \<Longrightarrow> place key (xs @ [x]) k = length xs"
proof -
  assume "k \<notin> key ` set xs" and k: "key x = k"
  then have "takeWhile (\<lambda>x. key x \<noteq> k) (xs @ [x]) = xs"
    by (subst takeWhile_append2) (auto simp: image_iff)
  then show ?thesis by (simp add: place_def)
qed

lemma causal_place:
  assumes "causal key deps xs" and "distinct (map key xs)" and "x \<in> set xs" and "d \<in> set (deps x)"
  shows "d \<in> key ` set xs \<and> place key xs d < place key xs (key x)"
  using assms
proof (induction xs rule: rev_induct)
  case (snoc y xs)
  from snoc.prems have c: "causal key deps xs" "set (deps y) \<subseteq> key ` set xs" "distinct (map key xs)"
    "key y \<notin> key ` set xs"
    by (auto simp: causal_snoc)
  show ?case
  proof (cases "x = y")
    case True
    with snoc.prems c have "d \<in> key ` set xs" by auto
    with c(4) True show ?thesis
      by (auto simp: place_append place_snoc intro: place_less)
  next
    case False
    with snoc.prems have x: "x \<in> set xs" by simp
    with snoc.IH [OF c(1,3)] snoc.prems(4)
    have "d \<in> key ` set xs \<and> place key xs d < place key xs (key x)" by blast
    with x show ?thesis by (auto simp: place_append)
  qed
qed simp

section \<open>The ancestor walk\<close>

definition ids :: "sync_revision list \<Rightarrow> string set" where
  "ids rs = sr_revision_id ` set rs"

lemma ids_simps [simp]: "ids [] = {}" "ids (r # rs) = insert (sr_revision_id r) (ids rs)"
  "ids (rs @ ss) = ids rs \<union> ids ss"
  by (auto simp: ids_def)

text \<open>
  The loop invariant. \<open>D\<close> is what is delivered. An expanded entry waits for the parents above it,
  and everything above it is older.
\<close>

definition waiting :: "sync_revision list \<Rightarrow> string set \<Rightarrow> (string \<times> bool) list \<Rightarrow> sync_revision list \<Rightarrow> bool" where
  "waiting L D stack ordered \<longleftrightarrow>
     (\<forall>xs i ys. stack = xs @ (i, True) # ys \<longrightarrow>
        (\<forall>q \<in> fst ` set xs. place sr_revision_id L q < place sr_revision_id L i) \<and>
        (\<forall>r \<in> set L. sr_revision_id r = i \<longrightarrow> set (sr_parents r) \<subseteq> D \<union> ids ordered \<union> fst ` set xs))"

definition marked :: "sync_revision list \<Rightarrow> string set \<Rightarrow> (string \<times> bool) list \<Rightarrow> string set
    \<Rightarrow> (string \<times> sync_revision) list \<Rightarrow> sync_revision list \<Rightarrow> bool" where
  "marked L D stack seen held ordered \<longleftrightarrow>
     fst ` set stack \<subseteq> ids L \<and>
     (\<forall>i. (i, True) \<in> set stack \<longrightarrow>
        (\<exists>r. map_of held i = Some r \<and> r \<in> set L \<and> sr_revision_id r = i) \<and> i \<in> seen \<and> i \<notin> D \<and> i \<notin> ids ordered) \<and>
     distinct (map fst (filter snd stack)) \<and>
     seen \<subseteq> ids ordered \<union> {i. (i, True) \<in> set stack}"

definition emitted :: "sync_revision list \<Rightarrow> string set \<Rightarrow> string set \<Rightarrow> sync_revision list \<Rightarrow> bool" where
  "emitted L D seen ordered \<longleftrightarrow>
     set ordered \<subseteq> set L \<and> ids ordered \<inter> D = {} \<and> ids ordered \<subseteq> seen \<and>
     distinct (map sr_revision_id ordered) \<and>
     causal sr_revision_id (\<lambda>r. filter (\<lambda>p. p \<notin> D) (sr_parents r)) ordered"

definition walk_ok :: "sync_revision list \<Rightarrow> string set \<Rightarrow> string set \<Rightarrow> (string \<times> bool) list \<Rightarrow> string set
    \<Rightarrow> (string \<times> sync_revision) list \<Rightarrow> sync_revision list \<Rightarrow> bool" where
  "walk_ok L D starts stack seen held ordered \<longleftrightarrow>
     marked L D stack seen held ordered \<and> waiting L D stack ordered \<and> emitted L D seen ordered \<and>
     starts \<subseteq> D \<union> ids ordered \<union> fst ` set stack"

lemma waiting_cases:
  assumes "waiting L D stack ordered" and "stack = xs @ (i, True) # ys"
  shows "\<And>q. q \<in> fst ` set xs \<Longrightarrow> place sr_revision_id L q < place sr_revision_id L i"
    "\<And>r. r \<in> set L \<Longrightarrow> sr_revision_id r = i \<Longrightarrow> set (sr_parents r) \<subseteq> D \<union> ids ordered \<union> fst ` set xs"
  using assms unfolding waiting_def by fastforce+

text \<open>Popping an expanded entry emits its revision.\<close>

lemma walk_emit:
  assumes ok: "walk_ok L D starts ((i, True) # rest) seen held ordered"
  obtains r where "map_of held i = Some r" and "walk_ok L D starts rest seen held (ordered @ [r])"
proof -
  from ok have m: "marked L D ((i, True) # rest) seen held ordered"
    and w: "waiting L D ((i, True) # rest) ordered" and em: "emitted L D seen ordered"
    and st: "starts \<subseteq> D \<union> ids ordered \<union> fst ` set ((i, True) # rest)"
    by (simp_all add: walk_ok_def)
  from m obtain r where r: "map_of held i = Some r" "r \<in> set L" "sr_revision_id r = i"
    and i: "i \<in> seen" "i \<notin> D" "i \<notin> ids ordered"
    by (auto simp: marked_def)
  have once: "(i, True) \<notin> set rest" using m by (auto simp: marked_def image_iff)
  have m': "marked L D rest seen held (ordered @ [r])"
    unfolding marked_def
  proof (intro conjI allI impI)
    fix k assume k: "(k, True) \<in> set rest"
    with once have "k \<noteq> i" by auto
    with m k r(3) show "\<exists>r. map_of held k = Some r \<and> r \<in> set L \<and> sr_revision_id r = k"
      "k \<in> seen" "k \<notin> D" "k \<notin> ids (ordered @ [r])"
      by (simp_all add: marked_def)
  next
    show "seen \<subseteq> ids (ordered @ [r]) \<union> {k. (k, True) \<in> set rest}" using m r(3) by (auto simp: marked_def)
  qed (use m in \<open>simp_all add: marked_def\<close>)
  have w': "waiting L D rest (ordered @ [r])"
    unfolding waiting_def
  proof (intro allI impI conjI ballI)
    fix xs k ys assume eq: "rest = xs @ (k, True) # ys"
    then have eq': "(i, True) # rest = ((i, True) # xs) @ (k, True) # ys" by simp
    show "place sr_revision_id L q < place sr_revision_id L k" if "q \<in> fst ` set xs" for q
      using waiting_cases(1) [OF w eq', of q] that by auto
    show "set (sr_parents s) \<subseteq> D \<union> ids (ordered @ [r]) \<union> fst ` set xs" if "s \<in> set L" "sr_revision_id s = k" for s
      using waiting_cases(2) [OF w eq' that] r by auto
  qed
  have "set (sr_parents r) \<subseteq> D \<union> ids ordered"
    using waiting_cases(2) [OF w, of "[]" i rest r] r by simp
  then have em': "emitted L D seen (ordered @ [r])"
    using em r i by (auto simp: emitted_def causal_snoc ids_def)
  show thesis
    by (rule that [OF r(1)]) (use m' w' em' st r in \<open>auto simp: walk_ok_def\<close>)
qed

text \<open>Popping an entry already met changes nothing: its revision is emitted, or expanded above.\<close>

lemma walk_skip:
  assumes ok: "walk_ok L D starts ((i, False) # rest) seen held ordered"
    and L: "causal sr_revision_id sr_parents L" "distinct (map sr_revision_id L)"
    and met: "i \<in> seen \<or> i \<in> D"
  shows "walk_ok L D starts rest seen held ordered"
proof -
  from ok have m: "marked L D ((i, False) # rest) seen held ordered"
    and w: "waiting L D ((i, False) # rest) ordered" and em: "emitted L D seen ordered"
    and st: "starts \<subseteq> D \<union> ids ordered \<union> fst ` set ((i, False) # rest)"
    by (simp_all add: walk_ok_def)
  have where_i: "i \<in> D \<union> ids ordered \<or> (i, True) \<in> set rest"
    using met m by (auto simp: marked_def)
  have "marked L D rest seen held ordered" using m by (auto simp: marked_def)
  moreover have "waiting L D rest ordered"
    unfolding waiting_def
  proof (intro allI impI conjI ballI)
    fix xs k ys assume eq: "rest = xs @ (k, True) # ys"
    then have eq': "(i, False) # rest = ((i, False) # xs) @ (k, True) # ys" by simp
    show "place sr_revision_id L q < place sr_revision_id L k" if "q \<in> fst ` set xs" for q
      using waiting_cases(1) [OF w eq', of q] that by auto
    show "set (sr_parents s) \<subseteq> D \<union> ids ordered \<union> fst ` set xs" if s: "s \<in> set L" "sr_revision_id s = k" for s
    proof -
      have sub: "set (sr_parents s) \<subseteq> insert i (D \<union> ids ordered \<union> fst ` set xs)"
        using waiting_cases(2) [OF w eq' s] by auto
      have "i \<in> D \<union> ids ordered \<union> fst ` set xs" if p: "i \<in> set (sr_parents s)"
      proof (rule ccontr)
        assume no: "i \<notin> D \<union> ids ordered \<union> fst ` set xs"
        from causal_place [OF L s(1) p] s(2)
        have older: "place sr_revision_id L i < place sr_revision_id L k" by simp
        from no where_i have "(i, True) \<in> set rest" by auto
        with no eq older have "(i, True) \<in> set ys" by (auto simp: image_iff)
        then obtain ys1 ys2 where "ys = ys1 @ (i, True) # ys2" by (meson split_list)
        with eq' have "(i, False) # rest = ((i, False) # xs @ (k, True) # ys1) @ (i, True) # ys2" by simp
        from waiting_cases(1) [OF w this, of k] older show False by simp
      qed
      with sub show ?thesis by auto
    qed
  qed
  moreover have "starts \<subseteq> D \<union> ids ordered \<union> fst ` set rest"
    using st where_i by force
  ultimately show ?thesis using em by (simp add: walk_ok_def)
qed

lemma split_past:
  "P @ x # rest = xs @ y # ys \<Longrightarrow> y \<notin> set P \<Longrightarrow>
     (xs = P \<and> y = x \<and> ys = rest) \<or> (\<exists>zs. xs = P @ x # zs \<and> rest = zs @ y # ys)"
proof (induction P arbitrary: xs)
  case Nil
  then show ?case by (cases xs) auto
next
  case (Cons a P)
  then show ?case by (cases xs) auto
qed

text \<open>Popping a revision for the first time expands it under its undelivered, unmet parents.\<close>

lemma walk_expand:
  assumes ok: "walk_ok L D starts ((i, False) # rest) seen held ordered"
    and L: "causal sr_revision_id sr_parents L" "distinct (map sr_revision_id L)"
    and new: "i \<notin> seen" "i \<notin> D" and r: "r \<in> set L" "sr_revision_id r = i"
    and P: "P = rev (map (\<lambda>p. (p, False)) (filter (\<lambda>p. p \<notin> D \<and> p \<notin> insert i seen) (sr_parents r)))"
  shows "walk_ok L D starts (P @ (i, True) # rest) (insert i seen) (dict_set i r held) ordered"
proof -
  let ?stack = "(i, False) # rest" and ?new = "P @ (i, True) # rest"
  from ok have m: "marked L D ?stack seen held ordered" and w: "waiting L D ?stack ordered"
    and em: "emitted L D seen ordered" and st: "starts \<subseteq> D \<union> ids ordered \<union> fst ` set ?stack"
    by (simp_all add: walk_ok_def)
  have parents: "p \<in> ids L \<and> place sr_revision_id L p < place sr_revision_id L i" if "p \<in> set (sr_parents r)" for p
    using causal_place [OF L r(1) that] r(2) by (simp add: ids_def)
  have P_ids: "fst ` set P = {p \<in> set (sr_parents r). p \<notin> D \<and> p \<notin> insert i seen}" by (auto simp: P image_image)
  have P_plain: "(k, True) \<notin> set P" and P_filter: "filter snd P = []" for k by (auto simp: P filter_empty_conv)
  have unmarked: "(i, True) \<notin> set rest" using m new by (auto simp: marked_def)
  have i: "i \<notin> ids ordered" using em new by (auto simp: emitted_def)
  have "marked L D ?new (insert i seen) (dict_set i r held) ordered"
    unfolding marked_def
  proof (intro conjI allI impI)
    show "fst ` set ?new \<subseteq> ids L" using m parents r P_ids by (auto simp: marked_def ids_def)
    show "distinct (map fst (filter snd ?new))" using m unmarked P_filter by (auto simp: marked_def)
    show "insert i seen \<subseteq> ids ordered \<union> {k. (k, True) \<in> set ?new}" using m by (auto simp: marked_def)
    fix k assume k: "(k, True) \<in> set ?new"
    then have "k = i \<or> (k, True) \<in> set rest" using P_plain by auto
    then show "\<exists>s. map_of (dict_set i r held) k = Some s \<and> s \<in> set L \<and> sr_revision_id s = k"
      "k \<in> insert i seen" "k \<notin> D" "k \<notin> ids ordered"
      using m r new i by (auto simp: marked_def)
  qed
  moreover have "waiting L D ?new ordered"
    unfolding waiting_def
  proof (intro allI impI conjI ballI)
    fix xs k ys assume eq: "?new = xs @ (k, True) # ys"
    from eq have split: "(xs = P \<and> k = i \<and> ys = rest)
        \<or> (\<exists>zs. xs = P @ (i, True) # zs \<and> rest = zs @ (k, True) # ys)"
      using split_past [OF eq P_plain] by auto
    from split consider (self) "xs = P" "k = i" "ys = rest"
      | (below) zs where "xs = P @ (i, True) # zs" "rest = zs @ (k, True) # ys"
      by blast
    then show "place sr_revision_id L q < place sr_revision_id L k" if q: "q \<in> fst ` set xs" for q
    proof cases
      case self
      with q have "q \<in> set (sr_parents r)" using P_ids by blast
      with parents self show ?thesis by blast
    next
      case below
      then have eq': "?stack = ((i, False) # zs) @ (k, True) # ys" by simp
      note older = waiting_cases(1) [OF w eq']
      from q below P_ids have "q \<in> set (sr_parents r) \<or> q = i \<or> q \<in> fst ` set zs" by auto
      then show ?thesis using parents [of q] older [of i] older [of q] by (auto intro: less_trans)
    qed
    show "set (sr_parents s) \<subseteq> D \<union> ids ordered \<union> fst ` set xs" if s: "s \<in> set L" "sr_revision_id s = k" for s
    proof -
    from split consider (self) "xs = P" "k = i" "ys = rest"
      | (below) zs where "xs = P @ (i, True) # zs" "rest = zs @ (k, True) # ys"
      by blast
    then show ?thesis
    proof cases
      case self
      then have "s = r" using same_key [OF L(2) s(1) r(1)] s(2) r(2) by simp
      have "p \<in> D \<union> ids ordered \<union> fst ` set xs" if p: "p \<in> set (sr_parents r)" for p
      proof (rule ccontr)
        assume no: "p \<notin> D \<union> ids ordered \<union> fst ` set xs"
        with self P_ids p have "p \<in> insert i seen" by auto
        with parents [OF p] have "p \<in> seen" by auto
        with m no have "(p, True) \<in> set rest" by (auto simp: marked_def)
        then obtain ys1 ys2 where "rest = ys1 @ (p, True) # ys2" by (meson split_list)
        then have "?stack = ((i, False) # ys1) @ (p, True) # ys2" by simp
        from waiting_cases(1) [OF w this, of i] parents [OF p] show False by simp
      qed
      with \<open>s = r\<close> show ?thesis by blast
    next
      case below
      then have "?stack = ((i, False) # zs) @ (k, True) # ys" by simp
      from waiting_cases(2) [OF w this s] below show ?thesis by auto
    qed
    qed
  qed
  moreover have "starts \<subseteq> D \<union> ids ordered \<union> fst ` set ?new" using st by auto
  moreover have "emitted L D (insert i seen) ordered" using em by (auto simp: emitted_def)
  ultimately show ?thesis by (simp add: walk_ok_def)
qed

lemma ancestor_walk_ok:
  "ancestor_walk L D stack seen held ordered = ([], out) \<Longrightarrow>
    causal sr_revision_id sr_parents L \<Longrightarrow> distinct (map sr_revision_id L) \<Longrightarrow>
    walk_ok L D starts stack seen held ordered \<Longrightarrow> \<exists>seen' held'. walk_ok L D starts [] seen' held' out"
proof (induction L D stack seen held ordered rule: ancestor_walk.induct)
  case (1 L D stack seen held ordered)
  note run = "1.prems"(1) and L = "1.prems"(2,3) and ok = "1.prems"(4)
  show ?case
  proof (cases stack)
    case Nil
    with run ok show ?thesis by (auto simp: ancestor_walk.simps)
  next
    case (Cons entry rest)
    then obtain i expanded where stack: "stack = (i, expanded) # rest" by (cases entry) auto
    with run have short: "\<not> MAX_UNDELIVERED_ANCESTORS \<le> length ordered"
      by (auto simp: stack ancestor_walk.simps [of L D "_ # _"])
    note ok = ok [unfolded stack] and run = run [unfolded stack ancestor_walk.simps [of L D "_ # _"], simplified short, simplified]
    note IH = "1.IH" [OF stack refl short]
    show ?thesis
    proof (cases expanded)
      case True
      with ok have "walk_ok L D starts ((i, True) # rest) seen held ordered" by simp
      then obtain r where "map_of held i = Some r" and "walk_ok L D starts rest seen held (ordered @ [r])"
        by (rule walk_emit)
      with True run IH(1) L show ?thesis by simp
    next
      case False
      with ok have plain: "walk_ok L D starts ((i, False) # rest) seen held ordered" by simp
      show ?thesis
      proof (cases "i \<in> seen \<or> i \<in> D")
        case True
        then have "walk_ok L D starts rest seen held ordered" by (rule walk_skip [OF plain L])
        with True False run IH(2) L show ?thesis by auto
      next
        case new: False
        from ok have "i \<in> sr_revision_id ` set L" by (simp add: walk_ok_def marked_def ids_def)
        then obtain r where r: "find (\<lambda>r. sr_revision_id r = i) L = Some r"
          by (cases "find (\<lambda>r. sr_revision_id r = i) L") (auto simp: find_None_iff)
        then have mem: "r \<in> set L" "sr_revision_id r = i" using find_mem [OF r] by auto
        show ?thesis
          using IH(4) [OF False new r] walk_expand [OF plain L _ _ mem refl] run False new r L by auto
      qed
    qed
  qed
qed

text \<open>Whatever the parents of a revision inherit, the revisions emitted have it when the starts do.\<close>

lemma ancestor_walk_closed:
  "ancestor_walk L D stack seen held ordered = (left, out) \<Longrightarrow>
    (\<And>r s. r \<in> set L \<Longrightarrow> s \<in> set L \<Longrightarrow> Q r \<Longrightarrow> sr_revision_id s \<in> set (sr_parents r) \<Longrightarrow> Q s) \<Longrightarrow>
    (\<And>i r. i \<in> fst ` set stack \<Longrightarrow> r \<in> set L \<Longrightarrow> sr_revision_id r = i \<Longrightarrow> Q r) \<Longrightarrow>
    (\<And>i r. map_of held i = Some r \<Longrightarrow> Q r) \<Longrightarrow> (\<And>r. r \<in> set ordered \<Longrightarrow> Q r) \<Longrightarrow> r \<in> set out \<Longrightarrow> Q r"
proof (induction L D stack seen held ordered rule: ancestor_walk.induct)
  case (1 L D stack seen held ordered)
  note run = "1.prems"(1) and closed = "1.prems"(2) and st = "1.prems"(3) and hd = "1.prems"(4)
    and od = "1.prems"(5) and mem = "1.prems"(6)
  show ?case
  proof (cases stack)
    case Nil
    with run od mem show ?thesis by (auto simp: ancestor_walk.simps)
  next
    case (Cons entry rest)
    then obtain i expanded where stack: "stack = (i, expanded) # rest" by (cases entry) auto
    note run = run [unfolded stack ancestor_walk.simps [of L D "_ # _"], simplified]
    show ?thesis
    proof (cases "MAX_UNDELIVERED_ANCESTORS \<le> length ordered")
      case True
      with run od mem show ?thesis by simp
    next
      case short: False
      note IH = "1.IH" [OF stack refl short]
      have rest: "Q r" if "k \<in> fst ` set rest" "r \<in> set L" "sr_revision_id r = k" for k r
        using st [of k r] that stack by auto
      consider (emit) expanded | (skip) "\<not> expanded" "i \<in> seen \<or> i \<in> D"
        | (none) "\<not> expanded" "\<not> (i \<in> seen \<or> i \<in> D)" "find (\<lambda>r. sr_revision_id r = i) L = None"
        | (expand) s where "\<not> expanded" "\<not> (i \<in> seen \<or> i \<in> D)" "find (\<lambda>r. sr_revision_id r = i) L = Some s"
        by (cases "find (\<lambda>r. sr_revision_id r = i) L") blast+
      then show ?thesis
      proof cases
        case emit
        show ?thesis
          by (rule IH(1) [OF emit _ closed rest hd _ mem])
            (use run short emit od hd in \<open>auto split: option.splits\<close>)
      next
        case skip
        show ?thesis
          by (rule IH(2) [OF skip _ closed rest hd od mem]) (use run short skip in auto)
      next
        case none
        show ?thesis
          by (rule IH(3) [OF none _ closed rest hd od mem]) (use run short none in auto)
      next
        case expand
        then have s: "s \<in> set L" "sr_revision_id s = i" using find_mem [OF expand(3)] by auto
        then have "Q s" using st [of i s] stack by simp
        have stack': "Q r" if "k \<in> fst ` set (rev (map (\<lambda>p. (p, False)) (filter (\<lambda>p. p \<notin> D \<and> p \<notin> insert i seen)
              (sr_parents s))) @ (i, True) # rest)" and r: "r \<in> set L" "sr_revision_id r = k" for k r
        proof -
          from that(1) have "k \<in> set (sr_parents s) \<or> k = i \<or> k \<in> fst ` set rest" by auto
          then show ?thesis using closed [OF s(1) r(1) \<open>Q s\<close>] st [of i r] rest [of k r] stack r by auto
        qed
        have held': "Q r" if "map_of (dict_set i s held) k = Some r" for k r
          using that hd \<open>Q s\<close> by (auto split: if_splits)
        show ?thesis
          by (rule IH(4) [OF expand _ closed stack' held' od mem]) (use run short expand in auto)
      qed
    qed
  qed
qed

text \<open>
  The undelivered ancestors of known parents: revisions of the ledger that were never delivered,
  each once and after its own undelivered parents, and with what is delivered they cover the
  parents.
\<close>

lemma undelivered_ancestors_ok:
  assumes run: "undelivered_ancestors a parents db = Some out"
    and L: "causal sr_revision_id sr_parents (revisions_of a db)" "distinct (map sr_revision_id (revisions_of a db))"
    and known: "set parents \<subseteq> ids (revisions_of a db)"
  shows "set out \<subseteq> set (revisions_of a db)" "ids out \<inter> ob_revision_id ` set (outbox_of a db) = {}"
    "distinct (map sr_revision_id out)"
    "causal sr_revision_id (\<lambda>r. filter (\<lambda>p. p \<notin> ob_revision_id ` set (outbox_of a db)) (sr_parents r)) out"
    "set parents \<subseteq> ob_revision_id ` set (outbox_of a db) \<union> ids out"
proof -
  let ?D = "ob_revision_id ` set (outbox_of a db)" and ?L = "revisions_of a db"
  let ?stack = "rev (map (\<lambda>p. (p, False)) (filter (\<lambda>p. p \<notin> ?D) parents))"
  from run have walk: "ancestor_walk ?L ?D ?stack {} [] [] = ([], out)"
    by (auto simp: undelivered_ancestors_def Let_def split: prod.splits if_splits)
  have plain: "(i, True) \<notin> set ?stack" and none: "filter snd ?stack = []" for i
    by (auto simp: filter_empty_conv)
  have ids: "fst ` set ?stack = {p \<in> set parents. p \<notin> ?D}" by (auto simp: image_image)
  have "marked ?L ?D ?stack {} [] []"
    unfolding marked_def none using plain ids known by auto
  moreover have "waiting ?L ?D ?stack []"
    unfolding waiting_def using plain by (metis in_set_conv_decomp)
  moreover have "set parents \<subseteq> ?D \<union> fst ` set ?stack" using ids by auto
  ultimately have "walk_ok ?L ?D (set parents) ?stack {} [] []"
    by (simp add: walk_ok_def emitted_def)
  from ancestor_walk_ok [OF walk L this] obtain seen' held'
    where "walk_ok ?L ?D (set parents) [] seen' held' out" by blast
  then show "set out \<subseteq> set ?L" "ids out \<inter> ?D = {}" "distinct (map sr_revision_id out)"
    "causal sr_revision_id (\<lambda>r. filter (\<lambda>p. p \<notin> ?D) (sr_parents r)) out" "set parents \<subseteq> ?D \<union> ids out"
    by (simp_all add: walk_ok_def emitted_def)
qed

lemma undelivered_ancestors_closed:
  assumes run: "undelivered_ancestors a parents db = Some out" and "r \<in> set out"
    and closed: "\<And>r s. r \<in> set (revisions_of a db) \<Longrightarrow> s \<in> set (revisions_of a db) \<Longrightarrow> Q r
      \<Longrightarrow> sr_revision_id s \<in> set (sr_parents r) \<Longrightarrow> Q s"
    and start: "\<And>s. s \<in> set (revisions_of a db) \<Longrightarrow> sr_revision_id s \<in> set parents \<Longrightarrow> Q s"
  shows "Q r"
proof -
  let ?D = "ob_revision_id ` set (outbox_of a db)"
  from run have walk: "ancestor_walk (revisions_of a db) ?D
      (rev (map (\<lambda>p. (p, False)) (filter (\<lambda>p. p \<notin> ?D) parents))) {} [] [] = ([], out)"
    by (auto simp: undelivered_ancestors_def Let_def split: prod.splits if_splits)
  show ?thesis
    by (rule ancestor_walk_closed [OF walk closed _ _ _ \<open>r \<in> set out\<close>]) (use start in auto)
qed

end
