(* ===== verification/SyncInvariant.thy ===== *)
theory SyncInvariant
  imports SyncProps
begin

text \<open>
  The invariant of one account's ledger, the three effects an event can have on it, and the proof
  that each keeps it. \<open>replay_stream\<close> is what a device knows after applying a stream in order: the last
  entry of every entity.
\<close>

section \<open>Replaying a stream\<close>

definition replay_stream :: "outbox_row list \<Rightarrow> string \<rightharpoonup> outbox_row" where
  "replay_stream out = foldl (\<lambda>known row. known(ob_entity_id row \<mapsto> row)) Map.empty out"

lemma replay_stream_Nil [simp]: "replay_stream [] = Map.empty"
  by (simp add: replay_stream_def)

lemma replay_stream_snoc [simp]: "replay_stream (out @ [row]) = (replay_stream out)(ob_entity_id row \<mapsto> row)"
  by (simp add: replay_stream_def)

lemma replay_stream_mem: "replay_stream out e = Some row \<Longrightarrow> row \<in> set out \<and> ob_entity_id row = e"
  by (induction out rule: rev_induct) (auto split: if_splits)

definition is_live_passport :: "outbox_row \<Rightarrow> bool" where
  "is_live_passport row \<longleftrightarrow> ob_entity_kind row = ''developer_passport'' \<and> ob_operation row \<noteq> ''tombstone''"

definition live_passports :: "outbox_row list \<Rightarrow> string set" where
  "live_passports out = {e. \<exists>row. replay_stream out e = Some row \<and> is_live_passport row}"

lemma live_Nil [simp]: "live_passports [] = {}"
  by (simp add: live_passports_def)

lemma live_snoc: "live_passports (out @ [row]) =
    (if is_live_passport row then insert (ob_entity_id row) (live_passports out)
     else live_passports out - {ob_entity_id row})"
  by (auto simp: live_passports_def split: if_splits)

text \<open>At no point of the stream is there a second one.\<close>

definition single_passport :: "outbox_row list \<Rightarrow> bool" where
  "single_passport out \<longleftrightarrow> (\<forall>n. \<forall>e \<in> live_passports (take n out). live_passports (take n out) = {e})"

lemma single_last: "single_passport out \<Longrightarrow> e \<in> live_passports out \<Longrightarrow> live_passports out = {e}"
  unfolding single_passport_def by (drule spec [of _ "length out"]) simp

lemma single_snoc:
  "single_passport (out @ [row]) \<longleftrightarrow>
     single_passport out \<and> (\<forall>e \<in> live_passports (out @ [row]). live_passports (out @ [row]) = {e})"
proof
  assume s: "single_passport (out @ [row])"
  have "\<forall>e \<in> live_passports (take n out). live_passports (take n out) = {e}" for n
    using s [unfolded single_passport_def, THEN spec, of n]
      s [unfolded single_passport_def, THEN spec, of "length out"]
    by (cases "n \<le> length out") simp_all
  moreover have "\<forall>e \<in> live_passports (out @ [row]). live_passports (out @ [row]) = {e}"
    using s [unfolded single_passport_def, THEN spec, of "Suc (length out)"] by simp
  ultimately show "single_passport out \<and> (\<forall>e \<in> live_passports (out @ [row]). live_passports (out @ [row]) = {e})"
    by (simp add: single_passport_def)
next
  assume s: "single_passport out \<and> (\<forall>e \<in> live_passports (out @ [row]). live_passports (out @ [row]) = {e})"
  show "single_passport (out @ [row])"
    unfolding single_passport_def
  proof
    fix n
    show "\<forall>e \<in> live_passports (take n (out @ [row])). live_passports (take n (out @ [row])) = {e}"
      by (cases "n \<le> length out") (use s in \<open>auto simp: single_passport_def take_Cons'\<close>)
  qed
qed

section \<open>The invariant\<close>

definition ledger_ok :: "sync_revision list \<Rightarrow> bool" where
  "ledger_ok L \<longleftrightarrow> distinct (map sr_revision_id L) \<and> causal sr_revision_id sr_parents L
     \<and> (\<forall>r \<in> set L. \<forall>s \<in> set L. sr_revision_id s \<in> set (sr_parents r) \<longrightarrow>
          sr_entity_id s = sr_entity_id r \<and> sr_entity_kind s = sr_entity_kind r)"

definition dense :: "outbox_row list \<Rightarrow> bool" where
  "dense out \<longleftrightarrow> map ob_sequence out = map int [1..<Suc (length out)]"

definition stream_ok :: "string \<Rightarrow> sync_revision list \<Rightarrow> outbox_row list \<Rightarrow> bool" where
  "stream_ok a L out \<longleftrightarrow> dense out \<and> distinct (map ob_event_id out) \<and> distinct (map ob_revision_id out)
     \<and> causal ob_revision_id ob_parents out \<and> single_passport out
     \<and> (\<forall>row \<in> set out. \<exists>r \<in> set L. row = outbox_row_of a (ob_sequence row) r)"

definition heads_ok :: "sync_head list \<Rightarrow> outbox_row list \<Rightarrow> bool" where
  "heads_ok hs out \<longleftrightarrow> distinct (map eh_entity_id hs)
     \<and> map_of (map (\<lambda>h. (eh_entity_id h, eh_revision_id h)) hs) = map_option ob_revision_id \<circ> replay_stream out"

definition account_ok :: "string \<Rightarrow> sync_db \<Rightarrow> bool" where
  "account_ok a db \<longleftrightarrow> ledger_ok (revisions_of a db) \<and> stream_ok a (revisions_of a db) (outbox_of a db)
     \<and> heads_ok (heads_of a db) (outbox_of a db) \<and> distinct (map rr_idempotency_key (receipts_of a db))"

lemma ledger_snoc:
  assumes "ledger_ok L" and "sr_revision_id r \<notin> ids L"
    and "\<And>p. p \<in> set (sr_parents r) \<Longrightarrow> \<exists>s \<in> set L. sr_revision_id s = p \<and> sr_entity_id s = sr_entity_id r
      \<and> sr_entity_kind s = sr_entity_kind r"
  shows "ledger_ok (L @ [r])"
proof -
  have parents: "set (sr_parents r) \<subseteq> ids L" using assms(3) by (force simp: ids_def)
  have fresh: "sr_revision_id r \<notin> set (sr_parents s)" if "s \<in> set L" for s
    using assms(1,2) causal_deps that by (fastforce simp: ledger_ok_def ids_def)
  have inherit: "sr_entity_id s = sr_entity_id r \<and> sr_entity_kind s = sr_entity_kind r"
    if "s \<in> set L" "sr_revision_id s \<in> set (sr_parents r)" for s
  proof -
    from assms(3) [OF that(2)] obtain t where "t \<in> set L" "sr_revision_id t = sr_revision_id s"
      "sr_entity_id t = sr_entity_id r" "sr_entity_kind t = sr_entity_kind r" by blast
    with assms(1) that(1) same_key [of sr_revision_id L t s] show ?thesis by (auto simp: ledger_ok_def)
  qed
  have "sr_revision_id r \<notin> set (sr_parents r)" using parents assms(2) by auto
  with assms(1,2) parents fresh inherit show ?thesis
    unfolding ledger_ok_def by (auto simp: causal_snoc ids_def)
qed

lemma dense_snoc: "dense (out @ [row]) \<longleftrightarrow> dense out \<and> ob_sequence row = int (length out) + 1"
  by (auto simp: dense_def)

lemma heads_entity:
  "heads_ok hs out \<Longrightarrow> h \<in> set hs \<Longrightarrow> \<exists>row. replay_stream out (eh_entity_id h) = Some row \<and> ob_revision_id row = eh_revision_id h"
proof -
  assume ok: "heads_ok hs out" and h: "h \<in> set hs"
  then have "map_of (map (\<lambda>h. (eh_entity_id h, eh_revision_id h)) hs) (eh_entity_id h) = Some (eh_revision_id h)"
    by (intro map_of_is_SomeI) (auto simp: heads_ok_def comp_def)
  with ok show ?thesis by (auto simp: heads_ok_def)
qed

section \<open>What one event can do\<close>

text \<open>Consecutive sequence numbers for the revisions delivered together.\<close>

fun numbered :: "string \<Rightarrow> int \<Rightarrow> sync_revision list \<Rightarrow> outbox_row list" where
  "numbered a n [] = []"
| "numbered a n (r # rs) = outbox_row_of a (n + 1) r # numbered a (n + 1) rs"

definition moved_heads :: "string \<Rightarrow> sync_event \<Rightarrow> string option \<Rightarrow> time \<Rightarrow> sync_head list \<Rightarrow> sync_head list" where
  "moved_heads a e current now hs =
     (case current of
        None \<Rightarrow> hs @ [\<lparr>eh_account_id = a, eh_entity_id = se_entity_id e, eh_revision_id = se_revision_id e,
                      eh_updated_at = now\<rparr>]
      | Some _ \<Rightarrow> update_where (\<lambda>h. eh_account_id h = a \<and> eh_entity_id h = se_entity_id e)
                   (\<lambda>h. h\<lparr>eh_revision_id := se_revision_id e, eh_updated_at := now\<rparr>) hs)"

definition same_ledger :: "sync_db \<Rightarrow> sync_db \<Rightarrow> bool" where
  "same_ledger db db' \<longleftrightarrow> sy_revisions db' = sy_revisions db \<and> sy_heads db' = sy_heads db \<and> sy_outbox db' = sy_outbox db"

definition receipted :: "string \<Rightarrow> sync_event \<Rightarrow> string \<Rightarrow> event_receipt \<Rightarrow> sync_db \<Rightarrow> sync_db \<Rightarrow> bool" where
  "receipted a e fingerprint receipt db db' \<longleftrightarrow>
     se_idempotency_key e \<notin> rr_idempotency_key ` set (receipts_of a db) \<and>
     sy_receipts db' = sy_receipts db @
       [\<lparr>rr_account_id = a, rr_idempotency_key = se_idempotency_key e, rr_request_fingerprint = fingerprint,
         rr_event_id = se_event_id e, rr_device_id = se_device_id e, rr_state = er_state receipt,
         rr_revision_id = er_revision_id receipt, rr_server_head = er_server_head receipt,
         rr_response_body = receipt\<rparr>] \<and>
     sy_accounts db' = sy_accounts db \<and> sy_devices db' = sy_devices db"

text \<open>What the checks before an acceptance establish.\<close>

definition acceptable :: "string \<Rightarrow> sync_event \<Rightarrow> string option \<Rightarrow> sync_revision list \<Rightarrow> sync_db \<Rightarrow> bool" where
  "acceptable a e current undelivered db \<longleftrightarrow>
     (\<exists>row. lock_head a (se_entity_id e) db = Inr row \<and> current = map_option eh_revision_id row) \<and>
     get_revision a (se_revision_id e) db = None \<and> second_identity a e db = None \<and>
     bad_parent a e (se_parents e) db = None \<and>
     can_accept_head_transition current (se_expected_head e) (se_parents e) \<and>
     undelivered_ancestors a (se_parents e) db = Some undelivered \<and>
     distinct (map sr_event_id undelivered) \<and> se_event_id e \<notin> sr_event_id ` set undelivered \<and>
     insert (se_event_id e) (sr_event_id ` set undelivered) \<inter> ob_event_id ` set (outbox_of a db) = {}"

text \<open>
  The specification of \<open>apply_one\<close>: a replayed receipt, a refusal that writes nothing, a receipt that
  leaves the ledger alone, a revision kept back, or a delivery.
\<close>

inductive event_outcome :: "sync_env \<Rightarrow> string \<Rightarrow> sync_event \<Rightarrow> string \<Rightarrow> time \<Rightarrow> sync_db
    \<Rightarrow> sync_failure + event_receipt \<Rightarrow> sync_db \<Rightarrow> bool"
  for env a e fingerprint now db where
  replayed: "stored \<in> set (receipts_of a db) \<Longrightarrow> rr_idempotency_key stored = se_idempotency_key e
    \<Longrightarrow> rr_request_fingerprint stored = fingerprint
    \<Longrightarrow> event_outcome env a e fingerprint now db (Inr (rr_response_body stored)) db"
| refused: "f \<noteq> Refused IntegrityError \<Longrightarrow> (\<forall>s. f \<noteq> Refused (SqlError s))
    \<Longrightarrow> event_outcome env a e fingerprint now db (Inl f) db"
| settled: "receipted a e fingerprint receipt db db' \<Longrightarrow> same_ledger db db' \<Longrightarrow> er_state receipt \<noteq> ''accepted''
    \<Longrightarrow> event_outcome env a e fingerprint now db (Inr receipt) db'"
| kept: "receipted a e fingerprint receipt db db' \<Longrightarrow> er_state receipt \<noteq> ''accepted''
    \<Longrightarrow> validate_event_document (sv_text env) (sv_models env) e = Inr document
    \<Longrightarrow> get_revision a (se_revision_id e) db = None \<Longrightarrow> bad_parent a e (se_parents e) db = None
    \<Longrightarrow> sy_revisions db' = sy_revisions db @ [revision_from_event a e (se_parents e) created]
    \<Longrightarrow> sy_heads db' = sy_heads db \<Longrightarrow> sy_outbox db' = sy_outbox db
    \<Longrightarrow> event_outcome env a e fingerprint now db (Inr receipt) db'"
| delivered: "receipted a e fingerprint (accepted e cursor) db db'
    \<Longrightarrow> validate_event_document (sv_text env) (sv_models env) e = Inr document
    \<Longrightarrow> acceptable a e current undelivered db \<Longrightarrow> parse_timestamp (se_created_at e) = Some created
    \<Longrightarrow> r = revision_from_event a e (se_parents e) created
    \<Longrightarrow> encode_sync_cursor (sv_cursor env) a (int (length (outbox_of a db) + length undelivered) + 1) = Inr cursor
    \<Longrightarrow> sy_revisions db' = sy_revisions db @ [r]
    \<Longrightarrow> sy_heads db' = moved_heads a e current now (sy_heads db)
    \<Longrightarrow> sy_outbox db' = sy_outbox db @ numbered a (int (length (outbox_of a db))) (undelivered @ [r])
    \<Longrightarrow> event_outcome env a e fingerprint now db (Inr (accepted e cursor)) db'"

lemma next_sequence_dense: "dense (outbox_of a db) \<Longrightarrow> next_sequence a db = int (length (outbox_of a db)) + 1"
proof -
  have "foldl max 0 (map int [1..<Suc n]) = int n" for n by (induction n) auto
  then show "dense (outbox_of a db) \<Longrightarrow> ?thesis" by (simp add: next_sequence_def dense_def del: upt_Suc)
qed

lemma dense_bound: "dense out \<Longrightarrow> row \<in> set out \<Longrightarrow> ob_sequence row \<le> int (length out)"
proof -
  assume d: "dense out" and "row \<in> set out"
  then have "ob_sequence row \<in> set (map ob_sequence out)" by simp
  with d show ?thesis unfolding dense_def by (auto simp del: upt_Suc)
qed

lemma outbox_row_simps [simp]:
  "ob_account_id (outbox_row_of a n r) = a" "ob_sequence (outbox_row_of a n r) = n"
  "ob_event_id (outbox_row_of a n r) = sr_event_id r" "ob_entity_id (outbox_row_of a n r) = sr_entity_id r"
  "ob_entity_kind (outbox_row_of a n r) = sr_entity_kind r" "ob_revision_id (outbox_row_of a n r) = sr_revision_id r"
  "ob_parents (outbox_row_of a n r) = sr_parents r" "ob_operation (outbox_row_of a n r) = sr_operation r"
  "ob_payload (outbox_row_of a n r) = sr_payload r"
  by (simp_all add: outbox_row_of_def)

lemma numbered_append:
  "numbered a n (rs @ ss) = numbered a n rs @ numbered a (n + int (length rs)) ss"
  by (induction rs arbitrary: n) (auto simp: algebra_simps)

lemma length_numbered [simp]: "length (numbered a n rs) = length rs"
  by (induction rs arbitrary: n) auto

lemma numbered_account: "row \<in> set (numbered a n rs) \<Longrightarrow> ob_account_id row = a"
  by (induction rs arbitrary: n) auto

lemma outbox_of_numbered [simp]:
  "filter (\<lambda>row. ob_account_id row = b) (numbered a n rs) = (if b = a then numbered a n rs else [])"
  by (induction rs arbitrary: n) auto

text \<open>An INSERT with the next sequence number and a new event id succeeds.\<close>

lemma add_outbox_next:
  assumes "dense (outbox_of a db)" and "sr_event_id r \<notin> ob_event_id ` set (outbox_of a db)"
  shows "add_outbox (outbox_row_of a (next_sequence a db) r) db
    = Inr (db\<lparr>sy_outbox := sy_outbox db @ [outbox_row_of a (int (length (outbox_of a db)) + 1) r]\<rparr>)"
  using assms dense_bound [OF assms(1)] by (fastforce simp: add_outbox_def next_sequence_dense)

lemma enqueue_ancestors_ok:
  assumes "dense (outbox_of a db)" and "distinct (map sr_event_id rs)"
    and "sr_event_id ` set rs \<inter> ob_event_id ` set (outbox_of a db) = {}"
  shows "enqueue_ancestors a rs db
    = Inr (db\<lparr>sy_outbox := sy_outbox db @ numbered a (int (length (outbox_of a db))) rs\<rparr>)"
  using assms
proof (induction rs arbitrary: db)
  case (Cons r rs)
  let ?row = "outbox_row_of a (int (length (outbox_of a db)) + 1) r"
  let ?db = "db\<lparr>sy_outbox := sy_outbox db @ [?row]\<rparr>"
  have out: "outbox_of a ?db = outbox_of a db @ [?row]" by (simp add: outbox_of_def)
  have "add_outbox (outbox_row_of a (next_sequence a db) r) db = Inr ?db"
    using Cons.prems by (intro add_outbox_next) auto
  moreover have "enqueue_ancestors a rs ?db
      = Inr (?db\<lparr>sy_outbox := sy_outbox ?db @ numbered a (int (length (outbox_of a ?db))) rs\<rparr>)"
    using Cons.prems by (intro Cons.IH) (auto simp: out dense_snoc)
  moreover have "int (length (outbox_of a ?db)) = int (length (outbox_of a db)) + 1" by (simp add: out)
  ultimately show ?case by simp
qed simp

lemma get_revision_none: "get_revision a i db = None \<longleftrightarrow> i \<notin> ids (revisions_of a db)"
  by (auto simp: get_revision_def find_None_iff ids_def)

lemma get_revision_some: "get_revision a i db = Some r \<Longrightarrow> r \<in> set (revisions_of a db) \<and> sr_revision_id r = i"
  unfolding get_revision_def by (rule find_mem)

lemma lock_head_none: "lock_head a entity db = Inr None \<Longrightarrow> entity \<notin> eh_entity_id ` set (heads_of a db)"
  by (auto simp: lock_head_def scalar_one_or_none_cases filter_empty_conv split: list.splits)

lemma revision_fields [simp]:
  "sr_account_id (revision_from_event a e ps t) = a" "sr_revision_id (revision_from_event a e ps t) = se_revision_id e"
  "sr_entity_id (revision_from_event a e ps t) = se_entity_id e"
  "sr_entity_kind (revision_from_event a e ps t) = se_entity_kind e"
  "sr_parents (revision_from_event a e ps t) = ps" "sr_event_id (revision_from_event a e ps t) = se_event_id e"
  "sr_operation (revision_from_event a e ps t) = se_operation e"
  "sr_payload (revision_from_event a e ps t) = se_payload e"
  by (simp_all add: revision_from_event_def)

lemma add_revision_new:
  "get_revision a (se_revision_id e) db = None \<Longrightarrow>
     add_revision (revision_from_event a e ps t) db
       = Inr (db\<lparr>sy_revisions := sy_revisions db @ [revision_from_event a e ps t]\<rparr>)"
  by (simp add: get_revision_none add_revision_def ids_def)

text \<open>The writes of an acceptance succeed.\<close>

lemma accept_writes_ok:
  fixes created :: datetime
  assumes ok: "dense (outbox_of a db)" and acc: "acceptable a e current undelivered db"
  defines "r \<equiv> revision_from_event a e (se_parents e) created"
  defines "n \<equiv> length (outbox_of a db)"
  shows "accept_writes a e current undelivered created now db =
    Inr (db\<lparr>sy_revisions := sy_revisions db @ [r], sy_heads := moved_heads a e current now (sy_heads db),
           sy_outbox := sy_outbox db @ numbered a (int n) (undelivered @ [r])\<rparr>, int (n + length undelivered) + 1)"
proof -
  define db1 where "db1 = db\<lparr>sy_outbox := sy_outbox db @ numbered a (int n) undelivered\<rparr>"
  define db2 where "db2 = db1\<lparr>sy_revisions := sy_revisions db @ [r]\<rparr>"
  define db3 where "db3 = db2\<lparr>sy_heads := moved_heads a e current now (sy_heads db)\<rparr>"
  from acc obtain row where row: "lock_head a (se_entity_id e) db = Inr row" "current = map_option eh_revision_id row"
    and fresh: "get_revision a (se_revision_id e) db = None"
    and ev: "distinct (map sr_event_id undelivered)" "se_event_id e \<notin> sr_event_id ` set undelivered"
      "insert (se_event_id e) (sr_event_id ` set undelivered) \<inter> ob_event_id ` set (outbox_of a db) = {}"
    by (auto simp: acceptable_def)
  have 1: "enqueue_ancestors a undelivered db = Inr db1"
    unfolding db1_def n_def using ok ev by (intro enqueue_ancestors_ok) auto
  have out1: "outbox_of a db1 = outbox_of a db @ numbered a (int n) undelivered"
    by (simp add: db1_def outbox_of_def)
  have dense1: "dense (outbox_of a db1)"
  proof -
    have "dense (out @ numbered a (int (length out)) rs)" if "dense out" for out rs
      using that
    proof (induction rs arbitrary: out)
      case (Cons s rs)
      have "dense ((out @ [outbox_row_of a (int (length out) + 1) s])
          @ numbered a (int (length (out @ [outbox_row_of a (int (length out) + 1) s]))) rs)"
        by (rule Cons.IH) (simp add: dense_snoc Cons.prems)
      then show ?case by (simp add: add.commute)
    qed simp
    from this [OF ok] show ?thesis by (simp add: out1 n_def)
  qed
  have 2: "add_revision r db1 = Inr db2"
    using add_revision_new [of a e db1] fresh
    by (simp add: r_def db2_def db1_def get_revision_def revisions_of_def)
  have 3: "move_head a e current now db2 = Inr db3"
  proof (cases current)
    case None
    with row have "se_entity_id e \<notin> eh_entity_id ` set (heads_of a db)" by (simp add: lock_head_none)
    with None show ?thesis
      by (simp add: move_head_def add_head_def moved_heads_def db3_def db2_def db1_def heads_of_def)
  next
    case (Some h)
    then show ?thesis by (simp add: move_head_def moved_heads_def db3_def db2_def db1_def)
  qed
  have out3: "outbox_of a db3 = outbox_of a db1" by (simp add: db3_def db2_def outbox_of_def)
  have events: "ob_event_id ` set (numbered a m rs) = sr_event_id ` set rs" for m rs
    by (induction rs arbitrary: m) auto
  have seq: "next_sequence a db1 = next_sequence a db3" by (simp add: next_sequence_def out3)
  have "add_outbox (outbox_row_of a (next_sequence a db3) r) db3
      = Inr (db3\<lparr>sy_outbox := sy_outbox db3 @ [outbox_row_of a (int (length (outbox_of a db3)) + 1) r]\<rparr>)"
    using dense1 ev by (intro add_outbox_next) (auto simp: out3 out1 events image_Un r_def)
  moreover have "int (length (outbox_of a db3)) + 1 = int (n + length undelivered) + 1"
    by (simp add: out3 out1 n_def)
  moreover have "next_sequence a db1 = int (n + length undelivered) + 1"
    using next_sequence_dense [OF dense1] by (simp add: out1 n_def)
  ultimately show ?thesis
    unfolding accept_writes_def 1 and_then_simps Let_def r_def [symmetric] 2 3 seq
    by (simp add: db3_def db2_def db1_def numbered_append seq)
qed

section \<open>\<open>apply_one\<close> implements the specification\<close>

lemma settle_new:
  assumes "settle a e fingerprint receipt action table target payload db = (res, db')"
    and "se_idempotency_key e \<notin> rr_idempotency_key ` set (receipts_of a db)"
  shows "res = Inr receipt \<and> receipted a e fingerprint receipt db db' \<and> same_ledger db db'"
  using assms
  by (auto simp: settle_def store_receipt_def add_receipt_def log_event_def receipted_def same_ledger_def)

lemma load_receipt_none: "load_receipt a key db = Inr None \<Longrightarrow> key \<notin> rr_idempotency_key ` set (receipts_of a db)"
  by (auto simp: load_receipt_def scalar_one_or_none_cases filter_empty_conv split: list.splits)

lemma at_most_one: "distinct (map h xs) \<Longrightarrow> scalar_one_or_none (filter (\<lambda>x. h x = k) xs) \<noteq> Inl err"
proof (cases "k \<in> h ` set xs")
  case True
  then obtain x where "x \<in> set xs" "h x = k" by blast
  then show "distinct (map h xs) \<Longrightarrow> ?thesis" using filter_distinct_key [of h xs x] by auto
qed (simp add: filter_no_key)

lemmas states = rejected_def conflicted_def superseded_def accepted_def

lemma settled_outcome:
  assumes "settle a e fingerprint receipt action table target payload db = (res, db')"
    and "se_idempotency_key e \<notin> rr_idempotency_key ` set (receipts_of a db)"
    and "er_state receipt \<noteq> ''accepted''"
  shows "event_outcome env a e fingerprint now db res db'"
  using settle_new [OF assms(1,2)] assms(3) by (auto intro: event_outcome.settled)

text \<open>A receipt after the revision was stored.\<close>

lemma kept_outcome:
  assumes run: "settle a e fingerprint receipt action table target payload
      (db\<lparr>sy_revisions := sy_revisions db @ [revision_from_event a e (se_parents e) created]\<rparr>) = (res, db')"
    and key: "se_idempotency_key e \<notin> rr_idempotency_key ` set (receipts_of a db)"
    and "er_state receipt \<noteq> ''accepted''"
    and "validate_event_document (sv_text env) (sv_models env) e = Inr document"
    and "get_revision a (se_revision_id e) db = None" and "bad_parent a e (se_parents e) db = None"
  shows "event_outcome env a e fingerprint now db res db'"
proof -
  let ?db = "db\<lparr>sy_revisions := sy_revisions db @ [revision_from_event a e (se_parents e) created]\<rparr>"
  have "receipts_of a ?db = receipts_of a db" by (simp add: receipts_of_def)
  with settle_new [OF run] key have "res = Inr receipt \<and> receipted a e fingerprint receipt ?db db' \<and> same_ledger ?db db'"
    by simp
  moreover from this have "receipted a e fingerprint receipt db db'"
    by (simp add: receipted_def receipts_of_def)
  ultimately show ?thesis
    using assms(3-6) by (auto simp: same_ledger_def intro: event_outcome.kept)
qed

lemma no_event_clash:
  "\<not> list_ex (\<lambda>r. g r \<in> set (x # map f us)) out \<longleftrightarrow> insert x (f ` set us) \<inter> g ` set out = {}"
proof -
  have "list_ex (\<lambda>r. g r \<in> set (x # map f us)) out \<longleftrightarrow> (\<exists>r \<in> set out. g r \<in> insert x (f ` set us))"
    by (simp add: list_ex_iff)
  also have "\<dots> \<longleftrightarrow> insert x (f ` set us) \<inter> g ` set out \<noteq> {}" by (auto, metis image_eqI)
  finally show ?thesis by simp
qed

lemma deliver_outcome:
  assumes run: "deliver env a e fingerprint current now db = (res, db')"
    and ok: "account_ok a db"
    and key: "se_idempotency_key e \<notin> rr_idempotency_key ` set (receipts_of a db)"
    and doc: "validate_event_document (sv_text env) (sv_models env) e = Inr document"
    and fresh: "get_revision a (se_revision_id e) db = None" and parents: "bad_parent a e (se_parents e) db = None"
    and second: "second_identity a e db = None"
    and row: "lock_head a (se_entity_id e) db = Inr row" "current = map_option eh_revision_id row"
    and can: "can_accept_head_transition current (se_expected_head e) (se_parents e)"
  shows "event_outcome env a e fingerprint now db res db'"
proof (cases "parse_timestamp (se_created_at e)")
  case None
  with run show ?thesis by (auto simp: deliver_def intro: event_outcome.refused)
next
  case time: (Some created)
  let ?r = "revision_from_event a e (se_parents e) created"
  show ?thesis
  proof (cases "undelivered_ancestors a (se_parents e) db")
    case None
    with run time fresh have "reject_for a e fingerprint current [(''reason'', JStr ''ancestor_backlog'')]
        (db\<lparr>sy_revisions := sy_revisions db @ [?r]\<rparr>) = (res, db')"
      by (simp add: deliver_def add_revision_new)
    then show ?thesis
      unfolding reject_for_def settle_rejected_def
      by (rule kept_outcome [OF _ key _ doc fresh parents]) (simp add: states)
  next
    case und: (Some undelivered)
    show ?thesis
    proof (cases "acceptable a e current undelivered db")
      case False
      then have "\<not> distinct (map sr_event_id undelivered) \<or> se_event_id e \<in> sr_event_id ` set undelivered
          \<or> insert (se_event_id e) (sr_event_id ` set undelivered) \<inter> ob_event_id ` set (outbox_of a db) \<noteq> {}"
        using assms und unfolding acceptable_def by blast
      then have "\<not> distinct (map sr_event_id undelivered) \<or> se_event_id e \<in> set (map sr_event_id undelivered)
          \<or> list_ex (\<lambda>r. ob_event_id r \<in> set (se_event_id e # map sr_event_id undelivered)) (outbox_of a db)"
        using no_event_clash [of ob_event_id "se_event_id e" sr_event_id undelivered "outbox_of a db"]
        by (simp only: set_map) blast
      then have "reject_for a e fingerprint current [(''reason'', JStr ''event_id_collision'')] db = (res, db')"
        using run time und unfolding deliver_def Let_def
        by (auto split: if_splits)
      then show ?thesis
        unfolding reject_for_def settle_rejected_def by (rule settled_outcome [OF _ key]) (simp add: states)
    next
      case acc: True
      let ?n = "length (outbox_of a db)"
      let ?db = "db\<lparr>sy_revisions := sy_revisions db @ [?r], sy_heads := moved_heads a e current now (sy_heads db),
           sy_outbox := sy_outbox db @ numbered a (int ?n) (undelivered @ [?r])\<rparr>"
      have dense: "dense (outbox_of a db)" using ok by (simp add: account_ok_def stream_ok_def)
      have ev: "distinct (map sr_event_id undelivered)" "se_event_id e \<notin> sr_event_id ` set undelivered"
        "\<not> list_ex (\<lambda>r. ob_event_id r \<in> set (se_event_id e # map sr_event_id undelivered)) (outbox_of a db)"
        using acc no_event_clash [of ob_event_id "se_event_id e" sr_event_id undelivered "outbox_of a db"]
        by (simp_all add: acceptable_def)
      have run': "accept env a e fingerprint current undelivered created now db = (res, db')"
        using run time und ev by (simp add: deliver_def)
      show ?thesis
      proof (cases "encode_sync_cursor (sv_cursor env) a (int (?n + length undelivered) + 1)")
        case (Inl m)
        with run' accept_writes_ok [OF dense acc] show ?thesis
          by (auto simp: accept_def intro: event_outcome.refused)
      next
        case (Inr cursor)
        with run' accept_writes_ok [OF dense acc, of created now]
        have fin: "settle a e fingerprint (accepted e cursor) ''sync.event_accepted'' ''sync_revision'' (se_revision_id e)
            (entity_facts ''accepted'' e
             @ [(''operation'', JStr (se_operation e)), (''sequence'', JInt (int (?n + length undelivered) + 1))]) ?db
            = (res, db')"
          by (simp add: accept_def)
        have "receipts_of a ?db = receipts_of a db" by (simp add: receipts_of_def)
        with settle_new [OF fin] key
        have s: "res = Inr (accepted e cursor)" "receipted a e fingerprint (accepted e cursor) ?db db'" "same_ledger ?db db'"
          by simp_all
        from s(2) have "receipted a e fingerprint (accepted e cursor) db db'"
          by (simp add: receipted_def receipts_of_def)
        then show ?thesis
          unfolding s(1) by (rule event_outcome.delivered [OF _ doc acc time refl Inr])
            (use s(3) in \<open>simp_all add: same_ledger_def\<close>)
      qed
    qed
  qed
qed

lemma new_revision_outcome:
  assumes run: "new_revision env a e fingerprint current now db = (res, db')"
    and ok: "account_ok a db"
    and key: "se_idempotency_key e \<notin> rr_idempotency_key ` set (receipts_of a db)"
    and doc: "validate_event_document (sv_text env) (sv_models env) e = Inr document"
    and fresh: "get_revision a (se_revision_id e) db = None"
    and row: "lock_head a (se_entity_id e) db = Inr row" "current = map_option eh_revision_id row"
  shows "event_outcome env a e fingerprint now db res db'"
proof (cases "second_identity a e db")
  case (Some held)
  with run show ?thesis
    by (auto simp: new_revision_def settle_rejected_def states intro: settled_outcome [OF _ key])
next
  case second: None
  show ?thesis
  proof (cases "bad_parent a e (se_parents e) db")
    case (Some why)
    with run second show ?thesis
      by (auto simp: new_revision_def reject_for_def settle_rejected_def states intro: settled_outcome [OF _ key])
  next
    case parents: None
    show ?thesis
    proof (cases "can_accept_head_transition current (se_expected_head e) (se_parents e)")
      case True
      with run second parents have "deliver env a e fingerprint current now db = (res, db')"
        by (simp add: new_revision_def)
      then show ?thesis using deliver_outcome ok key doc fresh parents second row True by blast
    next
      case False
      with run second parents have kc: "keep_conflict a e fingerprint current db = (res, db')"
        by (simp add: new_revision_def)
      show ?thesis
      proof (cases "parse_timestamp (se_created_at e)")
        case None
        with kc show ?thesis by (auto simp: keep_conflict_def Let_def intro: event_outcome.refused)
      next
        case (Some created)
        with kc fresh obtain info where "settle_conflict a e fingerprint current info
            (db\<lparr>sy_revisions := sy_revisions db @ [revision_from_event a e (se_parents e) created]\<rparr>) = (res, db')"
          by (auto simp: keep_conflict_def Let_def add_revision_new)
        then show ?thesis
          unfolding settle_conflict_def
          by (rule kept_outcome [OF _ key _ doc fresh parents]) (simp add: states)
      qed
    qed
  qed
qed

lemma apply_first_outcome:
  assumes run: "apply_first env a e fingerprint now db = (res, db')" and ok: "account_ok a db"
  shows "event_outcome env a e fingerprint now db res db'"
proof (cases "load_receipt a (se_idempotency_key e) db")
  case (Inl err)
  with ok show ?thesis by (simp add: load_receipt_def account_ok_def at_most_one)
next
  case loaded: (Inr found)
  show ?thesis
  proof (cases found)
    case (Some stored)
    with loaded have "stored \<in> set (receipts_of a db)" "rr_idempotency_key stored = se_idempotency_key e"
      by (auto simp: load_receipt_def dest: scalar_one_or_none_mem)
    with run loaded Some show ?thesis
      by (auto simp: apply_first_def refuse_def split: if_splits
          intro: event_outcome.replayed event_outcome.refused)
  next
    case None
    with loaded have key: "se_idempotency_key e \<notin> rr_idempotency_key ` set (receipts_of a db)"
      by (simp add: load_receipt_none)
    show ?thesis
    proof (cases "validate_event_document (sv_text env) (sv_models env) e")
      case (Inl why)
      with run loaded None show ?thesis
        by (cases why) (auto simp: apply_first_def settle_rejected_def states
            intro: event_outcome.refused settled_outcome [OF _ key])
    next
      case doc: (Inr document)
      with run loaded None have run': "apply_valid env a e fingerprint now db = (res, db')"
        by (simp add: apply_first_def)
      obtain row where row: "lock_head a (se_entity_id e) db = Inr row"
        using ok at_most_one [of eh_entity_id "heads_of a db"]
        by (cases "lock_head a (se_entity_id e) db") (auto simp: lock_head_def account_ok_def heads_ok_def)
      show ?thesis
      proof (cases "get_revision a (se_revision_id e) db")
        case fresh: None
        with run' row have "new_revision env a e fingerprint (map_option eh_revision_id row) now db = (res, db')"
          by (simp add: apply_valid_def)
        then show ?thesis by (rule new_revision_outcome [OF _ ok key doc fresh row refl])
      next
        case (Some r)
        with run' row have "known_revision a e fingerprint (map_option eh_revision_id row) db = (res, db')"
          by (simp add: apply_valid_def)
        then show ?thesis
          by (auto simp: known_revision_def settle_conflict_def Let_def states split: if_splits
              intro: settled_outcome [OF _ key])
      qed
    qed
  qed
qed

text \<open>The whole transaction, over the ledger of the session's account.\<close>

lemma apply_one_outcome:
  assumes run: "apply_one env ctx device e now db = (res, db')" and ok: "account_ok (sx_account_id ctx) db"
  shows "\<exists>fingerprint. event_outcome env (sx_account_id ctx) e fingerprint now db res db'"
proof (cases "request_fingerprint (sv_text env) (event_dump e)")
  case (Inl m)
  with run show ?thesis by (auto simp: apply_one_def intro: event_outcome.refused)
next
  case (Inr fingerprint)
  show ?thesis
  proof (cases "apply_first env (sx_account_id ctx) e fingerprint now db = (res, db')")
    case True
    then show ?thesis using apply_first_outcome ok by blast
  next
    case False
    with run Inr have "res \<noteq> Inl (Refused IntegrityError) \<and> db' = db \<and> (\<exists>f. res = Inl f \<and> (\<forall>s. f \<noteq> Refused (SqlError s)))"
      by (auto simp: apply_one_def refuse_def lock_account_def split: if_splits)
    then show ?thesis by (auto intro: event_outcome.refused)
  qed
qed

end
