(* ===== verification/SyncTheorems.thy ===== *)
theory SyncTheorems
  imports SyncInvariant
begin

text \<open>
  Every event keeps the invariant of every account, the reachable databases satisfy it, and the
  properties of the ledger and of its stream.
\<close>

section \<open>Deliveries extend the stream\<close>

lemma stream_extend:
  assumes "stream_ok a L out" and "set rs \<subseteq> set L"
    and "distinct (map sr_event_id rs)" and "sr_event_id ` set rs \<inter> ob_event_id ` set out = {}"
    and "distinct (map sr_revision_id rs)" and "ids rs \<inter> ob_revision_id ` set out = {}"
    and "causal sr_revision_id (\<lambda>r. filter (\<lambda>p. p \<notin> ob_revision_id ` set out) (sr_parents r)) rs"
    and "\<And>r. r \<in> set rs \<Longrightarrow> sr_entity_id r = entity \<and> sr_entity_kind r = kind"
    and "kind = ''developer_passport'' \<Longrightarrow> live_passports out \<subseteq> {entity}"
  shows "stream_ok a L (out @ numbered a (int (length out)) rs)
    \<and> live_passports (out @ numbered a (int (length out)) rs)
        \<subseteq> (if kind = ''developer_passport'' then {entity} else live_passports out)"
  using assms
proof (induction rs rule: rev_induct)
  case (snoc r rs)
  define mid where "mid = out @ numbered a (int (length out)) rs"
  let ?row = "outbox_row_of a (int (length mid) + 1) r"
  have rows: "out @ numbered a (int (length out)) (rs @ [r]) = mid @ [?row]"
    by (simp add: numbered_append mid_def)
  have keys: "ob_event_id ` set (numbered a n rs) = sr_event_id ` set rs"
    "ob_revision_id ` set (numbered a n rs) = ids rs" for n
    by (induction rs arbitrary: n) (auto simp: ids_def)
  have IH: "stream_ok a L mid" "live_passports mid \<subseteq> (if kind = ''developer_passport'' then {entity} else live_passports out)"
    using snoc.IH snoc.prems by (auto simp: causal_snoc mid_def)
  have r: "sr_entity_id r = entity" "sr_entity_kind r = kind" "r \<in> set L" using snoc.prems(2,8) by auto
  have live: "live_passports (mid @ [?row]) \<subseteq> (if kind = ''developer_passport'' then {entity} else live_passports out)"
    using IH(2) r by (auto simp: live_snoc is_live_passport_def split: if_splits)
  have at_most: "\<forall>e \<in> live_passports (mid @ [?row]). live_passports (mid @ [?row]) = {e}"
  proof (cases "kind = ''developer_passport''")
    case True
    with live show ?thesis by auto
  next
    case False
    with r have "live_passports (mid @ [?row]) \<subseteq> live_passports mid"
      by (auto simp: live_snoc is_live_passport_def)
    moreover have "\<forall>e \<in> live_passports mid. live_passports mid = {e}"
      using IH(1) single_last by (auto simp: stream_ok_def)
    ultimately show ?thesis by blast
  qed
  have parents: "set (sr_parents r) \<subseteq> ob_revision_id ` set mid"
    using snoc.prems(7) by (auto simp: causal_snoc keys image_Un ids_def mid_def)
  have "sr_event_id r \<notin> ob_event_id ` set mid" "sr_revision_id r \<notin> ob_revision_id ` set mid"
    using snoc.prems(3-6) by (auto simp: keys image_Un ids_def mid_def)
  with IH(1) r at_most parents have "stream_ok a L (mid @ [?row])"
    by (auto simp: stream_ok_def dense_snoc causal_snoc single_snoc)
  with live show ?case unfolding rows by simp
qed simp

lemma replay_stream_extend:
  "(\<And>r. r \<in> set rs \<Longrightarrow> sr_entity_id r = entity) \<Longrightarrow> sr_entity_id r = entity \<Longrightarrow>
     replay_stream (out @ numbered a n (rs @ [r])) = (replay_stream out)(entity \<mapsto> outbox_row_of a (n + int (length rs) + 1) r)"
proof (induction rs arbitrary: r rule: rev_induct)
  case (snoc s rs)
  then have IH: "replay_stream (out @ numbered a n (rs @ [s]))
      = (replay_stream out)(entity \<mapsto> outbox_row_of a (n + int (length rs) + 1) s)"
    by (intro snoc.IH) auto
  have "out @ numbered a n ((rs @ [s]) @ [r])
      = (out @ numbered a n (rs @ [s])) @ [outbox_row_of a (n + int (length (rs @ [s])) + 1) r]"
    by (simp only: numbered_append append_assoc) simp
  then show ?case using snoc.prems(2) by (simp only: replay_stream_snoc IH outbox_row_simps fun_upd_upd)
qed simp

lemma stream_more: "stream_ok a L out \<Longrightarrow> set L \<subseteq> set L' \<Longrightarrow> stream_ok a L' out"
  unfolding stream_ok_def by blast

lemma bad_parent_none:
  "bad_parent a e ps db = None \<Longrightarrow> p \<in> set ps \<Longrightarrow>
     \<exists>s \<in> set (revisions_of a db). sr_revision_id s = p \<and> sr_entity_id s = se_entity_id e \<and> sr_entity_kind s = se_entity_kind e"
  by (induction ps) (auto split: option.splits if_splits dest: get_revision_some)

text \<open>The query for a live singleton reads what a replay knows.\<close>

lemma live_entities:
  assumes ok: "account_ok a db"
  shows "set [eh_entity_id h. h \<leftarrow> heads_of a db, r \<leftarrow> revisions_of a db,
      sr_revision_id r = eh_revision_id h \<and> sr_entity_kind r = ''developer_passport'' \<and> sr_operation r \<noteq> ''tombstone'']
    = live_passports (outbox_of a db)"
proof -
  let ?L = "revisions_of a db" and ?out = "outbox_of a db" and ?hs = "heads_of a db"
  have L: "distinct (map sr_revision_id ?L)" and st: "stream_ok a ?L ?out" and hs: "heads_ok ?hs ?out"
    using ok by (simp_all add: account_ok_def ledger_ok_def)
  have row: "\<exists>r \<in> set ?L. row = outbox_row_of a (ob_sequence row) r" if "replay_stream ?out e = Some row" for e row
    using replay_stream_mem [OF that] st by (simp add: stream_ok_def)
  have live: "e \<in> live_passports ?out \<longleftrightarrow> (\<exists>h \<in> set ?hs. \<exists>r \<in> set ?L. (sr_revision_id r = eh_revision_id h
      \<and> sr_entity_kind r = ''developer_passport'' \<and> sr_operation r \<noteq> ''tombstone'') \<and> e = eh_entity_id h)" (is "_ \<longleftrightarrow> ?listed") for e
  proof
    assume "e \<in> live_passports ?out"
    then obtain w where w: "replay_stream ?out e = Some w" "is_live_passport w" by (auto simp: live_passports_def)
    from row [OF w(1)] obtain r where r: "r \<in> set ?L" "w = outbox_row_of a (ob_sequence w) r" by blast
    have "map_of (map (\<lambda>h. (eh_entity_id h, eh_revision_id h)) ?hs) e = Some (ob_revision_id w)"
      using hs w(1) by (simp add: heads_ok_def)
    from map_of_SomeD [OF this] obtain h where h: "h \<in> set ?hs" "eh_entity_id h = e" "eh_revision_id h = ob_revision_id w"
      by auto
    have "ob_revision_id w = sr_revision_id r" "ob_entity_kind w = sr_entity_kind r" "ob_operation w = sr_operation r"
      using r(2) by (metis outbox_row_simps)+
    with h w(2) have "sr_revision_id r = eh_revision_id h \<and> sr_entity_kind r = ''developer_passport''
        \<and> sr_operation r \<noteq> ''tombstone''"
      by (simp add: is_live_passport_def)
    with h r(1) show ?listed by blast
  next
    assume ?listed
    then obtain h r where h: "h \<in> set ?hs" "eh_entity_id h = e" and r: "r \<in> set ?L" "sr_revision_id r = eh_revision_id h"
      "sr_entity_kind r = ''developer_passport''" "sr_operation r \<noteq> ''tombstone''" by blast
    from heads_entity [OF hs h(1)] h(2) obtain w where w: "replay_stream ?out e = Some w" "ob_revision_id w = eh_revision_id h"
      by blast
    from row [OF w(1)] obtain s where s: "s \<in> set ?L" "w = outbox_row_of a (ob_sequence w) s" by blast
    have f: "ob_revision_id w = sr_revision_id s" "ob_entity_kind w = sr_entity_kind s" "ob_operation w = sr_operation s"
      using s(2) by (metis outbox_row_simps)+
    from f(1) w(2) r(2) have "sr_revision_id s = sr_revision_id r" by metis
    then have "s = r" by (rule same_key [OF L s(1) r(1)])
    with f r(3,4) have "is_live_passport w" by (simp add: is_live_passport_def)
    with w(1) show "e \<in> live_passports ?out" unfolding live_passports_def by blast
  qed
  show ?thesis
    by (rule set_eqI) (simp only: live mem_select)
qed

lemma singleton_room:
  assumes ok: "account_ok a db" and none: "second_identity a e db = None"
    and kind: "se_entity_kind e = ''developer_passport''"
  shows "live_passports (outbox_of a db) \<subseteq> {se_entity_id e}"
proof
  fix i assume i: "i \<in> live_passports (outbox_of a db)"
  let ?live = "[eh_entity_id h. h \<leftarrow> heads_of a db, r \<leftarrow> revisions_of a db,
      sr_revision_id r = eh_revision_id h \<and> sr_entity_kind r = ''developer_passport'' \<and> sr_operation r \<noteq> ''tombstone'']"
  have live: "set (sort ?live) = {i}"
    using live_entities [OF ok] single_last [OF _ i] ok by (simp add: account_ok_def stream_ok_def)
  then obtain j js where sorted: "sort ?live = j # js" by (cases "sort ?live") auto
  with live have "j = i" by auto
  have "singleton_identity a ''developer_passport'' db = Some j"
    unfolding singleton_identity_def Let_def sorted by (simp add: SINGLETON_ENTITY_KINDS_def)
  with none kind \<open>j = i\<close> show "i \<in> {se_entity_id e}" by (auto simp: second_identity_def split: if_splits)
qed

section \<open>Every event keeps the invariant\<close>

lemma views_receipted:
  assumes "receipted a e fingerprint receipt db db'"
  shows "receipts_of a db' = receipts_of a db @ [last (sy_receipts db')]"
    "rr_idempotency_key (last (sy_receipts db')) = se_idempotency_key e"
    "b \<noteq> a \<Longrightarrow> receipts_of b db' = receipts_of b db"
  using assms by (auto simp: receipted_def receipts_of_def)

lemma receipts_distinct:
  "receipted a e fingerprint receipt db db' \<Longrightarrow> distinct (map rr_idempotency_key (receipts_of a db)) \<Longrightarrow>
     distinct (map rr_idempotency_key (receipts_of a db'))"
  by (subst views_receipted(1), assumption) (auto simp: views_receipted(2) receipted_def)

lemma heads_of_moved:
  "filter (\<lambda>h. eh_account_id h = a) (moved_heads a e current now hs)
     = moved_heads a e current now (filter (\<lambda>h. eh_account_id h = a) hs)"
  "b \<noteq> a \<Longrightarrow> filter (\<lambda>h. eh_account_id h = b) (moved_heads a e current now hs)
     = filter (\<lambda>h. eh_account_id h = b) hs"
proof -
  show "filter (\<lambda>h. eh_account_id h = a) (moved_heads a e current now hs)
     = moved_heads a e current now (filter (\<lambda>h. eh_account_id h = a) hs)"
    by (induction hs) (auto simp: moved_heads_def split: option.splits)
  show "b \<noteq> a \<Longrightarrow> filter (\<lambda>h. eh_account_id h = b) (moved_heads a e current now hs)
     = filter (\<lambda>h. eh_account_id h = b) hs"
    by (induction hs) (auto simp: moved_heads_def split: option.splits)
qed

lemma moved_heads_ok:
  assumes ok: "heads_ok (heads_of a db) out" and row: "lock_head a (se_entity_id e) db = Inr row"
    and r: "sr_revision_id r = se_revision_id e" and out': "replay_stream out' = (replay_stream out)(se_entity_id e \<mapsto> outbox_row_of a n r)"
  shows "heads_ok (moved_heads a e (map_option eh_revision_id row) now (heads_of a db)) out'"
proof (cases row)
  case None
  with row have fresh: "se_entity_id e \<notin> eh_entity_id ` set (heads_of a db)" by (simp add: lock_head_none)
  then have "map_of (map (\<lambda>h. (eh_entity_id h, eh_revision_id h)) (heads_of a db)) (se_entity_id e) = None"
    by (simp add: map_of_eq_None_iff image_image)
  with ok have "map_option ob_revision_id (replay_stream out (se_entity_id e)) = None"
    by (simp add: heads_ok_def)
  with ok None r out' fresh show ?thesis
    by (auto simp: heads_ok_def moved_heads_def map_add_def fun_eq_iff split: option.splits)
next
  case (Some h)
  let ?f = "\<lambda>h. h\<lparr>eh_revision_id := se_revision_id e, eh_updated_at := now\<rparr>"
  let ?hs = "heads_of a db"
  have h: "h \<in> set ?hs" "eh_entity_id h = se_entity_id e"
    using row Some by (auto simp: lock_head_def dest: scalar_one_or_none_mem)
  then have present: "se_entity_id e \<in> eh_entity_id ` set ?hs" by (metis image_eqI)
  have all_a: "eh_account_id k = a" if "k \<in> set ?hs" for k using that by (simp add: heads_of_def)
  have upd: "map_of (map (\<lambda>h. (eh_entity_id h, eh_revision_id h))
        (update_where (\<lambda>h. eh_account_id h = a \<and> eh_entity_id h = i) ?f hs)) k
      = (if k = i \<and> i \<in> eh_entity_id ` set hs then Some (se_revision_id e)
         else map_of (map (\<lambda>h. (eh_entity_id h, eh_revision_id h)) hs) k)"
    if "\<And>k. k \<in> set hs \<Longrightarrow> eh_account_id k = a" for hs i k
    using that by (induction hs) auto
  have keys: "map eh_entity_id (update_where (\<lambda>h. eh_account_id h = a \<and> eh_entity_id h = se_entity_id e) ?f ?hs)
      = map eh_entity_id ?hs"
    by (rule map_update_where) simp
  show ?thesis
    using ok Some present r
    by (auto simp: heads_ok_def moved_heads_def keys upd [OF all_a] out' fun_eq_iff)
qed

lemma delivered_account_ok:
  assumes ok: "account_ok a db" and acc: "acceptable a e current undelivered db"
    and r: "r = revision_from_event a e (se_parents e) created"
  shows "ledger_ok (revisions_of a db @ [r])"
    "stream_ok a (revisions_of a db @ [r])
       (outbox_of a db @ numbered a (int (length (outbox_of a db))) (undelivered @ [r]))"
    "heads_ok (moved_heads a e current now (heads_of a db))
       (outbox_of a db @ numbered a (int (length (outbox_of a db))) (undelivered @ [r]))"
proof -
  let ?L = "revisions_of a db" and ?out = "outbox_of a db"
  have L: "ledger_ok ?L" "causal sr_revision_id sr_parents ?L" "distinct (map sr_revision_id ?L)"
    and st: "stream_ok a ?L ?out" and hs: "heads_ok (heads_of a db) ?out"
    using ok by (simp_all add: account_ok_def ledger_ok_def)
  from acc obtain row where row: "lock_head a (se_entity_id e) db = Inr row" "current = map_option eh_revision_id row"
    and fresh: "se_revision_id e \<notin> ids ?L" and second: "second_identity a e db = None"
    and bad: "bad_parent a e (se_parents e) db = None"
    and und: "undelivered_ancestors a (se_parents e) db = Some undelivered"
    and ev: "distinct (map sr_event_id undelivered)" "se_event_id e \<notin> sr_event_id ` set undelivered"
      "insert (se_event_id e) (sr_event_id ` set undelivered) \<inter> ob_event_id ` set ?out = {}"
    by (auto simp: acceptable_def get_revision_none)
  have "set (se_parents e) \<subseteq> ids ?L" using bad_parent_none [OF bad] by (force simp: ids_def)
  note u = undelivered_ancestors_ok [OF und L(2,3) this]
  have entity: "sr_entity_id s = se_entity_id e \<and> sr_entity_kind s = se_entity_kind e" if "s \<in> set undelivered" for s
  proof (rule undelivered_ancestors_closed [OF und that])
    fix x y assume "x \<in> set ?L" "y \<in> set ?L" "sr_revision_id y \<in> set (sr_parents x)"
      "sr_entity_id x = se_entity_id e \<and> sr_entity_kind x = se_entity_kind e"
    with L(1) show "sr_entity_id y = se_entity_id e \<and> sr_entity_kind y = se_entity_kind e"
      unfolding ledger_ok_def by metis
  next
    fix x assume x: "x \<in> set ?L" "sr_revision_id x \<in> set (se_parents e)"
    from bad_parent_none [OF bad x(2)] obtain y where "y \<in> set ?L" "sr_revision_id y = sr_revision_id x"
      "sr_entity_id y = se_entity_id e" "sr_entity_kind y = se_entity_kind e" by blast
    with same_key [OF L(3) _ x(1)] show "sr_entity_id x = se_entity_id e \<and> sr_entity_kind x = se_entity_kind e"
      by metis
  qed
  show ledger: "ledger_ok (?L @ [r])"
    using ledger_snoc [OF L(1), of r] fresh bad_parent_none [OF bad] r by simp
  have "ob_revision_id ` set ?out \<subseteq> ids ?L"
    using st unfolding stream_ok_def ids_def by (metis (no_types, lifting) image_subsetI imageI outbox_row_simps(6))
  then have new: "se_revision_id e \<notin> ob_revision_id ` set ?out" using fresh by blast
  have sub: "ids undelivered \<subseteq> ids ?L" using u(1) by (auto simp: ids_def)
  have rf: "sr_event_id r = se_event_id e" "sr_revision_id r = se_revision_id e" "sr_parents r = se_parents e"
    "sr_entity_id r = se_entity_id e" "sr_entity_kind r = se_entity_kind e" using r by simp_all
  have "stream_ok a (?L @ [r]) (?out @ numbered a (int (length ?out)) (undelivered @ [r]))
    \<and> live_passports (?out @ numbered a (int (length ?out)) (undelivered @ [r]))
       \<subseteq> (if se_entity_kind e = ''developer_passport'' then {se_entity_id e} else live_passports ?out)"
  proof (rule stream_extend)
    show "stream_ok a (?L @ [r]) ?out" using st by (rule stream_more) auto
    show "set (undelivered @ [r]) \<subseteq> set (?L @ [r])" using u(1) by auto
    show "distinct (map sr_event_id (undelivered @ [r]))" using ev rf by simp
    show "sr_event_id ` set (undelivered @ [r]) \<inter> ob_event_id ` set ?out = {}" using ev(3) rf by simp
    show "distinct (map sr_revision_id (undelivered @ [r]))" using u(3) sub fresh rf by (auto simp: ids_def)
    show "ids (undelivered @ [r]) \<inter> ob_revision_id ` set ?out = {}" using u(2) new rf by simp
    show "causal sr_revision_id (\<lambda>r. filter (\<lambda>p. p \<notin> ob_revision_id ` set ?out) (sr_parents r)) (undelivered @ [r])"
      using u(4,5) rf by (auto simp: causal_snoc ids_def)
    show "sr_entity_id s = se_entity_id e \<and> sr_entity_kind s = se_entity_kind e" if "s \<in> set (undelivered @ [r])" for s
      using that entity rf by auto
    show "live_passports ?out \<subseteq> {se_entity_id e}" if "se_entity_kind e = ''developer_passport''"
      by (rule singleton_room [OF ok second that])
  qed
  then show "stream_ok a (?L @ [r]) (?out @ numbered a (int (length ?out)) (undelivered @ [r]))" ..
  have "replay_stream (?out @ numbered a (int (length ?out)) (undelivered @ [r]))
      = (replay_stream ?out)(se_entity_id e \<mapsto> outbox_row_of a (int (length ?out) + int (length undelivered) + 1) r)"
    by (rule replay_stream_extend) (use entity rf in auto)
  from moved_heads_ok [OF hs row(1) rf(2) this] row(2)
  show "heads_ok (moved_heads a e current now (heads_of a db))
       (?out @ numbered a (int (length ?out)) (undelivered @ [r]))" by simp
qed

text \<open>The rows of every other account stay what they are.\<close>

definition same_views :: "string \<Rightarrow> sync_db \<Rightarrow> sync_db \<Rightarrow> bool" where
  "same_views b db db' \<longleftrightarrow> revisions_of b db' = revisions_of b db \<and> heads_of b db' = heads_of b db
     \<and> outbox_of b db' = outbox_of b db \<and> receipts_of b db' = receipts_of b db"

lemma outcome_other_account:
  "event_outcome env a e fingerprint now db res db' \<Longrightarrow> b \<noteq> a \<Longrightarrow> same_views b db db'"
  by (cases rule: event_outcome.cases, assumption)
    (auto simp: same_views_def same_ledger_def views_receipted(3) revisions_of_def heads_of_def outbox_of_def
      heads_of_moved)

lemma outcome_account_ok:
  assumes out: "event_outcome env a e fingerprint now db res db'" and ok: "account_ok a db"
  shows "account_ok a db'"
  using out
proof cases
  case (settled receipt)
  with ok receipts_distinct show ?thesis
    by (auto simp: account_ok_def same_ledger_def revisions_of_def heads_of_def outbox_of_def)
next
  case (kept receipt document created)
  let ?r = "revision_from_event a e (se_parents e) created"
  have views: "revisions_of a db' = revisions_of a db @ [?r]" "heads_of a db' = heads_of a db" "outbox_of a db' = outbox_of a db"
    using kept by (simp_all add: revisions_of_def heads_of_def outbox_of_def)
  have "ledger_ok (revisions_of a db @ [?r])"
    using ledger_snoc [of "revisions_of a db" ?r] ok kept bad_parent_none [OF kept(6)]
    by (simp add: account_ok_def get_revision_none)
  moreover have "stream_ok a (revisions_of a db @ [?r]) (outbox_of a db)"
    by (rule stream_more [of a "revisions_of a db"]) (use ok in \<open>auto simp: account_ok_def\<close>)
  ultimately show ?thesis
    using ok kept(2) receipts_distinct unfolding account_ok_def views by blast
next
  case (delivered cursor document current undelivered created r)
  have views: "revisions_of a db' = revisions_of a db @ [r]"
    "heads_of a db' = moved_heads a e current now (heads_of a db)"
    "outbox_of a db' = outbox_of a db @ numbered a (int (length (outbox_of a db))) (undelivered @ [r])"
    using delivered by (simp_all add: revisions_of_def heads_of_def outbox_of_def heads_of_moved)
  from delivered_account_ok [OF ok delivered(4,6)] ok delivered(2) receipts_distinct show ?thesis
    unfolding account_ok_def views by blast
qed (use ok in simp_all)

section \<open>Acceptance\<close>

lemma load_receipt_new: "key \<notin> rr_idempotency_key ` set (receipts_of a db) \<Longrightarrow> load_receipt a key db = Inr None"
  by (simp add: load_receipt_def filter_no_key)

text \<open>An event that passes the checks is accepted, with exactly these writes to the ledger.\<close>

lemma apply_first_accepts:
  assumes ok: "account_ok a db" and key: "se_idempotency_key e \<notin> rr_idempotency_key ` set (receipts_of a db)"
    and doc: "validate_event_document (sv_text env) (sv_models env) e = Inr document"
    and acc: "acceptable a e current undelivered db" and time: "parse_timestamp (se_created_at e) = Some created"
    and cur: "encode_sync_cursor (sv_cursor env) a (int (length (outbox_of a db) + length undelivered) + 1) = Inr cursor"
  defines "r \<equiv> revision_from_event a e (se_parents e) created"
  shows "\<exists>db'. apply_first env a e fingerprint now db = (Inr (accepted e cursor), db')
    \<and> sy_revisions db' = sy_revisions db @ [r] \<and> sy_heads db' = moved_heads a e current now (sy_heads db)
    \<and> sy_outbox db' = sy_outbox db @ numbered a (int (length (outbox_of a db))) (undelivered @ [r])
    \<and> receipted a e fingerprint (accepted e cursor) db db'"
proof -
  let ?n = "length (outbox_of a db)"
  let ?db = "db\<lparr>sy_revisions := sy_revisions db @ [r], sy_heads := moved_heads a e current now (sy_heads db),
       sy_outbox := sy_outbox db @ numbered a (int ?n) (undelivered @ [r])\<rparr>"
  let ?payload = "entity_facts ''accepted'' e
       @ [(''operation'', JStr (se_operation e)), (''sequence'', JInt (int (?n + length undelivered) + 1))]"
  have dense: "dense (outbox_of a db)" using ok by (simp add: account_ok_def stream_ok_def)
  obtain row where row: "lock_head a (se_entity_id e) db = Inr row" "current = map_option eh_revision_id row"
    using acc by (auto simp: acceptable_def)
  have ev: "distinct (map sr_event_id undelivered)" "se_event_id e \<notin> sr_event_id ` set undelivered"
    "\<not> list_ex (\<lambda>r. ob_event_id r \<in> set (se_event_id e # map sr_event_id undelivered)) (outbox_of a db)"
    using acc no_event_clash [of ob_event_id "se_event_id e" sr_event_id undelivered "outbox_of a db"]
    by (simp_all add: acceptable_def)
  have steps: "get_revision a (se_revision_id e) db = None" "second_identity a e db = None"
    "bad_parent a e (se_parents e) db = None"
    "can_accept_head_transition current (se_expected_head e) (se_parents e)"
    "undelivered_ancestors a (se_parents e) db = Some undelivered"
    using acc by (simp_all add: acceptable_def)
  have "apply_first env a e fingerprint now db = accept env a e fingerprint current undelivered created now db"
    using load_receipt_new [OF key] doc row steps time ev
    by (simp add: apply_first_def apply_valid_def new_revision_def deliver_def)
  also have "\<dots> = settle a e fingerprint (accepted e cursor) ''sync.event_accepted'' ''sync_revision''
      (se_revision_id e) ?payload ?db"
    using accept_writes_ok [OF dense acc, of created now] cur unfolding r_def by (simp add: accept_def)
  finally have run: "apply_first env a e fingerprint now db = \<dots>" .
  obtain res db' where s: "settle a e fingerprint (accepted e cursor) ''sync.event_accepted'' ''sync_revision''
      (se_revision_id e) ?payload ?db = (res, db')" by fastforce
  have "receipts_of a ?db = receipts_of a db" by (simp add: receipts_of_def)
  with settle_new [OF s] key have "res = Inr (accepted e cursor)" "receipted a e fingerprint (accepted e cursor) ?db db'"
    "same_ledger ?db db'" by simp_all
  with run s show ?thesis by (auto simp: same_ledger_def receipted_def receipts_of_def)
qed

section \<open>Reachable databases\<close>

text \<open>Deleting an account: the foreign keys cascade, and its audit rows lose their actor.\<close>

definition erase_account :: "string \<Rightarrow> sync_db \<Rightarrow> sync_db" where
  "erase_account a db =
     db\<lparr>sy_accounts := filter (\<lambda>x. x \<noteq> a) (sy_accounts db),
        sy_revisions := filter (\<lambda>r. sr_account_id r \<noteq> a) (sy_revisions db),
        sy_heads := filter (\<lambda>h. eh_account_id h \<noteq> a) (sy_heads db),
        sy_receipts := filter (\<lambda>r. rr_account_id r \<noteq> a) (sy_receipts db),
        sy_outbox := filter (\<lambda>r. ob_account_id r \<noteq> a) (sy_outbox db),
        sy_audit := update_where (\<lambda>r. ad_actor_account_id r = Some a) (\<lambda>r. r\<lparr>ad_actor_account_id := None\<rparr>)
          (sy_audit db)\<rparr>"

text \<open>
  The transactions of all requests, in any order: events of any account and device, changes of the
  accounts and devices, and deletions.
\<close>

inductive sync_step :: "sync_env \<Rightarrow> sync_db \<Rightarrow> sync_db \<Rightarrow> bool" for env where
  event: "apply_one env ctx device e now db = (res, db') \<Longrightarrow> sync_step env db db'"
| registry: "sync_step env db (db\<lparr>sy_accounts := accounts, sy_devices := ds\<rparr>)"
| erased: "sync_step env db (erase_account a db)"

inductive sync_reachable :: "sync_env \<Rightarrow> sync_db \<Rightarrow> bool" for env where
  start: "sync_reachable env \<lparr>sy_accounts = accounts, sy_devices = ds, sy_revisions = [], sy_heads = [],
     sy_receipts = [], sy_outbox = [], sy_audit = audit\<rparr>"
| step: "sync_reachable env db \<Longrightarrow> sync_step env db db' \<Longrightarrow> sync_reachable env db'"

lemma empty_ok: "account_ok a \<lparr>sy_accounts = accounts, sy_devices = ds, sy_revisions = [], sy_heads = [],
     sy_receipts = [], sy_outbox = [], sy_audit = audit\<rparr>"
  by (simp add: account_ok_def ledger_ok_def stream_ok_def dense_def single_passport_def heads_ok_def
      revisions_of_def heads_of_def outbox_of_def receipts_of_def fun_eq_iff)

lemma same_views_ok: "same_views b db db' \<Longrightarrow> account_ok b db \<Longrightarrow> account_ok b db'"
  by (simp add: account_ok_def same_views_def)

lemma erase_views:
  "b \<noteq> a \<Longrightarrow> same_views b db (erase_account a db)"
  "revisions_of a (erase_account a db) = []" "heads_of a (erase_account a db) = []"
  "outbox_of a (erase_account a db) = []" "receipts_of a (erase_account a db) = []"
  by (auto simp: same_views_def erase_account_def revisions_of_def heads_of_def outbox_of_def receipts_of_def
      intro!: filter_cong)

lemma step_ok:
  assumes "sync_step env db db'" and ok: "\<And>a. account_ok a db"
  shows "account_ok b db'"
  using assms(1)
proof cases
  case (event ctx device e now res)
  from apply_one_outcome [OF event ok] obtain fp where "event_outcome env (sx_account_id ctx) e fp now db res db'" ..
  then show ?thesis
    using outcome_account_ok [OF _ ok] same_views_ok [OF outcome_other_account ok] by metis
next
  case (registry accounts ds)
  then have "same_views b db db'"
    by (simp add: same_views_def revisions_of_def heads_of_def outbox_of_def receipts_of_def)
  with ok same_views_ok show ?thesis by blast
next
  case (erased a)
  show ?thesis
  proof (cases "b = a")
    case True
    with erased show ?thesis
      by (simp add: account_ok_def erase_views ledger_ok_def stream_ok_def dense_def single_passport_def
          heads_ok_def fun_eq_iff)
  next
    case False
    with erased erase_views(1) same_views_ok ok show ?thesis by blast
  qed
qed

lemma reachable_ok: "sync_reachable env db \<Longrightarrow> account_ok a db"
  by (induction arbitrary: a rule: sync_reachable.induct) (use empty_ok step_ok in blast)+

text \<open>A push is a run of its events' transactions.\<close>

lemma push_loop_reachable:
  "push_loop env ctx device es db = (res, db') \<Longrightarrow> sync_reachable env db \<Longrightarrow> sync_reachable env db'"
proof (induction env ctx device es db arbitrary: res db' rule: push_loop.induct)
  case (2 env ctx device e now es db)
  obtain r db1 where run: "apply_one env ctx device e now db = (r, db1)" by fastforce
  have r1: "sync_reachable env db1" using 2(3) sync_step.event [OF run] by (rule sync_reachable.step)
  show ?case
  proof (cases r)
    case (Inl f)
    with 2(2) run r1 show ?thesis by auto
  next
    case (Inr receipt)
    obtain r2 db2 where loop: "push_loop env ctx device es db1 = (r2, db2)" by fastforce
    with 2(1) [OF run [symmetric] Inr loop r1] 2(2) run Inr show ?thesis by (auto split: sum.splits)
  qed
qed simp

lemma push_reachable:
  "sync_reachable env db \<Longrightarrow> push_events env ctx events db = (res, db') \<Longrightarrow> sync_reachable env db'"
  by (auto simp: push_events_def split: sum.splits dest: push_loop_reachable)

text \<open>A step that is not the account's erasure only adds to its stream.\<close>

lemma event_stream_grows:
  assumes "event_outcome env a e fingerprint now db res db'"
  shows "\<exists>new. outbox_of b db' = outbox_of b db @ new"
  using assms by cases (auto simp: same_ledger_def outbox_of_def)

end
