(* ===== verification/SyncStream.thy ===== *)
theory SyncStream
  imports SyncTheorems
begin

text \<open>
  Reading a stream by cursors. The locale \<open>event_stream\<close> is what a reader relies on: entries numbered
  from one without gaps, and a stream that only grows. The ledger provides it, and \<open>drain\<close> is the
  reader: it pulls page after page until one is empty.
\<close>

locale event_stream =
  fixes entries :: "'s \<Rightarrow> 'e list"
    and seq :: "'e \<Rightarrow> int"
    and good :: "'s \<Rightarrow> bool"
    and later :: "'s \<Rightarrow> 's \<Rightarrow> bool"
  assumes numbered_entries: "good s \<Longrightarrow> map seq (entries s) = map int [1..<Suc (length (entries s))]"
    and grows: "good s \<Longrightarrow> later s s' \<Longrightarrow> \<exists>new. entries s' = entries s @ new"
begin

lemma seq_nth: "good s \<Longrightarrow> i < length (entries s) \<Longrightarrow> seq (entries s ! i) = int i + 1"
proof -
  assume g: "good s" and i: "i < length (entries s)"
  then have "map seq (entries s) ! i = map int [1..<Suc (length (entries s))] ! i"
    by (simp only: numbered_entries)
  with i show ?thesis by (simp del: upt_Suc)
qed

lemma beyond: "good s \<Longrightarrow> filter (\<lambda>e. int k < seq e) (entries s) = drop k (entries s)"
proof -
  assume g: "good s"
  have "filter (\<lambda>e. int k < seq e) (take k (entries s)) = []"
    using seq_nth [OF g] by (auto simp: filter_empty_conv in_set_conv_nth)
  moreover have "filter (\<lambda>e. int k < seq e) (drop k (entries s)) = drop k (entries s)"
    using seq_nth [OF g] by (auto simp: filter_id_conv in_set_conv_nth)
  ultimately show ?thesis by (metis append_take_drop_id filter_append self_append_conv2)
qed

lemma sorted_entries: "good s \<Longrightarrow> sorted (map seq (drop k (entries s)))"
proof -
  assume g: "good s"
  then have "sorted (map seq (entries s))"
    by (auto simp: numbered_entries sorted_map intro: sorted_wrt_mono_rel [OF _ sorted_upt] simp del: upt_Suc)
  then show ?thesis by (metis drop_map sorted_wrt_drop)
qed

text \<open>A page after position \<open>k\<close> is the next entries, and its last number the next position.\<close>

lemma page: "good s \<Longrightarrow> order_limit seq n (filter (\<lambda>e. int k < seq e) (entries s)) = take n (drop k (entries s))"
  by (simp add: order_limit_def beyond sort_key_id_if_sorted sorted_entries)

lemma page_last:
  assumes "good s" and "take n (drop k (entries s)) \<noteq> []"
  shows "seq (last (take n (drop k (entries s)))) = int (k + length (take n (drop k (entries s))))"
proof -
  let ?p = "take n (drop k (entries s))"
  have at_k: "?p ! j = entries s ! (k + j)" "k + j < length (entries s)" if "j < length ?p" for j
    using that by auto
  have j: "length ?p - 1 < length ?p" using assms(2) by (cases ?p) auto
  have "last ?p = ?p ! (length ?p - 1)" using assms(2) by (rule last_conv_nth)
  then have "seq (last ?p) = int (k + (length ?p - 1)) + 1"
    using seq_nth [OF assms(1) at_k(2) [OF j]] at_k(1) [OF j] by simp
  also have "\<dots> = int (k + length ?p)" using j by linarith
  finally show ?thesis .
qed

text \<open>What was read before stays read: later entries are beyond the position.\<close>

lemma resume: "good s \<Longrightarrow> later s s' \<Longrightarrow> entries s' = entries s @ drop (length (entries s)) (entries s')"
  using grows by fastforce

end

definition all_ok :: "sync_db \<Rightarrow> bool" where
  "all_ok db \<longleftrightarrow> (\<forall>a. account_ok a db)"

definition event_step :: "sync_env \<Rightarrow> sync_db \<Rightarrow> sync_db \<Rightarrow> bool" where
  "event_step env db db' \<longleftrightarrow> (\<exists>ctx device e now res. apply_one env ctx device e now db = (res, db'))"

text \<open>The outbox of an account is such a stream, over the events of all accounts.\<close>

interpretation outbox: event_stream "outbox_of a" ob_sequence all_ok "event_step env" for a env
proof
  show "map ob_sequence (outbox_of a db) = map int [1..<Suc (length (outbox_of a db))]" if "all_ok db" for db
    using that by (simp add: all_ok_def account_ok_def stream_ok_def dense_def)
  fix db db' assume "all_ok db" "event_step env db db'"
  then obtain ctx device e now res where run: "apply_one env ctx device e now db = (res, db')"
    and "account_ok (sx_account_id ctx) db"
    by (auto simp: event_step_def all_ok_def)
  then obtain fp where "event_outcome env (sx_account_id ctx) e fp now db res db'"
    using apply_one_outcome by blast
  then show "\<exists>new. outbox_of a db' = outbox_of a db @ new" by (rule event_stream_grows)
qed

section \<open>Cursors fit\<close>

lemma nat_str_length: "n < 10 ^ Suc k \<Longrightarrow> length (nat_str n) \<le> Suc k"
proof (induction k arbitrary: n)
  case 0
  then show ?case by (simp add: nat_str.simps)
next
  case (Suc k)
  have "n div 10 < 10 ^ Suc k" using Suc.prems by (simp add: less_mult_imp_div_less)
  from Suc.IH [OF this] show ?case by (subst nat_str.simps) auto
qed

lemma b64_length: "length (b64_encode s) \<le> 4 * ((length s + 2) div 3)"
proof (induction s rule: b64_encode.induct)
  case (4 a b c s)
  have "length (a # b # c # s) + 2 = (length s + 2) + 3" by simp
  then have "(length (a # b # c # s) + 2) div 3 = (length s + 2) div 3 + 1" by (metis div_add_self2 zero_neq_numeral)
  with 4 show ?case by simp
qed simp_all

lemma b64_length_32: "length s = 32 \<Longrightarrow> length (b64_encode s) = 43"
proof -
  have step: "length (b64_encode (a # b # c # t)) = length (b64_encode t) + 4" for a b c t by simp
  assume "length s = 32"
  then obtain t u where "s = t @ u" "length t = 30" "length u = 2"
    by (intro that [of "take 30 s" "drop 30 s"]) auto
  have "length (b64_encode (t @ u)) = 4 * n + length (b64_encode u)" if "length t = 3 * n" for n t
    using that
  proof (induction n arbitrary: t)
    case (Suc n)
    then obtain a b c t' where "t = a # b # c # t'" "length t' = 3 * n"
      by (auto simp: length_Suc_conv numeral_3_eq_3)
    with Suc.IH [of t'] show ?case by simp
  qed simp
  from this [of t 10] show ?thesis
    using \<open>s = t @ u\<close> \<open>length t = 30\<close> \<open>length u = 2\<close> by (auto simp: length_Suc_conv numeral_2_eq_2)
qed

text \<open>An account id is plain text, so its cursor needs no escapes and stays far below the bound.\<close>

lemma account_id_form: "is_valid_id a (Some ''account'') \<Longrightarrow> \<exists>u. a = ''account_'' @ u \<and> is_ulid u"
  by (auto simp: is_valid_id_def split: sum.splits dest: parse_id_some)

lemma plain_characters: "list_all (\<lambda>c. json_escape c = [c]) (''account_'' @ ULID_HEAD @ ULID_ALPHABET)"
  by code_simp

lemma quote_account: "is_valid_id a (Some ''account'') \<Longrightarrow> length (json_quote a) = 36"
proof -
  assume "is_valid_id a (Some ''account'')"
  from account_id_form [OF this] obtain u where a: "a = ''account_'' @ u" and u: "is_ulid u" by blast
  then have "set u \<subseteq> set (ULID_HEAD @ ULID_ALPHABET)" and len: "length u = 26"
    by (auto simp: is_ulid_def list_all_iff split: list.splits)
  with plain_characters a have "\<forall>c \<in> set a. json_escape c = [c]"
    by (auto simp: list_all_iff)
  then have "concat (map json_escape a) = a" by (induction a) auto
  with a len show ?thesis by (simp add: json_quote_def)
qed

lemma encode_ok:
  assumes a: "is_valid_id a (Some ''account'')" and hmac: "\<And>k m. length (ce_hmac env k m) = 32"
    and n: "0 \<le> n" "n < 10 ^ 20"
  obtains c where "encode_sync_cursor env a n = Inr c"
proof -
  let ?payload = "b64_encode (cursor_dump a n)"
  have "nat n < 10 ^ Suc 19" using n by simp
  from nat_str_length [OF this] have "length (int_str n) \<le> 20" using n by (simp add: int_str_def)
  moreover have "length (json_quote ''a'') = 3" "length (json_quote ''s'') = 3" "length (json_quote ''v'') = 3"
    by code_simp+
  ultimately have "length (cursor_dump a n) \<le> 73" using quote_account [OF a] by (simp add: cursor_dump_def)
  then have "4 * ((length (cursor_dump a n) + 2) div 3) \<le> 100" by linarith
  then have short: "length ?payload \<le> 100" using b64_length order_trans by blast
  have sig: "length (b64_encode (ce_hmac env (signing_key env) ?payload)) = 43" by (rule b64_length_32 [OF hmac])
  have "CURSOR_PATTERN (?payload @ b64_encode (ce_hmac env (signing_key env) ?payload))"
    using short sig by (simp add: CURSOR_PATTERN_def b64_alphabet)
  then have "encode_sync_cursor env a n = Inr (?payload @ b64_encode (ce_hmac env (signing_key env) ?payload))"
    using n short sig by (simp add: encode_sync_cursor_def Let_def)
  then show thesis by (rule that)
qed

section \<open>Reading to the end\<close>

text \<open>A reader that follows the cursors until a page is empty, in at most \<open>n\<close> pulls.\<close>

fun drain :: "sync_env \<Rightarrow> sync_context \<Rightarrow> int \<Rightarrow> nat \<Rightarrow> string option \<Rightarrow> sync_db \<Rightarrow> sync_failure + stream_event list" where
  "drain env ctx psize 0 cursor db = Inr []"
| "drain env ctx psize (Suc n) cursor db =
     and_then (pull_events env ctx cursor psize db) (\<lambda>page.
       if pu_items page = [] then Inr []
       else and_then (drain env ctx psize n (pu_next_cursor page) db) (\<lambda>rest. Inr (pu_items page @ rest)))"

text \<open>The cursor of a position: none at the start, or the token the server signed for it.\<close>

definition cursor_at :: "sync_env \<Rightarrow> string \<Rightarrow> nat \<Rightarrow> string option \<Rightarrow> bool" where
  "cursor_at env a k cursor \<longleftrightarrow>
     (case cursor of None \<Rightarrow> k = 0 | Some c \<Rightarrow> encode_sync_cursor (sv_cursor env) a (int k) = Inr c)"

text \<open>What the reader relies on: \<open>json.loads\<close> reads back what \<open>json.dumps\<close> printed, and HMAC-SHA256 has 32 bytes.\<close>

definition codec_ok :: "cursor_env \<Rightarrow> string \<Rightarrow> nat \<Rightarrow> bool" where
  "codec_ok env a n \<longleftrightarrow> (\<forall>k m. length (ce_hmac env k m) = 32) \<and>
     (\<forall>k \<le> n. ce_loads env (cursor_dump a (int k)) = Some (JDict (cursor_body a (int k))))"

definition page_rows :: "int \<Rightarrow> nat \<Rightarrow> outbox_row list \<Rightarrow> outbox_row list" where
  "page_rows psize k out = take (nat (min (max psize 1) PAGE_SIZE_MAX)) (drop k out)"

lemma page_rows_facts:
  "k \<le> length out \<Longrightarrow> k + length (page_rows psize k out) \<le> length out"
  "page_rows psize k out = [] \<Longrightarrow> drop k out = []"
  "page_rows psize k out @ drop (k + length (page_rows psize k out)) out = drop k out"
proof -
  show "k \<le> length out \<Longrightarrow> k + length (page_rows psize k out) \<le> length out" by (simp add: page_rows_def)
  show "page_rows psize k out = [] \<Longrightarrow> drop k out = []" by (auto simp: page_rows_def PAGE_SIZE_MAX_def)
  let ?p = "page_rows psize k out"
  have "?p = take (length ?p) (drop k out)" by (simp add: page_rows_def min_def)
  then have "?p @ drop (length ?p) (drop k out) = drop k out" by (metis append_take_drop_id)
  then show "?p @ drop (k + length ?p) out = drop k out" by (simp add: add.commute)
qed

lemma pull_page:
  assumes ok: "all_ok db" and dev: "require_active_device ctx db = Inr device"
    and out: "out = outbox_of (sx_account_id ctx) db"
    and cur: "cursor_at env (sx_account_id ctx) k cursor"
    and codec: "codec_ok (sv_cursor env) (sx_account_id ctx) (length out)"
    and a: "is_valid_id (sx_account_id ctx) (Some ''account'')"
    and k: "k \<le> length out" and small: "int (length out) < 10 ^ 20"
  shows "\<exists>next_cursor.
    pull_events env ctx cursor psize db = Inr \<lparr>pu_items = map stream_event_of (page_rows psize k out),
      pu_next_cursor = next_cursor, pu_page_size = min (max psize 1) PAGE_SIZE_MAX\<rparr> \<and>
    (page_rows psize k out \<noteq> [] \<longrightarrow>
       cursor_at env (sx_account_id ctx) (k + length (page_rows psize k out)) next_cursor)"
proof -
  let ?a = "sx_account_id ctx" and ?n = "nat (min (max psize 1) PAGE_SIZE_MAX)" and ?page = "page_rows psize k out"
  have position: "(case cursor of None \<Rightarrow> Inr 0 | Some c \<Rightarrow>
      (case decode_sync_cursor (sv_cursor env) c ?a of
         Inl _ \<Rightarrow> Inl (refuse VALIDATION ''invalid sync cursor'') | Inr p \<Rightarrow> Inr p)) = Inr (int k)"
    using cur codec k by (auto simp: cursor_at_def codec_ok_def decode_encode split: option.splits)
  have rows: "order_limit ob_sequence ?n (filter (\<lambda>r. int k < ob_sequence r) (outbox_of ?a db)) = ?page"
    unfolding page_rows_def out by (rule outbox.page [OF ok])
  have pull: "pull_events env ctx cursor psize db =
      (case sync_page_cursor (sv_cursor env) ?a (if ?page = [] then None else Some (ob_sequence (last ?page))) cursor of
         Inl message \<Rightarrow> Inl (Uncaught message)
       | Inr nc \<Rightarrow> Inr \<lparr>pu_items = map stream_event_of ?page, pu_next_cursor = nc,
           pu_page_size = min (max psize 1) PAGE_SIZE_MAX\<rparr>)"
    unfolding pull_events_def dev and_then_simps Let_def position rows ..
  show ?thesis
  proof (cases "?page = []")
    case True
    then show ?thesis by (simp add: pull sync_page_cursor_def)
  next
    case False
    then have last: "ob_sequence (last ?page) = int (k + length ?page)"
      unfolding page_rows_def out by (rule outbox.page_last [OF ok])
    have "int (k + length ?page) < 10 ^ 20" using small page_rows_facts(1) [OF k, of psize] by linarith
    then obtain c where c: "encode_sync_cursor (sv_cursor env) ?a (int (k + length ?page)) = Inr c"
      using encode_ok [OF a, of "sv_cursor env" "int (k + length ?page)"] codec unfolding codec_ok_def by auto
    with False show ?thesis unfolding pull by (simp add: last sync_page_cursor_def cursor_at_def)
  qed
qed

lemma drain_from:
  assumes ok: "all_ok db" and dev: "require_active_device ctx db = Inr device"
    and out: "out = outbox_of (sx_account_id ctx) db"
    and codec: "codec_ok (sv_cursor env) (sx_account_id ctx) (length out)"
    and a: "is_valid_id (sx_account_id ctx) (Some ''account'')"
    and small: "int (length out) < 10 ^ 20"
  shows "cursor_at env (sx_account_id ctx) k cursor \<Longrightarrow> k \<le> length out \<Longrightarrow> length out - k < n \<Longrightarrow>
    drain env ctx psize n cursor db = Inr (map stream_event_of (drop k out))"
proof (induction n arbitrary: k cursor)
  case (Suc n)
  let ?page = "page_rows psize k out"
  from pull_page [OF ok dev out Suc.prems(1) codec a Suc.prems(2) small, of psize] obtain nc
    where pull: "pull_events env ctx cursor psize db = Inr \<lparr>pu_items = map stream_event_of ?page,
      pu_next_cursor = nc, pu_page_size = min (max psize 1) PAGE_SIZE_MAX\<rparr>"
    and nc: "?page \<noteq> [] \<Longrightarrow> cursor_at env (sx_account_id ctx) (k + length ?page) nc" by blast
  show ?case
  proof (cases "?page = []")
    case True
    with pull page_rows_facts(2) [OF True] show ?thesis by simp
  next
    case False
    then have pos: "0 < length ?page" by blast
    have "drain env ctx psize n nc db = Inr (map stream_event_of (drop (k + length ?page) out))"
    proof (rule Suc.IH [OF nc [OF False]])
      show "k + length ?page \<le> length out" by (rule page_rows_facts(1) [OF Suc.prems(2)])
      show "length out - (k + length ?page) < n" using Suc.prems(3) pos page_rows_facts(1) [OF Suc.prems(2), of psize] by linarith
    qed
    with False pull have "drain env ctx psize (Suc n) cursor db
        = Inr (map stream_event_of (?page @ drop (k + length ?page) out))" by simp
    then show ?thesis by (simp only: page_rows_facts(3))
  qed
qed simp

end
