(* ===== verification/SyncPolicyTheorems.thy ===== *)
theory SyncPolicyTheorems
  imports SyncPolicy
begin

text \<open>
  What the payload policy means. \<open>reaches v w\<close>: the scan of \<open>v\<close> comes to the value \<open>w\<close>, through lists and
  through every field but the two whose declared shape is checked instead.
\<close>

definition declared :: "string \<Rightarrow> bool" where
  "declared key \<longleftrightarrow> lower key = ''required_env'' \<or> lower key = ''requires_authorization''"

inductive reaches :: "json \<Rightarrow> json \<Rightarrow> bool" where
  itself: "reaches v v"
| item: "x \<in> set xs \<Longrightarrow> reaches x w \<Longrightarrow> reaches (JList xs) w"
| member: "(key, x) \<in> set d \<Longrightarrow> \<not> declared key \<Longrightarrow> reaches x w \<Longrightarrow> reaches (JDict d) w"

inductive_simps reaches_simps:
  "reaches JNull w" "reaches (JBool b) w" "reaches (JInt i) w" "reaches (JFloat r) w" "reaches (JStr s) w"
  "reaches (JList xs) w" "reaches (JDict d) w"

text \<open>The two declared shapes: bounded name and purpose records, and one of three classes.\<close>

definition env_declaration :: "json \<Rightarrow> bool" where
  "env_declaration v \<longleftrightarrow> (\<exists>entries. v = JList entries \<and> length entries \<le> 128 \<and>
     (\<forall>entry \<in> set entries. \<exists>d n p. entry = JDict d \<and> fst ` set d = {''name'', ''purpose''}
        \<and> dict_get d ''name'' = JStr n \<and> dict_get d ''purpose'' = JStr p))"

definition authorization_class :: "json \<Rightarrow> bool" where
  "authorization_class v \<longleftrightarrow> v \<in> {JStr ''external_service'', JStr ''none'', JStr ''user_account''}"

definition field_ok :: "string \<Rightarrow> json \<Rightarrow> bool" where
  "field_ok key x \<longleftrightarrow>
     (if lower key = ''required_env'' then env_declaration x
      else if lower key = ''requires_authorization'' then authorization_class x
      else \<forall>fragment \<in> set FORBIDDEN_KEY_FRAGMENTS. \<not> has_word fragment (lower key))"

fun node_ok :: "json \<Rightarrow> bool" where
  "node_ok (JStr s) = (\<not> absolute_path s)"
| "node_ok (JDict d) = (\<forall>(key, x) \<in> set d. field_ok key x)"
| "node_ok v = True"

definition clean :: "json \<Rightarrow> bool" where
  "clean v \<longleftrightarrow> (\<forall>w. reaches v w \<longrightarrow> node_ok w)"

lemma clean_simps:
  "clean JNull" "clean (JBool b)" "clean (JInt i)" "clean (JFloat r)"
  "clean (JStr s) \<longleftrightarrow> \<not> absolute_path s"
  "clean (JList xs) \<longleftrightarrow> (\<forall>x \<in> set xs. clean x)"
  "clean (JDict d) \<longleftrightarrow> (\<forall>(key, x) \<in> set d. field_ok key x \<and> (declared key \<or> clean x))"
  by (auto simp: clean_def reaches_simps)

lemma reject_not_Inr [simp]: "reject reason path \<noteq> Inr u"
  by (simp add: reject_def)

lemma is_str_iff: "is_str v \<longleftrightarrow> (\<exists>s. v = JStr s)"
  by (cases v) auto

lemma check_env_entries_iff:
  "check_env_entries i path entries = Inr () \<longleftrightarrow>
     (\<forall>entry \<in> set entries. \<exists>d n p. entry = JDict d \<and> fst ` set d = {''name'', ''purpose''}
        \<and> dict_get d ''name'' = JStr n \<and> dict_get d ''purpose'' = JStr p)"
proof (induction i path entries rule: check_env_entries.induct)
  case (2 i path entry entries)
  then show ?case by (cases entry) (auto simp: REQUIRED_ENV_FIELDS_def is_str_iff)
qed simp

lemma check_required_env_iff: "check_required_env v path = Inr () \<longleftrightarrow> env_declaration v"
  by (cases v) (auto simp: check_required_env_def env_declaration_def check_env_entries_iff MAX_REQUIRED_ENV_ENTRIES_def)

lemma check_requires_authorization_iff: "check_requires_authorization v path = Inr () \<longleftrightarrow> authorization_class v"
  by (cases v) (auto simp: check_requires_authorization_def authorization_class_def REQUIRES_AUTHORIZATION_VALUES_def)

lemma and_then_unit: "and_then r f = Inr () \<longleftrightarrow> r = Inr () \<and> f () = Inr ()"
  by (cases r) auto

lemma check_fields_Cons:
  "check_payload_fields ((key, item) # d) path = Inr () \<longleftrightarrow>
     field_ok key item \<and>
     (declared key \<or> check_sync_payload item (if path = [] then key else path @ ''.'' @ key) = Inr ()) \<and>
     check_payload_fields d path = Inr ()"
proof -
  consider (env) "lower key = ''required_env''" | (auth) "lower key = ''requires_authorization''"
    | (plain) "lower key \<noteq> ''required_env''" "lower key \<noteq> ''requires_authorization''" by blast
  then show ?thesis
  proof cases
    case env
    then have m: "map_of DECLARED_SAFE (lower key) = Some check_required_env"
      by (simp add: DECLARED_SAFE_def REQUIRED_ENV_KEY_def)
    show ?thesis
      unfolding check_payload_fields.simps Let_def m option.case and_then_unit check_required_env_iff
      by (simp add: field_ok_def declared_def env)
  next
    case auth
    then have m: "map_of DECLARED_SAFE (lower key) = Some check_requires_authorization"
      by (simp add: DECLARED_SAFE_def REQUIRED_ENV_KEY_def REQUIRES_AUTHORIZATION_KEY_def)
    show ?thesis
      unfolding check_payload_fields.simps Let_def m option.case and_then_unit check_requires_authorization_iff
      by (simp add: field_ok_def declared_def auth)
  next
    case plain
    then have m: "map_of DECLARED_SAFE (lower key) = None"
      by (simp add: DECLARED_SAFE_def REQUIRED_ENV_KEY_def REQUIRES_AUTHORIZATION_KEY_def)
    show ?thesis
      unfolding check_payload_fields.simps Let_def m option.case
      by (simp add: field_ok_def declared_def plain and_then_unit list_ex_iff)
  qed
qed

lemma check_clean: "check_sync_payload v path = Inr () \<longleftrightarrow> clean v"
proof (induction v arbitrary: path)
  case (JList xs)
  have "check_payload_items i ys path = Inr () \<longleftrightarrow> (\<forall>x \<in> set ys. clean x)" if "set ys \<subseteq> set xs" for i ys
    using that by (induction ys arbitrary: i) (simp_all add: and_then_unit JList)
  then show ?case by (simp add: clean_simps)
next
  case (JDict d)
  have "check_payload_fields f path = Inr () \<longleftrightarrow> (\<forall>(key, x) \<in> set f. field_ok key x \<and> (declared key \<or> clean x))"
    if "set f \<subseteq> set d" for f
    using that
  proof (induction f)
    case (Cons kx f)
    obtain key x where kx: "kx = (key, x)" by (cases kx)
    with Cons.prems have "check_sync_payload x p = Inr () \<longleftrightarrow> clean x" for p by (intro JDict) auto
    with Cons kx show ?case by (simp add: check_fields_Cons del: check_payload_fields.simps)
  qed simp
  then show ?case by (simp add: clean_simps)
qed (simp_all add: clean_simps)

lemma scan_forbidden_clean: "scan_forbidden payload = Inr () \<Longrightarrow> clean (JDict payload)"
  unfolding check_clean [of _ "[]", symmetric]
  by (auto simp: scan_forbidden_def split: option.splits sum.splits prod.splits)

lemma validated_payload_clean: "validate_event_document ct sm e = Inr document \<Longrightarrow> clean (JDict (se_payload e))"
  by (auto simp: validate_event_document_def and_then_Inr intro: scan_forbidden_clean)

end
