(* ===== verification/SyncOutcomes.thy ===== *)
theory SyncOutcomes
  imports SyncStream SyncPolicyTheorems
begin

text \<open>
  The properties of the account ledger, over every run of \<open>sync_step\<close>, and the instances they are
  checked on: an account that pushes a developer passport and then a fast-forward of it.
\<close>

section \<open>A concrete run\<close>

definition demo_ulid :: string where "demo_ulid = replicate 26 (CHR ''0'')"
definition demo_account :: string where "demo_account = ''account_'' @ demo_ulid"
definition demo_device :: string where "demo_device = ''device_'' @ demo_ulid"
definition demo_entity :: string where "demo_entity = ''developer_'' @ demo_ulid"

text \<open>A digest of 64 equal digits, by the number of parents of the document.\<close>

definition demo_text :: canonical_text where
  "demo_text =
     \<lparr>ct_nfc = (\<lambda>s. s), ct_has_bom = (\<lambda>s. False),
      ct_rfc8785 = (\<lambda>v. case v of
         JDict d \<Rightarrow> (case dict_get d ''parent_revision_ids'' of
            JList (p # ps) \<Rightarrow> Inr ''merge'' | _ \<Rightarrow> Inr []) | _ \<Rightarrow> Inr []),
      ct_sha256 = (\<lambda>s. replicate 64 (if last s = CHR ''e'' then CHR ''1'' else CHR ''0''))\<rparr>"

definition demo_env :: sync_env where
  "demo_env =
     \<lparr>sv_text = demo_text,
      sv_models = \<lparr>sm_envelope = (\<lambda>d. None), sm_device_summary = (\<lambda>d. True), sm_consent_upsert = (\<lambda>d. True),
        sm_consent_tombstone = (\<lambda>d. True)\<rparr>,
      sv_cursor = \<lparr>ce_hmac = (\<lambda>k m. replicate 32 (CHR ''k'')),
        ce_loads = (\<lambda>s. Some (JDict (cursor_body demo_account
           (if s = cursor_dump demo_account 0 then 0
            else if s = cursor_dump demo_account 1 then 1 else 2)))),
        ce_secret = ''secret''\<rparr>\<rparr>"

definition demo_context :: sync_context where
  "demo_context = \<lparr>sx_account_id = demo_account, sx_device_id = Some demo_device\<rparr>"

definition demo_revision :: "char \<Rightarrow> string" where
  "demo_revision c = ''revision_'' @ replicate 64 c"

definition demo_event :: "string \<Rightarrow> string list \<Rightarrow> sync_event" where
  "demo_event op parents =
     \<lparr>se_event_id = ''event-'' @ op, se_entity_id = demo_entity,
      se_entity_kind = ''developer_passport'',
      se_revision_id = demo_revision (if parents = [] then CHR ''0'' else CHR ''1''), se_parents = parents,
      se_device_id = demo_device, se_actor_id = demo_account, se_operation = op,
      se_content_digest = ''sha256:'' @ replicate 64 (CHR ''0''), se_created_at = ''2026-01-02T03:04:05.678Z'',
      se_idempotency_key = ''key-'' @ op, se_expected_head = (case parents of [] \<Rightarrow> None | p # ps \<Rightarrow> Some p),
      se_payload = [(''title'', JStr ''hello'')]\<rparr>"

definition demo_start :: sync_db where
  "demo_start =
     \<lparr>sy_accounts = [demo_account],
      sy_devices = [\<lparr>dv_id = demo_device, dv_account_id = demo_account, dv_public_key = [],
        dv_device_type = ''cli'', dv_display_name = None, dv_approximate_location = None, dv_user_agent = None,
        dv_state = ''active'', dv_last_seen_at = None\<rparr>],
      sy_revisions = [], sy_heads = [], sy_receipts = [], sy_outbox = [], sy_audit = []\<rparr>"

definition demo_first :: sync_event where "demo_first = demo_event ''upsert'' []"
definition demo_second :: sync_event where "demo_second = demo_event ''tombstone'' [demo_revision (CHR ''0'')]"

definition demo_push :: "sync_event \<Rightarrow> sync_db \<Rightarrow> event_result" where
  "demo_push e db = apply_one demo_env demo_context demo_device e 7 db"

definition demo_one :: sync_db where "demo_one = snd (demo_push demo_first demo_start)"
definition demo_two :: sync_db where "demo_two = snd (demo_push demo_second demo_one)"

lemma demo_ids:
  "is_valid_id demo_account (Some ''account'')" "is_valid_id demo_device (Some ''device'')"
  "is_valid_id demo_entity (Some ''developer'')"
proof -
  have u: "is_ulid demo_ulid" by code_simp
  show "is_valid_id demo_account (Some ''account'')" "is_valid_id demo_device (Some ''device'')"
    "is_valid_id demo_entity (Some ''developer'')"
    using valid_new_id [OF _ u, of "''account''"] valid_new_id [OF _ u, of "''device''"]
      valid_new_id [OF _ u, of "''developer''"]
    by (simp_all add: ID_PREFIXES_def demo_account_def demo_device_def demo_entity_def)
qed

lemma demo_revisions: "is_valid_revision_id (demo_revision (CHR ''0''))" "is_valid_revision_id (demo_revision (CHR ''1''))"
  by code_simp+

lemma demo_payload: "scan_forbidden [(''title'', JStr ''hello'')] = Inr ()"
  by code_simp

lemma demo_digests:
  "request_fingerprint demo_text (event_dump demo_first) = Inr (replicate 64 (CHR ''0''))"
  "canonical (expected_revision_id demo_text (seal_revision_document demo_first)) = Inr (demo_revision (CHR ''0''))"
  "canonical (expected_content_digest demo_text [(''title'', JStr ''hello'')]) = Inr (''sha256:'' @ replicate 64 (CHR ''0''))"
  "request_fingerprint demo_text (event_dump demo_second) = Inr (replicate 64 (CHR ''1''))"
  "canonical (expected_revision_id demo_text (seal_revision_document demo_second)) = Inr (demo_revision (CHR ''1''))"
  by code_simp+

lemma demo_valid:
  "validate_event_document demo_text (sv_models demo_env) demo_first = Inr (seal_revision_document demo_first)"
  "validate_event_document demo_text (sv_models demo_env) demo_second = Inr (seal_revision_document demo_second)"
proof -
  have "validate_entity_identity ''developer_passport'' demo_entity demo_device = Inr ()"
    using demo_ids by (simp add: validate_entity_identity_def ALLOWED_ENTITY_KINDS_def ENTITY_PREFIX_def)
  moreover have "validate_parents [] ''upsert'' = Inr ()" "validate_parents [demo_revision (CHR ''0'')] ''tombstone'' = Inr ()"
    using demo_revisions by (simp_all add: validate_parents_def)
  moreover have "validate_payload demo_text (sv_models demo_env) [(''title'', JStr ''hello'')] s k = Inr ()" for s k
    by (simp add: validate_payload_def has_key_def dict_get_def MAX_VERSIONS_def)
  ultimately show
    "validate_event_document demo_text (sv_models demo_env) demo_first = Inr (seal_revision_document demo_first)"
    "validate_event_document demo_text (sv_models demo_env) demo_second = Inr (seal_revision_document demo_second)"
    using demo_ids demo_revisions demo_payload demo_digests
    by (simp_all add: validate_event_document_def demo_first_def demo_second_def demo_event_def validate_closed_shape_def Let_def)
qed

definition demo_cursor :: "int \<Rightarrow> string" where
  "demo_cursor n = (case encode_sync_cursor (sv_cursor demo_env) demo_account n of Inr c \<Rightarrow> c | Inl m \<Rightarrow> [])"

lemma demo_encode: "0 \<le> n \<Longrightarrow> n < 10 ^ 20 \<Longrightarrow>
    encode_sync_cursor (sv_cursor demo_env) demo_account n = Inr (demo_cursor n)"
  by (rule encode_ok [OF demo_ids(1), of "sv_cursor demo_env" n]) (simp_all add: demo_env_def demo_cursor_def)

definition demo_moment :: datetime where
  "demo_moment = (case parse_timestamp ''2026-01-02T03:04:05.678Z'' of Some m \<Rightarrow> m)"

lemma demo_stamp: "parse_timestamp ''2026-01-02T03:04:05.678Z'' = Some demo_moment"
proof -
  have "matches_template TIMESTAMP_TEMPLATE ''2026-01-02T03:04:05.678Z''" by code_simp
  moreover have "read_number ''2026'' = 2026" "read_number ''01'' = 1" "read_number ''02'' = 2" "read_number ''03'' = 3"
    "read_number ''04'' = 4" "read_number ''05'' = 5"
    by (simp_all add: read_number_def digit_value_def)
  ultimately have "parse_timestamp ''2026-01-02T03:04:05.678Z'' \<noteq> None"
    by (simp add: parse_timestamp_def Let_def real_moment_def days_in_month_def is_leap_def)
  then show ?thesis by (auto simp: demo_moment_def)
qed

definition demo_row :: "int \<Rightarrow> sync_event \<Rightarrow> outbox_row" where
  "demo_row n e = outbox_row_of demo_account n (revision_from_event demo_account e (se_parents e) demo_moment)"

lemma demo_reachable_start: "sync_reachable demo_env demo_start"
  unfolding demo_start_def by (rule sync_reachable.start)

lemma demo_push_first:
  "request_fingerprint demo_text (event_dump e) = Inr fp \<Longrightarrow> se_device_id e = demo_device \<Longrightarrow>
     se_actor_id e = demo_account \<Longrightarrow> demo_account \<in> set (sy_accounts db) \<Longrightarrow>
     demo_push e db = apply_first demo_env demo_account e fp 7 db"
  by (simp add: demo_push_def apply_one_def demo_env_def demo_context_def lock_account_def)

lemma undelivered_none: "set parents \<subseteq> ob_revision_id ` set (outbox_of a db) \<Longrightarrow> undelivered_ancestors a parents db = Some []"
proof -
  assume "set parents \<subseteq> ob_revision_id ` set (outbox_of a db)"
  then have "filter (\<lambda>p. p \<notin> ob_revision_id ` set (outbox_of a db)) parents = []"
    by (auto simp: filter_empty_conv)
  then show ?thesis unfolding undelivered_ancestors_def Let_def by (simp add: ancestor_walk.simps)
qed

definition demo_stored :: "sync_event \<Rightarrow> sync_revision" where
  "demo_stored e = revision_from_event demo_account e (se_parents e) demo_moment"

lemma demo_first_accepted:
  "\<exists>db'. demo_push demo_first demo_start = (Inr (accepted demo_first (demo_cursor 1)), db')
    \<and> sy_revisions db' = [demo_stored demo_first]
    \<and> sy_heads db' = [\<lparr>eh_account_id = demo_account, eh_entity_id = demo_entity,
        eh_revision_id = demo_revision (CHR ''0''), eh_updated_at = 7\<rparr>]
    \<and> sy_outbox db' = [outbox_row_of demo_account 1 (demo_stored demo_first)]
    \<and> map rr_idempotency_key (sy_receipts db') = [''key-upsert'']
    \<and> sy_accounts db' = sy_accounts demo_start \<and> sy_devices db' = sy_devices demo_start"
proof -
  let ?a = "demo_account"
  have acc: "acceptable ?a demo_first None [] demo_start"
    by (simp add: acceptable_def lock_head_def heads_of_def demo_start_def get_revision_def revisions_of_def
        second_identity_def singleton_identity_def undelivered_none outbox_of_def can_accept_head_transition_def
        demo_first_def demo_event_def)
  have ok: "account_ok ?a demo_start" by (rule reachable_ok [OF demo_reachable_start])
  have cur: "encode_sync_cursor (sv_cursor demo_env) ?a
      (int (length (outbox_of ?a demo_start) + length ([] :: sync_revision list)) + 1) = Inr (demo_cursor 1)"
    using demo_encode [of 1] by (simp add: demo_start_def outbox_of_def)
  have doc: "validate_event_document (sv_text demo_env) (sv_models demo_env) demo_first
      = Inr (seal_revision_document demo_first)"
    using demo_valid(1) by (simp add: demo_env_def)
  have stamp: "parse_timestamp (se_created_at demo_first) = Some demo_moment"
    using demo_stamp by (simp add: demo_first_def demo_event_def)
  have key: "se_idempotency_key demo_first \<notin> rr_idempotency_key ` set (receipts_of ?a demo_start)"
    by (simp add: receipts_of_def demo_start_def)
  have run: "demo_push demo_first demo_start = apply_first demo_env ?a demo_first (replicate 64 (CHR ''0'')) 7 demo_start"
    by (rule demo_push_first [OF demo_digests(1)]) (simp_all add: demo_first_def demo_event_def demo_start_def)
  show ?thesis
    using apply_first_accepts [OF ok key doc acc stamp cur, of "replicate 64 (CHR ''0'')" 7] unfolding run
    by (auto simp: demo_start_def moved_heads_def outbox_of_def demo_stored_def receipted_def demo_first_def demo_event_def)
qed

lemma demo_one_facts:
  "demo_push demo_first demo_start = (Inr (accepted demo_first (demo_cursor 1)), demo_one)"
  "sy_revisions demo_one = [demo_stored demo_first]"
  "sy_heads demo_one = [\<lparr>eh_account_id = demo_account, eh_entity_id = demo_entity,
     eh_revision_id = demo_revision (CHR ''0''), eh_updated_at = 7\<rparr>]"
  "sy_outbox demo_one = [outbox_row_of demo_account 1 (demo_stored demo_first)]"
  "map rr_idempotency_key (sy_receipts demo_one) = [''key-upsert'']"
  "sy_accounts demo_one = sy_accounts demo_start" "sy_devices demo_one = sy_devices demo_start"
  using demo_first_accepted by (auto simp: demo_one_def)

lemma demo_reachable_one: "sync_reachable demo_env demo_one"
  using demo_one_facts(1) unfolding demo_push_def
  by (rule sync_reachable.step [OF demo_reachable_start sync_step.event])

lemma demo_second_accepted:
  "\<exists>db'. demo_push demo_second demo_one = (Inr (accepted demo_second (demo_cursor 2)), db')
    \<and> sy_outbox db' = [outbox_row_of demo_account 1 (demo_stored demo_first),
        outbox_row_of demo_account 2 (demo_stored demo_second)]
    \<and> sy_heads db' = [\<lparr>eh_account_id = demo_account, eh_entity_id = demo_entity,
        eh_revision_id = demo_revision (CHR ''1''), eh_updated_at = 7\<rparr>]
    \<and> sy_accounts db' = sy_accounts demo_start \<and> sy_devices db' = sy_devices demo_start"
proof -
  let ?a = "demo_account" and ?current = "Some (demo_revision (CHR ''0''))"
  have out: "outbox_of ?a demo_one = [outbox_row_of ?a 1 (demo_stored demo_first)]"
    by (simp add: outbox_of_def demo_one_facts)
  have revs: "revisions_of ?a demo_one = [demo_stored demo_first]"
    by (simp add: revisions_of_def demo_one_facts demo_stored_def)
  have ids: "demo_revision (CHR ''0'') \<noteq> demo_revision (CHR ''1'')" by (simp add: demo_revision_def)
  have first: "sr_revision_id (demo_stored demo_first) = demo_revision (CHR ''0'')"
    "sr_entity_id (demo_stored demo_first) = demo_entity"
    "sr_entity_kind (demo_stored demo_first) = ''developer_passport''"
    "sr_operation (demo_stored demo_first) = ''upsert''" "sr_event_id (demo_stored demo_first) = ''event-upsert''"
    by (simp_all add: demo_stored_def demo_first_def demo_event_def)
  have second: "se_revision_id demo_second = demo_revision (CHR ''1'')" "se_parents demo_second = [demo_revision (CHR ''0'')]"
    "se_entity_id demo_second = demo_entity" "se_entity_kind demo_second = ''developer_passport''"
    "se_expected_head demo_second = ?current" "se_event_id demo_second = ''event-tombstone''"
    "se_idempotency_key demo_second = ''key-tombstone''" "se_created_at demo_second = ''2026-01-02T03:04:05.678Z''"
    "se_device_id demo_second = demo_device" "se_actor_id demo_second = ?a"
    by (simp_all add: demo_second_def demo_event_def)
  have und: "undelivered_ancestors ?a [demo_revision (CHR ''0'')] demo_one = Some []"
    by (rule undelivered_none) (simp add: out first)
  have acc: "acceptable ?a demo_second ?current [] demo_one"
    using ids und
    by (simp add: acceptable_def lock_head_def heads_of_def demo_one_facts get_revision_def revs first second out
        second_identity_def singleton_identity_def SINGLETON_ENTITY_KINDS_def can_accept_head_transition_def)
  have ok: "account_ok ?a demo_one" by (rule reachable_ok [OF demo_reachable_one])
  have cur: "encode_sync_cursor (sv_cursor demo_env) ?a
      (int (length (outbox_of ?a demo_one) + length ([] :: sync_revision list)) + 1) = Inr (demo_cursor 2)"
    using demo_encode [of 2] by (simp add: out)
  have doc: "validate_event_document (sv_text demo_env) (sv_models demo_env) demo_second
      = Inr (seal_revision_document demo_second)"
    using demo_valid(2) by (simp add: demo_env_def)
  have stamp: "parse_timestamp (se_created_at demo_second) = Some demo_moment"
    using demo_stamp by (simp add: second)
  have "rr_idempotency_key ` set (sy_receipts demo_one) = {''key-upsert''}"
    using demo_one_facts(5) by (metis list.set_map list.set(1) list.set(2) empty_set)
  moreover have "rr_idempotency_key ` set (receipts_of ?a demo_one) \<subseteq> rr_idempotency_key ` set (sy_receipts demo_one)"
    by (auto simp: receipts_of_def)
  moreover have "se_idempotency_key demo_second \<notin> {''key-upsert''}" by (simp add: second)
  ultimately have key: "se_idempotency_key demo_second \<notin> rr_idempotency_key ` set (receipts_of ?a demo_one)"
    by (metis (no_types) subsetD)
  have run: "demo_push demo_second demo_one = apply_first demo_env ?a demo_second (replicate 64 (CHR ''1'')) 7 demo_one"
    by (rule demo_push_first [OF demo_digests(4)]) (simp_all add: second demo_one_facts demo_start_def)
  show ?thesis
    using apply_first_accepts [OF ok key doc acc stamp cur, of "replicate 64 (CHR ''1'')" 7] unfolding run
    by (auto simp: demo_one_facts out demo_stored_def receipted_def moved_heads_def second)
qed

lemma demo_two_facts:
  "demo_push demo_second demo_one = (Inr (accepted demo_second (demo_cursor 2)), demo_two)"
  "sy_outbox demo_two = [outbox_row_of demo_account 1 (demo_stored demo_first),
     outbox_row_of demo_account 2 (demo_stored demo_second)]"
  "sy_heads demo_two = [\<lparr>eh_account_id = demo_account, eh_entity_id = demo_entity,
     eh_revision_id = demo_revision (CHR ''1''), eh_updated_at = 7\<rparr>]"
  "sy_accounts demo_two = sy_accounts demo_start" "sy_devices demo_two = sy_devices demo_start"
  using demo_second_accepted by (auto simp: demo_two_def)

lemma demo_reachable_two: "sync_reachable demo_env demo_two"
  using demo_two_facts(1) unfolding demo_push_def
  by (rule sync_reachable.step [OF demo_reachable_one sync_step.event])

section \<open>The stream\<close>

text \<open>C3. In every reachable database the stream of an account is numbered from one without gaps, delivers
  every revision and every event id once, and each entry comes after all the revisions it names as parents.\<close>

theorem streams_are_replayable:
  assumes "sync_reachable env db"
  shows "map ob_sequence (outbox_of a db) = map int [1..<Suc (length (outbox_of a db))]
    \<and> distinct (map ob_revision_id (outbox_of a db)) \<and> distinct (map ob_event_id (outbox_of a db))
    \<and> causal ob_revision_id ob_parents (outbox_of a db)"
  using reachable_ok [OF assms, of a] by (simp add: account_ok_def stream_ok_def dense_def)

lemma streams_are_replayable_witness:
  "length (outbox_of demo_account demo_two) = 2
    \<and> map ob_sequence (outbox_of demo_account demo_two) = map int [1..<Suc (length (outbox_of demo_account demo_two))]
    \<and> distinct (map ob_revision_id (outbox_of demo_account demo_two))
    \<and> distinct (map ob_event_id (outbox_of demo_account demo_two))
    \<and> causal ob_revision_id ob_parents (outbox_of demo_account demo_two)"
  using streams_are_replayable [OF demo_reachable_two, of demo_account]
  by (simp add: outbox_of_def demo_two_facts)

text \<open>C17. Replaying an account's stream, the last entry of an entity winning, ends at exactly the heads the
  server keeps: the same entities, each at the same revision.\<close>

theorem replaying_reaches_the_heads:
  assumes "sync_reachable env db"
  shows "map_of (map (\<lambda>h. (eh_entity_id h, eh_revision_id h)) (heads_of a db))
    = map_option ob_revision_id \<circ> replay_stream (outbox_of a db)"
  using reachable_ok [OF assms, of a] by (simp add: account_ok_def heads_ok_def)

lemma replaying_reaches_the_heads_witness:
  "map_of (map (\<lambda>h. (eh_entity_id h, eh_revision_id h)) (heads_of demo_account demo_one)) demo_entity
      = map_option ob_revision_id (replay_stream (outbox_of demo_account demo_one) demo_entity)
    \<and> replay_stream (outbox_of demo_account demo_one) demo_entity
      = Some (outbox_row_of demo_account 1 (demo_stored demo_first))"
proof -
  have "replay_stream ([] @ [outbox_row_of demo_account 1 (demo_stored demo_first)]) demo_entity
      = Some (outbox_row_of demo_account 1 (demo_stored demo_first))"
    unfolding replay_stream_snoc by (simp add: demo_stored_def demo_first_def demo_event_def)
  then show ?thesis
    using replaying_reaches_the_heads [OF demo_reachable_one, of demo_account]
    by (simp add: outbox_of_def demo_one_facts)
qed

text \<open>C5. At every point of an account's stream at most one developer passport is live: a device that
  replays any prefix never holds two.\<close>

theorem one_live_passport:
  assumes "sync_reachable env db" and "e \<in> live_passports (take n (outbox_of a db))"
  shows "live_passports (take n (outbox_of a db)) = {e}"
  using reachable_ok [OF assms(1), of a] assms(2) by (auto simp: account_ok_def stream_ok_def single_passport_def)

lemma one_live_passport_witness:
  "live_passports (take 1 (outbox_of demo_account demo_two)) = {demo_entity}
    \<and> live_passports (take 2 (outbox_of demo_account demo_two)) = {}"
proof -
  have rows: "take 1 (outbox_of demo_account demo_two) = [] @ [outbox_row_of demo_account 1 (demo_stored demo_first)]"
    "take 2 (outbox_of demo_account demo_two) = (take 1 (outbox_of demo_account demo_two))
       @ [outbox_row_of demo_account 2 (demo_stored demo_second)]"
    by (simp_all add: outbox_of_def demo_two_facts)
  have live: "demo_entity \<in> live_passports (take 1 (outbox_of demo_account demo_two))"
    unfolding rows(1) live_snoc
    by (simp add: is_live_passport_def demo_stored_def demo_first_def demo_event_def)
  have one: "live_passports (take 1 (outbox_of demo_account demo_two)) = {demo_entity}"
    by (rule one_live_passport [OF demo_reachable_two live])
  moreover have "live_passports (take 2 (outbox_of demo_account demo_two)) = {}"
    unfolding rows(2) live_snoc one
    by (simp add: is_live_passport_def demo_stored_def demo_second_def demo_event_def)
  ultimately show ?thesis ..
qed

section \<open>Events\<close>

definition head_revision :: "string \<Rightarrow> string \<Rightarrow> sync_db \<Rightarrow> string option" where
  "head_revision a entity db = map_option eh_revision_id (find (\<lambda>h. eh_entity_id h = entity) (heads_of a db))"

lemma find_filter: "find P xs = (case filter P xs of [] \<Rightarrow> None | x # _ \<Rightarrow> Some x)"
  by (induction xs) auto

lemma lock_head_find: "lock_head a entity db = Inr row \<Longrightarrow> row = find (\<lambda>h. eh_entity_id h = entity) (heads_of a db)"
  by (auto simp: lock_head_def scalar_one_or_none_cases find_filter split: list.splits)

lemma head_moved:
  assumes row: "lock_head a (se_entity_id e) db = Inr row" "current = map_option eh_revision_id row"
    and hs: "sy_heads db' = moved_heads a e current now (sy_heads db)"
  shows "head_revision a i db' = (if i = se_entity_id e then Some (se_revision_id e) else head_revision a i db)"
    "b \<noteq> a \<Longrightarrow> head_revision b i db' = head_revision b i db"
proof -
  show "b \<noteq> a \<Longrightarrow> head_revision b i db' = head_revision b i db"
    by (simp add: head_revision_def heads_of_def hs heads_of_moved(2))
  have moved: "heads_of a db' = moved_heads a e current now (heads_of a db)"
    by (simp add: heads_of_def hs heads_of_moved(1))
  note found = lock_head_find [OF row(1)]
  show "head_revision a i db' = (if i = se_entity_id e then Some (se_revision_id e) else head_revision a i db)"
  proof (cases row)
    case None
    with row(2) found moved show ?thesis
      by (auto simp: head_revision_def moved_heads_def find_append split: option.splits)
  next
    case (Some h)
    have "find (\<lambda>h. eh_entity_id h = i) (update_where (\<lambda>h. eh_account_id h = a \<and> eh_entity_id h = se_entity_id e)
        (\<lambda>h. h\<lparr>eh_revision_id := se_revision_id e, eh_updated_at := now\<rparr>) (heads_of a db))
      = map_option (\<lambda>h. if eh_account_id h = a \<and> eh_entity_id h = se_entity_id e
          then h\<lparr>eh_revision_id := se_revision_id e, eh_updated_at := now\<rparr> else h)
          (find (\<lambda>h. eh_entity_id h = i) (heads_of a db))"
      by (rule find_update_where_key) simp
    then have shape: "head_revision a i db' = map_option eh_revision_id (map_option
        (\<lambda>h. if eh_account_id h = a \<and> eh_entity_id h = se_entity_id e
          then h\<lparr>eh_revision_id := se_revision_id e, eh_updated_at := now\<rparr> else h)
        (find (\<lambda>h. eh_entity_id h = i) (heads_of a db)))"
      using row(2) Some by (simp only: head_revision_def moved moved_heads_def option.map option.case)
    show ?thesis
    proof (cases "find (\<lambda>h. eh_entity_id h = i) (heads_of a db)")
      case None
      then have "i \<noteq> se_entity_id e" using found Some by auto
      then show ?thesis unfolding shape by (simp add: head_revision_def None)
    next
      case (Some k)
      then have "eh_account_id k = a" "eh_entity_id k = i"
        using find_mem [OF Some] by (simp_all add: heads_of_def)
      then show ?thesis unfolding shape by (simp add: head_revision_def Some)
    qed
  qed
qed

text \<open>C16. A head moves only by an accepted event of its own account and entity, and only forward: the event
  expected exactly the head it found, and its revision names that head as a parent (or is a first revision).\<close>

theorem heads_move_by_fast_forward:
  assumes "sync_reachable env db" and "apply_one env ctx device e now db = (res, db')"
    and "head_revision a i db' \<noteq> head_revision a i db"
  shows "a = sx_account_id ctx \<and> i = se_entity_id e \<and> head_revision a i db' = Some (se_revision_id e)
    \<and> (\<exists>cursor. res = Inr (accepted e cursor)) \<and> se_expected_head e = head_revision a i db
    \<and> (case head_revision a i db of None \<Rightarrow> se_parents e = [] | Some h \<Rightarrow> h \<in> set (se_parents e))"
proof -
  obtain fp where "event_outcome env (sx_account_id ctx) e fp now db res db'"
    using apply_one_outcome [OF assms(2) reachable_ok [OF assms(1)]] by blast
  then show ?thesis
  proof cases
    case (delivered cursor document current undelivered created r)
    from delivered(4) obtain row where row: "lock_head (sx_account_id ctx) (se_entity_id e) db = Inr row"
      "current = map_option eh_revision_id row"
      and can: "can_accept_head_transition current (se_expected_head e) (se_parents e)"
      by (auto simp: acceptable_def)
    note moved = head_moved [OF row delivered(9)]
    have where_moved: "a = sx_account_id ctx" "i = se_entity_id e"
      using assms(3) moved by (metis, metis)
    have "current = head_revision a i db"
      using lock_head_find [OF row(1)] row(2) where_moved by (simp add: head_revision_def)
    with can have "se_expected_head e = head_revision a i db
      \<and> (case head_revision a i db of None \<Rightarrow> se_parents e = [] | Some h \<Rightarrow> h \<in> set (se_parents e))"
      by (auto simp: can_accept_head_transition_def split: option.splits)
    with where_moved moved(1) [of i] delivered(1) show ?thesis by auto
  qed (use assms(3) in \<open>auto simp: same_ledger_def head_revision_def heads_of_def\<close>)
qed

lemma heads_move_by_fast_forward_witness:
  "head_revision demo_account demo_entity demo_one = Some (demo_revision (CHR ''0''))
    \<and> head_revision demo_account demo_entity demo_two = Some (demo_revision (CHR ''1''))
    \<and> se_expected_head demo_second = head_revision demo_account demo_entity demo_one
    \<and> demo_revision (CHR ''0'') \<in> set (se_parents demo_second)"
proof -
  have heads: "head_revision demo_account demo_entity demo_one = Some (demo_revision (CHR ''0''))"
    "head_revision demo_account demo_entity demo_two = Some (demo_revision (CHR ''1''))"
    by (simp_all add: head_revision_def heads_of_def demo_one_facts demo_two_facts)
  have "head_revision demo_account demo_entity demo_two \<noteq> head_revision demo_account demo_entity demo_one"
    unfolding heads by (simp add: demo_revision_def)
  from heads_move_by_fast_forward [OF demo_reachable_one demo_two_facts(1) [unfolded demo_push_def] this] heads
  show ?thesis by simp
qed

text \<open>An event that is not accepted moves no head and delivers nothing. A failed transaction writes
  nothing at all; any other answer is a stored receipt, and at most the event's own revision is kept.\<close>

theorem refused_events_move_nothing:
  assumes "sync_reachable env db" and "apply_one env ctx device e now db = (res, db')"
    and "\<forall>receipt. res = Inr receipt \<longrightarrow> er_state receipt \<noteq> ''accepted''"
  shows "sy_heads db' = sy_heads db \<and> sy_outbox db' = sy_outbox db
    \<and> (sy_revisions db' = sy_revisions db
        \<or> (\<exists>created. sy_revisions db' = sy_revisions db @ [revision_from_event (sx_account_id ctx) e (se_parents e) created]))
    \<and> (case res of
         Inl failure \<Rightarrow> db' = db
       | Inr receipt \<Rightarrow> (\<exists>stored \<in> set (receipts_of (sx_account_id ctx) db').
           rr_idempotency_key stored = se_idempotency_key e \<and> rr_response_body stored = receipt))"
proof -
  obtain fp where "event_outcome env (sx_account_id ctx) e fp now db res db'"
    using apply_one_outcome [OF assms(2) reachable_ok [OF assms(1)]] by blast
  then show ?thesis
  proof cases
    case (delivered cursor document current undelivered created r)
    with assms(3) show ?thesis by (simp add: accepted_def)
  qed (auto simp: same_ledger_def receipted_def receipts_of_def)
qed

lemma refused_events_move_nothing_witness:
  "\<exists>receipt db'. demo_push demo_second demo_start = (Inr receipt, db') \<and> er_state receipt = ''rejected''
    \<and> sy_heads db' = [] \<and> sy_outbox db' = []
    \<and> (\<exists>stored \<in> set (receipts_of demo_account db'). rr_response_body stored = receipt)"
proof -
  let ?fp = "replicate 64 (CHR ''1'')"
  have views: "receipts_of demo_account demo_start = []" "heads_of demo_account demo_start = []"
    "revisions_of demo_account demo_start = []"
    by (simp_all add: receipts_of_def heads_of_def revisions_of_def demo_start_def)
  have doc: "validate_event_document (sv_text demo_env) (sv_models demo_env) demo_second
      = Inr (seal_revision_document demo_second)"
    using demo_valid(2) by (simp add: demo_env_def)
  have e: "se_parents demo_second = [demo_revision (CHR ''0'')]" "se_device_id demo_second = demo_device"
    "se_actor_id demo_second = demo_account"
    by (simp_all add: demo_second_def demo_event_def)
  have "demo_push demo_second demo_start = apply_first demo_env demo_account demo_second ?fp 7 demo_start"
    by (rule demo_push_first [OF demo_digests(4)]) (simp_all add: e demo_start_def)
  also have "\<dots> = reject_for demo_account demo_second ?fp None [(''reason'', JStr ''unknown_parent'')] demo_start"
    using load_receipt_new [of "se_idempotency_key demo_second" demo_account demo_start] doc
    by (simp add: apply_first_def apply_valid_def new_revision_def second_identity_def singleton_identity_def
        lock_head_def get_revision_def views e)
  finally have run: "demo_push demo_second demo_start = \<dots>" .
  obtain res db' where s: "reject_for demo_account demo_second ?fp None [(''reason'', JStr ''unknown_parent'')] demo_start
      = (res, db')" by fastforce
  have res: "res = Inr (rejected demo_second ''AI_STP_VALIDATION_ERROR'' None None)"
    using settle_new [OF s [unfolded reject_for_def settle_rejected_def]] by (simp add: views)
  have "\<forall>receipt. res = Inr receipt \<longrightarrow> er_state receipt \<noteq> ''accepted''" by (simp add: res states)
  from refused_events_move_nothing [OF demo_reachable_start run [unfolded s, unfolded demo_push_def] this]
  have "sy_heads db' = [] \<and> sy_outbox db' = [] \<and>
      (\<exists>stored \<in> set (receipts_of demo_account db'). rr_response_body stored
        = rejected demo_second ''AI_STP_VALIDATION_ERROR'' None None)"
    by (auto simp: res demo_start_def demo_context_def)
  then show ?thesis unfolding run s res by (auto simp: states)
qed


section \<open>Receipts\<close>

lemma outcome_receipts:
  assumes "event_outcome env a e fingerprint now db res db'"
  shows "set (receipts_of b db) \<subseteq> set (receipts_of b db')" "sy_accounts db' = sy_accounts db"
  using assms by (cases; auto simp: receipted_def receipts_of_def)+

lemma receipted_stored:
  "receipted a e fingerprint receipt db db' \<Longrightarrow> \<exists>stored. stored \<in> set (receipts_of a db')
     \<and> rr_idempotency_key stored = se_idempotency_key e \<and> rr_request_fingerprint stored = fingerprint
     \<and> rr_response_body stored = receipt"
  by (rule exI [of _ "last (sy_receipts db')"]) (simp add: receipted_def receipts_of_def)

lemma outcome_stored:
  "event_outcome env a e fingerprint now db (Inr receipt) db' \<Longrightarrow> \<exists>stored. stored \<in> set (receipts_of a db')
     \<and> rr_idempotency_key stored = se_idempotency_key e \<and> rr_request_fingerprint stored = fingerprint
     \<and> rr_response_body stored = receipt"
  by (erule event_outcome.cases) (blast intro: receipted_stored)+

lemma apply_one_receipt:
  assumes run: "apply_one env ctx device e now db = (Inr receipt, db')" and ok: "account_ok (sx_account_id ctx) db"
  shows "\<exists>fingerprint stored. request_fingerprint (sv_text env) (event_dump e) = Inr fingerprint
    \<and> se_device_id e = device \<and> se_actor_id e = sx_account_id ctx \<and> sx_account_id ctx \<in> set (sy_accounts db')
    \<and> stored \<in> set (receipts_of (sx_account_id ctx) db') \<and> rr_idempotency_key stored = se_idempotency_key e
    \<and> rr_request_fingerprint stored = fingerprint \<and> rr_response_body stored = receipt"
proof -
  let ?a = "sx_account_id ctx"
  from run obtain fp where fp: "request_fingerprint (sv_text env) (event_dump e) = Inr fp"
    and ids: "se_device_id e = device" "se_actor_id e = ?a" "?a \<in> set (sy_accounts db)"
    and first: "apply_first env ?a e fp now db = (Inr receipt, db')"
    by (auto simp: apply_one_def lock_account_def split: sum.splits if_splits)
  note out = apply_first_outcome [OF first ok]
  have "?a \<in> set (sy_accounts db')" using ids(3) outcome_receipts(2) [OF out] by simp
  with fp ids(1,2) outcome_stored [OF out] show ?thesis by blast
qed

lemma replays_receipt:
  assumes ok: "account_ok (sx_account_id ctx) db"
    and fp: "request_fingerprint (sv_text env) (event_dump e) = Inr (rr_request_fingerprint stored)"
    and ids: "se_device_id e = device" "se_actor_id e = sx_account_id ctx" "sx_account_id ctx \<in> set (sy_accounts db)"
    and stored: "stored \<in> set (receipts_of (sx_account_id ctx) db)" "rr_idempotency_key stored = se_idempotency_key e"
  shows "apply_one env ctx device e now db = (Inr (rr_response_body stored), db)"
proof -
  have "distinct (map rr_idempotency_key (receipts_of (sx_account_id ctx) db))" using ok by (simp add: account_ok_def)
  from filter_distinct_key [OF this stored(1)] stored(2)
  have "load_receipt (sx_account_id ctx) (se_idempotency_key e) db = Inr (Some stored)"
    by (simp add: load_receipt_def)
  with fp ids show ?thesis by (simp add: apply_one_def lock_account_def apply_first_def)
qed

lemma event_steps:
  assumes "(event_step env)\<^sup>*\<^sup>* db db'" and "sync_reachable env db"
  shows "sync_reachable env db'" "set (receipts_of a db) \<subseteq> set (receipts_of a db')"
    "sy_accounts db' = sy_accounts db" "\<exists>new. outbox_of a db' = outbox_of a db @ new"
proof -
  have "sync_reachable env db' \<and> set (receipts_of a db) \<subseteq> set (receipts_of a db')
      \<and> sy_accounts db' = sy_accounts db \<and> (\<exists>new. outbox_of a db' = outbox_of a db @ new)"
    using assms
  proof (induction rule: rtranclp_induct)
    case (step db1 db2)
    then obtain ctx device e now res where run: "apply_one env ctx device e now db1 = (res, db2)"
      by (auto simp: event_step_def)
    with step have r1: "sync_reachable env db1" by blast
    from apply_one_outcome [OF run reachable_ok [OF r1]] obtain fp
      where out: "event_outcome env (sx_account_id ctx) e fp now db1 res db2" by blast
    have receipts: "set (receipts_of a db) \<subseteq> set (receipts_of a db2)"
      using step.IH step.prems outcome_receipts(1) [OF out, of a] by blast
    have accounts: "sy_accounts db2 = sy_accounts db"
      using step.IH step.prems outcome_receipts(2) [OF out] by simp
    obtain new1 new2 where "outbox_of a db1 = outbox_of a db @ new1" "outbox_of a db2 = outbox_of a db1 @ new2"
      using step.IH step.prems event_stream_grows [OF out, of a] by blast
    then have "outbox_of a db2 = outbox_of a db @ (new1 @ new2)" by simp
    with sync_reachable.step [OF r1 sync_step.event [OF run]] receipts accounts show ?case by blast
  qed simp
  then show "sync_reachable env db'" "set (receipts_of a db) \<subseteq> set (receipts_of a db')"
    "sy_accounts db' = sy_accounts db" "\<exists>new. outbox_of a db' = outbox_of a db @ new" by blast+
qed

text \<open>C4. A receipt is durable: whatever events any account pushes afterwards, pushing the same event again
  answers the receipt of the first time and writes nothing.\<close>

theorem receipts_are_durable:
  assumes "sync_reachable env db" and "apply_one env ctx device e now db = (Inr receipt, db')"
    and "(event_step env)\<^sup>*\<^sup>* db' db''"
  shows "apply_one env ctx device e later db'' = (Inr receipt, db'')"
proof -
  let ?a = "sx_account_id ctx"
  have r1: "sync_reachable env db'" by (rule sync_reachable.step [OF assms(1) sync_step.event [OF assms(2)]])
  note later = event_steps [OF assms(3) r1]
  from apply_one_receipt [OF assms(2) reachable_ok [OF assms(1)]] obtain stored where
    s: "request_fingerprint (sv_text env) (event_dump e) = Inr (rr_request_fingerprint stored)"
      "se_device_id e = device" "se_actor_id e = ?a" "?a \<in> set (sy_accounts db')"
      "stored \<in> set (receipts_of ?a db')" "rr_idempotency_key stored = se_idempotency_key e"
      "rr_response_body stored = receipt" by blast
  have "?a \<in> set (sy_accounts db'')" using s(4) later(3) by simp
  moreover have "stored \<in> set (receipts_of ?a db'')" using s(5) later(2) by blast
  ultimately have "apply_one env ctx device e later db'' = (Inr (rr_response_body stored), db'')"
    using s reachable_ok [OF later(1)] by (intro replays_receipt) simp_all
  with s(7) show ?thesis by simp
qed

lemma receipts_are_durable_witness:
  "demo_push demo_first demo_start = (Inr (accepted demo_first (demo_cursor 1)), demo_one)
    \<and> demo_push demo_first demo_two = (Inr (accepted demo_first (demo_cursor 1)), demo_two)"
proof -
  have "event_step demo_env demo_one demo_two"
    using demo_two_facts(1) unfolding event_step_def demo_push_def by blast
  from receipts_are_durable [OF demo_reachable_start demo_one_facts(1) [unfolded demo_push_def]
      r_into_rtranclp [of "event_step demo_env", OF this]]
  show ?thesis using demo_one_facts(1) unfolding demo_push_def by blast
qed

text \<open>C18. An accepted event is delivered as it was pushed: the last event of the account's stream has every
  field of the request, its time printed the way the client wrote it, and the receipt's cursor is the one for
  its position.\<close>

theorem events_are_delivered_as_pushed:
  assumes "sync_reachable env db" and "apply_one env ctx device e now db = (Inr (accepted e cursor), db')"
    and "db' \<noteq> db" and "out = outbox_of (sx_account_id ctx) db'"
  shows "stream_event_of (last out) =
      \<lparr>te_event_id = se_event_id e, te_entity_id = se_entity_id e, te_entity_kind = se_entity_kind e,
       te_revision_id = se_revision_id e, te_parents = se_parents e, te_device_id = se_device_id e,
       te_actor_id = se_actor_id e, te_operation = se_operation e, te_content_digest = se_content_digest e,
       te_created_at = se_created_at e, te_payload = se_payload e, te_sequence = int (length out)\<rparr>
    \<and> length (outbox_of (sx_account_id ctx) db) < length out
    \<and> encode_sync_cursor (sv_cursor env) (sx_account_id ctx) (int (length out)) = Inr cursor"
proof -
  let ?a = "sx_account_id ctx"
  obtain fp where "event_outcome env ?a e fp now db (Inr (accepted e cursor)) db'"
    using apply_one_outcome [OF assms(2) reachable_ok [OF assms(1)]] by blast
  then show ?thesis
  proof cases
    case (delivered c document current undelivered created r)
    have c: "c = cursor" using delivered(1) by (simp add: accepted_def)
    have n: "length (numbered a n rs) = length rs" for a n rs by (induction rs arbitrary: n) simp_all
    have out: "out = (outbox_of ?a db @ numbered ?a (int (length (outbox_of ?a db))) undelivered)
        @ [outbox_row_of ?a (int (length (outbox_of ?a db)) + int (length undelivered) + 1) r]"
      using delivered(10) assms(4) by (simp add: outbox_of_def numbered_append)
    have len: "length out = length (outbox_of ?a db) + length undelivered + 1" unfolding out by (simp add: n)
    have "last out = outbox_row_of ?a (int (length out)) r" unfolding len by (simp add: out algebra_simps)
    then have "stream_event_of (last out) =
      \<lparr>te_event_id = se_event_id e, te_entity_id = se_entity_id e, te_entity_kind = se_entity_kind e,
       te_revision_id = se_revision_id e, te_parents = se_parents e, te_device_id = se_device_id e,
       te_actor_id = se_actor_id e, te_operation = se_operation e, te_content_digest = se_content_digest e,
       te_created_at = se_created_at e, te_payload = se_payload e, te_sequence = int (length out)\<rparr>"
      using format_parse [OF delivered(5)]
      by (simp add: delivered(6) stream_event_of_def outbox_row_of_def revision_from_event_def)
    moreover have "int (length out) = int (length (outbox_of ?a db) + length undelivered) + 1" by (simp add: len)
    then have "encode_sync_cursor (sv_cursor env) ?a (int (length out)) = Inr cursor" using delivered(7) c by simp
    ultimately show ?thesis using len by simp
  qed (use assms(3) in \<open>simp_all add: accepted_def\<close>)
qed

lemma events_are_delivered_as_pushed_witness:
  "te_created_at (stream_event_of (last (outbox_of demo_account demo_two))) = ''2026-01-02T03:04:05.678Z''
    \<and> te_parents (stream_event_of (last (outbox_of demo_account demo_two))) = [demo_revision (CHR ''0'')]
    \<and> encode_sync_cursor (sv_cursor demo_env) demo_account 2 = Inr (demo_cursor 2)"
proof -
  have "sy_outbox demo_one \<noteq> sy_outbox demo_two" by (simp add: demo_one_facts demo_two_facts)
  then have new: "demo_two \<noteq> demo_one" by metis
  have ctx: "sx_account_id demo_context = demo_account" by (simp add: demo_context_def)
  have two: "length (outbox_of demo_account demo_two) = 2" by (simp add: outbox_of_def demo_two_facts)
  from events_are_delivered_as_pushed [OF demo_reachable_one demo_two_facts(1) [unfolded demo_push_def] new refl,
      unfolded ctx two]
  show ?thesis by (simp add: demo_second_def demo_event_def)
qed


section \<open>Readers\<close>

text \<open>C6. A reader that follows the cursors reads the whole stream, and one that kept the cursor of an earlier
  moment reads, whatever was pushed since, exactly the events added after it: none is skipped or repeated,
  in at most one pull more than there are events.\<close>

theorem readers_resume_without_gaps:
  assumes "sync_reachable env before" and "(event_step env)\<^sup>*\<^sup>* before db"
    and "require_active_device ctx db = Inr device" and "is_valid_id (sx_account_id ctx) (Some ''account'')"
    and "out = outbox_of (sx_account_id ctx) db" and "read = length (outbox_of (sx_account_id ctx) before)"
    and "codec_ok (sv_cursor env) (sx_account_id ctx) (length out)" and "int (length out) < 10 ^ 20"
    and "encode_sync_cursor (sv_cursor env) (sx_account_id ctx) (int read) = Inr c" and "length out < pulls"
  shows "drain env ctx psize pulls None db = Inr (map stream_event_of out)
    \<and> drain env ctx psize pulls (Some c) db = Inr (map stream_event_of (drop read out))
    \<and> out = outbox_of (sx_account_id ctx) before @ drop read out"
proof -
  let ?a = "sx_account_id ctx"
  have ok: "all_ok db" using reachable_ok [OF event_steps(1) [OF assms(2,1)]] by (simp add: all_ok_def)
  obtain new where new: "out = outbox_of ?a before @ new"
    using event_steps(4) [OF assms(2,1), of ?a] assms(5) by blast
  note read_all = drain_from [OF ok assms(3,5,7,4,8)]
  have "drain env ctx psize pulls None db = Inr (map stream_event_of (drop 0 out))"
    by (rule read_all) (use assms(10) in \<open>simp_all add: cursor_at_def\<close>)
  moreover have "drain env ctx psize pulls (Some c) db = Inr (map stream_event_of (drop read out))"
    by (rule read_all) (use assms(6,9,10) new in \<open>simp_all add: cursor_at_def\<close>)
  ultimately show ?thesis using new assms(6) by simp
qed

lemma demo_codec: "codec_ok (sv_cursor demo_env) demo_account 2"
proof -
  have differ: "cursor_dump demo_account 1 \<noteq> cursor_dump demo_account 0"
    "cursor_dump demo_account 2 \<noteq> cursor_dump demo_account 0" "cursor_dump demo_account 2 \<noteq> cursor_dump demo_account 1"
    by code_simp+
  have loads: "ce_loads (sv_cursor demo_env) (cursor_dump demo_account (int k))
      = Some (JDict (cursor_body demo_account (int k)))" if "k \<le> 2" for k
  proof -
    from that consider "k = 0" | "k = 1" | "k = 2" by linarith
    then show ?thesis by cases (use differ in \<open>simp_all add: demo_env_def\<close>)
  qed
  moreover have "length (ce_hmac (sv_cursor demo_env) key m) = 32" for key m by (simp add: demo_env_def)
  ultimately show ?thesis by (simp add: codec_ok_def)
qed

lemma readers_resume_without_gaps_witness:
  "drain demo_env demo_context 50 3 None demo_two = Inr (map stream_event_of (outbox_of demo_account demo_two))
    \<and> drain demo_env demo_context 50 3 (Some (demo_cursor 1)) demo_two
      = Inr [stream_event_of (outbox_row_of demo_account 2 (demo_stored demo_second))]"
proof -
  have ctx: "sx_account_id demo_context = demo_account" by (simp add: demo_context_def)
  have outs: "outbox_of demo_account demo_one = [outbox_row_of demo_account 1 (demo_stored demo_first)]"
    "outbox_of demo_account demo_two = [outbox_row_of demo_account 1 (demo_stored demo_first),
       outbox_row_of demo_account 2 (demo_stored demo_second)]"
    by (simp_all add: outbox_of_def demo_one_facts demo_two_facts)
  have "event_step demo_env demo_one demo_two"
    using demo_two_facts(1) unfolding event_step_def demo_push_def by blast
  then have steps: "(event_step demo_env)\<^sup>*\<^sup>* demo_one demo_two" by blast
  have device: "require_active_device demo_context demo_two = Inr demo_device"
    by (simp add: require_active_device_def demo_context_def demo_two_facts demo_start_def)
  have cursor: "encode_sync_cursor (sv_cursor demo_env) demo_account (int (length (outbox_of demo_account demo_one)))
      = Inr (demo_cursor 1)"
    using demo_encode [of 1] by (simp add: outs)
  have len: "length (outbox_of demo_account demo_two) = 2" by (simp add: outs)
  from readers_resume_without_gaps [OF demo_reachable_one steps device, unfolded ctx, OF demo_ids(1) refl refl,
      unfolded len, OF demo_codec _ cursor, of 3 50]
  show ?thesis by (simp add: outs)
qed

section \<open>Constraints and payloads\<close>

lemma push_loop_failure:
  "push_loop env ctx device es db = (Inl f, db') \<Longrightarrow> sync_reachable env db \<Longrightarrow>
     f \<noteq> Refused IntegrityError \<and> (\<forall>s. f \<noteq> Refused (SqlError s))"
proof (induction env ctx device es db arbitrary: db' rule: push_loop.induct)
  case (2 env ctx device e now es db)
  obtain r db1 where run: "apply_one env ctx device e now db = (r, db1)" by fastforce
  have r1: "sync_reachable env db1" using 2(3) sync_step.event [OF run] by (rule sync_reachable.step)
  show ?case
  proof (cases r)
    case (Inl g)
    with run have "\<exists>fp. event_outcome env (sx_account_id ctx) e fp now db (Inl g) db1"
      using apply_one_outcome reachable_ok [OF 2(3)] by blast
    then have "g \<noteq> Refused IntegrityError \<and> (\<forall>s. g \<noteq> Refused (SqlError s))"
      by (auto elim: event_outcome.cases)
    with 2(2) run Inl show ?thesis by simp
  next
    case (Inr receipt)
    obtain r2 db2 where loop: "push_loop env ctx device es db1 = (r2, db2)" by fastforce
    with 2(2) run Inr obtain g where "r2 = Inl g" "f = g" by (auto split: sum.splits)
    with 2(1) [OF run [symmetric] Inr _ r1] loop show ?thesis by simp
  qed
qed simp

text \<open>C19. A push never runs into a constraint of its tables: on a reachable database no INSERT violates a
  primary key or a unique constraint, and no query that expects one row finds two.\<close>

theorem pushes_never_hit_a_constraint:
  assumes "sync_reachable env db"
  shows "fst (push_events env ctx events db) \<noteq> Inl (Refused IntegrityError)
    \<and> fst (push_events env ctx events db) \<noteq> Inl (Refused (SqlError err))"
proof (cases "require_active_device ctx db")
  case (Inl f)
  then show ?thesis
    by (auto simp: push_events_def require_active_device_def refuse_def split: option.splits if_splits)
next
  case (Inr device)
  obtain r db' where loop: "push_loop env ctx device events db = (r, db')" by fastforce
  then have "r = Inl f \<Longrightarrow> f \<noteq> Refused IntegrityError \<and> (\<forall>s. f \<noteq> Refused (SqlError s))" for f
    using push_loop_failure assms by blast
  with Inr loop show ?thesis by (auto simp: push_events_def)
qed

lemma pushes_never_hit_a_constraint_witness:
  "fst (push_events demo_env demo_context [(demo_first, 8), (demo_second, 9), (demo_second, 9)] demo_one)
    \<noteq> Inl (Refused IntegrityError)"
  using pushes_never_hit_a_constraint [OF demo_reachable_one] by blast

text \<open>C21. The payload policy is exact: a payload passes the check of the contract, at whatever path it is read,
  if and only if no key anywhere in it is forbidden and every value the policy restricts has its form.\<close>

theorem payload_policy_is_exact: "check_sync_payload v path = Inr () \<longleftrightarrow> clean v"
  by (rule check_clean)

lemma revisions_clean: "sync_reachable env db \<Longrightarrow> \<forall>r \<in> set (sy_revisions db). clean (JDict (sr_payload r))"
proof (induction rule: sync_reachable.induct)
  case (step db db')
  from step(2) show ?case
  proof cases
    case (event ctx device e now res)
    from apply_one_outcome [OF event reachable_ok [OF step(1)]] obtain fp
      where "event_outcome env (sx_account_id ctx) e fp now db res db'" ..
    then show ?thesis
    proof cases
      case (kept receipt document created)
      with step.IH validated_payload_clean [OF kept(4)] show ?thesis by simp
    next
      case (delivered cursor document current undelivered created r)
      with step.IH validated_payload_clean [OF delivered(3)] show ?thesis by simp
    qed (use step.IH in \<open>auto simp: same_ledger_def\<close>)
  qed (use step.IH in \<open>auto simp: erase_account_def\<close>)
qed simp

text \<open>C20. Whatever a device reads from a stream obeys the payload policy: no event of a reachable database
  carries a key the policy forbids or an absolute path, at any depth.\<close>

theorem streams_carry_clean_payloads:
  assumes "sync_reachable env db" and "e \<in> set (map stream_event_of (outbox_of a db))"
  shows "clean (JDict (te_payload e))"
proof -
  from assms(2) obtain row where row: "row \<in> set (outbox_of a db)" "e = stream_event_of row" by auto
  obtain r where r: "r \<in> set (revisions_of a db)" "row = outbox_row_of a (ob_sequence row) r"
    using reachable_ok [OF assms(1), of a] row(1) unfolding account_ok_def stream_ok_def by blast
  from r(2) have "ob_payload row = sr_payload r" by (metis outbox_row_simps)
  then have "te_payload e = sr_payload r" using row(2) by (simp add: stream_event_of_def)
  moreover have "r \<in> set (sy_revisions db)" using r(1) by (simp add: revisions_of_def)
  ultimately show ?thesis using revisions_clean [OF assms(1)] by simp
qed

lemma streams_carry_clean_payloads_witness: "clean (JDict [(''title'', JStr ''hello'')])"
  using streams_carry_clean_payloads [OF demo_reachable_one,
      of "stream_event_of (outbox_row_of demo_account 1 (demo_stored demo_first))" demo_account]
  by (simp add: outbox_of_def demo_one_facts stream_event_of_def demo_stored_def demo_first_def demo_event_def)

text \<open>A cursor is read back as it was issued, for the account it was issued to, and by no other account.
  Every position below 10 to the 20 has a cursor.\<close>

theorem cursors_round_trip:
  assumes "is_valid_id a (Some ''account'')" and "codec_ok env a n" and "int n < 10 ^ 20"
  shows "\<exists>c. encode_sync_cursor env a (int n) = Inr c \<and> length c \<le> 512
    \<and> decode_sync_cursor env c reader
      = (if reader = a then Inr (int n) else Inl ''cursor account binding mismatch'')"
proof -
  obtain c where c: "encode_sync_cursor env a (int n) = Inr c"
    using encode_ok [OF assms(1), of env "int n"] assms(2,3) by (auto simp: codec_ok_def)
  moreover have "length c \<le> 512" using c by (auto simp: encode_sync_cursor_def Let_def split: if_splits)
  moreover have "ce_loads env (cursor_dump a (int n)) = Some (JDict (cursor_body a (int n)))"
    using assms(2) by (simp add: codec_ok_def)
  ultimately show ?thesis using decode_encode by blast
qed

lemma cursors_round_trip_witness:
  "decode_sync_cursor (sv_cursor demo_env) (demo_cursor 2) demo_account = Inr 2
    \<and> decode_sync_cursor (sv_cursor demo_env) (demo_cursor 2) demo_device = Inl ''cursor account binding mismatch''"
  using cursors_round_trip [OF demo_ids(1) demo_codec, of demo_account]
    cursors_round_trip [OF demo_ids(1) demo_codec, of demo_device] demo_encode [of 2]
  by (simp add: demo_account_def demo_device_def)

text \<open>A minted id is read back as its prefix and ULID, and every id that is read is the printing of what
  was read: the encoding has no second spelling.\<close>

theorem ids_round_trip:
  assumes "pre \<in> set ID_PREFIXES" and "is_ulid u" and "parse_id v = Inr (q, w)"
  shows "new_id u pre = Inr (pre @ ''_'' @ u) \<and> parse_id (pre @ ''_'' @ u) = Inr (pre, u)
    \<and> new_id w q = Inr v"
  using assms parse_new_id [OF assms(1,2)] parse_id_some [OF assms(3)] by (simp add: new_id_def)

lemma ids_round_trip_witness:
  "parse_id (''link_plan_'' @ demo_ulid) = Inr (''link_plan'', demo_ulid)
    \<and> new_id demo_ulid ''link_plan'' = Inr (''link_plan_'' @ demo_ulid)"
proof -
  have u: "is_ulid demo_ulid" by code_simp
  have pre: "''link_plan'' \<in> set ID_PREFIXES" by (simp add: ID_PREFIXES_def)
  from ids_round_trip [OF pre u parse_new_id [OF pre u]] show ?thesis by simp
qed

end
