(* ===== verification/Visibility.thy ===== *)
theory Visibility
  imports Canonical AuditTrail Identity DeviceFlow
begin

text \<open>
  Distribution visibility plans (\<open>apps/api/src/ai_stp_api/slices/visibility/service.py\<close>): an owner
  plans to open or close one published version, reads the plan and confirms it on the device that
  made it. A request is one transaction that commits, or rolls back when it raises; the plan row,
  the version and, for a setup, the pinned components are locked while it runs. Minted ids, the
  clock and its text, canonical JSON, digests and the passport models' pins are arguments. The
  search projection is not part of the state; the badge its refresh writes to the catalog is.
\<close>

section \<open>State\<close>

record visibility_plan =
  vp_id :: string
  vp_account_id :: string
  vp_device_id :: string
  vp_metadata_id :: int
  vp_passport_digest :: string
  vp_ownership_revision_id :: "string option"
  vp_previous_visibility :: string
  vp_visibility :: string
  vp_plan_hash :: string
  vp_request_hash :: string
  vp_idempotency_key :: string
  vp_state :: string
  vp_expires_at :: time

record visibility_db =
  vb_devices :: "device list"
  vb_catalog :: "catalog_metadata list"
  vb_plans :: "visibility_plan list"
  vb_audit :: "audit_row list"

record visibility_request =
  vq_object_kind :: string
  vq_stable_id :: string
  vq_version :: string
  vq_visibility :: string
  vq_device_id :: string
  vq_idempotency_key :: string

record visibility_answer =
  va_plan_id :: string
  va_plan_hash :: string
  va_state :: string
  va_object_kind :: string
  va_stable_id :: string
  va_version :: string
  va_passport_digest :: string
  va_previous_visibility :: string
  va_visibility :: string
  va_actor_id :: string
  va_device_id :: string
  va_expires_at :: string
  va_effects :: "string list"

record request_context =
  rc_account_id :: string
  rc_device_id :: "string option"

text \<open>A component pin: stable id, version, passport digest.\<close>

type_synonym pin = "string \<times> string \<times> string"

text \<open>
  \<open>ve_setup_pins\<close> and \<open>ve_component_pins\<close> are \<open>SetupVersionPassport.model_validate(d).components\<close> and
  \<open>ComponentVersionPassport.model_validate(d).requires_components\<close>, \<^const>\<open>None\<close> when the model refuses
  the document; \<open>ve_clock_text\<close> prints an instant like \<open>format_timestamp\<close>. \<open>ve_refreshed\<close> stands for
  the refresh of the search row of a component: of the listed versions it is given, the id of the
  latest one and the badge its current assessments amount to, or \<^const>\<open>None\<close> when none is listed or
  the search row cannot be built.
\<close>

record visibility_env =
  ve_text :: canonical_text
  ve_setup_pins :: "dict \<Rightarrow> pin list option"
  ve_component_pins :: "dict \<Rightarrow> pin list option"
  ve_clock_text :: "time \<Rightarrow> string"
  ve_refreshed :: "catalog_metadata list \<Rightarrow> (int \<times> bool) option"

text \<open>An \<open>ApiError\<close> or a database error, or an exception nothing handles.\<close>

datatype access_failure = Denied api_error | Unhandled string

definition deny :: "error_category \<Rightarrow> string \<Rightarrow> access_failure" where
  "deny c message = Denied (ApiError c message None)"

definition VISIBILITY_PLAN_TTL :: time where "VISIBILITY_PLAN_TTL = seconds 1800"

section \<open>Reading\<close>

definition device_check :: "request_context \<Rightarrow> string \<Rightarrow> visibility_db \<Rightarrow> access_failure + unit" where
  "device_check ctx device db =
     (if rc_device_id ctx \<noteq> Some device
      then Inl (deny VALIDATION ''visibility device must match the session'')
      else case find (\<lambda>d. dv_id d = device) (vb_devices db) of
             None \<Rightarrow> Inl (deny NOT_FOUND ''device not found'')
           | Some d \<Rightarrow>
               if dv_account_id d \<noteq> rc_account_id ctx then Inl (deny NOT_FOUND ''device not found'')
               else if dv_state d \<noteq> ''active'' then Inl (deny DEVICE_REVOKED ''device is revoked'')
               else Inr ())"

definition distributable :: "catalog_metadata \<Rightarrow> bool" where
  "distributable r \<longleftrightarrow> cv_lifecycle_state r \<in> {''active'', ''deprecated''}
     \<and> cv_passport_digest r \<noteq> None \<and> cv_passport_digest r \<noteq> Some []"

definition owned_version :: "request_context \<Rightarrow> string \<Rightarrow> string \<Rightarrow> string \<Rightarrow> visibility_db
    \<Rightarrow> access_failure + catalog_metadata" where
  "owned_version ctx kind sid version db =
     (case find (\<lambda>r. cv_object_kind r = kind \<and> cv_stable_id r = sid \<and> cv_version r = Some version
             \<and> cv_owner_account_id r = rc_account_id ctx \<and> cv_published_at r \<noteq> None) (vb_catalog db) of
        None \<Rightarrow> Inl (deny NOT_FOUND ''published owner version not found'')
      | Some r \<Rightarrow>
          if \<not> distributable r
          then Inl (deny CONFLICT ''this version cannot change distribution visibility'')
          else Inr r)"

definition plan_target :: "request_context \<Rightarrow> int \<Rightarrow> visibility_db \<Rightarrow> access_failure + catalog_metadata" where
  "plan_target ctx i db =
     (case find (\<lambda>r. cv_id r = i \<and> cv_owner_account_id r = rc_account_id ctx) (vb_catalog db) of
        None \<Rightarrow> Inl (deny NOT_FOUND ''visibility plan not found'')
      | Some r \<Rightarrow> Inr r)"

definition own_plan :: "request_context \<Rightarrow> string \<Rightarrow> visibility_db \<Rightarrow> access_failure + visibility_plan" where
  "own_plan ctx i db =
     (case find (\<lambda>p. vp_id p = i \<and> vp_account_id p = rc_account_id ctx) (vb_plans db) of
        None \<Rightarrow> Inl (deny NOT_FOUND ''visibility plan not found'')
      | Some p \<Rightarrow> Inr p)"

definition visibility_effects :: "string \<Rightarrow> string list" where
  "visibility_effects visibility = [''set distribution visibility to '' @ visibility]"

text \<open>The wire form; a row without a version does not validate.\<close>

definition plan_wire :: "visibility_env \<Rightarrow> visibility_plan \<Rightarrow> catalog_metadata \<Rightarrow> access_failure + visibility_answer" where
  "plan_wire env p target =
     (case cv_version target of
        None \<Rightarrow> Inl (Unhandled ''ValidationError'')
      | Some version \<Rightarrow>
          Inr \<lparr>va_plan_id = vp_id p, va_plan_hash = vp_plan_hash p, va_state = vp_state p,
               va_object_kind = cv_object_kind target, va_stable_id = cv_stable_id target,
               va_version = version, va_passport_digest = vp_passport_digest p,
               va_previous_visibility = vp_previous_visibility p, va_visibility = vp_visibility p,
               va_actor_id = vp_account_id p, va_device_id = vp_device_id p,
               va_expires_at = ve_clock_text env (vp_expires_at p),
               va_effects = visibility_effects (vp_visibility p)\<rparr>)"

section \<open>Writing\<close>

text \<open>UPDATE of the plan row with this primary key.\<close>

definition store_plan :: "visibility_plan \<Rightarrow> visibility_db \<Rightarrow> visibility_db" where
  "store_plan p db = db\<lparr>vb_plans := update_where (\<lambda>q. vp_id q = vp_id p) (\<lambda>_. p) (vb_plans db)\<rparr>"

definition add_plan :: "visibility_plan \<Rightarrow> visibility_db \<Rightarrow> access_failure + visibility_db" where
  "add_plan p db =
     (if vp_id p \<in> vp_id ` set (vb_plans db)
         \<or> (vp_account_id p, vp_idempotency_key p) \<in> (\<lambda>q. (vp_account_id q, vp_idempotency_key q)) ` set (vb_plans db)
      then Inl (Denied IntegrityError)
      else Inr (db\<lparr>vb_plans := vb_plans db @ [p]\<rparr>))"

definition expire_plan :: "time \<Rightarrow> visibility_plan \<Rightarrow> visibility_plan" where
  "expire_plan now p = (if vp_state p = ''planned'' \<and> vp_expires_at p \<le> now then p\<lparr>vp_state := ''expired''\<rparr> else p)"

section \<open>Creating a plan\<close>

type_synonym plan_result = "(access_failure + visibility_answer) \<times> visibility_db"

definition commit :: "'s \<Rightarrow> access_failure + 'a \<times> 's \<Rightarrow> (access_failure + 'a) \<times> 's" where
  "commit db r = (case r of Inl f \<Rightarrow> (Inl f, db) | Inr (answer, db') \<Rightarrow> (Inr answer, db'))"

definition replay_plan :: "visibility_env \<Rightarrow> request_context \<Rightarrow> visibility_request \<Rightarrow> visibility_plan \<Rightarrow> time
    \<Rightarrow> visibility_db \<Rightarrow> access_failure + visibility_answer \<times> visibility_db" where
  "replay_plan env ctx body existing now db =
     and_then (plan_target ctx (vp_metadata_id existing) db) (\<lambda>target.
     and_then (plan_wire env existing target) (\<lambda>answer.
       if va_object_kind answer \<noteq> vq_object_kind body \<or> va_stable_id answer \<noteq> vq_stable_id body
          \<or> va_version answer \<noteq> vq_version body \<or> va_visibility answer \<noteq> vq_visibility body
          \<or> va_device_id answer \<noteq> vq_device_id body
       then Inl (deny CONFLICT ''idempotency key describes another visibility effect'')
       else let p = expire_plan now existing in
         and_then (plan_wire env p target) (\<lambda>answer. Inr (answer, store_plan p db))))"

definition request_dump :: "visibility_request \<Rightarrow> json" where
  "request_dump body =
     JDict [(''schema_version'', JInt 1), (''object_kind'', JStr (vq_object_kind body)),
            (''stable_id'', JStr (vq_stable_id body)), (''version'', JStr (vq_version body)),
            (''visibility'', JStr (vq_visibility body)), (''device_id'', JStr (vq_device_id body))]"

definition plan_document :: "visibility_env \<Rightarrow> request_context \<Rightarrow> visibility_request \<Rightarrow> catalog_metadata \<Rightarrow> string
    \<Rightarrow> time \<Rightarrow> json" where
  "plan_document env ctx body target i expiry =
     JDict [(''schema_version'', JInt 1), (''plan_id'', JStr i), (''state'', JStr ''planned''),
            (''object_kind'', JStr (vq_object_kind body)), (''stable_id'', JStr (vq_stable_id body)),
            (''version'', JStr (vq_version body)),
            (''passport_digest'', (case cv_passport_digest target of None \<Rightarrow> JNull | Some d \<Rightarrow> JStr d)),
            (''previous_visibility'', JStr (cv_visibility target)), (''visibility'', JStr (vq_visibility body)),
            (''actor_id'', JStr (rc_account_id ctx)), (''device_id'', JStr (vq_device_id body)),
            (''expires_at'', JStr (ve_clock_text env expiry)),
            (''effects'', JList (map JStr (visibility_effects (vq_visibility body))))]"

text \<open>A digest; a document without canonical bytes raises.\<close>

definition digest_of :: "visibility_env \<Rightarrow> string \<Rightarrow> json \<Rightarrow> access_failure + string" where
  "digest_of env domain v = (case digest_canonical (ve_text env) domain v of Inl m \<Rightarrow> Inl (Unhandled m) | Inr d \<Rightarrow> Inr d)"

definition fresh_plan :: "visibility_env \<Rightarrow> request_context \<Rightarrow> visibility_request \<Rightarrow> string \<Rightarrow> time
    \<Rightarrow> visibility_db \<Rightarrow> access_failure + visibility_answer \<times> visibility_db" where
  "fresh_plan env ctx body i now db =
     and_then (owned_version ctx (vq_object_kind body) (vq_stable_id body) (vq_version body) db) (\<lambda>target.
       if cv_visibility target = vq_visibility body
       then Inl (deny VALIDATION ''the version already carries this distribution visibility'')
       else let expiry = now + VISIBILITY_PLAN_TTL in
         and_then (digest_of env ''ai-stp:github-request:v1'' (request_dump body)) (\<lambda>request_hash.
         and_then (digest_of env ''ai-stp:plan:v1'' (plan_document env ctx body target i expiry)) (\<lambda>plan_hash.
           let p = \<lparr>vp_id = i, vp_account_id = rc_account_id ctx, vp_device_id = vq_device_id body,
                   vp_metadata_id = cv_id target,
                   vp_passport_digest = (case cv_passport_digest target of None \<Rightarrow> [] | Some d \<Rightarrow> d),
                   vp_ownership_revision_id = Some (cv_current_revision_id target),
                   vp_previous_visibility = cv_visibility target, vp_visibility = vq_visibility body,
                   vp_plan_hash = plan_hash, vp_request_hash = request_hash,
                   vp_idempotency_key = vq_idempotency_key body, vp_state = ''planned'', vp_expires_at = expiry\<rparr>
           in and_then (add_plan p db) (\<lambda>db'.
              and_then (plan_wire env p target) (\<lambda>answer. Inr (answer, db'))))))"

definition create_visibility_plan :: "visibility_env \<Rightarrow> request_context \<Rightarrow> visibility_request \<Rightarrow> string \<Rightarrow> time
    \<Rightarrow> visibility_db \<Rightarrow> plan_result" where
  "create_visibility_plan env ctx body i now db =
     commit db
       (and_then (device_check ctx (vq_device_id body) db) (\<lambda>_.
          case find (\<lambda>p. vp_account_id p = rc_account_id ctx \<and> vp_idempotency_key p = vq_idempotency_key body)
                 (vb_plans db) of
            Some existing \<Rightarrow> replay_plan env ctx body existing now db
          | None \<Rightarrow> fresh_plan env ctx body i now db))"

definition visibility_status :: "visibility_env \<Rightarrow> request_context \<Rightarrow> string \<Rightarrow> time \<Rightarrow> visibility_db \<Rightarrow> plan_result" where
  "visibility_status env ctx i now db =
     commit db
       (and_then (own_plan ctx i db) (\<lambda>row.
        and_then (plan_target ctx (vp_metadata_id row) db) (\<lambda>target.
          let p = expire_plan now row in
          and_then (plan_wire env p target) (\<lambda>answer. Inr (answer, store_plan p db)))))"

section \<open>Public dependencies\<close>

text \<open>The first refusal of a pin, or the further pins its component requires.\<close>

definition pinned :: "catalog_metadata list \<Rightarrow> pin \<Rightarrow> catalog_metadata option" where
  "pinned rows p = find (\<lambda>r. cv_object_kind r = ''component'' \<and> cv_stable_id r = fst p
     \<and> cv_version r = Some (fst (snd p))) rows"

definition publicly_pinned :: "catalog_metadata \<Rightarrow> pin \<Rightarrow> bool" where
  "publicly_pinned r p \<longleftrightarrow> cv_visibility r = ''public'' \<and> cv_lifecycle_state r \<in> {''active'', ''deprecated''}
     \<and> cv_published_at r \<noteq> None \<and> cv_passport_digest r = Some (snd (snd p))"

definition visit_pin :: "visibility_env \<Rightarrow> catalog_metadata list \<Rightarrow> pin \<Rightarrow> access_failure + pin list" where
  "visit_pin env rows p =
     (case pinned rows p of
        None \<Rightarrow> Inl (deny CONFLICT ''public setup requires every exact pin to be public'')
      | Some r \<Rightarrow>
          if \<not> publicly_pinned r p
          then Inl (deny CONFLICT ''public setup requires every exact pin to be public'')
          else case ve_component_pins env (cv_passport_document r) of
                 None \<Rightarrow> Inl (Unhandled ''ValidationError'')
               | Some pins \<Rightarrow> Inr pins)"

text \<open>The loop. A pin that passes is the coordinate of a row, so only finitely many are new.\<close>

definition coordinates :: "catalog_metadata list \<Rightarrow> pin set" where
  "coordinates rows = (\<lambda>r. (cv_stable_id r, the (cv_version r), the (cv_passport_digest r))) ` set rows"

lemma visit_pin_coordinate: "visit_pin env rows p = Inr pins \<Longrightarrow> p \<in> coordinates rows"
proof -
  assume "visit_pin env rows p = Inr pins"
  then obtain r where r: "pinned rows p = Some r" "publicly_pinned r p"
    by (auto simp: visit_pin_def split: option.splits if_splits)
  have "r \<in> set rows" "cv_stable_id r = fst p" "cv_version r = Some (fst (snd p))"
    using find_mem [OF r(1) [unfolded pinned_def]] by simp_all
  moreover have "cv_passport_digest r = Some (snd (snd p))" using r(2) by (simp add: publicly_pinned_def)
  ultimately have "p = (cv_stable_id r, the (cv_version r), the (cv_passport_digest r))" by simp
  with \<open>r \<in> set rows\<close> show ?thesis unfolding coordinates_def by (intro image_eqI)
qed

function walk_pins :: "visibility_env \<Rightarrow> catalog_metadata list \<Rightarrow> pin list \<Rightarrow> pin set \<Rightarrow> access_failure + unit" where
  "walk_pins env rows pending seen =
     (case pending of
        [] \<Rightarrow> Inr ()
      | p # rest \<Rightarrow>
          if p \<in> seen then walk_pins env rows rest seen
          else case visit_pin env rows p of
                 Inl f \<Rightarrow> Inl f
               | Inr further \<Rightarrow> walk_pins env rows (rest @ further) (insert p seen))"
  by pat_completeness auto

termination walk_pins
proof (relation "measures [\<lambda>(env, rows, pending, seen). card (coordinates rows - seen),
    \<lambda>(env, rows, pending, seen). length pending]", goal_cases)
  case (3 env rows pending seen p rest further)
  then have "p \<in> coordinates rows - seen" using visit_pin_coordinate by blast
  moreover have "finite (coordinates rows - seen)" by (simp add: coordinates_def)
  ultimately have "card (coordinates rows - insert p seen) < card (coordinates rows - seen)"
    by (intro psubset_card_mono) auto
  then show ?case by simp
qed simp_all

declare walk_pins.simps [simp del]

definition public_dependencies :: "visibility_env \<Rightarrow> catalog_metadata \<Rightarrow> catalog_metadata list \<Rightarrow> access_failure + unit" where
  "public_dependencies env target rows =
     (if cv_object_kind target \<noteq> ''setup'' then Inr ()
      else case ve_setup_pins env (cv_passport_document target) of
             None \<Rightarrow> Inl (Unhandled ''ValidationError'')
           | Some pins \<Rightarrow> walk_pins env rows pins {})"

section \<open>Confirming\<close>

record confirm_request =
  cq_plan_hash :: string
  cq_confirmed :: bool

text \<open>
  The refresh of the search row of the target's line (\<open>upsert_catalog_search_projection\<close>, then
  \<open>refresh_component_assurance\<close>): the latest listed version of a component line, which may be another
  version than the target, gets its badge recomputed.
\<close>

definition listed_version :: "catalog_metadata \<Rightarrow> catalog_metadata \<Rightarrow> bool" where
  "listed_version target r \<longleftrightarrow> cv_object_kind r = cv_object_kind target \<and> cv_stable_id r = cv_stable_id target
     \<and> cv_visibility r = ''public'' \<and> cv_lifecycle_state r \<in> {''active'', ''deprecated'', ''blocked''}
     \<and> cv_published_at r \<noteq> None \<and> cv_version r \<noteq> None \<and> cv_passport_digest r \<noteq> None \<and> cv_trust_lane r \<noteq> None"

definition refresh_line :: "visibility_env \<Rightarrow> catalog_metadata \<Rightarrow> catalog_metadata list \<Rightarrow> catalog_metadata list" where
  "refresh_line env target rows =
     (if cv_object_kind target \<noteq> ''component'' then rows
      else case ve_refreshed env (filter (listed_version target) rows) of
             None \<Rightarrow> rows
           | Some (i, badge) \<Rightarrow>
               update_where (\<lambda>r. cv_id r = i \<and> listed_version target r)
                 (\<lambda>r. r\<lparr>cv_component_verified := badge\<rparr>) rows)"

definition apply_visibility :: "visibility_env \<Rightarrow> request_context \<Rightarrow> string \<Rightarrow> visibility_plan \<Rightarrow> visibility_answer
    \<Rightarrow> catalog_metadata \<Rightarrow> visibility_db \<Rightarrow> access_failure + visibility_answer \<times> visibility_db" where
  "apply_visibility env ctx i row planned target db =
     and_then (if va_visibility planned = ''public'' then public_dependencies env target (vb_catalog db) else Inr ()) (\<lambda>_.
       let target' = target\<lparr>cv_visibility := va_visibility planned\<rparr>;
           row' = row\<lparr>vp_state := ''applied''\<rparr>;
           db' = (store_plan row' db)\<lparr>vb_catalog := refresh_line env target
               (update_where (\<lambda>r. cv_id r = cv_id target) (\<lambda>_. target') (vb_catalog db)),
             vb_audit := emit_audit []
               \<lparr>aa_actor_account_id = Some (rc_account_id ctx), aa_organization_id = None,
                aa_action = ''distribution_visibility_changed'', aa_target_table = ''catalog_metadata'',
                aa_target_id = int_str (cv_id target), aa_reason = None, aa_outcome = ''succeeded'',
                aa_request_id = None,
                aa_payload = [(''plan_id'', JStr i), (''previous_visibility'', JStr (va_previous_visibility planned)),
                  (''visibility'', JStr (va_visibility planned)), (''passport_digest'', JStr (va_passport_digest planned))],
                aa_actor_type = None, aa_actor_id = None\<rparr> (vb_audit db)\<rparr>
       in and_then (plan_wire env row' target') (\<lambda>answer. Inr (answer, db')))"

definition confirm_visibility_plan :: "visibility_env \<Rightarrow> request_context \<Rightarrow> string \<Rightarrow> confirm_request \<Rightarrow> time
    \<Rightarrow> visibility_db \<Rightarrow> plan_result" where
  "confirm_visibility_plan env ctx i body now db =
     commit db
       (and_then (own_plan ctx i db) (\<lambda>row.
        and_then (plan_target ctx (vp_metadata_id row) db) (\<lambda>found.
        and_then (plan_wire env row found) (\<lambda>planned.
        and_then (device_check ctx (va_device_id planned) db) (\<lambda>_.
          if \<not> cq_confirmed body \<or> cq_plan_hash body \<noteq> va_plan_hash planned
          then Inl (deny CONFLICT ''visibility confirmation does not match the plan'')
          else
            and_then (owned_version ctx (va_object_kind planned) (va_stable_id planned) (va_version planned) db) (\<lambda>target.
              if vp_state row = ''applied''
              then and_then (plan_wire env row target) (\<lambda>answer. Inr (answer, db))
              else let p = expire_plan now row in
                if vp_state p \<noteq> ''planned''
                then and_then (plan_wire env p target) (\<lambda>answer. Inr (answer, store_plan p db))
                else if cv_passport_digest target \<noteq> Some (va_passport_digest planned)
                        \<or> cv_visibility target \<noteq> va_previous_visibility planned
                then let q = p\<lparr>vp_state := ''refused''\<rparr> in
                  and_then (plan_wire env q target) (\<lambda>answer. Inr (answer, store_plan q db))
                else apply_visibility env ctx i p planned target db))))))"

end
