(* ===== verification/Grants.thy ===== *)
theory Grants
  imports Visibility JobQueue
begin

text \<open>
  Access grants (\<open>apps/api/src/ai_stp_api/slices/grants/service.py\<close>, \<open>operations.py\<close>): direct grants
  with receipts per idempotency key, email invitations that become grants, and withdrawal by
  revision. A request is one transaction. Minted ids, tokens and the clock are arguments; the
  resolution of a corporate owner (\<open>resolves_catalog_ownership\<close>) is a column of the state, since the
  corporate tables change on their own. Text is Latin-1; times stay instants on the wire.
\<close>

section \<open>Tables\<close>

record access_grant =
  ag_id :: string
  ag_organization_id :: string
  ag_object_kind :: string
  ag_stable_id :: string
  ag_major :: int
  ag_owner_account_id :: string
  ag_grantee_account_id :: string
  ag_revision :: int
  ag_state :: string
  ag_created_at :: time
  ag_revoked_at :: "time option"

record grant_invitation =
  gi_id :: string
  gi_organization_id :: "string option"
  gi_owner_account_id :: string
  gi_object_kind :: string
  gi_stable_id :: string
  gi_major :: int
  gi_recipient_email :: string
  gi_token_hash :: string
  gi_state :: string
  gi_idempotency_key :: string
  gi_expires_at :: time
  gi_accepted_grant_id :: "string option"
  gi_created_at :: time
  gi_revoked_at :: "time option"

record recipient_reference =
  rf_grant_id :: string
  rf_identifier_kind :: string
  rf_identifier_value :: string

record grant_receipt =
  go_actor_account_id :: string
  go_idempotency_key :: string
  go_action :: string
  go_request_digest :: string
  go_grant_id :: string

record oauth_identity =
  oi_id :: int
  oi_account_id :: string
  oi_provider :: string
  oi_email :: string
  oi_email_verified :: bool
  oi_state :: string

record identity_alias =
  ia_oauth_identity_id :: int
  ia_provider :: string
  ia_normalized_value :: string

record workspace =
  ws_id :: string
  ws_kind :: string
  ws_owner_account_id :: "string option"

record workspace_member =
  wm_organization_id :: string
  wm_account_id :: string
  wm_role :: string
  wm_state :: string

text \<open>Columns of \<open>CatalogIdentity\<close> and \<open>CatalogMetadata\<close>.\<close>

record line_scope =
  ls_stable_id :: string
  ls_organization_id :: "string option"

record listed_object =
  lo_owner_account_id :: string
  lo_object_kind :: string
  lo_stable_id :: string
  lo_organization_id :: "string option"

record grant_db =
  gd_accounts :: "string list"
  gd_oauth :: "oauth_identity list"
  gd_aliases :: "identity_alias list"
  gd_workspaces :: "workspace list"
  gd_members :: "workspace_member list"
  gd_lines :: "line_scope list"
  gd_objects :: "listed_object list"
  gd_resolves_ownership :: "string \<Rightarrow> string \<Rightarrow> string \<Rightarrow> string \<Rightarrow> bool"
  gd_grants :: "access_grant list"
  gd_invitations :: "grant_invitation list"
  gd_references :: "recipient_reference list"
  gd_receipts :: "grant_receipt list"
  gd_queue :: queue_db
  gd_audit :: "audit_row list"

section \<open>Names of recipients\<close>

definition normalize_email :: "string \<Rightarrow> string" where
  "normalize_email email = lower (strip email)"

definition hash_token :: "canonical_text \<Rightarrow> string \<Rightarrow> string" where
  "hash_token ct t = ct_sha256 ct t"

text \<open>\<open>_GITHUB_USERNAME\<close>: 1 to 39 lowercase letters and digits, with single inner hyphens.\<close>

definition name_char :: "char \<Rightarrow> bool" where
  "name_char c \<longleftrightarrow> c \<in> set ''abcdefghijklmnopqrstuvwxyz0123456789''"

fun name_tail :: "string \<Rightarrow> bool" where
  "name_tail [] = True"
| "name_tail (c # cs) =
     ((name_char c \<or> c = CHR ''-'' \<and> (case cs of [] \<Rightarrow> False | d # _ \<Rightarrow> name_char d)) \<and> name_tail cs)"

definition GITHUB_USERNAME :: "string \<Rightarrow> bool" where
  "GITHUB_USERNAME s \<longleftrightarrow> (case s of [] \<Rightarrow> False | c # cs \<Rightarrow> name_char c \<and> name_tail cs \<and> length cs \<le> 38)"

definition ACCOUNT_ID :: "string \<Rightarrow> bool" where
  "ACCOUNT_ID s \<longleftrightarrow> starts_with ''account_'' s \<and> is_ulid (drop 8 s)"

definition normalize_github_username :: "string \<Rightarrow> access_failure + string" where
  "normalize_github_username value =
     (let normalized = remove_prefix ''@'' (lower (strip value)) in
      if GITHUB_USERNAME normalized then Inr normalized else Inl (deny VALIDATION ''invalid GitHub username''))"

section \<open>Who may issue\<close>

definition personal_workspace :: "string \<Rightarrow> workspace \<Rightarrow> bool" where
  "personal_workspace owner w \<longleftrightarrow> ws_owner_account_id w = Some owner \<and> ws_kind w = ''personal''"

text \<open>The INSERT skips an owner who already has one; \<open>candidate\<close> is the minted id.\<close>

definition owner_scope_id :: "string \<Rightarrow> string \<Rightarrow> grant_db \<Rightarrow> access_failure + string \<times> grant_db" where
  "owner_scope_id owner candidate db =
     (case find (personal_workspace owner) (gd_workspaces db) of
        Some w \<Rightarrow> Inr (ws_id w, db)
      | None \<Rightarrow>
          if candidate \<in> ws_id ` set (gd_workspaces db) then Inl (Denied IntegrityError)
          else Inr (candidate,
            db\<lparr>gd_workspaces := gd_workspaces db
                 @ [\<lparr>ws_id = candidate, ws_kind = ''personal'', ws_owner_account_id = Some owner\<rparr>],
               gd_members := gd_members db
                 @ [\<lparr>wm_organization_id = candidate, wm_account_id = owner, wm_role = ''owner'', wm_state = ''active''\<rparr>]\<rparr>))"

definition object_organization_id :: "string \<Rightarrow> string \<Rightarrow> grant_db \<Rightarrow> string option" where
  "object_organization_id kind sid db =
     (case (case find (\<lambda>l. ls_stable_id l = sid) (gd_lines db) of None \<Rightarrow> None | Some l \<Rightarrow> ls_organization_id l) of
        Some organization \<Rightarrow> Some organization
      | None \<Rightarrow>
          (case find (\<lambda>r. lo_object_kind r = kind \<and> lo_stable_id r = sid \<and> lo_organization_id r \<noteq> None) (gd_objects db) of
             None \<Rightarrow> None | Some r \<Rightarrow> lo_organization_id r))"

definition corporate_owner_scope :: "string \<Rightarrow> string \<Rightarrow> string \<Rightarrow> grant_db \<Rightarrow> string option" where
  "corporate_owner_scope account kind sid db =
     (case object_organization_id kind sid db of
        None \<Rightarrow> None
      | Some organization \<Rightarrow>
          (case find (\<lambda>w. ws_id w = organization) (gd_workspaces db) of
             None \<Rightarrow> None
           | Some w \<Rightarrow>
               if ws_kind w \<noteq> ''corporate'' then None
               else if \<not> gd_resolves_ownership db organization kind sid account then None
               else Some organization))"

definition is_personal_owner :: "string \<Rightarrow> string \<Rightarrow> string \<Rightarrow> grant_db \<Rightarrow> bool" where
  "is_personal_owner account kind sid db \<longleftrightarrow>
     list_ex (\<lambda>r. lo_owner_account_id r = account \<and> lo_object_kind r = kind \<and> lo_stable_id r = sid) (gd_objects db)"

definition issuer_scope :: "string \<Rightarrow> string \<Rightarrow> string \<Rightarrow> string \<Rightarrow> grant_db \<Rightarrow> access_failure + string \<times> grant_db" where
  "issuer_scope account kind sid candidate db =
     (if is_personal_owner account kind sid db then owner_scope_id account candidate db
      else case corporate_owner_scope account kind sid db of
             Some organization \<Rightarrow> Inr (organization, db)
           | None \<Rightarrow> Inl (deny PERMISSION ''not the owner of the object''))"

definition may_withdraw :: "string \<Rightarrow> string \<Rightarrow> string \<Rightarrow> string \<Rightarrow> grant_db \<Rightarrow> bool" where
  "may_withdraw account issuer kind sid db \<longleftrightarrow> issuer = account \<or> corporate_owner_scope account kind sid db \<noteq> None"


section \<open>Requests and answers\<close>

record direct_request =
  dq_object_kind :: string
  dq_stable_id :: string
  dq_major :: int
  dq_recipient_kind :: string
  dq_recipient :: string
  dq_expected_grant_id :: "string option"
  dq_expected_revision :: "int option"
  dq_idempotency_key :: string

record invitation_request =
  iq_object_kind :: string
  iq_stable_id :: string
  iq_major :: int
  iq_recipient_email :: string
  iq_idempotency_key :: string
  iq_ttl_seconds :: int

record withdraw_request =
  wq_reason :: string
  wq_expected_revision :: "int option"
  wq_idempotency_key :: string

record grant_answer =
  ga_grant_id :: string
  ga_object_kind :: string
  ga_stable_id :: string
  ga_major :: int
  ga_grantee_account_id :: string
  ga_owner_account_id :: string
  ga_state :: string
  ga_revision :: int
  ga_created_at :: time
  ga_revoked_at :: "time option"
  ga_recipient_kind :: "string option"
  ga_recipient :: "string option"

record invitation_answer =
  ia_invitation_id :: string
  ia_object_kind :: string
  ia_stable_id :: string
  ia_major :: int
  ia_state :: string
  ia_expires_at :: time
  ia_created_at :: time

definition grant_to_wire :: "access_grant \<Rightarrow> recipient_reference option \<Rightarrow> grant_answer" where
  "grant_to_wire g reference =
     \<lparr>ga_grant_id = ag_id g, ga_object_kind = ag_object_kind g, ga_stable_id = ag_stable_id g,
      ga_major = ag_major g, ga_grantee_account_id = ag_grantee_account_id g,
      ga_owner_account_id = ag_owner_account_id g, ga_state = ag_state g, ga_revision = ag_revision g,
      ga_created_at = ag_created_at g, ga_revoked_at = ag_revoked_at g,
      ga_recipient_kind = map_option rf_identifier_kind reference,
      ga_recipient = map_option rf_identifier_value reference\<rparr>"

definition invitation_to_wire :: "grant_invitation \<Rightarrow> invitation_answer" where
  "invitation_to_wire r =
     \<lparr>ia_invitation_id = gi_id r, ia_object_kind = gi_object_kind r, ia_stable_id = gi_stable_id r,
      ia_major = gi_major r, ia_state = gi_state r, ia_expires_at = gi_expires_at r, ia_created_at = gi_created_at r\<rparr>"

definition reference_of :: "string \<Rightarrow> grant_db \<Rightarrow> recipient_reference option" where
  "reference_of i db = find (\<lambda>r. rf_grant_id r = i) (gd_references db)"

definition grant_audit :: "string \<Rightarrow> string \<Rightarrow> string \<Rightarrow> string \<Rightarrow> string option \<Rightarrow> dict \<Rightarrow> grant_db \<Rightarrow> grant_db" where
  "grant_audit actor action table target reason payload db =
     db\<lparr>gd_audit := emit_audit []
          \<lparr>aa_actor_account_id = Some actor, aa_organization_id = None, aa_action = action,
           aa_target_table = table, aa_target_id = target, aa_reason = reason, aa_outcome = ''succeeded'',
           aa_request_id = None, aa_payload = payload, aa_actor_type = None, aa_actor_id = None\<rparr> (gd_audit db)\<rparr>"

definition store_grant :: "access_grant \<Rightarrow> grant_db \<Rightarrow> grant_db" where
  "store_grant g db = db\<lparr>gd_grants := update_where (\<lambda>h. ag_id h = ag_id g) (\<lambda>_. g) (gd_grants db)\<rparr>"

definition store_invitation :: "grant_invitation \<Rightarrow> grant_db \<Rightarrow> grant_db" where
  "store_invitation r db = db\<lparr>gd_invitations := update_where (\<lambda>s. gi_id s = gi_id r) (\<lambda>_. r) (gd_invitations db)\<rparr>"

section \<open>Receipts of requests\<close>

definition lookup_receipt :: "canonical_text \<Rightarrow> string \<Rightarrow> string \<Rightarrow> string \<Rightarrow> json \<Rightarrow> grant_db
    \<Rightarrow> access_failure + string \<times> grant_receipt option" where
  "lookup_receipt ct actor key action request db =
     (case canonize ct request of
        Inl m \<Rightarrow> Inl (Unhandled m)
      | Inr bytes \<Rightarrow>
          let digest = ct_sha256 ct bytes in
          (case find (\<lambda>r. go_actor_account_id r = actor \<and> go_idempotency_key r = key) (gd_receipts db) of
             None \<Rightarrow> Inr (digest, None)
           | Some r \<Rightarrow>
               if go_action r \<noteq> action \<or> go_request_digest r \<noteq> digest
               then Inl (deny CONFLICT ''idempotency key belongs to another grant request'')
               else Inr (digest, Some r)))"

definition complete_receipt :: "string \<Rightarrow> string \<Rightarrow> string \<Rightarrow> string \<Rightarrow> string \<Rightarrow> grant_db \<Rightarrow> access_failure + grant_db" where
  "complete_receipt actor key action digest grant db =
     (if (actor, key) \<in> (\<lambda>r. (go_actor_account_id r, go_idempotency_key r)) ` set (gd_receipts db)
      then Inl (Denied IntegrityError)
      else Inr (db\<lparr>gd_receipts := gd_receipts db
             @ [\<lparr>go_actor_account_id = actor, go_idempotency_key = key, go_action = action,
                 go_request_digest = digest, go_grant_id = grant\<rparr>]\<rparr>))"

section \<open>Inserting a grant\<close>

definition same_line :: "access_grant \<Rightarrow> access_grant \<Rightarrow> bool" where
  "same_line g h \<longleftrightarrow> ag_object_kind h = ag_object_kind g \<and> ag_stable_id h = ag_stable_id g
     \<and> ag_major h = ag_major g \<and> ag_grantee_account_id h = ag_grantee_account_id g"

definition new_grant :: "string \<Rightarrow> string \<Rightarrow> string \<Rightarrow> string \<Rightarrow> int \<Rightarrow> string \<Rightarrow> string \<Rightarrow> time \<Rightarrow> access_grant" where
  "new_grant i organization kind sid major owner grantee now =
     \<lparr>ag_id = i, ag_organization_id = organization, ag_object_kind = kind, ag_stable_id = sid, ag_major = major,
      ag_owner_account_id = owner, ag_grantee_account_id = grantee, ag_revision = 1, ag_state = ''active'',
      ag_created_at = now, ag_revoked_at = None\<rparr>"

text \<open>\<open>ON CONFLICT DO NOTHING\<close> and the select after it: whether the row is new, and the row of the slot.\<close>

definition insert_grant :: "access_grant \<Rightarrow> grant_db \<Rightarrow> access_failure + (bool \<times> access_grant) \<times> grant_db" where
  "insert_grant g db =
     (if \<not> list_ex (same_line g) (gd_grants db) \<and> ag_id g \<in> ag_id ` set (gd_grants db)
      then Inl (Denied IntegrityError)
      else let inserted = \<not> list_ex (same_line g) (gd_grants db);
               db' = (if inserted then db\<lparr>gd_grants := gd_grants db @ [g]\<rparr> else db)
        in case scalar_one (filter (same_line g) (gd_grants db')) of
             Inl e \<Rightarrow> Inl (Denied (SqlError e))
           | Inr row \<Rightarrow> Inr ((inserted, row), db'))"

section \<open>Direct grants\<close>

definition check_revision :: "access_grant \<Rightarrow> int option \<Rightarrow> access_failure + unit" where
  "check_revision g expected =
     (if expected = None \<or> expected \<noteq> Some (ag_revision g) \<or> ag_revision g \<ge> 2147483647
      then Inl (deny PRECONDITION ''read the grant and explicitly bind its current revision before changing access'')
      else Inr ())"

definition find_recipient :: "direct_request \<Rightarrow> grant_db \<Rightarrow> access_failure + string \<times> string option" where
  "find_recipient body db =
     (if dq_recipient_kind body = ''github_username''
      then and_then (normalize_github_username (dq_recipient body)) (\<lambda>recipient.
        Inr (recipient,
          (case [oi_account_id o'. o' \<leftarrow> gd_oauth db, a \<leftarrow> gd_aliases db,
                   ia_oauth_identity_id a = oi_id o' \<and> ia_provider a = ''github'' \<and> ia_normalized_value a = recipient
                   \<and> oi_provider o' = ''github'' \<and> oi_state o' = ''linked''] of
             [] \<Rightarrow> None | account # _ \<Rightarrow> Some account)))
      else let recipient = strip (dq_recipient body) in
        if \<not> ACCOUNT_ID recipient then Inl (deny VALIDATION ''invalid user ID'')
        else Inr (recipient, find (\<lambda>a. a = recipient) (gd_accounts db)))"

definition change_existing :: "request_context \<Rightarrow> direct_request \<Rightarrow> access_grant \<Rightarrow> grant_db
    \<Rightarrow> access_failure + grant_answer \<times> grant_db" where
  "change_existing ctx body existing db =
     and_then
       (if dq_expected_revision body \<noteq> None \<or> dq_expected_grant_id body \<noteq> None \<or> ag_state existing = ''revoked''
        then if dq_expected_grant_id body \<noteq> Some (ag_id existing)
             then Inl (deny PRECONDITION ''the expected grant identity changed'')
             else check_revision existing (dq_expected_revision body)
        else Inr ())
       (\<lambda>_. if ag_state existing = ''revoked''
            then let g = existing\<lparr>ag_revision := ag_revision existing + 1, ag_state := ''active'', ag_revoked_at := None\<rparr>
              in Inr (grant_to_wire g (reference_of (ag_id g) db),
                   grant_audit (rc_account_id ctx) ''grant.reactivated'' ''access_grant'' (ag_id g) None
                     [(''recipient_kind'', JStr (dq_recipient_kind body))] (store_grant g db))
            else Inr (grant_to_wire existing (reference_of (ag_id existing) db), db))"

definition issue_grant :: "request_context \<Rightarrow> direct_request \<Rightarrow> string \<Rightarrow> string \<Rightarrow> string \<Rightarrow> string \<Rightarrow> time \<Rightarrow> grant_db
    \<Rightarrow> access_failure + grant_answer \<times> grant_db" where
  "issue_grant ctx body scope recipient grantee i dbnow db =
     (if dq_expected_revision body \<noteq> None \<or> dq_expected_grant_id body \<noteq> None
      then Inl (deny PRECONDITION ''the expected grant no longer exists'')
      else
        and_then (insert_grant (new_grant i scope (dq_object_kind body) (dq_stable_id body) (dq_major body)
            (rc_account_id ctx) grantee dbnow) db) (\<lambda>((inserted, g), db').
          if \<not> inserted then Inr (grant_to_wire g (reference_of (ag_id g) db'), db')
          else if ag_id g \<in> rf_grant_id ` set (gd_references db') then Inl (Denied IntegrityError)
          else let reference = \<lparr>rf_grant_id = ag_id g, rf_identifier_kind = dq_recipient_kind body,
                                rf_identifier_value = recipient\<rparr>
            in Inr (grant_to_wire g (Some reference),
                 grant_audit (rc_account_id ctx) ''grant.created_direct'' ''access_grant'' (ag_id g) None
                   [(''recipient_kind'', JStr (dq_recipient_kind body))]
                   (db'\<lparr>gd_references := gd_references db' @ [reference]\<rparr>))))"

definition grant_directly :: "request_context \<Rightarrow> direct_request \<Rightarrow> string \<Rightarrow> string \<Rightarrow> time \<Rightarrow> grant_db
    \<Rightarrow> access_failure + grant_answer \<times> grant_db" where
  "grant_directly ctx body scope i dbnow db =
     and_then (find_recipient body db) (\<lambda>(recipient, found).
       case found of
         None \<Rightarrow> Inl (deny NOT_FOUND ''recipient not found'')
       | Some grantee \<Rightarrow>
           (case find (\<lambda>g. ag_object_kind g = dq_object_kind body \<and> ag_stable_id g = dq_stable_id body
                  \<and> ag_major g = dq_major body \<and> ag_grantee_account_id g = grantee) (gd_grants db) of
              Some existing \<Rightarrow> change_existing ctx body existing db
            | None \<Rightarrow> issue_grant ctx body scope recipient grantee i dbnow db))"

definition direct_dump :: "direct_request \<Rightarrow> json" where
  "direct_dump body =
     JDict ([(''schema_version'', JInt 1), (''object_kind'', JStr (dq_object_kind body)),
             (''stable_id'', JStr (dq_stable_id body)), (''major'', JInt (dq_major body)),
             (''recipient_kind'', JStr (dq_recipient_kind body)), (''recipient'', JStr (dq_recipient body))]
       @ (case dq_expected_grant_id body of None \<Rightarrow> [] | Some i \<Rightarrow> [(''expected_grant_id'', JStr i)])
       @ (case dq_expected_revision body of None \<Rightarrow> [] | Some n \<Rightarrow> [(''expected_revision'', JInt n)]))"

definition direct_transaction :: "canonical_text \<Rightarrow> request_context \<Rightarrow> direct_request \<Rightarrow> string \<Rightarrow> string \<Rightarrow> time \<Rightarrow> grant_db
    \<Rightarrow> access_failure + grant_answer \<times> grant_db" where
  "direct_transaction ct ctx body0 i candidate dbnow db =
     and_then (issuer_scope (rc_account_id ctx) (dq_object_kind body0) (dq_stable_id body0) candidate db) (\<lambda>(scope, db1).
     and_then (if dq_recipient_kind body0 = ''github_username'' then normalize_github_username (dq_recipient body0)
               else Inr (strip (dq_recipient body0))) (\<lambda>recipient.
       let body = body0\<lparr>dq_recipient := recipient\<rparr> in
       and_then (lookup_receipt ct (rc_account_id ctx) (dq_idempotency_key body) ''direct'' (direct_dump body) db1)
         (\<lambda>(digest, receipt).
           case receipt of
             Some r \<Rightarrow>
               (case find (\<lambda>g. ag_id g = go_grant_id r) (gd_grants db1) of
                  None \<Rightarrow> Inl (deny NOT_FOUND ''grant not found'')
                | Some g \<Rightarrow> Inr (grant_to_wire g (reference_of (ag_id g) db1), db1))
           | None \<Rightarrow>
               and_then (grant_directly ctx body scope i dbnow db1) (\<lambda>(answer, db2).
               and_then (complete_receipt (rc_account_id ctx) (dq_idempotency_key body) ''direct'' digest
                   (ga_grant_id answer) db2) (\<lambda>db3. Inr (answer, db3))))))"

definition create_direct_grant :: "canonical_text \<Rightarrow> request_context \<Rightarrow> direct_request \<Rightarrow> string \<Rightarrow> string \<Rightarrow> time \<Rightarrow> grant_db
    \<Rightarrow> (access_failure + grant_answer) \<times> grant_db" where
  "create_direct_grant ct ctx body i candidate dbnow db = commit db (direct_transaction ct ctx body i candidate dbnow db)"


section \<open>Invitations\<close>

text \<open>The token travels in the delivery job only; the table keeps its digest.\<close>

definition delivery_job :: "grant_invitation \<Rightarrow> string \<Rightarrow> enqueue_args" where
  "delivery_job r token =
     \<lparr>e_job_type = DELIVER_INVITATION,
      e_payload = [(''invitation_id'', JStr (gi_id r)), (''to_email'', JStr (gi_recipient_email r)),
        (''object_stable_id'', JStr (gi_stable_id r)), (''major'', JInt (gi_major r)), (''accept_token'', JStr token)],
      e_key = ''deliver_invitation:'' @ gi_id r, e_priority = 0, e_max_attempts = 5, e_run_after = None,
      e_org = None, e_revision = None, e_principal_type = None, e_principal_id = None, e_permission = None,
      e_scope_kind = ''organization'', e_scope_id = None\<rparr>"

definition invite :: "canonical_text \<Rightarrow> request_context \<Rightarrow> invitation_request \<Rightarrow> string \<Rightarrow> string \<Rightarrow> string \<Rightarrow> time \<Rightarrow> time
    \<Rightarrow> grant_db \<Rightarrow> access_failure + invitation_answer \<times> grant_db" where
  "invite ct ctx body scope i token now dbnow db =
     (let r = \<lparr>gi_id = i, gi_organization_id = Some scope, gi_owner_account_id = rc_account_id ctx,
               gi_object_kind = iq_object_kind body, gi_stable_id = iq_stable_id body, gi_major = iq_major body,
               gi_recipient_email = normalize_email (iq_recipient_email body), gi_token_hash = hash_token ct token,
               gi_state = ''pending'', gi_idempotency_key = iq_idempotency_key body,
               gi_expires_at = now + seconds (iq_ttl_seconds body), gi_accepted_grant_id = None,
               gi_created_at = dbnow, gi_revoked_at = None\<rparr>
      in if i \<in> gi_id ` set (gd_invitations db) then Inl (Denied IntegrityError)
         else case enqueue (delivery_job r token) now dbnow (gd_queue db) of
                (Inl _, _) \<Rightarrow> Inl (Unhandled ''enqueue'')
              | (Inr _, q) \<Rightarrow>
                  Inr (invitation_to_wire r,
                    grant_audit (rc_account_id ctx) ''grant.invitation_created'' ''grant_invitation'' i None
                      [(''stable_id'', JStr (iq_stable_id body)), (''major'', JInt (iq_major body))]
                      (db\<lparr>gd_invitations := gd_invitations db @ [r], gd_queue := q\<rparr>)))"

definition create_invitation :: "canonical_text \<Rightarrow> request_context \<Rightarrow> invitation_request \<Rightarrow> string \<Rightarrow> string \<Rightarrow> string
    \<Rightarrow> time \<Rightarrow> time \<Rightarrow> grant_db \<Rightarrow> (access_failure + invitation_answer) \<times> grant_db" where
  "create_invitation ct ctx body i candidate token now dbnow db =
     commit db
       (and_then (issuer_scope (rc_account_id ctx) (iq_object_kind body) (iq_stable_id body) candidate db) (\<lambda>(scope, db1).
          case find (\<lambda>r. gi_owner_account_id r = rc_account_id ctx \<and> gi_idempotency_key r = iq_idempotency_key body)
                 (gd_invitations db1) of
            Some existing \<Rightarrow> Inr (invitation_to_wire existing, db1)
          | None \<Rightarrow> invite ct ctx body scope i token now dbnow db1))"

section \<open>Accepting\<close>

definition verified_emails :: "string \<Rightarrow> grant_db \<Rightarrow> string list" where
  "verified_emails account db =
     map (\<lambda>x. normalize_email (oi_email x))
       (filter (\<lambda>x. oi_account_id x = account \<and> oi_state x = ''linked'' \<and> oi_email_verified x) (gd_oauth db))"

text \<open>A completed acceptance, repeated.\<close>

definition accepted_before :: "canonical_text \<Rightarrow> request_context \<Rightarrow> string \<Rightarrow> grant_invitation \<Rightarrow> grant_db
    \<Rightarrow> (access_failure + grant_answer) option" where
  "accepted_before ct ctx token r db =
     (case gi_accepted_grant_id r of
        None \<Rightarrow> None
      | Some i \<Rightarrow>
          if gi_state r \<noteq> ''accepted'' \<or> i = [] then None
          else (case find (\<lambda>g. ag_id g = i) (gd_grants db) of
                  None \<Rightarrow> None
                | Some g \<Rightarrow>
                    Some (if ag_grantee_account_id g \<noteq> rc_account_id ctx
                          then Inl (deny NOT_FOUND ''invitation not found'')
                          else if hash_token ct token \<noteq> gi_token_hash r
                          then Inl (deny VALIDATION ''invitation token invalid'')
                          else Inr (grant_to_wire g None))))"

definition bind_invitation :: "grant_invitation \<Rightarrow> access_grant \<Rightarrow> grant_db \<Rightarrow> grant_db" where
  "bind_invitation r g db = store_invitation (r\<lparr>gi_state := ''accepted'', gi_accepted_grant_id := Some (ag_id g)\<rparr>) db"

definition take_invitation :: "request_context \<Rightarrow> grant_invitation \<Rightarrow> string \<Rightarrow> string \<Rightarrow> time \<Rightarrow> grant_db
    \<Rightarrow> access_failure + grant_answer \<times> grant_db" where
  "take_invitation ctx r i candidate dbnow db =
     (case find (\<lambda>g. ag_object_kind g = gi_object_kind r \<and> ag_stable_id g = gi_stable_id r \<and> ag_major g = gi_major r
            \<and> ag_grantee_account_id g = rc_account_id ctx \<and> ag_state g = ''active'') (gd_grants db) of
        Some g \<Rightarrow> Inr (grant_to_wire g None, bind_invitation r g db)
      | None \<Rightarrow>
          and_then (case gi_organization_id r of
                      Some s \<Rightarrow> if s = [] then owner_scope_id (gi_owner_account_id r) candidate db else Inr (s, db)
                    | None \<Rightarrow> owner_scope_id (gi_owner_account_id r) candidate db) (\<lambda>(scope, db1).
          and_then (insert_grant (new_grant i scope (gi_object_kind r) (gi_stable_id r) (gi_major r)
              (gi_owner_account_id r) (rc_account_id ctx) dbnow) db1) (\<lambda>((inserted, g), db2).
            let db3 = bind_invitation r g db2 in
            Inr (grant_to_wire g None,
              if inserted
              then grant_audit (rc_account_id ctx) ''grant.accepted'' ''access_grant'' (ag_id g) None
                     [(''invitation_id'', JStr (gi_id r))] db3
              else db3))))"

definition accept_transaction :: "canonical_text \<Rightarrow> request_context \<Rightarrow> string \<Rightarrow> string \<Rightarrow> string \<Rightarrow> string \<Rightarrow> time \<Rightarrow> time \<Rightarrow> grant_db
    \<Rightarrow> access_failure + grant_answer \<times> grant_db" where
  "accept_transaction ct ctx invitation token i candidate now dbnow db =
     (case find (\<lambda>r. gi_id r = invitation) (gd_invitations db) of
        None \<Rightarrow> Inl (deny NOT_FOUND ''invitation not found'')
      | Some r \<Rightarrow>
          (case accepted_before ct ctx token r db of
             Some answer \<Rightarrow> and_then answer (\<lambda>a. Inr (a, db))
           | None \<Rightarrow>
               if gi_state r \<noteq> ''pending'' then Inl (deny CONFLICT (''invitation is '' @ gi_state r))
               else if gi_expires_at r \<le> now then Inl (deny VALIDATION ''invitation expired'')
               else if hash_token ct token \<noteq> gi_token_hash r then Inl (deny VALIDATION ''invitation token invalid'')
               else if gi_recipient_email r \<notin> set (verified_emails (rc_account_id ctx) db)
               then Inl (deny VALIDATION ''verified email does not match invitation'')
               else take_invitation ctx r i candidate dbnow db))"

text \<open>The expired state is written before the exception that rolls it back.\<close>

definition accept_invitation :: "canonical_text \<Rightarrow> request_context \<Rightarrow> string \<Rightarrow> string \<Rightarrow> string \<Rightarrow> string \<Rightarrow> time \<Rightarrow> time \<Rightarrow> grant_db
    \<Rightarrow> (access_failure + grant_answer) \<times> grant_db" where
  "accept_invitation ct ctx invitation token i candidate now dbnow db =
     commit db (accept_transaction ct ctx invitation token i candidate now dbnow db)"

section \<open>Withdrawing\<close>

definition reason_or_none :: "string \<Rightarrow> string option" where
  "reason_or_none reason = (if reason = [] then None else Some reason)"

definition revoke_invitation :: "request_context \<Rightarrow> string \<Rightarrow> withdraw_request \<Rightarrow> time \<Rightarrow> grant_db
    \<Rightarrow> (access_failure + unit) \<times> grant_db" where
  "revoke_invitation ctx invitation body now db =
     (case find (\<lambda>r. gi_id r = invitation) (gd_invitations db) of
        None \<Rightarrow> (Inl (deny NOT_FOUND ''invitation not found''), db)
      | Some r \<Rightarrow>
          if \<not> may_withdraw (rc_account_id ctx) (gi_owner_account_id r) (gi_object_kind r) (gi_stable_id r) db
          then (Inl (deny NOT_FOUND ''invitation not found''), db)
          else if gi_state r = ''pending''
          then (Inr (), grant_audit (rc_account_id ctx) ''grant.invitation_revoked'' ''grant_invitation'' (gi_id r)
                 (reason_or_none (wq_reason body)) []
                 (store_invitation (r\<lparr>gi_state := ''revoked'', gi_revoked_at := Some now\<rparr>) db))
          else (Inr (), db))"

definition withdraw_dump :: "string \<Rightarrow> withdraw_request \<Rightarrow> json" where
  "withdraw_dump grant body =
     JDict ([(''grant_id'', JStr grant), (''schema_version'', JInt 1), (''reason'', JStr (wq_reason body))]
       @ (case wq_expected_revision body of None \<Rightarrow> [] | Some n \<Rightarrow> [(''expected_revision'', JInt n)]))"

definition revoke_transaction :: "canonical_text \<Rightarrow> request_context \<Rightarrow> string \<Rightarrow> withdraw_request \<Rightarrow> time \<Rightarrow> grant_db
    \<Rightarrow> access_failure + unit \<times> grant_db" where
  "revoke_transaction ct ctx grant body now db =
     and_then (lookup_receipt ct (rc_account_id ctx) (wq_idempotency_key body) ''revoke'' (withdraw_dump grant body) db)
       (\<lambda>(digest, receipt).
         case find (\<lambda>g. ag_id g = grant) (gd_grants db) of
           None \<Rightarrow> Inl (deny NOT_FOUND ''grant not found'')
         | Some g \<Rightarrow>
             if \<not> may_withdraw (rc_account_id ctx) (ag_owner_account_id g) (ag_object_kind g) (ag_stable_id g) db
             then Inl (deny NOT_FOUND ''grant not found'')
             else if receipt \<noteq> None then Inr ((), db)
             else
               and_then (check_revision g (wq_expected_revision body)) (\<lambda>_.
                 let db1 = (if ag_state g = ''active''
                            then grant_audit (rc_account_id ctx) ''grant.revoked'' ''access_grant'' (ag_id g)
                                   (reason_or_none (wq_reason body)) [(''local_bytes_retained'', JBool True)]
                                   (store_grant (g\<lparr>ag_state := ''revoked'', ag_revision := ag_revision g + 1,
                                      ag_revoked_at := Some now\<rparr>) db)
                            else db)
                 in and_then (complete_receipt (rc_account_id ctx) (wq_idempotency_key body) ''revoke'' digest (ag_id g) db1)
                      (\<lambda>db2. Inr ((), db2))))"

definition revoke_grant :: "canonical_text \<Rightarrow> request_context \<Rightarrow> string \<Rightarrow> withdraw_request \<Rightarrow> time \<Rightarrow> grant_db
    \<Rightarrow> (access_failure + unit) \<times> grant_db" where
  "revoke_grant ct ctx grant body now db = commit db (revoke_transaction ct ctx grant body now db)"

section \<open>Listing\<close>

definition list_grants :: "request_context \<Rightarrow> grant_db \<Rightarrow> invitation_answer list \<times> grant_answer list" where
  "list_grants ctx db =
     (map invitation_to_wire (filter (\<lambda>r. gi_owner_account_id r = rc_account_id ctx) (gd_invitations db)),
      map (\<lambda>g. grant_to_wire g (reference_of (ag_id g) db))
        (filter (\<lambda>g. ag_owner_account_id g = rc_account_id ctx \<or> ag_grantee_account_id g = rc_account_id ctx) (gd_grants db)))"

end
