(* ===== verification/VisibilityTheorems.thy ===== *)
theory VisibilityTheorems
  imports Visibility
begin

text \<open>
  The pins a public setup reaches, what a confirmation can change, and the life of a visibility plan
  over any sequence of requests, with the catalog and the devices changing in between.
\<close>

section \<open>Pins\<close>

inductive pin_reached :: "visibility_env \<Rightarrow> catalog_metadata list \<Rightarrow> pin list \<Rightarrow> pin \<Rightarrow> bool" for env rows pins where
  named: "p \<in> set pins \<Longrightarrow> pin_reached env rows pins p"
| required: "pin_reached env rows pins p \<Longrightarrow> pinned rows p = Some r
    \<Longrightarrow> ve_component_pins env (cv_passport_document r) = Some further \<Longrightarrow> q \<in> set further
    \<Longrightarrow> pin_reached env rows pins q"

definition closed_publicly :: "visibility_env \<Rightarrow> catalog_metadata list \<Rightarrow> pin list \<Rightarrow> bool" where
  "closed_publicly env rows pins \<longleftrightarrow> (\<forall>p. pin_reached env rows pins p \<longrightarrow>
     (\<exists>r further. pinned rows p = Some r \<and> cv_visibility r = ''public'' \<and> cv_published_at r \<noteq> None
        \<and> (cv_lifecycle_state r = ''active'' \<or> cv_lifecycle_state r = ''deprecated'')
        \<and> cv_passport_digest r = Some (snd (snd p))
        \<and> ve_component_pins env (cv_passport_document r) = Some further))"

lemma closed_publicly_iff: "closed_publicly env rows pins \<longleftrightarrow> (\<forall>p. pin_reached env rows pins p \<longrightarrow>
     (\<exists>r further. pinned rows p = Some r \<and> publicly_pinned r p
        \<and> ve_component_pins env (cv_passport_document r) = Some further))"
  by (simp add: closed_publicly_def publicly_pinned_def conj_ac)

lemma visit_pin_ok: "visit_pin env rows p = Inr further \<longleftrightarrow>
    (\<exists>r. pinned rows p = Some r \<and> publicly_pinned r p \<and> ve_component_pins env (cv_passport_document r) = Some further)"
  by (auto simp: visit_pin_def split: option.splits)

lemma walk_sound:
  "walk_pins env rows pending seen = Inr () \<Longrightarrow>
     \<exists>S. seen \<union> set pending \<subseteq> S \<and> (\<forall>p \<in> S - seen. \<exists>further. visit_pin env rows p = Inr further \<and> set further \<subseteq> S)"
proof (induction env rows pending seen rule: walk_pins.induct)
  case (1 env rows pending seen)
  show ?case
  proof (cases pending)
    case Nil
    then show ?thesis by (intro exI [of _ seen]) simp
  next
    case (Cons p rest)
    show ?thesis
    proof (cases "p \<in> seen")
      case True
      with 1(3) Cons have "walk_pins env rows rest seen = Inr ()" by (subst (asm) walk_pins.simps) simp
      from 1(1) [OF Cons True this] obtain S where "seen \<union> set rest \<subseteq> S"
        "\<forall>p \<in> S - seen. \<exists>further. visit_pin env rows p = Inr further \<and> set further \<subseteq> S" by blast
      with True Cons show ?thesis by (intro exI [of _ S]) auto
    next
      case False
      with 1(3) Cons obtain further where v: "visit_pin env rows p = Inr further"
        "walk_pins env rows (rest @ further) (insert p seen) = Inr ()"
        by (subst (asm) walk_pins.simps) (auto split: sum.splits)
      from 1(2) [OF Cons False v] obtain S where S: "insert p seen \<union> set (rest @ further) \<subseteq> S"
        "\<forall>q \<in> S - insert p seen. \<exists>further. visit_pin env rows q = Inr further \<and> set further \<subseteq> S" by blast
      have "\<exists>further. visit_pin env rows q = Inr further \<and> set further \<subseteq> S" if "q \<in> S - seen" for q
        using that S v(1) by (cases "q = p") auto
      with S(1) Cons show ?thesis by (intro exI [of _ S]) auto
    qed
  qed
qed

lemma walk_complete:
  assumes closed: "\<And>p. p \<in> S \<Longrightarrow> \<exists>further. visit_pin env rows p = Inr further \<and> set further \<subseteq> S"
  shows "set pending \<subseteq> S \<Longrightarrow> walk_pins env rows pending seen = Inr ()"
  using closed
proof (induction env rows pending seen rule: walk_pins.induct)
  case (1 env rows pending seen)
  show ?case
  proof (cases pending)
    case Nil
    then show ?thesis by (simp add: walk_pins.simps)
  next
    case (Cons p rest)
    show ?thesis
    proof (cases "p \<in> seen")
      case True
      have "walk_pins env rows rest seen = Inr ()" by (rule 1(1) [OF Cons True]) (use 1(3,4) Cons in auto)
      with True Cons show ?thesis by (subst walk_pins.simps) simp
    next
      case False
      from 1(3) Cons have "p \<in> S" by simp
      from 1(4) [OF this] obtain further where v: "visit_pin env rows p = Inr further" "set further \<subseteq> S" by blast
      have "walk_pins env rows (rest @ further) (insert p seen) = Inr ()"
        by (rule 1(2) [OF Cons False v(1)]) (use 1(3,4) Cons v(2) in auto)
      with False Cons v(1) show ?thesis by (subst walk_pins.simps) simp
    qed
  qed
qed

lemma walk_closed: "walk_pins env rows pins {} = Inr () \<longleftrightarrow> closed_publicly env rows pins"
proof
  assume "walk_pins env rows pins {} = Inr ()"
  from walk_sound [OF this] obtain S where S: "set pins \<subseteq> S"
    "\<And>p. p \<in> S \<Longrightarrow> \<exists>further. visit_pin env rows p = Inr further \<and> set further \<subseteq> S" by auto
  have "p \<in> S" if "pin_reached env rows pins p" for p
    using that
  proof induction
    case (named p)
    with S(1) show ?case by blast
  next
    case (required p r further q)
    from S(2) [OF required.IH] obtain fs where "visit_pin env rows p = Inr fs" "set fs \<subseteq> S" by blast
    with required show ?case by (auto simp: visit_pin_ok)
  qed
  with S(2) show "closed_publicly env rows pins" unfolding closed_publicly_iff visit_pin_ok by metis
next
  assume c: "closed_publicly env rows pins"
  show "walk_pins env rows pins {} = Inr ()"
  proof (rule walk_complete [of "Collect (pin_reached env rows pins)"])
    show "set pins \<subseteq> Collect (pin_reached env rows pins)" by (auto intro: pin_reached.named)
    fix p assume "p \<in> Collect (pin_reached env rows pins)"
    then have p: "pin_reached env rows pins p" by simp
    with c obtain r further where "pinned rows p = Some r" "publicly_pinned r p"
      "ve_component_pins env (cv_passport_document r) = Some further" unfolding closed_publicly_iff by blast
    with p show "\<exists>further. visit_pin env rows p = Inr further \<and> set further \<subseteq> Collect (pin_reached env rows pins)"
      by (intro exI [of _ further]) (auto simp: visit_pin_ok intro: pin_reached.required)
  qed
qed

text \<open>C11. The walk over the pins of a setup always ends, and it lets a setup become public exactly when every
  component its pins reach, through any number of requirements, is itself a published public version with
  the pinned digest.\<close>

theorem public_setups_reach_public_components:
  "public_dependencies env target rows = Inr () \<longleftrightarrow>
     (if cv_object_kind target = ''setup''
      then \<exists>pins. ve_setup_pins env (cv_passport_document target) = Some pins \<and> closed_publicly env rows pins
      else True)"
  by (simp add: public_dependencies_def walk_closed split: option.split)

section \<open>Requests\<close>

lemma commit_Inr: "commit db r = (Inr a, db') \<longleftrightarrow> r = Inr (a, db')"
  by (auto simp: commit_def split: sum.splits)

lemma commit_Inl: "commit db r = (Inl f, db') \<longleftrightarrow> r = Inl f \<and> db' = db"
  by (auto simp: commit_def split: sum.splits)

lemma failed_request: "commit db r = (res, db') \<Longrightarrow> db' \<noteq> db \<Longrightarrow> \<exists>a. res = Inr a \<and> r = Inr (a, db')"
  by (cases res) (auto simp: commit_Inl commit_Inr)

lemma owned_version_ok:
  "owned_version ctx kind sid version db = Inr r \<Longrightarrow> r \<in> set (vb_catalog db) \<and> cv_object_kind r = kind
     \<and> cv_stable_id r = sid \<and> cv_version r = Some version \<and> cv_owner_account_id r = rc_account_id ctx
     \<and> cv_published_at r \<noteq> None \<and> distributable r"
  by (auto simp: owned_version_def dest!: find_mem split: option.splits if_splits)

lemma device_check_ok:
  "device_check ctx device db = Inr u \<Longrightarrow> rc_device_id ctx = Some device
     \<and> (\<exists>d \<in> set (vb_devices db). dv_id d = device \<and> dv_account_id d = rc_account_id ctx \<and> dv_state d = ''active'')"
  by (auto simp: device_check_def dest!: find_mem split: option.splits if_splits)

lemma own_plan_ok: "own_plan ctx i db = Inr p \<Longrightarrow> p \<in> set (vb_plans db) \<and> vp_id p = i \<and> vp_account_id p = rc_account_id ctx"
  by (auto simp: own_plan_def dest!: find_mem split: option.splits)

lemma plan_wire_ok:
  "plan_wire env p target = Inr a \<Longrightarrow> va_plan_hash a = vp_plan_hash p \<and> va_device_id a = vp_device_id p
     \<and> va_passport_digest a = vp_passport_digest p \<and> va_previous_visibility a = vp_previous_visibility p
     \<and> va_visibility a = vp_visibility p \<and> va_state a = vp_state p"
  by (auto simp: plan_wire_def split: option.splits)

lemma store_plan_simps [simp]:
  "vb_catalog (store_plan p db) = vb_catalog db" "vb_devices (store_plan p db) = vb_devices db"
  "vb_audit (store_plan p db) = vb_audit db"
  "vb_plans (store_plan p db) = update_where (\<lambda>q. vp_id q = vp_id p) (\<lambda>_. p) (vb_plans db)"
  by (simp_all add: store_plan_def)

lemma expire_plan_cases: "expire_plan now p = p \<or> vp_state p = ''planned'' \<and> expire_plan now p = p\<lparr>vp_state := ''expired''\<rparr>"
  by (simp add: expire_plan_def)

lemma still_planned: "vp_state (expire_plan now p) = ''planned'' \<Longrightarrow>
    expire_plan now p = p \<and> vp_state p = ''planned'' \<and> now < vp_expires_at p"
  by (auto simp: expire_plan_def split: if_splits)

text \<open>The end of a confirmation: replayed, settled without a change, or applied.\<close>

lemma confirm_outcome:
  assumes "confirm_visibility_plan env ctx i body now db = (Inr answer, db')"
  obtains row found planned target where "own_plan ctx i db = Inr row" and "plan_wire env row found = Inr planned"
    and "device_check ctx (vp_device_id row) db = Inr ()" and "cq_confirmed body" and "cq_plan_hash body = vp_plan_hash row"
    and "owned_version ctx (va_object_kind planned) (va_stable_id planned) (va_version planned) db = Inr target"
    and "vp_state row = ''applied'' \<and> db' = db
      \<or> vp_state row \<noteq> ''applied'' \<and> vp_state (expire_plan now row) \<noteq> ''planned'' \<and> db' = store_plan (expire_plan now row) db
      \<or> vp_state row = ''planned'' \<and> db' = store_plan (row\<lparr>vp_state := ''refused''\<rparr>) db
      \<or> vp_state row = ''planned'' \<and> now < vp_expires_at row \<and> cv_passport_digest target = Some (vp_passport_digest row)
        \<and> cv_visibility target = vp_previous_visibility row
        \<and> apply_visibility env ctx i row planned target db = Inr (answer, db')"
proof -
  from assms obtain row found planned target where r: "own_plan ctx i db = Inr row" "plan_wire env row found = Inr planned"
    "device_check ctx (va_device_id planned) db = Inr ()" "cq_confirmed body" "cq_plan_hash body = va_plan_hash planned"
    "owned_version ctx (va_object_kind planned) (va_stable_id planned) (va_version planned) db = Inr target"
    and fin: "(if vp_state row = ''applied''
              then and_then (plan_wire env row target) (\<lambda>answer. Inr (answer, db))
              else let p = expire_plan now row in
                if vp_state p \<noteq> ''planned''
                then and_then (plan_wire env p target) (\<lambda>answer. Inr (answer, store_plan p db))
                else if cv_passport_digest target \<noteq> Some (va_passport_digest planned)
                        \<or> cv_visibility target \<noteq> va_previous_visibility planned
                then let q = p\<lparr>vp_state := ''refused''\<rparr> in
                  and_then (plan_wire env q target) (\<lambda>answer. Inr (answer, store_plan q db))
                else apply_visibility env ctx i p planned target db) = Inr (answer, db')"
    unfolding confirm_visibility_plan_def commit_Inr by (auto simp: and_then_Inr split: if_splits)
  note w = plan_wire_ok [OF r(2)]
  show thesis
  proof (rule that [OF r(1,2)])
    show "device_check ctx (vp_device_id row) db = Inr ()" "cq_confirmed body" "cq_plan_hash body = vp_plan_hash row"
      "owned_version ctx (va_object_kind planned) (va_stable_id planned) (va_version planned) db = Inr target"
      using r w by simp_all
    show "vp_state row = ''applied'' \<and> db' = db
      \<or> vp_state row \<noteq> ''applied'' \<and> vp_state (expire_plan now row) \<noteq> ''planned'' \<and> db' = store_plan (expire_plan now row) db
      \<or> vp_state row = ''planned'' \<and> db' = store_plan (row\<lparr>vp_state := ''refused''\<rparr>) db
      \<or> vp_state row = ''planned'' \<and> now < vp_expires_at row \<and> cv_passport_digest target = Some (vp_passport_digest row)
        \<and> cv_visibility target = vp_previous_visibility row
        \<and> apply_visibility env ctx i row planned target db = Inr (answer, db')"
    proof (cases "vp_state row = ''applied'' \<or> vp_state (expire_plan now row) \<noteq> ''planned''")
      case True
      with fin show ?thesis by (auto simp: and_then_Inr Let_def split: if_splits)
    next
      case False
      with still_planned [of now row] have p: "expire_plan now row = row" "vp_state row = ''planned''" "now < vp_expires_at row"
        by simp_all
      with False fin w show ?thesis by (auto simp: and_then_Inr Let_def split: if_splits)
    qed
  qed
qed

lemma apply_visibility_ok:
  assumes "apply_visibility env ctx i row planned target db = Inr (answer, db')"
    and "plan_wire env row found = Inr planned"
  shows "vb_catalog db' = refresh_line env target
      (update_where (\<lambda>r. cv_id r = cv_id target) (\<lambda>_. target\<lparr>cv_visibility := vp_visibility row\<rparr>) (vb_catalog db))"
    "vb_plans db' = vb_plans (store_plan (row\<lparr>vp_state := ''applied''\<rparr>) db)" "vb_devices db' = vb_devices db"
    "vp_visibility row = ''public'' \<Longrightarrow> public_dependencies env target (vb_catalog db) = Inr ()"
    "va_state answer = ''applied''"
proof -
  note w = plan_wire_ok [OF assms(2)]
  have ok: "(if va_visibility planned = ''public'' then public_dependencies env target (vb_catalog db) else Inr ()) = Inr ()"
    using assms(1) unfolding apply_visibility_def and_then_Inr by auto
  with assms(1) w show "vb_catalog db' = refresh_line env target
      (update_where (\<lambda>r. cv_id r = cv_id target) (\<lambda>_. target\<lparr>cv_visibility := vp_visibility row\<rparr>) (vb_catalog db))"
    "vb_plans db' = vb_plans (store_plan (row\<lparr>vp_state := ''applied''\<rparr>) db)" "vb_devices db' = vb_devices db"
    by (auto simp: apply_visibility_def Let_def and_then_Inr)
  from ok w show "vp_visibility row = ''public'' \<Longrightarrow> public_dependencies env target (vb_catalog db) = Inr ()" by simp
  from ok assms(1) show "va_state answer = ''applied''"
    by (auto simp: apply_visibility_def Let_def and_then_Inr dest!: plan_wire_ok)
qed

text \<open>The requests of the three endpoints, and everything else that writes the catalog and the devices.\<close>

inductive visibility_step :: "visibility_env \<Rightarrow> visibility_db \<Rightarrow> visibility_db \<Rightarrow> bool" for env where
  created: "create_visibility_plan env ctx body i now db = (res, db') \<Longrightarrow> visibility_step env db db'"
| asked: "visibility_status env ctx i now db = (res, db') \<Longrightarrow> visibility_step env db db'"
| confirmed: "confirm_visibility_plan env ctx i body now db = (res, db') \<Longrightarrow> visibility_step env db db'"
| elsewhere: "visibility_step env db (db\<lparr>vb_catalog := rows, vb_devices := ds, vb_audit := audit\<rparr>)"

inductive visibility_reachable :: "visibility_env \<Rightarrow> visibility_db \<Rightarrow> bool" for env where
  start: "vb_plans db = [] \<Longrightarrow> visibility_reachable env db"
| step: "visibility_reachable env db \<Longrightarrow> visibility_step env db db' \<Longrightarrow> visibility_reachable env db'"

text \<open>A plan's content never changes; its state leaves \<open>planned\<close> once.\<close>

definition settles :: "visibility_plan \<Rightarrow> visibility_plan \<Rightarrow> bool" where
  "settles p q \<longleftrightarrow> q = p
     \<or> vp_state p = ''planned'' \<and> (\<exists>s \<in> {''applied'', ''expired'', ''refused''}. q = p\<lparr>vp_state := s\<rparr>)"

lemma settles_refl [simp]: "settles p p"
  by (simp add: settles_def)

lemma settles_trans: "settles p q \<Longrightarrow> settles q r \<Longrightarrow> settles p r"
  by (auto simp: settles_def)

lemma settles_id: "settles p q \<Longrightarrow> vp_id q = vp_id p \<and> vp_account_id q = vp_account_id p \<and> vp_idempotency_key q = vp_idempotency_key p"
  by (auto simp: settles_def)

definition plans_ok :: "visibility_db \<Rightarrow> bool" where
  "plans_ok db \<longleftrightarrow> distinct (map vp_id (vb_plans db))
     \<and> distinct (map (\<lambda>p. (vp_account_id p, vp_idempotency_key p)) (vb_plans db))
     \<and> vp_state ` set (vb_plans db) \<subseteq> {''planned'', ''applied'', ''expired'', ''refused''}"

definition plans_follow :: "visibility_db \<Rightarrow> visibility_db \<Rightarrow> bool" where
  "plans_follow db db' \<longleftrightarrow> plans_ok db' \<and> (\<forall>p \<in> set (vb_plans db). \<exists>q \<in> set (vb_plans db'). settles p q)"

lemma follow_refl: "plans_ok db \<Longrightarrow> plans_follow db db"
  unfolding plans_follow_def using settles_refl by blast

lemma follow_same: "plans_ok db \<Longrightarrow> vb_plans db' = vb_plans db \<Longrightarrow> plans_follow db db'"
  using follow_refl [of db] by (simp add: plans_follow_def plans_ok_def)

lemma follow_store:
  assumes ok: "plans_ok db" and p: "p \<in> set (vb_plans db)" and q: "settles p q"
    and state: "vp_state q \<in> {''planned'', ''applied'', ''expired'', ''refused''}"
    and plans: "vb_plans db' = vb_plans (store_plan q db)"
  shows "plans_follow db db'"
proof -
  have stored: "vb_plans db' = update_where (\<lambda>r. vp_id r = vp_id p) (\<lambda>_. q) (vb_plans db)"
    using plans settles_id [OF q] by simp
  have id: "vp_id q = vp_id p" "vp_account_id q = vp_account_id p" "vp_idempotency_key q = vp_idempotency_key p"
    using settles_id [OF q] by simp_all
  have only: "r = p" if "r \<in> set (vb_plans db)" "vp_id r = vp_id p" for r
    using ok that p same_key [of vp_id] unfolding plans_ok_def by blast
  have keys: "map h (update_where (\<lambda>r. vp_id r = vp_id p) (\<lambda>_. q) rows) = map h rows"
    if "h q = h p" "\<And>r. r \<in> set rows \<Longrightarrow> vp_id r = vp_id p \<Longrightarrow> r = p" for h :: "visibility_plan \<Rightarrow> 'k" and rows
    using that(2) by (induction rows) (auto simp: that(1))
  have "plans_ok db'"
    using ok state keys [of vp_id "vb_plans db"] keys [of "\<lambda>p. (vp_account_id p, vp_idempotency_key p)" "vb_plans db"] only id
    unfolding plans_ok_def stored by (auto simp: set_update_where)
  moreover have "\<exists>s \<in> set (vb_plans db'). settles r s" if r: "r \<in> set (vb_plans db)" for r
  proof (cases "vp_id r = vp_id p")
    case True
    with only r have "r = p" by simp
    moreover have "q \<in> set (vb_plans db')" using p unfolding stored set_update_where by force
    ultimately show ?thesis using q by blast
  next
    case False
    with r have "r \<in> set (vb_plans db')" unfolding stored set_update_where by force
    then show ?thesis using settles_refl by blast
  qed
  ultimately show ?thesis by (simp add: plans_follow_def)
qed

lemma follow_expire:
  "plans_ok db \<Longrightarrow> p \<in> set (vb_plans db) \<Longrightarrow> plans_follow db (store_plan (expire_plan now p) db)"
  by (rule follow_store [OF _ _ _ _ refl, of db p])
    (auto simp: expire_plan_def settles_def plans_ok_def)

lemma create_follows:
  assumes ok: "plans_ok db" and run: "create_visibility_plan env ctx body i now db = (res, db')"
  shows "plans_follow db db'"
proof (cases res)
  case (Inl f)
  with run show ?thesis using follow_refl [OF ok] by (simp add: create_visibility_plan_def commit_Inl)
next
  case (Inr answer)
  with run consider existing where "existing \<in> set (vb_plans db)" "replay_plan env ctx body existing now db = Inr (answer, db')"
    | "fresh_plan env ctx body i now db = Inr (answer, db')"
    by (auto simp: create_visibility_plan_def commit_Inr and_then_Inr dest: find_mem split: option.splits)
  then show ?thesis
  proof cases
    case 1
    then have "db' = store_plan (expire_plan now existing) db"
      by (auto simp: replay_plan_def and_then_Inr Let_def split: if_splits)
    with follow_expire [OF ok 1(1)] show ?thesis by simp
  next
    case 2
    then obtain p where p: "add_plan p db = Inr db'" "vp_state p = ''planned''"
      by (auto simp: fresh_plan_def and_then_Inr Let_def split: if_splits)
    then have "vb_plans db' = vb_plans db @ [p]" "vp_id p \<notin> vp_id ` set (vb_plans db)"
      "(vp_account_id p, vp_idempotency_key p) \<notin> (\<lambda>q. (vp_account_id q, vp_idempotency_key q)) ` set (vb_plans db)"
      by (auto simp: add_plan_def split: if_splits)
    with ok p(2) have "plans_ok db'" "set (vb_plans db) \<subseteq> set (vb_plans db')"
      by (auto simp: plans_ok_def)
    then show ?thesis unfolding plans_follow_def using settles_refl by blast
  qed
qed

lemma status_follows:
  assumes ok: "plans_ok db" and run: "visibility_status env ctx i now db = (res, db')"
  shows "plans_follow db db'"
proof (cases res)
  case (Inl f)
  with run show ?thesis using follow_refl [OF ok] by (simp add: visibility_status_def commit_Inl)
next
  case (Inr answer)
  with run obtain p where "own_plan ctx i db = Inr p" "db' = store_plan (expire_plan now p) db"
    by (auto simp: visibility_status_def commit_Inr and_then_Inr Let_def)
  with follow_expire [OF ok] own_plan_ok show ?thesis by blast
qed

lemma confirm_follows:
  assumes ok: "plans_ok db" and run: "confirm_visibility_plan env ctx i body now db = (res, db')"
  shows "plans_follow db db'"
proof (cases res)
  case (Inl f)
  with run show ?thesis using follow_refl [OF ok] by (simp add: confirm_visibility_plan_def commit_Inl)
next
  case (Inr answer)
  obtain row found planned target where
    row: "own_plan ctx i db = Inr row" "plan_wire env row found = Inr planned" and
    cases: "vp_state row = ''applied'' \<and> db' = db
      \<or> vp_state row \<noteq> ''applied'' \<and> vp_state (expire_plan now row) \<noteq> ''planned'' \<and> db' = store_plan (expire_plan now row) db
      \<or> vp_state row = ''planned'' \<and> db' = store_plan (row\<lparr>vp_state := ''refused''\<rparr>) db
      \<or> vp_state row = ''planned'' \<and> now < vp_expires_at row \<and> cv_passport_digest target = Some (vp_passport_digest row)
        \<and> cv_visibility target = vp_previous_visibility row
        \<and> apply_visibility env ctx i row planned target db = Inr (answer, db')"
    by (rule confirm_outcome [OF run [unfolded Inr]]) (rule that; assumption)
  have mem: "row \<in> set (vb_plans db)" using own_plan_ok [OF row(1)] by simp
  have stored: "plans_follow db d" if "vp_state row = ''planned''" "s \<in> {''applied'', ''refused''}"
    "vb_plans d = vb_plans (store_plan (row\<lparr>vp_state := s\<rparr>) db)" for s d
    by (rule follow_store [OF ok mem _ _ that(3)]) (use that(1,2) in \<open>auto simp: settles_def\<close>)
  from cases show ?thesis
  proof (elim disjE conjE)
    assume "db' = db"
    then show ?thesis using follow_refl [OF ok] by simp
  next
    assume "db' = store_plan (expire_plan now row) db"
    then show ?thesis using follow_expire [OF ok mem] by simp
  next
    assume "vp_state row = ''planned''" "db' = store_plan (row\<lparr>vp_state := ''refused''\<rparr>) db"
    then show ?thesis by (intro stored [of "''refused''"]) simp_all
  next
    assume "vp_state row = ''planned''" "apply_visibility env ctx i row planned target db = Inr (answer, db')"
    then show ?thesis by (intro stored [of "''applied''"] apply_visibility_ok(2) [OF _ row(2)]) simp_all
  qed
qed

lemma step_follows: "visibility_step env db db' \<Longrightarrow> plans_ok db \<Longrightarrow> plans_follow db db'"
  by (induction rule: visibility_step.induct)
    (auto intro: create_follows status_follows confirm_follows follow_same)

lemma steps_follow:
  assumes "(visibility_step env)\<^sup>*\<^sup>* db db'" and ok: "plans_ok db"
  shows "plans_follow db db'"
  using assms(1)
proof induction
  case (step db1 db2)
  have "plans_follow db1 db2" using step.IH step.hyps(2) step_follows by (simp add: plans_follow_def)
  with step.IH show ?case unfolding plans_follow_def using settles_trans by blast
qed (rule follow_refl [OF ok])

lemma visibility_reachable_ok: "visibility_reachable env db \<Longrightarrow> plans_ok db"
  by (induction rule: visibility_reachable.induct) (simp add: plans_ok_def, simp add: plans_follow_def step_follows [unfolded plans_follow_def])


section \<open>Properties\<close>

definition setup_closed :: "visibility_env \<Rightarrow> catalog_metadata \<Rightarrow> catalog_metadata list \<Rightarrow> bool" where
  "setup_closed env target rows \<longleftrightarrow> (cv_object_kind target = ''setup'' \<longrightarrow>
     (\<exists>pins. ve_setup_pins env (cv_passport_document target) = Some pins \<and> closed_publicly env rows pins))"

lemma dependencies_closed: "public_dependencies env target rows = Inr () \<Longrightarrow> setup_closed env target rows"
  by (auto simp: setup_closed_def public_dependencies_def walk_closed split: option.splits if_splits)

lemma create_keeps_catalog: "vb_catalog (snd (create_visibility_plan env ctx body i now db)) = vb_catalog db"
proof (cases "create_visibility_plan env ctx body i now db")
  case (Pair res db')
  then have "vb_catalog db' = vb_catalog db"
    by (cases res) (auto simp: create_visibility_plan_def commit_Inl commit_Inr and_then_Inr replay_plan_def fresh_plan_def
        add_plan_def Let_def split: option.splits if_splits)
  with Pair show ?thesis by simp
qed

lemma status_keeps_catalog: "vb_catalog (snd (visibility_status env ctx i now db)) = vb_catalog db"
proof (cases "visibility_status env ctx i now db")
  case (Pair res db')
  then have "vb_catalog db' = vb_catalog db"
    by (cases res) (auto simp: visibility_status_def commit_Inl commit_Inr and_then_Inr Let_def)
  with Pair show ?thesis by simp
qed

lemma refresh_line_cases:
  "refresh_line env target rows = rows
   \<or> cv_object_kind target = ''component'' \<and> (\<exists>k badge. refresh_line env target rows
       = update_where (\<lambda>r. cv_id r = k \<and> listed_version target r) (\<lambda>r. r\<lparr>cv_component_verified := badge\<rparr>) rows)"
proof (cases "cv_object_kind target \<noteq> ''component'' \<or> ve_refreshed env (filter (listed_version target) rows) = None")
  case False
  then obtain k badge where "ve_refreshed env (filter (listed_version target) rows) = Some (k, badge)" by auto
  with False show ?thesis by (auto simp: refresh_line_def)
qed (auto simp: refresh_line_def)

text \<open>C8. Creating and reading plans never touches the catalog. A confirmation changes it only for a plan of the
  caller that is still planned and not expired, confirmed with its exact hash on the active device that made
  it; it then changes one published version of the caller, whose digest and visibility are the planned ones, to
  the planned visibility, and a setup becomes public only when everything its pins reach is. The one other
  field that can change is a badge: when the version is a component's, the refresh of its search row may set
  the component badge of one publicly listed version of the same line.\<close>

theorem visibility_changes_by_confirmation:
  assumes "confirm_visibility_plan env ctx i body now db = (res, db')" and "vb_catalog db' \<noteq> vb_catalog db"
  shows "vb_catalog (snd (create_visibility_plan env ctx request j later db)) = vb_catalog db
    \<and> vb_catalog (snd (visibility_status env ctx j later db)) = vb_catalog db
    \<and> (\<exists>p target device. p \<in> set (vb_plans db) \<and> vp_id p = i \<and> vp_account_id p = rc_account_id ctx
    \<and> vp_state p = ''planned'' \<and> now < vp_expires_at p \<and> cq_confirmed body \<and> cq_plan_hash body = vp_plan_hash p
    \<and> device \<in> set (vb_devices db) \<and> dv_id device = vp_device_id p \<and> rc_device_id ctx = Some (dv_id device)
    \<and> dv_state device = ''active'' \<and> dv_account_id device = rc_account_id ctx
    \<and> target \<in> set (vb_catalog db) \<and> cv_owner_account_id target = rc_account_id ctx \<and> cv_published_at target \<noteq> None
    \<and> distributable target \<and> cv_passport_digest target = Some (vp_passport_digest p)
    \<and> cv_visibility target = vp_previous_visibility p
    \<and> (let opened = update_where (\<lambda>r. cv_id r = cv_id target) (\<lambda>_. target\<lparr>cv_visibility := vp_visibility p\<rparr>) (vb_catalog db)
       in vb_catalog db' = opened
          \<or> cv_object_kind target = ''component'' \<and> (\<exists>k badge. vb_catalog db'
               = update_where (\<lambda>r. cv_id r = k \<and> listed_version target r)
                   (\<lambda>r. r\<lparr>cv_component_verified := badge\<rparr>) opened))
    \<and> (if vp_visibility p = ''public'' then setup_closed env target (vb_catalog db) else True)
    \<and> (\<exists>answer. res = Inr answer \<and> va_state answer = ''applied''))"
proof -
  obtain answer where answer: "res = Inr answer"
    using assms by (cases res) (auto simp: confirm_visibility_plan_def commit_Inl)
  obtain row found planned target where r: "own_plan ctx i db = Inr row" "plan_wire env row found = Inr planned"
      "device_check ctx (vp_device_id row) db = Inr ()" "cq_confirmed body" "cq_plan_hash body = vp_plan_hash row"
      "owned_version ctx (va_object_kind planned) (va_stable_id planned) (va_version planned) db = Inr target"
    and cases: "vp_state row = ''applied'' \<and> db' = db
      \<or> vp_state row \<noteq> ''applied'' \<and> vp_state (expire_plan now row) \<noteq> ''planned'' \<and> db' = store_plan (expire_plan now row) db
      \<or> vp_state row = ''planned'' \<and> db' = store_plan (row\<lparr>vp_state := ''refused''\<rparr>) db
      \<or> vp_state row = ''planned'' \<and> now < vp_expires_at row \<and> cv_passport_digest target = Some (vp_passport_digest row)
        \<and> cv_visibility target = vp_previous_visibility row
        \<and> apply_visibility env ctx i row planned target db = Inr (answer, db')"
    by (rule confirm_outcome [OF assms(1) [unfolded answer]]) (rule that; assumption)
  from cases assms(2) have applied: "vp_state row = ''planned''" "now < vp_expires_at row"
    "cv_passport_digest target = Some (vp_passport_digest row)" "cv_visibility target = vp_previous_visibility row"
    "apply_visibility env ctx i row planned target db = Inr (answer, db')"
    by auto
  note a = apply_visibility_ok [OF applied(5) r(2)]
  let ?opened = "update_where (\<lambda>r. cv_id r = cv_id target) (\<lambda>_. target\<lparr>cv_visibility := vp_visibility row\<rparr>) (vb_catalog db)"
  have change: "let opened = ?opened in vb_catalog db' = opened
      \<or> cv_object_kind target = ''component'' \<and> (\<exists>k badge. vb_catalog db'
           = update_where (\<lambda>r. cv_id r = k \<and> listed_version target r) (\<lambda>r. r\<lparr>cv_component_verified := badge\<rparr>) opened)"
    unfolding a(1) Let_def by (rule refresh_line_cases)
  note p = own_plan_ok [OF r(1)] and t = owned_version_ok [OF r(6)]
  from device_check_ok [OF r(3)] obtain d where "d \<in> set (vb_devices db)" "dv_id d = vp_device_id row"
    "rc_device_id ctx = Some (dv_id d)" "dv_account_id d = rc_account_id ctx" "dv_state d = ''active''" by auto
  with p t r(4,5) applied(1-4) change a(4,5) dependencies_closed answer create_keeps_catalog status_keeps_catalog show ?thesis
    by (intro conjI exI [of _ row] exI [of _ target] exI [of _ d]) auto
qed


section \<open>An example\<close>

definition example_env :: visibility_env where
  "example_env =
     \<lparr>ve_text = \<lparr>ct_nfc = (\<lambda>s. s), ct_has_bom = (\<lambda>s. False), ct_rfc8785 = (\<lambda>v. Inr ''doc''), ct_sha256 = (\<lambda>s. ''hash'')\<rparr>,
      ve_setup_pins = (\<lambda>d. Some [(''component_1'', ''1.0'', ''sha256:c'')]), ve_component_pins = (\<lambda>d. Some []),
      ve_clock_text = (\<lambda>t. ''2026''), ve_refreshed = (\<lambda>rows. None)\<rparr>"

definition example_context :: request_context where
  "example_context = \<lparr>rc_account_id = ''account_1'', rc_device_id = Some ''device_1''\<rparr>"

definition example_version :: "int \<Rightarrow> string \<Rightarrow> string \<Rightarrow> string \<Rightarrow> string \<Rightarrow> catalog_metadata" where
  "example_version i kind sid digest visibility =
     \<lparr>cv_id = i, cv_owner_account_id = ''account_1'', cv_object_kind = kind, cv_stable_id = sid,
      cv_version = Some ''1.0'', cv_current_revision_id = ''revision_1'', cv_visibility = visibility,
      cv_lifecycle_state = ''active'', cv_name = None, cv_published_at = Some 1, cv_trust_lane = None,
      cv_author_verified = False, cv_component_verified = False, cv_passport_digest = Some digest,
      cv_passport_document = [], cv_checks_summary = []\<rparr>"

definition example_db :: visibility_db where
  "example_db =
     \<lparr>vb_devices = [\<lparr>dv_id = ''device_1'', dv_account_id = ''account_1'', dv_public_key = [],
        dv_device_type = ''cli'', dv_display_name = None, dv_approximate_location = None, dv_user_agent = None,
        dv_state = ''active'', dv_last_seen_at = None\<rparr>],
      vb_catalog = [example_version 1 ''component'' ''component_1'' ''sha256:c'' ''public'',
        example_version 2 ''setup'' ''setup_1'' ''sha256:s'' ''private''],
      vb_plans = [], vb_audit = []\<rparr>"

definition example_request :: visibility_request where
  "example_request = \<lparr>vq_object_kind = ''setup'', vq_stable_id = ''setup_1'', vq_version = ''1.0'',
     vq_visibility = ''public'', vq_device_id = ''device_1'', vq_idempotency_key = ''key-1''\<rparr>"

definition example_planned :: visibility_db where
  "example_planned = snd (create_visibility_plan example_env example_context example_request ''plan_1'' 0 example_db)"

definition example_applied :: visibility_db where
  "example_applied = snd (confirm_visibility_plan example_env example_context ''plan_1''
     \<lparr>cq_plan_hash = ''sha256:hash'', cq_confirmed = True\<rparr> 5 example_planned)"

lemmas example_defs = example_env_def example_context_def example_version_def example_db_def example_request_def

lemma example_plan:
  "vb_plans example_planned =
     [\<lparr>vp_id = ''plan_1'', vp_account_id = ''account_1'', vp_device_id = ''device_1'', vp_metadata_id = 2,
       vp_passport_digest = ''sha256:s'', vp_ownership_revision_id = Some ''revision_1'',
       vp_previous_visibility = ''private'', vp_visibility = ''public'', vp_plan_hash = ''sha256:hash'',
       vp_request_hash = ''sha256:hash'', vp_idempotency_key = ''key-1'', vp_state = ''planned'',
       vp_expires_at = 1800000000\<rparr>]
    \<and> vb_catalog example_planned = vb_catalog example_db \<and> vb_devices example_planned = vb_devices example_db"
  by code_simp

lemma example_apply:
  "map cv_visibility (vb_catalog example_applied) = [''public'', ''public'']
    \<and> map vp_state (vb_plans example_applied) = [''applied'']"
  by code_simp

lemma visibility_changes_by_confirmation_witness:
  "map cv_visibility (vb_catalog example_planned) = [''public'', ''private'']
    \<and> map cv_visibility (vb_catalog example_applied) = [''public'', ''public'']
    \<and> (\<exists>target \<in> set (vb_catalog example_planned). setup_closed example_env target (vb_catalog example_planned)
         \<and> cv_object_kind target \<in> {''setup'', ''component''} \<and> cv_visibility target = ''private'')"
proof -
  let ?confirm = "confirm_visibility_plan example_env example_context ''plan_1''
    \<lparr>cq_plan_hash = ''sha256:hash'', cq_confirmed = True\<rparr> 5 example_planned"
  have before: "map cv_visibility (vb_catalog example_planned) = [''public'', ''private'']"
    using example_plan by (simp add: example_db_def example_version_def)
  have run: "?confirm = (fst ?confirm, example_applied)" by (simp add: example_applied_def)
  have "vb_catalog example_applied \<noteq> vb_catalog example_planned"
  proof
    assume "vb_catalog example_applied = vb_catalog example_planned"
    with before example_apply show False by simp
  qed
  from visibility_changes_by_confirmation [OF run this, of example_request "''plan_2''" 9] obtain p target where
    p: "p \<in> set (vb_plans example_planned)" "target \<in> set (vb_catalog example_planned)"
      "cv_visibility target = vp_previous_visibility p"
      "if vp_visibility p = ''public'' then setup_closed example_env target (vb_catalog example_planned) else True"
    by (elim conjE exE) (rule that; assumption)
  have "vp_visibility p = ''public''" "vp_previous_visibility p = ''private''" using p(1) example_plan by simp_all
  moreover have "cv_object_kind target \<in> {''setup'', ''component''}"
    using p(2) example_plan by (auto simp: example_db_def example_version_def)
  ultimately show ?thesis using p before example_apply by auto
qed


end
