(* ===== verification/GrantTheorems.thy ===== *)
theory GrantTheorems
  imports Grants VisibilityTheorems
begin

text \<open>
  What each request does to the table of grants, runs of requests with the surrounding tables
  changing in between, and the properties of access that follow.
\<close>

section \<open>Requests\<close>

datatype grant_call =
    Direct direct_request
  | Invite invitation_request string
  | Accept string string
  | WithdrawInvitation string withdraw_request
  | Revoke string withdraw_request

text \<open>A request with the ids it would mint and the clocks of its moment; the answer is dropped.\<close>

record grant_minted =
  mi_id :: string
  mi_workspace :: string
  mi_now :: time
  mi_dbnow :: time

fun run_call :: "canonical_text \<Rightarrow> request_context \<Rightarrow> grant_call \<Rightarrow> grant_minted \<Rightarrow> grant_db \<Rightarrow> grant_db" where
  "run_call ct ctx (Direct body) m db = snd (create_direct_grant ct ctx body (mi_id m) (mi_workspace m) (mi_dbnow m) db)"
| "run_call ct ctx (Invite body token) m db =
     snd (create_invitation ct ctx body (mi_id m) (mi_workspace m) token (mi_now m) (mi_dbnow m) db)"
| "run_call ct ctx (Accept invitation token) m db =
     snd (accept_invitation ct ctx invitation token (mi_id m) (mi_workspace m) (mi_now m) (mi_dbnow m) db)"
| "run_call ct ctx (WithdrawInvitation invitation body) m db = snd (revoke_invitation ctx invitation body (mi_now m) db)"
| "run_call ct ctx (Revoke grant body) m db = snd (revoke_grant ct ctx grant body (mi_now m) db)"

text \<open>Who owns an object: its catalog rows are theirs, or their team or role resolves its corporate ownership.\<close>

definition resolved_owner :: "string \<Rightarrow> string \<Rightarrow> string \<Rightarrow> grant_db \<Rightarrow> bool" where
  "resolved_owner account kind sid db \<longleftrightarrow>
     (\<exists>w \<in> set (gd_workspaces db). object_organization_id kind sid db = Some (ws_id w) \<and> ws_kind w = ''corporate''
        \<and> gd_resolves_ownership db (ws_id w) kind sid account)"

definition may_issue :: "string \<Rightarrow> string \<Rightarrow> string \<Rightarrow> grant_db \<Rightarrow> bool" where
  "may_issue account kind sid db \<longleftrightarrow>
     (\<exists>r \<in> set (gd_objects db). lo_owner_account_id r = account \<and> lo_object_kind r = kind \<and> lo_stable_id r = sid)
     \<or> resolved_owner account kind sid db"

text \<open>An invitation the caller may accept: sent to a verified address of theirs, and opened by its token.\<close>

definition proven_invitation :: "canonical_text \<Rightarrow> string \<Rightarrow> string \<Rightarrow> time \<Rightarrow> grant_db \<Rightarrow> grant_invitation \<Rightarrow> bool" where
  "proven_invitation ct account token now db r \<longleftrightarrow> r \<in> set (gd_invitations db) \<and> gi_state r = ''pending''
     \<and> now < gi_expires_at r \<and> hash_token ct token = gi_token_hash r
     \<and> (\<exists>x \<in> set (gd_oauth db). oi_account_id x = account \<and> oi_state x = ''linked'' \<and> oi_email_verified x
          \<and> normalize_email (oi_email x) = gi_recipient_email r)"

lemma verified_email: "e \<in> set (verified_emails account db) \<longleftrightarrow>
    (\<exists>x \<in> set (gd_oauth db). oi_account_id x = account \<and> oi_state x = ''linked'' \<and> oi_email_verified x
          \<and> normalize_email (oi_email x) = e)"
  by (auto simp: verified_emails_def)

lemma corporate_owner: "corporate_owner_scope account kind sid db = Some organization \<Longrightarrow> resolved_owner account kind sid db"
  by (auto simp: corporate_owner_scope_def resolved_owner_def dest!: find_mem split: option.splits if_splits)

lemma may_issueI:
  "is_personal_owner account kind sid db \<Longrightarrow> may_issue account kind sid db"
  "corporate_owner_scope account kind sid db = Some organization \<Longrightarrow> may_issue account kind sid db"
  by (auto simp: may_issue_def is_personal_owner_def list_ex_iff dest: corporate_owner)

lemma withdrawer: "may_withdraw account issuer kind sid db \<Longrightarrow> issuer = account \<or> resolved_owner account kind sid db"
  by (auto simp: may_withdraw_def dest: corporate_owner)

section \<open>Outcomes\<close>

lemma owner_scope_grants:
  "owner_scope_id owner candidate db = Inr (scope, db') \<Longrightarrow> gd_grants db' = gd_grants db
     \<and> gd_invitations db' = gd_invitations db \<and> gd_receipts db' = gd_receipts db \<and> gd_references db' = gd_references db
     \<and> gd_oauth db' = gd_oauth db \<and> gd_aliases db' = gd_aliases db \<and> gd_accounts db' = gd_accounts db"
  by (auto simp: owner_scope_id_def split: option.splits if_splits)

lemma issuer_scope_grants:
  "issuer_scope account kind sid candidate db = Inr (scope, db') \<Longrightarrow> may_issue account kind sid db
     \<and> gd_grants db' = gd_grants db \<and> gd_invitations db' = gd_invitations db \<and> gd_receipts db' = gd_receipts db
     \<and> gd_references db' = gd_references db \<and> gd_oauth db' = gd_oauth db \<and> gd_aliases db' = gd_aliases db
     \<and> gd_accounts db' = gd_accounts db"
proof (cases "is_personal_owner account kind sid db")
  case True
  assume "issuer_scope account kind sid candidate db = Inr (scope, db')"
  with True have "owner_scope_id account candidate db = Inr (scope, db')" by (simp add: issuer_scope_def)
  from owner_scope_grants [OF this] True show ?thesis by (simp add: may_issueI)
next
  case False
  assume "issuer_scope account kind sid candidate db = Inr (scope, db')"
  with False have "corporate_owner_scope account kind sid db = Some scope" "db' = db"
    by (auto simp: issuer_scope_def split: option.split_asm)
  then show ?thesis by (simp add: may_issueI)
qed

lemma same_line_refl [simp]: "same_line g g"
  by (simp add: same_line_def)

lemma insert_grant_cases:
  assumes "insert_grant g db = Inr ((inserted, row), db')"
  obtains "inserted" "row = g" "db' = db\<lparr>gd_grants := gd_grants db @ [g]\<rparr>" "\<not> list_ex (same_line g) (gd_grants db)"
      "ag_id g \<notin> ag_id ` set (gd_grants db)"
    | "\<not> inserted" "db' = db" "row \<in> set (gd_grants db)" "same_line g row"
proof (cases "list_ex (same_line g) (gd_grants db)")
  case True
  with assms have r: "\<not> inserted" "db' = db" "scalar_one (filter (same_line g) (gd_grants db)) = Inr row"
    by (auto simp: insert_grant_def Let_def split: sum.splits)
  from r(3) have "filter (same_line g) (gd_grants db) = [row]" by (elim scalar_one.elims) auto
  then have "row \<in> set (filter (same_line g) (gd_grants db))" by simp
  then show thesis using r(1,2) by (intro that(2)) simp_all
next
  case False
  then have none: "filter (same_line g) (gd_grants db) = []" by (auto simp: list_ex_iff filter_empty_conv)
  have "ag_id g \<notin> ag_id ` set (gd_grants db)" using assms False by (auto simp: insert_grant_def split: if_splits)
  with assms False none that(1) show thesis by (auto simp: insert_grant_def Let_def)
qed

text \<open>What a request may do to the table of grants, and under which authority.\<close>

definition free_slot :: "access_grant \<Rightarrow> access_grant list \<Rightarrow> bool" where
  "free_slot g gs \<longleftrightarrow> \<not> list_ex (same_line g) gs \<and> ag_id g \<notin> ag_id ` set gs"

definition stored :: "access_grant \<Rightarrow> access_grant list \<Rightarrow> access_grant list" where
  "stored g = update_where (\<lambda>h. ag_id h = ag_id g) (\<lambda>_. g)"

definition reactivated :: "access_grant \<Rightarrow> access_grant" where
  "reactivated g = g\<lparr>ag_revision := ag_revision g + 1, ag_state := ''active'', ag_revoked_at := None\<rparr>"

definition withdrawn :: "access_grant \<Rightarrow> time \<Rightarrow> access_grant" where
  "withdrawn g now = g\<lparr>ag_state := ''revoked'', ag_revision := ag_revision g + 1, ag_revoked_at := Some now\<rparr>"

inductive access_step :: "canonical_text \<Rightarrow> request_context \<Rightarrow> grant_minted \<Rightarrow> grant_db \<Rightarrow> grant_call \<Rightarrow> access_grant list \<Rightarrow> bool"
  for ct ctx m db where
  kept: "access_step ct ctx m db c (gd_grants db)"
| issued: "may_issue (rc_account_id ctx) (dq_object_kind body) (dq_stable_id body) db
    \<Longrightarrow> g = new_grant (mi_id m) scope (dq_object_kind body) (dq_stable_id body) (dq_major body) (rc_account_id ctx) grantee (mi_dbnow m)
    \<Longrightarrow> free_slot g (gd_grants db) \<Longrightarrow> access_step ct ctx m db (Direct body) (gd_grants db @ [g])"
| reissued: "may_issue (rc_account_id ctx) (dq_object_kind body) (dq_stable_id body) db
    \<Longrightarrow> g \<in> set (gd_grants db) \<Longrightarrow> ag_state g = ''revoked'' \<Longrightarrow> dq_expected_grant_id body = Some (ag_id g)
    \<Longrightarrow> dq_expected_revision body = Some (ag_revision g) \<Longrightarrow> ag_revision g < 2147483647
    \<Longrightarrow> ag_object_kind g = dq_object_kind body \<Longrightarrow> ag_stable_id g = dq_stable_id body \<Longrightarrow> ag_major g = dq_major body
    \<Longrightarrow> access_step ct ctx m db (Direct body) (stored (reactivated g) (gd_grants db))"
| accepted: "proven_invitation ct (rc_account_id ctx) token (mi_now m) db r
    \<Longrightarrow> g = new_grant (mi_id m) scope (gi_object_kind r) (gi_stable_id r) (gi_major r) (gi_owner_account_id r)
          (rc_account_id ctx) (mi_dbnow m)
    \<Longrightarrow> free_slot g (gd_grants db) \<Longrightarrow> access_step ct ctx m db (Accept (gi_id r) token) (gd_grants db @ [g])"
| revoked: "g \<in> set (gd_grants db) \<Longrightarrow> ag_state g = ''active''
    \<Longrightarrow> may_withdraw (rc_account_id ctx) (ag_owner_account_id g) (ag_object_kind g) (ag_stable_id g) db
    \<Longrightarrow> wq_expected_revision body = Some (ag_revision g) \<Longrightarrow> ag_revision g < 2147483647
    \<Longrightarrow> access_step ct ctx m db (Revoke (ag_id g) body) (stored (withdrawn g (mi_now m)) (gd_grants db))"

lemma grant_audit_simps [simp]:
  "gd_grants (grant_audit a b c d e f db) = gd_grants db" "gd_invitations (grant_audit a b c d e f db) = gd_invitations db"
  "gd_receipts (grant_audit a b c d e f db) = gd_receipts db"
  by (simp_all add: grant_audit_def)

lemma store_simps [simp]:
  "gd_grants (store_grant g db) = stored g (gd_grants db)"
  "gd_invitations (store_grant g db) = gd_invitations db" "gd_receipts (store_grant g db) = gd_receipts db"
  "gd_grants (store_invitation r db) = gd_grants db" "gd_receipts (store_invitation r db) = gd_receipts db"
  "gd_invitations (store_invitation r db) = update_where (\<lambda>s. gi_id s = gi_id r) (\<lambda>_. r) (gd_invitations db)"
  by (simp_all add: store_grant_def store_invitation_def stored_def)

lemma complete_receipt_grants: "complete_receipt a k act d g db = Inr db' \<Longrightarrow> gd_grants db' = gd_grants db"
  by (auto simp: complete_receipt_def split: if_splits)

lemma check_revision_ok: "check_revision g expected = Inr u \<Longrightarrow> expected = Some (ag_revision g) \<and> ag_revision g < 2147483647"
  by (auto simp: check_revision_def split: if_splits)

lemma grant_directly_parts:
  assumes "grant_directly ctx body scope i now db = Inr (answer, db')"
  obtains recipient grantee where "(case find (\<lambda>g. ag_object_kind g = dq_object_kind body \<and> ag_stable_id g = dq_stable_id body
                  \<and> ag_major g = dq_major body \<and> ag_grantee_account_id g = grantee) (gd_grants db) of
              Some existing \<Rightarrow> change_existing ctx body existing db
            | None \<Rightarrow> issue_grant ctx body scope recipient grantee i now db) = Inr (answer, db')"
proof -
  from assms obtain recipient grantee where "find_recipient body db = Inr (recipient, Some grantee)"
    and rest: "(case find (\<lambda>g. ag_object_kind g = dq_object_kind body \<and> ag_stable_id g = dq_stable_id body
                  \<and> ag_major g = dq_major body \<and> ag_grantee_account_id g = grantee) (gd_grants db) of
              Some existing \<Rightarrow> change_existing ctx body existing db
            | None \<Rightarrow> issue_grant ctx body scope recipient grantee i now db) = Inr (answer, db')"
    by (auto simp: grant_directly_def and_then_Inr split: option.splits prod.splits)
  from rest show thesis by (rule that)
qed

lemma direct_change:
  assumes run: "grant_directly ctx body scope i now db = Inr (answer, db')"
  shows "gd_grants db' = gd_grants db
    \<or> (\<exists>g grantee. gd_grants db' = gd_grants db @ [g] \<and> free_slot g (gd_grants db)
        \<and> g = new_grant i scope (dq_object_kind body) (dq_stable_id body) (dq_major body) (rc_account_id ctx) grantee now)
    \<or> (\<exists>g. g \<in> set (gd_grants db) \<and> ag_state g = ''revoked'' \<and> dq_expected_grant_id body = Some (ag_id g)
        \<and> dq_expected_revision body = Some (ag_revision g) \<and> ag_revision g < 2147483647
        \<and> ag_object_kind g = dq_object_kind body \<and> ag_stable_id g = dq_stable_id body \<and> ag_major g = dq_major body
        \<and> gd_grants db' = stored (reactivated g) (gd_grants db))"
proof -
  from run obtain recipient grantee where rest: "(case find (\<lambda>g. ag_object_kind g = dq_object_kind body \<and> ag_stable_id g = dq_stable_id body
                  \<and> ag_major g = dq_major body \<and> ag_grantee_account_id g = grantee) (gd_grants db) of
              Some existing \<Rightarrow> change_existing ctx body existing db
            | None \<Rightarrow> issue_grant ctx body scope recipient grantee i now db) = Inr (answer, db')"
    by (rule grant_directly_parts)
  show ?thesis
  proof (cases "find (\<lambda>g. ag_object_kind g = dq_object_kind body \<and> ag_stable_id g = dq_stable_id body
                  \<and> ag_major g = dq_major body \<and> ag_grantee_account_id g = grantee) (gd_grants db)")
    case (Some g)
    note g = find_mem [OF Some]
    from rest Some have run: "change_existing ctx body g db = Inr (answer, db')" by simp
    show ?thesis
    proof (cases "ag_state g = ''revoked''")
      case True
      with run have "dq_expected_grant_id body = Some (ag_id g)" "check_revision g (dq_expected_revision body) = Inr ()"
        by (auto simp: change_existing_def and_then_Inr split: if_splits)
      moreover have "gd_grants db' = stored (reactivated g) (gd_grants db)"
        using run True by (auto simp: change_existing_def and_then_Inr Let_def reactivated_def split: if_splits)
      ultimately show ?thesis using g True check_revision_ok by blast
    next
      case False
      with run show ?thesis by (auto simp: change_existing_def and_then_Inr split: if_splits)
    qed
  next
    case None
    let ?g = "new_grant i scope (dq_object_kind body) (dq_stable_id body) (dq_major body) (rc_account_id ctx) grantee now"
    from rest None have run: "issue_grant ctx body scope recipient grantee i now db = Inr (answer, db')" by simp
    then obtain inserted row db1 where ins: "insert_grant ?g db = Inr ((inserted, row), db1)"
      and same: "gd_grants db' = gd_grants db1"
      by (auto simp: issue_grant_def and_then_Inr Let_def split: if_splits prod.splits)
    from ins show ?thesis
    proof (cases rule: insert_grant_cases)
      case 1
      then have "gd_grants db' = gd_grants db @ [?g] \<and> free_slot ?g (gd_grants db)" using same by (simp add: free_slot_def)
      then show ?thesis by blast
    next
      case 2
      with same show ?thesis by simp
    qed
  qed
qed

lemma direct_transaction_parts:
  assumes "direct_transaction ct ctx body i candidate now db = Inr (answer, db')"
  shows "may_issue (rc_account_id ctx) (dq_object_kind body) (dq_stable_id body) db \<and>
    (\<exists>recipient digest receipt scope db1. gd_grants db1 = gd_grants db \<and> gd_receipts db1 = gd_receipts db
      \<and> lookup_receipt ct (rc_account_id ctx) (dq_idempotency_key body) ''direct''
          (direct_dump (body\<lparr>dq_recipient := recipient\<rparr>)) db1 = Inr (digest, receipt)
      \<and> (case receipt of Some r \<Rightarrow> db' = db1
         | None \<Rightarrow> \<exists>db2. grant_directly ctx (body\<lparr>dq_recipient := recipient\<rparr>) scope i now db1 = Inr (answer, db2)
             \<and> gd_grants db' = gd_grants db2))"
proof -
  from assms obtain scope db1 recipient digest receipt where
    s: "issuer_scope (rc_account_id ctx) (dq_object_kind body) (dq_stable_id body) candidate db = Inr (scope, db1)"
    and l: "lookup_receipt ct (rc_account_id ctx) (dq_idempotency_key body) ''direct''
          (direct_dump (body\<lparr>dq_recipient := recipient\<rparr>)) db1 = Inr (digest, receipt)"
    and rest: "(case receipt of
             Some r \<Rightarrow>
               (case find (\<lambda>g. ag_id g = go_grant_id r) (gd_grants db1) of
                  None \<Rightarrow> Inl (deny NOT_FOUND ''grant not found'')
                | Some g \<Rightarrow> Inr (grant_to_wire g (reference_of (ag_id g) db1), db1))
           | None \<Rightarrow>
               and_then (grant_directly ctx (body\<lparr>dq_recipient := recipient\<rparr>) scope i now db1) (\<lambda>(answer, db2).
               and_then (complete_receipt (rc_account_id ctx) (dq_idempotency_key body) ''direct'' digest
                   (ga_grant_id answer) db2) (\<lambda>db3. Inr (answer, db3)))) = Inr (answer, db')"
    unfolding direct_transaction_def Let_def by (auto simp: and_then_Inr split: prod.splits)
  note i = issuer_scope_grants [OF s]
  have "case receipt of Some r \<Rightarrow> db' = db1
         | None \<Rightarrow> \<exists>db2. grant_directly ctx (body\<lparr>dq_recipient := recipient\<rparr>) scope i now db1 = Inr (answer, db2)
             \<and> gd_grants db' = gd_grants db2"
    using rest by (auto simp: and_then_Inr dest: complete_receipt_grants split: option.splits)
  with i l show ?thesis by blast
qed

lemma take_change:
  assumes "take_invitation ctx r i candidate now db = Inr (answer, db')"
  shows "gd_grants db' = gd_grants db
    \<or> (\<exists>g scope. gd_grants db' = gd_grants db @ [g] \<and> free_slot g (gd_grants db)
        \<and> g = new_grant i scope (gi_object_kind r) (gi_stable_id r) (gi_major r) (gi_owner_account_id r) (rc_account_id ctx) now)"
proof (cases "find (\<lambda>g. ag_object_kind g = gi_object_kind r \<and> ag_stable_id g = gi_stable_id r \<and> ag_major g = gi_major r
            \<and> ag_grantee_account_id g = rc_account_id ctx \<and> ag_state g = ''active'') (gd_grants db)")
  case (Some g)
  with assms show ?thesis by (auto simp: take_invitation_def bind_invitation_def)
next
  case None
  with assms obtain scope db1 inserted g db2 where scope: "gd_grants db1 = gd_grants db"
    and ins: "insert_grant (new_grant i scope (gi_object_kind r) (gi_stable_id r) (gi_major r)
              (gi_owner_account_id r) (rc_account_id ctx) now) db1 = Inr ((inserted, g), db2)"
    and same: "gd_grants db' = gd_grants db2"
    by (auto simp: take_invitation_def bind_invitation_def and_then_Inr Let_def
        dest: owner_scope_grants split: option.splits if_splits prod.splits)
  let ?g = "new_grant i scope (gi_object_kind r) (gi_stable_id r) (gi_major r) (gi_owner_account_id r) (rc_account_id ctx) now"
  from ins show ?thesis
  proof (cases rule: insert_grant_cases)
    case 1
    then have "gd_grants db' = gd_grants db @ [?g] \<and> free_slot ?g (gd_grants db)" using same scope by (simp add: free_slot_def)
    then show ?thesis by blast
  next
    case 2
    with same scope show ?thesis by simp
  qed
qed


lemma committed_grants:
  assumes "P (gd_grants db)" "\<And>answer db'. r = Inr (answer, db') \<Longrightarrow> P (gd_grants db')"
  shows "P (gd_grants (snd (commit db r)))"
  using assms by (auto simp: commit_def split: sum.splits)

lemma reissuing_step: "access_step ct ctx m db (Direct body) (gd_grants (run_call ct ctx (Direct body) m db))"
  unfolding run_call.simps create_direct_grant_def
proof (rule committed_grants [where P = "access_step ct ctx m db (Direct body)"], rule kept)
  fix answer db'
  assume "direct_transaction ct ctx body (mi_id m) (mi_workspace m) (mi_dbnow m) db = Inr (answer, db')"
  from direct_transaction_parts [OF this] obtain recipient scope db1 and receipt :: "grant_receipt option"
    where may: "may_issue (rc_account_id ctx) (dq_object_kind body) (dq_stable_id body) db"
      and same: "gd_grants db1 = gd_grants db"
      and run: "case receipt of Some r \<Rightarrow> db' = db1
         | None \<Rightarrow> \<exists>db2. grant_directly ctx (body\<lparr>dq_recipient := recipient\<rparr>) scope (mi_id m) (mi_dbnow m) db1 = Inr (answer, db2)
             \<and> gd_grants db' = gd_grants db2" by (elim conjE exE) (rule that; assumption)
  show "access_step ct ctx m db (Direct body) (gd_grants db')"
  proof (cases receipt)
    case (Some r)
    with run same show ?thesis by (simp add: kept)
  next
    case None
    with run obtain db2 where direct: "grant_directly ctx (body\<lparr>dq_recipient := recipient\<rparr>) scope (mi_id m) (mi_dbnow m) db1 = Inr (answer, db2)"
      and g: "gd_grants db' = gd_grants db2" by auto
    from direct_change [OF direct] show ?thesis unfolding g same
      by (elim disjE exE conjE) (simp_all add: kept issued [OF may] reissued [OF may])
  qed
qed

lemma accepting_step: "access_step ct ctx m db (Accept invitation token) (gd_grants (run_call ct ctx (Accept invitation token) m db))"
  unfolding run_call.simps accept_invitation_def
proof (rule committed_grants [where P = "access_step ct ctx m db (Accept invitation token)"], rule kept)
  fix answer db'
  assume run: "accept_transaction ct ctx invitation token (mi_id m) (mi_workspace m) (mi_now m) (mi_dbnow m) db = Inr (answer, db')"
  then obtain r where find: "find (\<lambda>r. gi_id r = invitation) (gd_invitations db) = Some r"
    by (auto simp: accept_transaction_def split: option.splits)
  note r = find_mem [OF find]
  show "access_step ct ctx m db (Accept invitation token) (gd_grants db')"
  proof (cases "accepted_before ct ctx token r db")
    case (Some answer')
    with run find have "db' = db" by (simp add: accept_transaction_def and_then_Inr)
    then show ?thesis by (simp add: kept)
  next
    case None
    with run find have proven: "proven_invitation ct (rc_account_id ctx) token (mi_now m) db r"
      and take: "take_invitation ctx r (mi_id m) (mi_workspace m) (mi_dbnow m) db = Inr (answer, db')"
      using r by (auto simp: accept_transaction_def proven_invitation_def verified_email split: if_splits)
    from take_change [OF take] show ?thesis
      using accepted [OF proven] r by (elim disjE exE conjE) (simp_all add: kept)
  qed
qed

lemma revoking_step: "access_step ct ctx m db (Revoke grant body) (gd_grants (run_call ct ctx (Revoke grant body) m db))"
  unfolding run_call.simps revoke_grant_def
proof (rule committed_grants [where P = "access_step ct ctx m db (Revoke grant body)"], rule kept)
  fix answer db'
  assume run: "revoke_transaction ct ctx grant body (mi_now m) db = Inr (answer, db')"
  then obtain digest and receipt :: "grant_receipt option"
    where l: "lookup_receipt ct (rc_account_id ctx) (wq_idempotency_key body) ''revoke'' (withdraw_dump grant body) db = Inr (digest, receipt)"
    by (auto simp: revoke_transaction_def and_then_Inr)
  from run obtain g where find: "find (\<lambda>g. ag_id g = grant) (gd_grants db) = Some g"
    by (cases "find (\<lambda>g. ag_id g = grant) (gd_grants db)") (auto simp: revoke_transaction_def and_then_Inr)
  from run find l have may: "may_withdraw (rc_account_id ctx) (ag_owner_account_id g) (ag_object_kind g) (ag_stable_id g) db"
    by (auto simp: revoke_transaction_def split: if_splits)
  note g = find_mem [OF find]
  show "access_step ct ctx m db (Revoke grant body) (gd_grants db')"
  proof (cases "receipt = None \<and> ag_state g = ''active''")
    case True
    with run find l may have "check_revision g (wq_expected_revision body) = Inr ()"
      "gd_grants db' = stored (withdrawn g (mi_now m)) (gd_grants db)"
      by (auto simp: revoke_transaction_def withdrawn_def and_then_Inr Let_def dest!: complete_receipt_grants)
    with True g may check_revision_ok revoked [of g db ctx body ct m] show ?thesis by simp
  next
    case False
    with run find l may have "gd_grants db' = gd_grants db"
      by (cases receipt) (auto simp: revoke_transaction_def and_then_Inr Let_def dest!: complete_receipt_grants)
    then show ?thesis by (simp add: kept)
  qed
qed

lemma invite_grants: "invite ct ctx body scope i token now dbnow db = Inr (answer, db') \<Longrightarrow> gd_grants db' = gd_grants db"
  by (auto simp: invite_def Let_def split: if_splits prod.splits sum.splits)

lemma inviting_step: "gd_grants (run_call ct ctx (Invite body token) m db) = gd_grants db"
  unfolding run_call.simps create_invitation_def
proof (rule committed_grants [where P = "\<lambda>gs. gs = gd_grants db"], rule refl)
  fix answer db'
  assume "and_then (issuer_scope (rc_account_id ctx) (iq_object_kind body) (iq_stable_id body) (mi_workspace m) db) (\<lambda>(scope, db1).
          case find (\<lambda>r. gi_owner_account_id r = rc_account_id ctx \<and> gi_idempotency_key r = iq_idempotency_key body)
                 (gd_invitations db1) of
            Some existing \<Rightarrow> Inr (invitation_to_wire existing, db1)
          | None \<Rightarrow> invite ct ctx body scope (mi_id m) token (mi_now m) (mi_dbnow m) db1) = Inr (answer, db')"
  then show "gd_grants db' = gd_grants db"
    by (auto simp: and_then_Inr dest!: issuer_scope_grants invite_grants split: option.splits)
qed

lemma withdrawing_step: "gd_grants (run_call ct ctx (WithdrawInvitation invitation body) m db) = gd_grants db"
  by (simp add: revoke_invitation_def split: option.splits)

lemma run_call_step: "access_step ct ctx m db c (gd_grants (run_call ct ctx c m db))"
  by (cases c) (simp_all only: reissuing_step accepting_step revoking_step inviting_step withdrawing_step kept)

end
