(* ===== verification/GrantOutcomes.thy ===== *)
theory GrantOutcomes
  imports GrantTheorems
begin

text \<open>
  Runs of grant requests, with the tables around them changing in between, and the properties of
  access that follow: uniqueness, authority, withdrawal by revision, and retries.
\<close>

section \<open>Runs\<close>

text \<open>Between requests the other tables change arbitrarily, and deleting an account deletes its grants.\<close>

inductive grants_run :: "grant_db \<Rightarrow> bool" where
  empty: "gd_grants db = [] \<Longrightarrow> grants_run db"
| request: "grants_run db \<Longrightarrow> grants_run (run_call ct ctx c m db)"
| elsewhere: "grants_run db \<Longrightarrow> gd_grants db' = filter keep (gd_grants db) \<Longrightarrow> grants_run db'"

definition grant_slot :: "access_grant \<Rightarrow> string \<times> string \<times> int \<times> string" where
  "grant_slot g = (ag_object_kind g, ag_stable_id g, ag_major g, ag_grantee_account_id g)"

definition well_kept :: "access_grant \<Rightarrow> bool" where
  "well_kept g \<longleftrightarrow> 1 \<le> ag_revision g \<and> ag_revision g \<le> 2147483647
     \<and> (if ag_revoked_at g = None then ag_state g = ''active'' else ag_state g = ''revoked'')"

definition unique_access :: "access_grant list \<Rightarrow> bool" where
  "unique_access gs \<longleftrightarrow> distinct (map ag_id gs) \<and> distinct (map grant_slot gs) \<and> list_all well_kept gs"

lemma same_line_iff: "same_line g h \<longleftrightarrow> grant_slot g = grant_slot h"
  by (auto simp: same_line_def grant_slot_def)

lemma free_slot_iff: "free_slot g gs \<longleftrightarrow> grant_slot g \<notin> grant_slot ` set gs \<and> ag_id g \<notin> ag_id ` set gs"
  by (auto simp: free_slot_def list_ex_iff same_line_iff)

lemma slot_moved [simp]: "grant_slot (reactivated g) = grant_slot g" "grant_slot (withdrawn g t) = grant_slot g"
    "ag_id (reactivated g) = ag_id g" "ag_id (withdrawn g t) = ag_id g"
  by (simp_all add: grant_slot_def reactivated_def withdrawn_def)

lemma same_grant: "distinct (map ag_id gs) \<Longrightarrow> g \<in> set gs \<Longrightarrow> h \<in> set gs \<Longrightarrow> ag_id g = ag_id h \<Longrightarrow> g = h"
  by (simp add: distinct_map inj_on_def)

lemma stored_ids: "ag_id ` set (stored g gs) = ag_id ` set gs"
  by (induction gs) (auto simp: stored_def)

lemma stored_keys:
  assumes ids: "distinct (map ag_id gs)" and "g \<in> set gs" "ag_id g' = ag_id g" "grant_slot g' = grant_slot g"
  shows "map ag_id (stored g' gs) = map ag_id gs" "map grant_slot (stored g' gs) = map grant_slot gs"
proof -
  have eq: "h = g" if "h \<in> set gs" "ag_id h = ag_id g" for h
    using same_grant [OF ids that(1) assms(2)] that by simp
  show "map ag_id (stored g' gs) = map ag_id gs" using assms(3) by (simp add: stored_def update_where_def)
  show "map grant_slot (stored g' gs) = map grant_slot gs" using assms(3,4) eq by (auto simp: stored_def update_where_def)
qed

lemma stored_set: "h \<in> set (stored g' gs) \<Longrightarrow> h = g' \<or> h \<in> set gs \<and> ag_id h \<noteq> ag_id g'"
  by (auto simp: stored_def set_update_where)

lemma stored_mem: "g \<in> set gs \<Longrightarrow> ag_id g' = ag_id g \<Longrightarrow> g' \<in> set (stored g' gs)"
  by (force simp: stored_def set_update_where)

lemma stored_unique:
  assumes "unique_access gs" "g \<in> set gs" "ag_id g' = ag_id g" "grant_slot g' = grant_slot g" "well_kept g'"
  shows "unique_access (stored g' gs)"
  using assms stored_keys [of gs g g'] by (auto simp: unique_access_def list_all_iff dest: stored_set)

lemma new_grant_kept: "well_kept (new_grant i scope kind sid major owner grantee now)"
  by (simp add: well_kept_def new_grant_def)

lemma moved_kept:
  "well_kept g \<Longrightarrow> ag_revision g < 2147483647 \<Longrightarrow> well_kept (reactivated g)"
  "well_kept g \<Longrightarrow> ag_revision g < 2147483647 \<Longrightarrow> well_kept (withdrawn g t)"
  by (simp_all add: well_kept_def reactivated_def withdrawn_def)

lemma kept_member: "unique_access gs \<Longrightarrow> g \<in> set gs \<Longrightarrow> well_kept g"
  by (simp add: unique_access_def list_all_iff)

lemma added_unique: "unique_access gs \<Longrightarrow> free_slot g gs \<Longrightarrow> well_kept g \<Longrightarrow> unique_access (gs @ [g])"
  by (auto simp: unique_access_def free_slot_iff)

lemma access_step_unique:
  assumes "access_step ct ctx m db c gs" "unique_access (gd_grants db)"
  shows "unique_access gs"
  using assms
proof (cases rule: access_step.cases)
  case kept
  with assms(2) show ?thesis by simp
next
  case (issued body g scope grantee)
  with assms(2) show ?thesis by (simp add: added_unique new_grant_kept)
next
  case (reissued body g)
  with assms(2) show ?thesis by (simp add: stored_unique [of _ g] moved_kept kept_member)
next
  case (accepted token r g scope)
  with assms(2) show ?thesis by (simp add: added_unique new_grant_kept)
next
  case (revoked g body)
  with assms(2) show ?thesis by (simp add: stored_unique [of _ g] moved_kept kept_member)
qed

lemma grants_run_unique: "grants_run db \<Longrightarrow> unique_access (gd_grants db)"
proof (induction rule: grants_run.induct)
  case (empty db)
  then show ?case by (simp add: unique_access_def)
next
  case (request db ct ctx c m)
  then show ?case using access_step_unique [OF run_call_step] by blast
next
  case (elsewhere db db' keep)
  then show ?case by (auto simp: unique_access_def list_all_iff distinct_map_filter)
qed

section \<open>Properties\<close>

text \<open>Whatever requests arrive, however the tables around the grants change, and whatever grants vanish
  with their accounts, there is at
  most one grant per id and at most one per object line and recipient; its revision stays a positive
  32-bit integer, and it is active exactly when it carries no time of withdrawal.\<close>

theorem grants_stay_unique:
  assumes "grants_run db"
  shows "distinct (map ag_id (gd_grants db)) \<and> distinct (map grant_slot (gd_grants db))
    \<and> (\<forall>g \<in> set (gd_grants db). 1 \<le> ag_revision g \<and> ag_revision g \<le> 2147483647
        \<and> (if ag_revoked_at g = None then ag_state g = ''active'' else ag_state g = ''revoked''))"
  using grants_run_unique [OF assms] by (simp add: unique_access_def list_all_iff well_kept_def)

text \<open>C7. A grant that a request makes active has one of two origins: it is a new
  grant, or a revoked one named with its current revision, in a direct request from somebody who owns
  the object or resolves its corporate ownership; or it is the caller's own, for the line of a
  pending, unexpired invitation sent to a verified address of theirs and opened with its token.\<close>

theorem access_needs_authority:
  assumes "g \<in> set (gd_grants (run_call ct ctx c m db))" "ag_state g = ''active''" "g \<notin> set (gd_grants db)"
  shows "(\<exists>body. c = Direct body \<and> may_issue (rc_account_id ctx) (dq_object_kind body) (dq_stable_id body) db
      \<and> ag_object_kind g = dq_object_kind body \<and> ag_stable_id g = dq_stable_id body \<and> ag_major g = dq_major body
      \<and> (ag_id g \<notin> ag_id ` set (gd_grants db) \<and> ag_revision g = 1 \<and> ag_owner_account_id g = rc_account_id ctx
         \<or> (\<exists>h \<in> set (gd_grants db). ag_state h = ''revoked'' \<and> ag_id h = ag_id g \<and> grant_slot h = grant_slot g
              \<and> dq_expected_grant_id body = Some (ag_id h) \<and> dq_expected_revision body = Some (ag_revision h)
              \<and> ag_revision g = ag_revision h + 1)))
    \<or> (\<exists>token r. c = Accept (gi_id r) token \<and> proven_invitation ct (rc_account_id ctx) token (mi_now m) db r
      \<and> ag_id g \<notin> ag_id ` set (gd_grants db) \<and> ag_object_kind g = gi_object_kind r \<and> ag_stable_id g = gi_stable_id r
      \<and> ag_major g = gi_major r \<and> ag_grantee_account_id g = rc_account_id ctx \<and> ag_owner_account_id g = gi_owner_account_id r)"
  using run_call_step [of ct ctx m db c]
proof (cases rule: access_step.cases)
  case kept
  with assms show ?thesis by simp
next
  case (issued body g' scope grantee)
  with assms have "g = g'" by auto
  with issued show ?thesis by (simp add: new_grant_def free_slot_iff)
next
  case (reissued body h)
  with assms have "g = reactivated h" by (auto dest: stored_set)
  with reissued show ?thesis by (auto simp: reactivated_def grant_slot_def)
next
  case (accepted token r g' scope)
  with assms have "g = g'" by auto
  with accepted show ?thesis by (auto simp: new_grant_def free_slot_iff)
next
  case (revoked h body)
  with assms have "g = withdrawn h (mi_now m)" by (auto dest: stored_set)
  with assms(2) show ?thesis by (simp add: withdrawn_def)
qed



section \<open>Retries\<close>

definition same_rights :: "grant_db \<Rightarrow> grant_db \<Rightarrow> bool" where
  "same_rights db db' \<longleftrightarrow> gd_workspaces db' = gd_workspaces db \<and> gd_objects db' = gd_objects db
     \<and> gd_lines db' = gd_lines db \<and> gd_resolves_ownership db' = gd_resolves_ownership db"

lemma same_rights_owner:
  assumes "same_rights db db'"
  shows "is_personal_owner a k s db' = is_personal_owner a k s db"
    "corporate_owner_scope a k s db' = corporate_owner_scope a k s db"
proof -
  from assms have eqs: "gd_workspaces db' = gd_workspaces db" "gd_objects db' = gd_objects db" "gd_lines db' = gd_lines db"
    "gd_resolves_ownership db' = gd_resolves_ownership db" by (simp_all add: same_rights_def)
  show "is_personal_owner a k s db' = is_personal_owner a k s db"
    "corporate_owner_scope a k s db' = corporate_owner_scope a k s db"
    unfolding is_personal_owner_def corporate_owner_scope_def object_organization_id_def eqs by (rule refl)+
qed

lemma owner_scope_again:
  assumes "owner_scope_id owner candidate db = Inr (scope, db1)" "same_rights db1 db'"
  shows "owner_scope_id owner candidate' db' = Inr (scope, db')"
proof (cases "find (personal_workspace owner) (gd_workspaces db)")
  case None
  with assms show ?thesis
    by (auto simp: owner_scope_id_def same_rights_def find_append personal_workspace_def split: if_splits)
next
  case (Some w)
  with assms show ?thesis by (auto simp: owner_scope_id_def same_rights_def)
qed

lemma issuer_scope_again:
  assumes "issuer_scope a k s candidate db = Inr (scope, db1)" "same_rights db1 db'"
  shows "issuer_scope a k s candidate' db' = Inr (scope, db')"
proof (cases "is_personal_owner a k s db")
  case True
  with assms(1) have o: "owner_scope_id a candidate db = Inr (scope, db1)" by (simp add: issuer_scope_def)
  then have "gd_objects db1 = gd_objects db" by (auto simp: owner_scope_id_def split: option.splits if_splits)
  with True assms(2) have "is_personal_owner a k s db'" by (simp add: is_personal_owner_def same_rights_def)
  with owner_scope_again [OF o assms(2)] show ?thesis by (simp add: issuer_scope_def)
next
  case False
  with assms(1) have "db1 = db" "corporate_owner_scope a k s db = Some scope"
    by (auto simp: issuer_scope_def split: option.split_asm)
  with False assms(2) same_rights_owner [of db db'] show ?thesis by (simp add: issuer_scope_def)
qed

lemma grant_audit_rights [simp]: "same_rights db (grant_audit a b c d e f db') = same_rights db db'"
  by (simp add: same_rights_def grant_audit_def)

lemma same_rights_simps [simp]:
  "same_rights db db" "same_rights db (store_grant g db)" "same_rights db (db\<lparr>gd_grants := gs\<rparr>)"
  "same_rights db (db'\<lparr>gd_references := rs\<rparr>) = same_rights db db'"
  "same_rights db (db'\<lparr>gd_receipts := ps\<rparr>) = same_rights db db'"
  by (simp_all add: same_rights_def store_grant_def)

lemma grant_directly_answer:
  assumes "grant_directly ctx body scope i now db = Inr (answer, db')"
  shows "same_rights db db' \<and> gd_receipts db' = gd_receipts db \<and> ga_grant_id answer \<in> ag_id ` set (gd_grants db')"
proof -
  from assms obtain recipient grantee where rest: "(case find (\<lambda>g. ag_object_kind g = dq_object_kind body \<and> ag_stable_id g = dq_stable_id body
                  \<and> ag_major g = dq_major body \<and> ag_grantee_account_id g = grantee) (gd_grants db) of
              Some existing \<Rightarrow> change_existing ctx body existing db
            | None \<Rightarrow> issue_grant ctx body scope recipient grantee i now db) = Inr (answer, db')"
    by (rule grant_directly_parts)
  show ?thesis
  proof (cases "find (\<lambda>g. ag_object_kind g = dq_object_kind body \<and> ag_stable_id g = dq_stable_id body
                  \<and> ag_major g = dq_major body \<and> ag_grantee_account_id g = grantee) (gd_grants db)")
    case (Some g)
    with rest have "change_existing ctx body g db = Inr (answer, db')" by simp
    moreover have "g \<in> set (gd_grants db)" using find_mem [OF Some] by simp
    ultimately show ?thesis
      by (cases "ag_state g = ''revoked''")
        (auto simp: change_existing_def and_then_Inr Let_def grant_to_wire_def stored_ids)
  next
    case None
    let ?g = "new_grant i scope (dq_object_kind body) (dq_stable_id body) (dq_major body) (rc_account_id ctx) grantee now"
    from None rest have run: "issue_grant ctx body scope recipient grantee i now db = Inr (answer, db')" by simp
    then obtain inserted row db1 where ins: "insert_grant ?g db = Inr ((inserted, row), db1)"
      by (auto simp: issue_grant_def and_then_Inr split: if_splits)
    from ins have "row \<in> set (gd_grants db1) \<and> same_rights db db1 \<and> gd_receipts db1 = gd_receipts db"
      by (cases rule: insert_grant_cases) simp_all
    with run ins show ?thesis
      by (auto simp: issue_grant_def and_then_Inr Let_def grant_to_wire_def split: if_splits)
  qed
qed

lemma direct_transaction_again:
  assumes run: "direct_transaction ct ctx body i candidate now db = Inr (answer, db')"
  shows "\<exists>again. direct_transaction ct ctx body i' candidate' now' db' = Inr (again, db') \<and> ga_grant_id again = ga_grant_id answer"
proof -
  let ?name = "if dq_recipient_kind body = ''github_username'' then normalize_github_username (dq_recipient body)
               else Inr (strip (dq_recipient body))"
  from run obtain scope db1 recipient digest and receipt :: "grant_receipt option" where
    s: "issuer_scope (rc_account_id ctx) (dq_object_kind body) (dq_stable_id body) candidate db = Inr (scope, db1)"
    and n: "?name = Inr recipient"
    and l: "lookup_receipt ct (rc_account_id ctx) (dq_idempotency_key body) ''direct''
          (direct_dump (body\<lparr>dq_recipient := recipient\<rparr>)) db1 = Inr (digest, receipt)"
    by (auto simp: direct_transaction_def Let_def and_then_Inr)
  from l obtain bytes where t: "canonize ct (direct_dump (body\<lparr>dq_recipient := recipient\<rparr>)) = Inr bytes" "digest = ct_sha256 ct bytes"
    by (auto simp: lookup_receipt_def Let_def split: sum.splits option.splits if_splits)
  show ?thesis
  proof (cases receipt)
    case (Some r)
    with run s n l have same: "db' = db1" and found: "find (\<lambda>g. ag_id g = go_grant_id r) (gd_grants db1) \<noteq> None"
      and id: "\<exists>g. find (\<lambda>g. ag_id g = go_grant_id r) (gd_grants db1) = Some g \<and> answer = grant_to_wire g (reference_of (ag_id g) db1)"
      by (auto simp: direct_transaction_def Let_def split: option.splits)
    from issuer_scope_again [OF s, of db1] Some l n id show ?thesis
      by (auto simp: direct_transaction_def Let_def same)
  next
    case None
    with run s n l obtain db2 where g: "grant_directly ctx (body\<lparr>dq_recipient := recipient\<rparr>) scope i now db1 = Inr (answer, db2)"
      and c: "complete_receipt (rc_account_id ctx) (dq_idempotency_key body) ''direct'' digest (ga_grant_id answer) db2 = Inr db'"
      by (auto simp: direct_transaction_def Let_def and_then_Inr)
    note a = grant_directly_answer [OF g]
    from c a have rights: "same_rights db1 db'" and grants: "gd_grants db' = gd_grants db2"
      by (auto simp: complete_receipt_def split: if_splits)
    from c have "find (\<lambda>r. go_actor_account_id r = rc_account_id ctx \<and> go_idempotency_key r = dq_idempotency_key body)
        (gd_receipts db2) = None"
      by (auto simp: complete_receipt_def find_None_iff image_iff split: if_splits)
    with c have "find (\<lambda>r. go_actor_account_id r = rc_account_id ctx \<and> go_idempotency_key r = dq_idempotency_key body) (gd_receipts db')
        = Some \<lparr>go_actor_account_id = rc_account_id ctx, go_idempotency_key = dq_idempotency_key body, go_action = ''direct'',
             go_request_digest = digest, go_grant_id = ga_grant_id answer\<rparr>" (is "_ = Some ?r")
      by (auto simp: complete_receipt_def find_append split: if_splits)
    with t have again: "lookup_receipt ct (rc_account_id ctx) (dq_idempotency_key body) ''direct''
          (direct_dump (body\<lparr>dq_recipient := recipient\<rparr>)) db' = Inr (digest, Some ?r)"
      by (simp add: lookup_receipt_def Let_def)
    from a grants obtain h where "find (\<lambda>g. ag_id g = ga_grant_id answer) (gd_grants db') = Some h"
      by (cases "find (\<lambda>g. ag_id g = ga_grant_id answer) (gd_grants db')") (auto simp: find_None_iff)
    with issuer_scope_again [OF s rights] n again find_mem [OF this] show ?thesis
      by (simp add: direct_transaction_def Let_def grant_to_wire_def)
  qed
qed

text \<open>C10. A direct grant may be retried: repeating a request that succeeded, whatever ids and clock the
  retry comes with, answers with the same grant and changes nothing.\<close>

theorem direct_grants_are_idempotent:
  assumes "create_direct_grant ct ctx body i candidate now db = (Inr answer, db')"
  shows "\<exists>again. create_direct_grant ct ctx body i' candidate' now' db' = (Inr again, db') \<and> ga_grant_id again = ga_grant_id answer"
  using direct_transaction_again [of ct ctx body i candidate now db answer db'] assms
  by (auto simp: create_direct_grant_def commit_Inr)


section \<open>Invitations over a revoked grant, and after their time\<close>

text \<open>Accepting an invitation for a line on which the caller holds a revoked grant uses the invitation
  up, without renewing the access: the insert meets the old row, which stays revoked.\<close>

lemma accepting_over_a_revoked_grant:
  assumes r: "find (\<lambda>r. gi_id r = invitation) (gd_invitations db) = Some r"
    and proven: "proven_invitation ct (rc_account_id ctx) token now db r"
    and scope: "gi_organization_id r = Some organization" "organization \<noteq> []"
    and h: "filter (\<lambda>g. ag_object_kind g = gi_object_kind r \<and> ag_stable_id g = gi_stable_id r \<and> ag_major g = gi_major r
        \<and> ag_grantee_account_id g = rc_account_id ctx) (gd_grants db) = [h]" "ag_state h = ''revoked''"
  shows "accept_invitation ct ctx invitation token i candidate now dbnow db
    = (Inr (grant_to_wire h None), bind_invitation r h db)"
proof -
  let ?g = "new_grant i organization (gi_object_kind r) (gi_stable_id r) (gi_major r) (gi_owner_account_id r) (rc_account_id ctx) dbnow"
  have slots: "filter (same_line ?g) (gd_grants db) = [h]"
    using h(1) by (simp add: same_line_def [abs_def] new_grant_def)
  then have "h \<in> set (filter (same_line ?g) (gd_grants db))" by simp
  then have "list_ex (same_line ?g) (gd_grants db)" by (auto simp: list_ex_iff)
  with slots have ins: "insert_grant ?g db = Inr ((False, h), db)" by (simp add: insert_grant_def)
  have "find (\<lambda>g. ag_object_kind g = gi_object_kind r \<and> ag_stable_id g = gi_stable_id r \<and> ag_major g = gi_major r
        \<and> ag_grantee_account_id g = rc_account_id ctx \<and> ag_state g = ''active'') (gd_grants db) = None"
  proof (rule ccontr)
    assume "\<not> ?thesis"
    then obtain k where "find (\<lambda>g. ag_object_kind g = gi_object_kind r \<and> ag_stable_id g = gi_stable_id r \<and> ag_major g = gi_major r
        \<and> ag_grantee_account_id g = rc_account_id ctx \<and> ag_state g = ''active'') (gd_grants db) = Some k" by blast
    from find_mem [OF this] have "k \<in> set [h]" "ag_state k = ''active''" unfolding h(1) [symmetric] by auto
    with h(2) show False by simp
  qed
  with ins scope have "take_invitation ctx r i candidate dbnow db = Inr (grant_to_wire h None, bind_invitation r h db)"
    by (simp add: take_invitation_def)
  moreover have "accepted_before ct ctx token r db = None"
    using proven by (auto simp: accepted_before_def proven_invitation_def split: option.splits)
  ultimately show ?thesis using r proven
    by (simp add: accept_invitation_def accept_transaction_def proven_invitation_def verified_email commit_def)
qed

text \<open>The state \<open>expired\<close> never reaches the table: the request that finds it is rolled back.\<close>

lemma expired_invitations_stay_pending:
  assumes "find (\<lambda>r. gi_id r = invitation) (gd_invitations db) = Some r" "gi_state r = ''pending''" "gi_expires_at r \<le> now"
  shows "accept_invitation ct ctx invitation token i candidate now dbnow db = (Inl (deny VALIDATION ''invitation expired''), db)"
  using assms by (simp add: accept_invitation_def accept_transaction_def accepted_before_def commit_def split: option.splits)

section \<open>Example\<close>

text \<open>An owner, a recipient by user id, and a grant that was revoked.\<close>

definition recipient_id :: string where
  "recipient_id = ''account_01ARZ3NDEKTSV4RRFFQ69G5FAV''"

definition example_text :: canonical_text where
  "example_text =
     \<lparr>ct_nfc = (\<lambda>s. s), ct_has_bom = (\<lambda>s. False), ct_rfc8785 = (\<lambda>v. Inr ''doc''), ct_sha256 = (\<lambda>s. s)\<rparr>"

definition owner_context :: request_context where
  "owner_context = \<lparr>rc_account_id = ''owner'', rc_device_id = None\<rparr>"

definition shared_request :: direct_request where
  "shared_request =
     \<lparr>dq_object_kind = ''component'', dq_stable_id = ''c1'', dq_major = 1, dq_recipient_kind = ''user_id'',
      dq_recipient = recipient_id, dq_expected_grant_id = None, dq_expected_revision = None, dq_idempotency_key = ''key-1''\<rparr>"

definition empty_grants :: grant_db where
  "empty_grants =
     \<lparr>gd_accounts = [''owner'', recipient_id], gd_oauth = [], gd_aliases = [], gd_workspaces = [], gd_members = [],
      gd_lines = [],
      gd_objects = [\<lparr>lo_owner_account_id = ''owner'', lo_object_kind = ''component'', lo_stable_id = ''c1'',
        lo_organization_id = None\<rparr>],
      gd_resolves_ownership = (\<lambda>_ _ _ _. False), gd_grants = [], gd_invitations = [], gd_references = [],
      gd_receipts = [], gd_queue = \<lparr>jobs = [], next_job_id = 1, tenant_scope = []\<rparr>, gd_audit = []\<rparr>"

definition example_minted :: "string \<Rightarrow> grant_minted" where
  "example_minted i = \<lparr>mi_id = i, mi_workspace = ''workspace_1'', mi_now = 5, mi_dbnow = 5\<rparr>"

definition shared_db :: grant_db where
  "shared_db = run_call example_text owner_context (Direct shared_request) (example_minted ''grant_1'') empty_grants"

definition stop_request :: withdraw_request where
  "stop_request = \<lparr>wq_reason = ''left'', wq_expected_revision = Some 1, wq_idempotency_key = ''key-2''\<rparr>"

definition stopped_db :: grant_db where
  "stopped_db = run_call example_text owner_context (Revoke ''grant_1'' stop_request) (example_minted '''') shared_db"

definition shared_grant :: access_grant where
  "shared_grant = new_grant ''grant_1'' ''workspace_1'' ''component'' ''c1'' 1 ''owner'' recipient_id 5"

lemma shared_db_grants: "gd_grants shared_db = [shared_grant]"
  by code_simp

lemma stopped_db_grants: "gd_grants stopped_db = [withdrawn shared_grant 5]"
  by code_simp

lemma shared_run: "grants_run shared_db" "grants_run stopped_db"
proof -
  have "grants_run empty_grants" by (rule grants_run.empty) (simp_all add: empty_grants_def)
  then show shared: "grants_run shared_db" unfolding shared_db_def by (rule grants_run.request)
  from shared show "grants_run stopped_db" unfolding stopped_db_def by (rule grants_run.request)
qed

lemma grants_stay_unique_witness:
  "distinct (map ag_id (gd_grants stopped_db)) \<and> map ag_state (gd_grants stopped_db) = [''revoked'']"
  using grants_stay_unique [OF shared_run(2)] stopped_db_grants by (simp add: withdrawn_def)

lemma access_needs_authority_witness:
  "may_issue ''owner'' ''component'' ''c1'' empty_grants \<and> ag_state shared_grant = ''active''"
proof -
  have step: "shared_grant \<in> set (gd_grants (run_call example_text owner_context (Direct shared_request)
      (example_minted ''grant_1'') empty_grants))"
    using shared_db_grants by (simp add: shared_db_def)
  have active: "ag_state shared_grant = ''active''" by (simp add: shared_grant_def new_grant_def)
  have new: "shared_grant \<notin> set (gd_grants empty_grants)" by (simp add: empty_grants_def)
  from access_needs_authority [OF step active new]
  have "may_issue (rc_account_id owner_context) (dq_object_kind shared_request) (dq_stable_id shared_request) empty_grants"
    by auto
  with active show ?thesis by (simp add: owner_context_def shared_request_def)
qed


lemma direct_grants_are_idempotent_witness:
  "\<exists>again. create_direct_grant example_text owner_context shared_request ''grant_9'' ''workspace_9'' 8 shared_db = (Inr again, shared_db)"
proof -
  have "create_direct_grant example_text owner_context shared_request ''grant_1'' ''workspace_1'' 5 empty_grants
    = (Inr (grant_to_wire shared_grant (Some \<lparr>rf_grant_id = ''grant_1'', rf_identifier_kind = ''user_id'',
         rf_identifier_value = recipient_id\<rparr>)), shared_db)"
    by (rule prod_eqI, code_simp) (simp add: shared_db_def example_minted_def)
  from direct_grants_are_idempotent [OF this, of "''grant_9''" "''workspace_9''" 8] show ?thesis by blast
qed

end
