(* ===== verification/Spec2Isabelle.thy ===== *)
theory Spec2Isabelle
  imports QueueProperties WorkerTheorems RateLimitProps SafetyTheorems DeviceTheorems CatalogQLRoundTrip
    CatalogSearchTheorems IdentityTheorems PublicationOutcomes SyncOutcomes GrantOutcomes
begin

text \<open>
  A verification development of the AI-STP platform services (\<open>src/apps/platform\<close>, \<open>src/apps/api\<close>,
  \<open>src/apps/worker\<close>, \<open>src/packages/foundation\<close>): Python services over one PostgreSQL database, an HTTP API
  and a queue worker.

  \<^bold>\<open>How the program is put together.\<close> Endpoints work in one transaction per request (\<open>deps.py\<close>). Work that
  takes long is a row of the job queue; the worker claims it, checks again that the tenant authority
  it was queued under still holds, runs the handler and settles the row. The largest workflow is a
  publication: the API creates and confirms a plan, a \<open>validate\<close> job runs the checks and the safety
  suite, a \<open>publish\<close> job writes the catalog version, and the catalog listing shows it. Names of accounts
  and catalog lines are owned; corporate tenants see what their bindings and grants allow. An account's
  devices share private documents through its sync ledger: a device pushes content-addressed revisions,
  the server moves one head per entity forward and numbers what it accepted, and the other devices pull
  that stream by signed cursors. An owner opens a published version by a confirmed visibility plan, or
  shares one major line of a private object by a grant, given directly or through an invitation by mail.

  \<^bold>\<open>Conventions.\<close> A table is a list of rows in primary-key order, a row a record of the columns the code
  reads or writes. A transaction is a function from the tables to an answer and the tables; an exception
  is a value (\<^typ>\<open>'e + 'a\<close>), and where the code rolls back, so does the model. A SELECT is a filter or a
  \<^const>\<open>find\<close>, an UPDATE is \<^const>\<open>update_where\<close>, and a unique constraint is a test before the insert.
  Concurrency is an arbitrary order of committed transactions; rows that other transactions lock are
  an argument where the code skips them. A transaction is one step of a run when it locks the rows it
  decides on, or writes them in one statement. Where the code reads a row without a lock, decides, and
  writes by primary key later, the read and the write are two definitions and any transactions may come
  between them in a run: \<open>cancel_read\<close> and \<open>cancel_write\<close> of the queue, \<open>confirm_read\<close> and
  \<open>confirm_write\<close> of a publication plan. What other code writes to the same tables is a step with no more
  than the bounds that code keeps (\<open>other_writer\<close> in \<^verbatim>\<open>PublicationTheorems\<close>, \<open>elsewhere\<close> in
  \<^verbatim>\<open>VisibilityTheorems\<close>, \<open>refresh_payload\<close> in \<^verbatim>\<open>QueueTheorems\<close>). JSON values are the datatype \<^typ>\<open>json\<close>, times are microseconds,
  Python's unbounded integers are \<^typ>\<open>int\<close> and text is Latin-1. Random values, minted ids, clocks, hashes,
  signatures, pydantic models, full-text search, HTTP and object storage are arguments.

  \<^bold>\<open>The theories.\<close>
  \<^item> \<^verbatim>\<open>Prelude\<close>: JSON, exceptions, SQL fragments, Python text, and the locale of key-preserving updates.
  \<^item> \<^verbatim>\<open>JobQueue\<close> (\<open>queue/states.py\<close>, \<open>models.py\<close>, \<open>engine.py\<close>), \<^verbatim>\<open>JobQueueProps\<close> (row invariant, uniqueness,
    order of claims), \<^verbatim>\<open>QueueTheorems\<close> (runs as a step relation), \<^verbatim>\<open>QueueContract\<close> (the settlement contract as a
    locale, interpreted on \<open>mark_succeeded\<close> and \<open>fail\<close>), \<^verbatim>\<open>QueueProperties\<close>.
  \<^item> \<^verbatim>\<open>Worker\<close> (\<open>runner.py\<close> and \<open>validate_tenant_job\<close>): one claimed job from the authority check to its verdict
    and audit event, with other transactions in between; \<^verbatim>\<open>WorkerTheorems\<close>.
  \<^item> \<^verbatim>\<open>CorporateAuth\<close> (\<open>corporate_authorization.py\<close>), \<^verbatim>\<open>CorporateAuthProps\<close>, \<^verbatim>\<open>CorporateAuthTheorems\<close>: the permission
    evaluators, their agreement, explanation and tenant isolation.
  \<^item> \<^verbatim>\<open>RateLimit\<close>, \<^verbatim>\<open>RateLimitProps\<close> (\<open>rate_limit.py\<close>): the sliding-window limiter and the two-window gate.
  \<^item> \<^verbatim>\<open>SafetyPolicy\<close>, \<^verbatim>\<open>SafetyReport\<close>, \<^verbatim>\<open>SafetyTheorems\<close> (\<open>safety/policy.py\<close>, \<open>planner.py\<close>, \<open>types.py\<close>, \<open>normalize.py\<close>,
    \<open>percent.py\<close>): the check registry, the plan of a scan, findings and the catalog summary.
  \<^item> \<^verbatim>\<open>Versioning\<close>, \<^verbatim>\<open>Assignments\<close> (\<open>versioning.py\<close>, \<open>assignment_resolution.py\<close>): versions and assignments.
  \<^item> \<^verbatim>\<open>DeviceFlow\<close>, \<^verbatim>\<open>DeviceTheorems\<close> (\<open>slices/auth/device_flow.py\<close>, \<open>session.py\<close>, \<open>auth_retention.py\<close>).
  \<^item> \<^verbatim>\<open>CatalogQL\<close>, \<^verbatim>\<open>CatalogQLTheorems\<close>, \<^verbatim>\<open>CatalogQLRoundTrip\<close> (\<open>catalog_query_language.py\<close>) and \<^verbatim>\<open>CatalogSearch\<close>,
    \<^verbatim>\<open>CatalogSearchTheorems\<close> (\<open>catalog_search.py\<close>): the query language, its SQL compilation and paging.
  \<^item> \<^verbatim>\<open>Identity\<close>, \<^verbatim>\<open>IdentityTheorems\<close> (\<open>foundation/identity.py\<close>, \<open>platform/identity.py\<close>): names and lines.
  \<^item> \<^verbatim>\<open>PublicationChecks\<close>, \<^verbatim>\<open>Publication\<close> (\<open>publication_logic.py\<close>, \<open>seo/enqueue.py\<close>, the worker's handlers) and
    \<^verbatim>\<open>PublicationApi\<close> (\<open>slices/publish/service.py\<close>): the publication workflow. \<^verbatim>\<open>PublicationProps\<close> proves of every
    transaction that it keeps one contract, \<^verbatim>\<open>PublicationTheorems\<close> states it as a locale, interprets it
    nine times, adds the writes of other code (\<open>pub_step\<close>) and follows runs, \<^verbatim>\<open>PublicationOutcomes\<close> says what each answer of the executor means.
  \<^item> \<^verbatim>\<open>Canonical\<close> (\<open>packages/foundation\<close>: \<open>ids.py\<close>, \<open>canonical.py\<close>, \<open>digests.py\<close>, \<open>revisions.py\<close>,
    \<open>timestamps.py\<close>) and \<^verbatim>\<open>AuditTrail\<close> (\<open>ai_stp_api/audit.py\<close>): ids, canonical JSON, digests, times, and redacted
    audit rows.
  \<^item> \<^verbatim>\<open>SyncPolicy\<close>, \<^verbatim>\<open>SyncPolicyTheorems\<close> (\<open>sync_payload.py\<close>, \<open>sync_versions.py\<close>, \<open>slices/sync/validation.py\<close>): what an
    event may carry, and the reading of the policy as a property of every node of a payload; \<^verbatim>\<open>SyncCursor\<close>
    (\<open>slices/sync/cursor.py\<close>).
  \<^item> \<^verbatim>\<open>Sync\<close> (\<open>slices/sync/service.py\<close>): \<open>apply_one\<close> is one event's transaction, \<open>push_events\<close> a sequence of them,
    \<open>pull_events\<close> a page. \<^verbatim>\<open>SyncProps\<close> proves the walk over kept ancestors, \<^verbatim>\<open>SyncInvariant\<close> states the invariant
    of an account and the outcomes an event can have (\<open>event_outcome\<close>), \<^verbatim>\<open>SyncTheorems\<close> follows runs
    (\<open>sync_reachable\<close>), \<^verbatim>\<open>SyncStream\<close> states a numbered stream as a locale, interprets it on the outbox and reads it
    to the end, \<^verbatim>\<open>SyncOutcomes\<close> holds the properties and a run they are checked on.
  \<^item> \<^verbatim>\<open>Visibility\<close> (\<open>slices/visibility/service.py\<close>): plans that open or close a version, with the walk over the pins
    of a setup; \<^verbatim>\<open>VisibilityTheorems\<close> characterises the walk and follows plans over runs (\<open>visibility_step\<close>).
  \<^item> \<^verbatim>\<open>Grants\<close> (\<open>slices/grants/service.py\<close>, \<open>operations.py\<close>): direct grants, invitations, acceptance, withdrawal and
    listing. \<^verbatim>\<open>GrantTheorems\<close> says what each request may do to the table of grants and under which authority
    (\<open>access_step\<close>), \<^verbatim>\<open>GrantOutcomes\<close> follows runs (\<open>grants_run\<close>) and holds the properties.

  \<^bold>\<open>What is shown.\<close> The queue: every reachable table satisfies the lease and accounting invariant, also when a cancel is
  written late over whatever its row has become, the first verdict of a worker is final, claims are exclusive, expired leases are reclaimed. The worker: one job gets one
  verdict, and no handler runs without authority. Authorization: the bulk evaluator is the single one, a decision
  depends on one tenant's rows only, every permission has a live source. The limiter stays within its
  budget in every window. Plans of checks are complete and ordered, published findings bounded. A device
  grant is redeemed once, by its approver's account. Parsing a query always ends, printed queries parse
  back, the SQL predicate agrees with the in-memory one, cursors walk the listing. Handles, names and lines stay
  unique, and a line is never taken over. The content of a publication plan is frozen and its
  confirmation names its hash, a published version is immutable but for the fields other code curates
  (owner, visibility, lifecycle, badges, lane), nothing is published without its proofs, and a refusal leaves the catalog alone. The stream of an
  account has no gaps, comes in causal order and replays to the server's heads; heads move by fast-forward,
  receipts are durable, a reader that resumes misses nothing, no payload in it breaks the policy, and an
  account has at most one live developer passport at every point. Visibility changes only by the confirmed
  plan of the owner on the device that made it, which writes besides it at most one badge of the line, and a setup opens only over public components. Access comes
  from an owner's grant or a proven invitation, ends only by a withdrawal that names its revision, and a
  retried grant changes nothing.

  \<^bold>\<open>Fuel and bounds.\<close> The mutually recursive parser of the query language carries a fuel of six times the number
  of tokens plus six; \<^verbatim>\<open>CatalogQLTheorems\<close> shows that it is never used up. Every other recursion is
  structural or has a measure: the walk over kept ancestors by the revisions it has not seen, the walk over pins
  by the coordinates of rows it has not seen. The search for a
  common ancestor has the code's own bound of 64 rounds. A reader needs at most one pull more than there
  are events. The limits of the code (query length, tokens, depth, list sizes, handle and
  name lengths, retry budgets, windows, 64 kept ancestors, pages of 100 events, cursors of 512
  characters) are definitions with the code's values; an encoded cursor stays below its limit for
  every position under \<open>10 ^ 20\<close>, and the column is a 64-bit integer.

  \<^bold>\<open>Hypotheses.\<close> \<open>ascii_stable\<close> (in \<^verbatim>\<open>IdentityTheorems\<close>): NFKC leaves ASCII text alone.
  \<open>codec_ok\<close> (in \<^verbatim>\<open>SyncStream\<close>): an HMAC-SHA256 has 32 bytes, and \<open>json.loads\<close> reads back what \<open>json.dumps\<close> printed.
  The executors of one publication plan are taken to run one after the other, as the lease of its job has it;
  the properties of runs do not rest on it, since a late verdict over a plan is among the steps of \<open>other_writer\<close>.
  The settle of a job locks and reads its row at one instant: a session that has loaded the row just before sees the
  earlier values, and what commits between the two reads is not modelled.

  \<^bold>\<open>Not modelled.\<close> The Rust CLI, the desktop and web clients; generated contracts and seed data; I/O (HTTP,
  mail, S3, scanners, migrations, logging, configuration); and, for want of time, the ownership transfer
  (of which the writes to the catalog are steps of \<open>other_writer\<close>), corporate, technology, context, owner and telemetry services, which work over the same
  tables in the same style. Who resolves a corporate ownership, which the grants ask the corporate service, is a
  column of their state. Within modelled components: metric counters, the asyncio loop of the
  worker, the middleware around the limiter, \<open>redact_message\<close>, the writing of the search projection, the
  persistence of scan runs and projection assessments, the setup-family effect of a publication, the hash function of a plan (an argument), and the field
  patterns of the sync request model, which pydantic checks before the service sees an event.
\<close>

end
